(* ===== verification/FL_Prelude.thy ===== *)
theory FL_Prelude
  imports Complex_Main "HOL-Library.AList"
begin

text \<open>
  The prelude of the development: the values the program exchanges and the way it fails.

  The Python code under \<^verbatim>\<open>src/wfb_ng/fl\<close> passes JSON-like values around: datagrams, job requests,
  manifests and state files are the results of \<^verbatim>\<open>json.loads\<close>. They are the datatype \<open>pyval\<close>
  below, with Python's own notion of equality (\<open>py_eq\<close>: booleans are numbers, an integer equals a
  float of the same value, dictionaries compare without regard to order). A Python dictionary is an
  association list in insertion order; \<open>AList.update\<close> is \<^verbatim>\<open>d[k] = v\<close> and \<open>AList.delete\<close> is
  \<^verbatim>\<open>d.pop(k)\<close>. Exceptions are values of \<open>exn\<close>, and a function that may raise returns
  \<open>exn + 'a\<close>. The text of an error message is not modelled beyond a short tag.

  Times are rational numbers of seconds: \<^verbatim>\<open>time.monotonic()\<close> and the configured timeouts are only
  added and compared by the code.
\<close>

section \<open>Collections of facts\<close>

named_theorems wf_intros \<open>introduction rules for the well-formedness predicates of the data\<close>
named_theorems frame_simps \<open>fields an operation does not write\<close>

section \<open>Values\<close>

datatype pyfloat = Fin rat | PosInf | NegInf | NaN

datatype pyval =
    PNone
  | PBool bool
  | PInt int
  | PFloat pyfloat
  | PStr string
  | PList "pyval list"
  | PDict "(string \<times> pyval) list"

type_synonym pydict = "(string \<times> pyval) list"

datatype exn =
    FLRuntimeError (error_code: string) (error_message: string)
      (err_round: "string option") (err_node: "int option")
  | ValueError string
  | TypeError string
  | KeyError string
  | TimeoutError string
  | OSError string
  | RuntimeError string
  | OverflowError
  | OtherException string

type_synonym 'a res = "exn + 'a"

text \<open>An error raised with only a code and a message, as most of the code does.\<close>

abbreviation fl_error :: "string \<Rightarrow> string \<Rightarrow> exn" where
  "fl_error c m \<equiv> FLRuntimeError c m None None"

text \<open>\<^verbatim>\<open>str(exc)\<close>, up to the tags that stand for the messages.\<close>

fun exn_str :: "exn \<Rightarrow> string" where
  "exn_str (FLRuntimeError c m r n) = m"
| "exn_str (ValueError m) = m"
| "exn_str (TypeError m) = m"
| "exn_str (KeyError m) = m"
| "exn_str (TimeoutError m) = m"
| "exn_str (OSError m) = m"
| "exn_str (RuntimeError m) = m"
| "exn_str OverflowError = ''overflow''"
| "exn_str (OtherException m) = m"

fun is_ok :: "'a res \<Rightarrow> bool" where
  "is_ok (Inl e) = False"
| "is_ok (Inr x) = True"

text \<open>Sequencing of operations that may raise.\<close>

definition bind_res :: "'a res \<Rightarrow> ('a \<Rightarrow> 'b res) \<Rightarrow> 'b res" where
  "bind_res r f = (case r of Inl e \<Rightarrow> Inl e | Inr x \<Rightarrow> f x)"

lemma bind_res_simps [simp]:
  "bind_res (Inl e) f = Inl e"
  "bind_res (Inr x) f = f x"
  by (simp_all add: bind_res_def)

lemma bind_res_eq_Inr [simp]:
  "bind_res r f = Inr y \<longleftrightarrow> (\<exists>x. r = Inr x \<and> f x = Inr y)"
  by (cases r) simp_all

lemma bind_res_eq_Inl:
  "bind_res r f = Inl e \<longleftrightarrow> r = Inl e \<or> (\<exists>x. r = Inr x \<and> f x = Inl e)"
  by (cases r) simp_all

lemma if_res_eq_Inr [simp]:
  "((if c then r else Inl e) = Inr x) \<longleftrightarrow> c \<and> r = Inr x"
  "((if c then Inl e else r) = Inr x) \<longleftrightarrow> \<not> c \<and> r = Inr x"
  by auto

text \<open>\<^verbatim>\<open>type(v) is int\<close>, equally \<^verbatim>\<open>isinstance(v, int) and not isinstance(v, bool)\<close>.\<close>

fun as_int :: "pyval \<Rightarrow> int option" where
  "as_int (PInt i) = Some i"
| "as_int _ = None"

fun as_str :: "pyval \<Rightarrow> string option" where
  "as_str (PStr s) = Some s"
| "as_str _ = None"

fun as_bool :: "pyval \<Rightarrow> bool option" where
  "as_bool (PBool b) = Some b"
| "as_bool _ = None"

fun as_dict :: "pyval \<Rightarrow> pydict option" where
  "as_dict (PDict d) = Some d"
| "as_dict _ = None"

fun as_list :: "pyval \<Rightarrow> pyval list option" where
  "as_list (PList xs) = Some xs"
| "as_list _ = None"

lemma as_int_Some [simp]: "as_int v = Some i \<longleftrightarrow> v = PInt i"
  by (cases v) auto

lemma as_str_Some [simp]: "as_str v = Some s \<longleftrightarrow> v = PStr s"
  by (cases v) auto

lemma as_bool_Some [simp]: "as_bool v = Some b \<longleftrightarrow> v = PBool b"
  by (cases v) auto

lemma as_dict_Some [simp]: "as_dict v = Some d \<longleftrightarrow> v = PDict d"
  by (cases v) auto

lemma as_list_Some [simp]: "as_list v = Some xs \<longleftrightarrow> v = PList xs"
  by (cases v) auto

text \<open>\<^verbatim>\<open>bool(v)\<close>.\<close>

fun truthy :: "pyval \<Rightarrow> bool" where
  "truthy PNone = False"
| "truthy (PBool b) = b"
| "truthy (PInt i) = (i \<noteq> 0)"
| "truthy (PFloat f) = (f \<noteq> Fin 0)"
| "truthy (PStr s) = (s \<noteq> [])"
| "truthy (PList xs) = (xs \<noteq> [])"
| "truthy (PDict d) = (d \<noteq> [])"

section \<open>Dictionaries\<close>

text \<open>\<^verbatim>\<open>d.get(k)\<close> (absent keys give \<open>PNone\<close>) and \<^verbatim>\<open>d.get(k, default)\<close>.\<close>

definition dget :: "pydict \<Rightarrow> string \<Rightarrow> pyval" where
  "dget d k = (case map_of d k of None \<Rightarrow> PNone | Some v \<Rightarrow> v)"

definition dget_default :: "pydict \<Rightarrow> string \<Rightarrow> pyval \<Rightarrow> pyval" where
  "dget_default d k x = (case map_of d k of None \<Rightarrow> x | Some v \<Rightarrow> v)"

definition has_key :: "('k \<times> 'v) list \<Rightarrow> 'k \<Rightarrow> bool" where
  "has_key d k = (map_of d k \<noteq> None)"

text \<open>\<^verbatim>\<open>d.update(e)\<close>: the entries of \<open>e\<close> stored one after the other.\<close>

fun dict_update :: "('k \<times> 'v) list \<Rightarrow> ('k \<times> 'v) list \<Rightarrow> ('k \<times> 'v) list" where
  "dict_update d [] = d"
| "dict_update d ((k, v) # e) = dict_update (AList.update k v d) e"

text \<open>A dictionary has each key once.\<close>

definition dict_wf :: "('k \<times> 'v) list \<Rightarrow> bool" where
  "dict_wf d = distinct (map fst d)"

lemma map_of_update [simp]:
  "map_of (AList.update k v d) k' = (if k = k' then Some v else map_of d k')"
  by (simp add: update_conv')

lemma map_of_delete [simp]:
  "map_of (AList.delete k d) k' = (if k = k' then None else map_of d k')"
  by (simp add: delete_conv')

lemma dict_wf_update [simp, wf_intros]: "dict_wf d \<Longrightarrow> dict_wf (AList.update k v d)"
  by (simp add: dict_wf_def distinct_update)

lemma dict_wf_delete [simp, wf_intros]: "dict_wf d \<Longrightarrow> dict_wf (AList.delete k d)"
  by (simp add: dict_wf_def distinct_delete)

lemma map_of_dict_update:
  assumes "dict_wf e"
  shows "map_of (dict_update d e) k = (case map_of e k of None \<Rightarrow> map_of d k | Some v \<Rightarrow> Some v)"
  using assms
proof (induction e arbitrary: d)
  case Nil
  then show ?case by simp
next
  case (Cons p e)
  obtain a v where p: "p = (a, v)" by (cases p)
  from Cons.prems p have e: "dict_wf e" and a: "map_of e a = None"
    by (simp_all add: dict_wf_def map_of_eq_None_iff)
  show ?case
    using Cons.IH [OF e, of "AList.update a v d"] a
    by (auto simp: p split: option.split)
qed

lemma map_of_dict_wf: "dict_wf d \<Longrightarrow> (k, v) \<in> set d \<Longrightarrow> map_of d k = Some v"
  by (simp add: dict_wf_def)

lemma keys_eq_dom: "k \<in> fst ` set d \<longleftrightarrow> map_of d k \<noteq> None"
  by (simp add: map_of_eq_None_iff)

lemma fst_set_update: "fst ` set (AList.update k v d) = insert k (fst ` set d)"
  by (auto simp: dom_map_of_conv_image_fst [symmetric] update_conv' dom_def split: if_splits)

section \<open>Equality of values\<close>

text \<open>The number a value stands for, if it is one: \<^verbatim>\<open>True\<close> is \<open>1\<close>.\<close>

fun num_of :: "pyval \<Rightarrow> pyfloat option" where
  "num_of (PBool b) = Some (Fin (if b then 1 else 0))"
| "num_of (PInt i) = Some (Fin (of_int i))"
| "num_of (PFloat f) = Some f"
| "num_of _ = None"

fun float_eq :: "pyfloat \<Rightarrow> pyfloat \<Rightarrow> bool" where
  "float_eq (Fin a) (Fin b) = (a = b)"
| "float_eq PosInf PosInf = True"
| "float_eq NegInf NegInf = True"
| "float_eq _ _ = False"

text \<open>\<^verbatim>\<open>a <= b\<close> on numbers; a comparison with NaN is false.\<close>

fun float_le :: "pyfloat \<Rightarrow> pyfloat \<Rightarrow> bool" where
  "float_le (Fin a) (Fin b) = (a \<le> b)"
| "float_le NaN _ = False"
| "float_le _ NaN = False"
| "float_le NegInf _ = True"
| "float_le _ PosInf = True"
| "float_le _ _ = False"

function (sequential) py_eq :: "pyval \<Rightarrow> pyval \<Rightarrow> bool" where
  "py_eq PNone w = (w = PNone)"
| "py_eq (PStr s) w = (w = PStr s)"
| "py_eq (PList xs) w = (case w of
     PList ys \<Rightarrow> length xs = length ys \<and> (\<forall>p \<in> set (zip xs ys). py_eq (fst p) (snd p))
   | _ \<Rightarrow> False)"
| "py_eq (PDict d) w = (case w of
     PDict e \<Rightarrow> length d = length e \<and>
       (\<forall>p \<in> set d. case map_of e (fst p) of None \<Rightarrow> False | Some u \<Rightarrow> py_eq (snd p) u)
   | _ \<Rightarrow> False)"
| "py_eq v w = (case (num_of v, num_of w) of
     (Some a, Some b) \<Rightarrow> float_eq a b
   | _ \<Rightarrow> False)"
  by pat_completeness auto

lemma size_snd_in_set: "p \<in> set d \<Longrightarrow> size (snd p) < Suc (size_list (size_prod (\<lambda>_. 0) size) d)"
  by (induction d) (auto simp: less_Suc_eq_le trans_le_add2 split: prod.splits)

termination py_eq
proof (relation "measure (\<lambda>(v, _). size v)", goal_cases)
  case 1
  show ?case by simp
next
  case (2 xs w ys p)
  then have "fst p \<in> set xs" by (cases p) (auto dest: set_zip_leftD)
  then have "size (fst p) \<le> size_list size xs" by (rule size_list_estimation') simp
  then show ?case by (simp add: case_prod_beta)
next
  case (3 d w e p u)
  then have "size (snd p) < Suc (size_list (size_prod (\<lambda>_. 0) size) d)"
    by (blast intro: size_snd_in_set)
  then show ?case by (simp add: case_prod_beta)
qed

text \<open>\<^verbatim>\<open>x in xs\<close> for a list of values.\<close>

definition py_in :: "pyval \<Rightarrow> pyval list \<Rightarrow> bool" where
  "py_in x xs = (\<exists>y \<in> set xs. py_eq y x)"

text \<open>\<^verbatim>\<open>len(set(xs)) == len(xs)\<close> for hashable values: no two are equal.\<close>

fun py_distinct :: "pyval list \<Rightarrow> bool" where
  "py_distinct [] = True"
| "py_distinct (x # xs) = (\<not> py_in x xs \<and> py_distinct xs)"

fun hashable :: "pyval \<Rightarrow> bool" where
  "hashable (PList _) = False"
| "hashable (PDict _) = False"
| "hashable _ = True"

lemma map_PInt_inj [simp]: "map PInt xs = map PInt ys \<longleftrightarrow> xs = ys"
  by (rule inj_map_eq_map) (simp add: inj_def)

lemma py_eq_int [simp]: "py_eq (PInt i) (PInt j) \<longleftrightarrow> i = j"
  by simp

lemma py_in_ints [simp]: "py_in (PInt i) (map PInt js) \<longleftrightarrow> i \<in> set js"
  by (auto simp: py_in_def)

lemma py_distinct_ints [simp]: "py_distinct (map PInt js) \<longleftrightarrow> distinct js"
  by (induction js) simp_all

lemma hashable_ints [simp]: "list_all hashable (map PInt js)"
  by (simp add: list_all_iff)

section \<open>Numbers as text\<close>

text \<open>\<^verbatim>\<open>str(n)\<close> of a natural number.\<close>

fun decimal :: "nat \<Rightarrow> string" where
  "decimal n = (if n < 10 then [''0123456789'' ! n] else decimal (n div 10) @ [''0123456789'' ! (n mod 10)])"

declare decimal.simps [simp del]

section \<open>A codec between records and values\<close>

text \<open>
  The contract of every pair \<^verbatim>\<open>to_dict\<close> / \<^verbatim>\<open>from_dict\<close> of the program: what is decoded is
  well-formed, and decoding an encoded well-formed record gives it back.
\<close>

locale wire_codec =
  fixes enc :: "'a \<Rightarrow> pyval"
    and dec :: "pyval \<Rightarrow> 'a res"
    and wf :: "'a \<Rightarrow> bool"
  assumes dec_enc: "wf x \<Longrightarrow> dec (enc x) = Inr x"
    and dec_wf: "dec v = Inr x \<Longrightarrow> wf x"
begin

lemma enc_inj: "wf x \<Longrightarrow> wf y \<Longrightarrow> enc x = enc y \<Longrightarrow> x = y"
  by (metis dec_enc Inr_inject)

lemma reencode: "dec v = Inr x \<Longrightarrow> dec (enc x) = Inr x"
  by (rule dec_enc) (rule dec_wf)

lemma wf_iff_decodable: "wf x \<longleftrightarrow> dec (enc x) = Inr x"
  by (auto intro: dec_enc dec_wf)

end

end
