(* ===== verification/Radio_Params.thy ===== *)
theory Radio_Params
  imports FL_Prelude
begin

text \<open>
  The flat radio parameter model of \<^verbatim>\<open>wfb_ng/fl/radio.py\<close>: the constants, \<open>RateBounds\<close> and its
  table, \<open>RadioConfig\<close>, \<open>validate_radio_config\<close>, \<open>normalize_radio_patch\<close> and
  \<open>validate_radio_patch\<close>, and the command line's \<^verbatim>\<open>rates\<close> and \<^verbatim>\<open>validate\<close> subcommands up to
  what they print. A configuration or a patch is any \<open>pyval\<close>; the checks come in the source's
  order. The lemmas characterise each field check, show that a validated configuration is
  well-formed and that a well-formed one survives \<open>to_dict\<close> and validation, and say what a patch
  changes and what it leaves alone.
\<close>

section \<open>Constants\<close>

definition ALLOWED_5GHZ_CHANNELS :: "int list" where
  "ALLOWED_5GHZ_CHANNELS = [149, 153, 157, 165]"

definition FORBIDDEN_CHANNELS :: "int list" where
  "FORBIDDEN_CHANNELS = [161]"

definition DEFAULT_CHANNEL :: int where "DEFAULT_CHANNEL = 157"
definition TXPOWER_MIN_DBM :: int where "TXPOWER_MIN_DBM = 10"
definition TXPOWER_MAX_DBM :: int where "TXPOWER_MAX_DBM = 20"
definition DEFAULT_TXPOWER_DBM :: int where "DEFAULT_TXPOWER_DBM = 12"

definition ALLOWED_MCS_VALUES :: "int list" where
  "ALLOWED_MCS_VALUES = [3, 4, 5, 6]"

definition DEFAULT_DOWNLINK_MCS :: int where "DEFAULT_DOWNLINK_MCS = 3"
definition RECOMMENDED_UPLINK_MCS :: int where "RECOMMENDED_UPLINK_MCS = 6"
definition FIXED_FEC_K :: int where "FIXED_FEC_K = 8"
definition FIXED_FEC_N :: int where "FIXED_FEC_N = 14"
definition FIXED_BANDWIDTH :: string where "FIXED_BANDWIDTH = ''HT40+''"
definition FIXED_GUARD_INTERVAL :: string where "FIXED_GUARD_INTERVAL = ''short''"

definition ALLOWED_CONFIG_KEYS :: "string list" where
  "ALLOWED_CONFIG_KEYS =
     [''channel'', ''radio_txpower_dbm'', ''downlink_mcs'', ''uplink_mcs'', ''uftp_rate_kbps'',
      ''fec_k'', ''fec_n'', ''channel_width'', ''guard_interval'']"

definition ALLOWED_PATCH_KEYS :: "string list" where
  "ALLOWED_PATCH_KEYS =
     [''channel'', ''radio_txpower_dbm'', ''downlink_mcs'', ''uplink_mcs'', ''uftp_rate_kbps'']"

lemmas radio_consts =
  ALLOWED_5GHZ_CHANNELS_def FORBIDDEN_CHANNELS_def DEFAULT_CHANNEL_def TXPOWER_MIN_DBM_def
  TXPOWER_MAX_DBM_def DEFAULT_TXPOWER_DBM_def ALLOWED_MCS_VALUES_def DEFAULT_DOWNLINK_MCS_def
  RECOMMENDED_UPLINK_MCS_def

section \<open>Rate bounds\<close>

record rate_bounds =
  rb_downlink_mcs :: int
  rb_min_rate_kbps :: int
  rb_max_rate_kbps :: int
  rb_default_rate_kbps :: int

definition kbps_to_mbps :: "int \<Rightarrow> rat" where
  "kbps_to_mbps r = of_int r / 1000"

definition rate_bounds_as_dict :: "rate_bounds \<Rightarrow> pydict" where
  "rate_bounds_as_dict b =
     [(''downlink_mcs'', PInt (rb_downlink_mcs b)),
      (''min_rate_kbps'', PInt (rb_min_rate_kbps b)),
      (''max_rate_kbps'', PInt (rb_max_rate_kbps b)),
      (''default_rate_kbps'', PInt (rb_default_rate_kbps b)),
      (''min_rate_mbps'', PFloat (Fin (kbps_to_mbps (rb_min_rate_kbps b)))),
      (''max_rate_mbps'', PFloat (Fin (kbps_to_mbps (rb_max_rate_kbps b)))),
      (''default_rate_mbps'', PFloat (Fin (kbps_to_mbps (rb_default_rate_kbps b))))]"

definition DOWNLINK_RATE_BOUNDS :: "(int \<times> rate_bounds) list" where
  "DOWNLINK_RATE_BOUNDS =
     [(3, \<lparr>rb_downlink_mcs = 3, rb_min_rate_kbps = 12000, rb_max_rate_kbps = 18000,
           rb_default_rate_kbps = 15000\<rparr>),
      (4, \<lparr>rb_downlink_mcs = 4, rb_min_rate_kbps = 18000, rb_max_rate_kbps = 26000,
           rb_default_rate_kbps = 22000\<rparr>),
      (5, \<lparr>rb_downlink_mcs = 5, rb_min_rate_kbps = 24000, rb_max_rate_kbps = 35000,
           rb_default_rate_kbps = 28000\<rparr>),
      (6, \<lparr>rb_downlink_mcs = 6, rb_min_rate_kbps = 32000, rb_max_rate_kbps = 45000,
           rb_default_rate_kbps = 38000\<rparr>)]"

definition get_downlink_rate_bounds :: "int \<Rightarrow> rate_bounds res" where
  "get_downlink_rate_bounds m = (case map_of DOWNLINK_RATE_BOUNDS m of
     None \<Rightarrow> Inl (ValueError ''Invalid downlink_mcs'')
   | Some b \<Rightarrow> Inr b)"

lemma get_downlink_rate_bounds_ok:
  "(\<exists>b. get_downlink_rate_bounds m = Inr b) \<longleftrightarrow> m \<in> set ALLOWED_MCS_VALUES"
  by (auto simp: get_downlink_rate_bounds_def DOWNLINK_RATE_BOUNDS_def radio_consts
      split: if_splits option.splits)

lemma get_downlink_rate_bounds_range:
  "get_downlink_rate_bounds m = Inr b \<Longrightarrow>
   rb_downlink_mcs b = m \<and> 0 < rb_min_rate_kbps b \<and>
   rb_min_rate_kbps b \<le> rb_default_rate_kbps b \<and> rb_default_rate_kbps b \<le> rb_max_rate_kbps b"
  by (auto simp: get_downlink_rate_bounds_def DOWNLINK_RATE_BOUNDS_def split: if_splits)

section \<open>Configurations\<close>

record radio_config =
  rc_channel :: int
  rc_txpower :: int
  rc_downlink_mcs :: int
  rc_uplink_mcs :: int
  rc_uftp_rate :: int

text \<open>The dataclass defaults; \<^verbatim>\<open>RadioConfig(channel=..., radio_txpower_dbm=..., uplink_mcs=...)\<close>
  overrides three of them.\<close>

definition default_radio_config :: radio_config where
  "default_radio_config =
     \<lparr>rc_channel = DEFAULT_CHANNEL, rc_txpower = DEFAULT_TXPOWER_DBM,
      rc_downlink_mcs = DEFAULT_DOWNLINK_MCS, rc_uplink_mcs = RECOMMENDED_UPLINK_MCS,
      rc_uftp_rate = 15000\<rparr>"

definition rc_to_dict :: "radio_config \<Rightarrow> pydict" where
  "rc_to_dict c =
     [(''channel'', PInt (rc_channel c)), (''radio_txpower_dbm'', PInt (rc_txpower c)),
      (''downlink_mcs'', PInt (rc_downlink_mcs c)), (''uplink_mcs'', PInt (rc_uplink_mcs c)),
      (''uftp_rate_kbps'', PInt (rc_uftp_rate c)), (''fec_k'', PInt FIXED_FEC_K),
      (''fec_n'', PInt FIXED_FEC_N), (''channel_width'', PStr FIXED_BANDWIDTH),
      (''guard_interval'', PStr FIXED_GUARD_INTERVAL)]"

definition rc_wf :: "radio_config \<Rightarrow> bool" where
  "rc_wf c \<longleftrightarrow>
     rc_channel c \<in> set ALLOWED_5GHZ_CHANNELS \<and>
     TXPOWER_MIN_DBM \<le> rc_txpower c \<and> rc_txpower c \<le> TXPOWER_MAX_DBM \<and>
     rc_downlink_mcs c \<in> set ALLOWED_MCS_VALUES \<and> rc_uplink_mcs c \<in> set ALLOWED_MCS_VALUES \<and>
     0 < rc_uftp_rate c"

section \<open>Validation\<close>

definition int_field :: "string \<Rightarrow> pyval \<Rightarrow> int res" where
  "int_field name v = (case as_int v of
     None \<Rightarrow> Inl (ValueError (name @ '' must be an integer''))
   | Some i \<Rightarrow> Inr i)"

definition valid_channel :: "pyval \<Rightarrow> int res" where
  "valid_channel v = bind_res (int_field ''channel'' v) (\<lambda>c.
     if c \<in> set FORBIDDEN_CHANNELS then Inl (ValueError ''channel strictly forbidden'')
     else if c \<notin> set ALLOWED_5GHZ_CHANNELS then Inl (ValueError ''Invalid channel'')
     else Inr c)"

definition valid_txpower :: "pyval \<Rightarrow> int res" where
  "valid_txpower v = bind_res (int_field ''radio_txpower_dbm'' v) (\<lambda>p.
     if TXPOWER_MIN_DBM \<le> p \<and> p \<le> TXPOWER_MAX_DBM then Inr p
     else Inl (ValueError ''radio_txpower_dbm out of valid range''))"

definition valid_mcs :: "string \<Rightarrow> pyval \<Rightarrow> int res" where
  "valid_mcs name v = bind_res (int_field name v) (\<lambda>m.
     if m \<notin> set ALLOWED_MCS_VALUES then Inl (ValueError (name @ '' invalid'')) else Inr m)"

definition valid_rate :: "rate_bounds \<Rightarrow> pyval \<Rightarrow> int res" where
  "valid_rate b v =
     (if v = PNone then Inr (rb_default_rate_kbps b)
      else bind_res (int_field ''uftp_rate_kbps'' v) (\<lambda>r.
        if r \<le> 0 then Inl (ValueError ''uftp_rate_kbps must be positive'') else Inr r))"

definition validate_radio_config :: "pyval \<Rightarrow> radio_config res" where
  "validate_radio_config config = (case as_dict config of
     None \<Rightarrow> Inl (TypeError ''Config must be a dict'')
   | Some d \<Rightarrow>
       if \<exists>p \<in> set d. fst p \<notin> set ALLOWED_CONFIG_KEYS
       then Inl (ValueError ''Unknown configuration key'')
       else
         bind_res (valid_channel (dget_default d ''channel'' (PInt DEFAULT_CHANNEL))) (\<lambda>ch.
         bind_res (valid_txpower
           (dget_default d ''radio_txpower_dbm'' (PInt DEFAULT_TXPOWER_DBM))) (\<lambda>pw.
         bind_res (valid_mcs ''downlink_mcs''
           (dget_default d ''downlink_mcs'' (PInt DEFAULT_DOWNLINK_MCS))) (\<lambda>dm.
         bind_res (valid_mcs ''uplink_mcs''
           (dget_default d ''uplink_mcs'' (PInt RECOMMENDED_UPLINK_MCS))) (\<lambda>um.
         bind_res (get_downlink_rate_bounds dm) (\<lambda>b.
         bind_res (valid_rate b (dget d ''uftp_rate_kbps'')) (\<lambda>r.
         Inr \<lparr>rc_channel = ch, rc_txpower = pw, rc_downlink_mcs = dm, rc_uplink_mcs = um,
              rc_uftp_rate = r\<rparr>)))))))"

text \<open>\<^verbatim>\<open>normalize_radio_patch\<close>: one alias is popped and stored under its canonical key, unless the
  canonical key is there with another value.\<close>

definition rename_alias :: "string \<Rightarrow> string \<Rightarrow> pydict \<Rightarrow> pydict res" where
  "rename_alias alias key d = (case map_of d alias of
     None \<Rightarrow> Inr d
   | Some v \<Rightarrow>
       let d' = AList.delete alias d in
       case map_of d' key of
         Some w \<Rightarrow> if \<not> py_eq w v then Inl (ValueError ''Patch cannot specify conflicting keys'')
                   else Inr (AList.update key v d')
       | None \<Rightarrow> Inr (AList.update key v d'))"

definition normalize_radio_patch :: "pyval \<Rightarrow> pydict res" where
  "normalize_radio_patch patch = (case as_dict patch of
     None \<Rightarrow> Inl (TypeError ''Patch must be a dict'')
   | Some d \<Rightarrow>
       bind_res (rename_alias ''target_channel'' ''channel'' d) (\<lambda>d.
       rename_alias ''txpower_dbm'' ''radio_txpower_dbm'' d))"

definition validate_radio_patch :: "pyval \<Rightarrow> radio_config \<Rightarrow> radio_config res" where
  "validate_radio_patch patch base =
     bind_res (normalize_radio_patch patch) (\<lambda>norm.
       if \<exists>p \<in> set norm. fst p \<notin> set ALLOWED_PATCH_KEYS
       then Inl (ValueError ''Unknown patch key'')
       else validate_radio_config (PDict (dict_update (rc_to_dict base) norm)))"

section \<open>The command line\<close>

text \<open>
  \<^verbatim>\<open>_cmd_validate\<close>: each argument is an optional integer (argparse's \<^verbatim>\<open>type=int\<close>); the result is
  the exit code. The rate check looks the bounds up before the \<^verbatim>\<open>try\<close>, so an illegal downlink MCS
  given with a rate escapes as an exception.
\<close>

record validate_args =
  va_channel :: "int option"
  va_txpower :: "int option"
  va_downlink_mcs :: "int option"
  va_uplink_mcs :: "int option"
  va_uftp_rate :: "int option"

definition put_arg :: "string \<Rightarrow> int option \<Rightarrow> pydict \<Rightarrow> pydict" where
  "put_arg k a d = (case a of None \<Rightarrow> d | Some i \<Rightarrow> AList.update k (PInt i) d)"

definition raw_cfg_of_args :: "validate_args \<Rightarrow> pydict" where
  "raw_cfg_of_args a =
     put_arg ''uplink_mcs'' (va_uplink_mcs a)
      (put_arg ''downlink_mcs'' (va_downlink_mcs a)
       (put_arg ''radio_txpower_dbm'' (va_txpower a)
        (put_arg ''channel'' (va_channel a) [])))"

definition validate_exit :: "pydict \<Rightarrow> int" where
  "validate_exit d = (case validate_radio_config (PDict d) of Inl _ \<Rightarrow> 1 | Inr _ \<Rightarrow> 0)"

definition cmd_validate :: "validate_args \<Rightarrow> int res" where
  "cmd_validate a = (case va_uftp_rate a of
     None \<Rightarrow> Inr (validate_exit (raw_cfg_of_args a))
   | Some r \<Rightarrow>
       bind_res (get_downlink_rate_bounds
         (case va_downlink_mcs a of None \<Rightarrow> DEFAULT_DOWNLINK_MCS | Some m \<Rightarrow> m)) (\<lambda>b.
         if \<not> (rb_min_rate_kbps b \<le> r \<and> r \<le> rb_max_rate_kbps b) then Inr 1
         else Inr (validate_exit (AList.update ''uftp_rate_kbps'' (PInt r) (raw_cfg_of_args a)))))"

definition cmd_rates :: "int option \<Rightarrow> int" where
  "cmd_rates m = (case m of
     Some d \<Rightarrow> (case get_downlink_rate_bounds d of Inl _ \<Rightarrow> 1 | Inr _ \<Rightarrow> 0)
   | None \<Rightarrow> if list_all (\<lambda>d. is_ok (get_downlink_rate_bounds d)) ALLOWED_MCS_VALUES then 0 else 1)"

section \<open>What the field checks accept\<close>

lemma int_field_Inr [simp]: "int_field n v = Inr i \<longleftrightarrow> v = PInt i"
  by (cases v) (auto simp: int_field_def)

lemma valid_channel_Inr [simp]:
  "valid_channel v = Inr c \<longleftrightarrow> v = PInt c \<and> c \<in> set ALLOWED_5GHZ_CHANNELS"
  by (auto simp: valid_channel_def radio_consts)

lemma valid_txpower_Inr [simp]:
  "valid_txpower v = Inr p \<longleftrightarrow> v = PInt p \<and> TXPOWER_MIN_DBM \<le> p \<and> p \<le> TXPOWER_MAX_DBM"
  by (auto simp: valid_txpower_def)

lemma valid_mcs_Inr [simp]:
  "valid_mcs n v = Inr m \<longleftrightarrow> v = PInt m \<and> m \<in> set ALLOWED_MCS_VALUES"
  by (auto simp: valid_mcs_def)

lemma valid_rate_Inr [simp]:
  "valid_rate b v = Inr r \<longleftrightarrow>
     (v = PNone \<and> r = rb_default_rate_kbps b) \<or> (v = PInt r \<and> 0 < r)"
  by (cases v) (auto simp: valid_rate_def int_field_def)

text \<open>The whole validation, as what it requires of the dictionary and what it returns.\<close>

lemma validate_radio_config_Inr:
  "validate_radio_config v = Inr c \<longleftrightarrow>
   (\<exists>d b. v = PDict d \<and> (\<forall>p \<in> set d. fst p \<in> set ALLOWED_CONFIG_KEYS) \<and>
      dget_default d ''channel'' (PInt DEFAULT_CHANNEL) = PInt (rc_channel c) \<and>
      dget_default d ''radio_txpower_dbm'' (PInt DEFAULT_TXPOWER_DBM) = PInt (rc_txpower c) \<and>
      dget_default d ''downlink_mcs'' (PInt DEFAULT_DOWNLINK_MCS) = PInt (rc_downlink_mcs c) \<and>
      dget_default d ''uplink_mcs'' (PInt RECOMMENDED_UPLINK_MCS) = PInt (rc_uplink_mcs c) \<and>
      get_downlink_rate_bounds (rc_downlink_mcs c) = Inr b \<and>
      (dget d ''uftp_rate_kbps'' = PNone \<and> rc_uftp_rate c = rb_default_rate_kbps b \<or>
       dget d ''uftp_rate_kbps'' = PInt (rc_uftp_rate c) \<and> 0 < rc_uftp_rate c) \<and>
      rc_channel c \<in> set ALLOWED_5GHZ_CHANNELS \<and>
      TXPOWER_MIN_DBM \<le> rc_txpower c \<and> rc_txpower c \<le> TXPOWER_MAX_DBM \<and>
      rc_downlink_mcs c \<in> set ALLOWED_MCS_VALUES \<and> rc_uplink_mcs c \<in> set ALLOWED_MCS_VALUES)"
  (is "_ \<longleftrightarrow> ?R")
proof (cases v)
  case (PDict d)
  have "validate_radio_config (PDict d) = Inr c \<longleftrightarrow> ?R"
    unfolding validate_radio_config_def PDict
    by (cases c) (auto simp: Bex_def Ball_def)
  then show ?thesis by (simp add: PDict)
qed (simp_all add: validate_radio_config_def)

lemma validate_radio_config_wf: "validate_radio_config v = Inr c \<Longrightarrow> rc_wf c"
  unfolding validate_radio_config_Inr rc_wf_def
  by (auto dest: get_downlink_rate_bounds_range)

lemma rc_wf_roundtrip: "rc_wf c \<Longrightarrow> validate_radio_config (PDict (rc_to_dict c)) = Inr c"
  unfolding validate_radio_config_Inr rc_wf_def
  using get_downlink_rate_bounds_ok [of "rc_downlink_mcs c"]
  by (auto simp: rc_to_dict_def ALLOWED_CONFIG_KEYS_def dget_default_def dget_def)

interpretation rc_codec: wire_codec "\<lambda>c. PDict (rc_to_dict c)" validate_radio_config rc_wf
  by unfold_locales (auto intro: rc_wf_roundtrip validate_radio_config_wf)

lemma rc_wf_default [wf_intros]: "rc_wf default_radio_config"
  by (simp add: rc_wf_def default_radio_config_def radio_consts)

lemma rc_wf_not_forbidden: "rc_wf c \<Longrightarrow> rc_channel c \<notin> set FORBIDDEN_CHANNELS"
  by (auto simp: rc_wf_def radio_consts)

section \<open>Patches\<close>

lemma rename_alias_lookup:
  assumes "rename_alias a k d = Inr d'" and "a \<noteq> k"
  shows "map_of d' x =
    (if x = a then None
     else if x = k then (case map_of d a of None \<Rightarrow> map_of d k | Some v \<Rightarrow> Some v)
     else map_of d x)"
  using assms by (auto simp: rename_alias_def Let_def split: option.splits if_splits)

lemma rename_alias_wf: "rename_alias a k d = Inr d' \<Longrightarrow> dict_wf d \<Longrightarrow> dict_wf d'"
  by (auto simp: rename_alias_def Let_def split: option.splits if_splits)

lemma rename_alias_idle: "map_of d a = None \<Longrightarrow> rename_alias a k d = Inr d"
  by (simp add: rename_alias_def)

text \<open>The value a patch gives to a canonical key: its alias wins, if present.\<close>

definition patch_value :: "pydict \<Rightarrow> string \<Rightarrow> pyval option" where
  "patch_value d k =
     (if k = ''channel'' \<and> has_key d ''target_channel'' then map_of d ''target_channel''
      else if k = ''radio_txpower_dbm'' \<and> has_key d ''txpower_dbm'' then map_of d ''txpower_dbm''
      else if k = ''target_channel'' \<or> k = ''txpower_dbm'' then None
      else map_of d k)"

lemma normalize_radio_patch_lookup:
  assumes "normalize_radio_patch (PDict d) = Inr n"
  shows "map_of n k = patch_value d k"
proof -
  from assms obtain m where
    m: "rename_alias ''target_channel'' ''channel'' d = Inr m" and
    n: "rename_alias ''txpower_dbm'' ''radio_txpower_dbm'' m = Inr n"
    by (auto simp: normalize_radio_patch_def)
  show ?thesis
    by (auto simp: rename_alias_lookup [OF n] rename_alias_lookup [OF m] patch_value_def
        has_key_def split: option.splits)
qed

lemma normalize_radio_patch_wf:
  "normalize_radio_patch (PDict d) = Inr n \<Longrightarrow> dict_wf d \<Longrightarrow> dict_wf n"
  by (auto simp: normalize_radio_patch_def dest: rename_alias_wf)

lemma normalize_radio_patch_idle:
  "map_of n ''target_channel'' = None \<Longrightarrow> map_of n ''txpower_dbm'' = None \<Longrightarrow>
   normalize_radio_patch (PDict n) = Inr n"
  by (simp add: normalize_radio_patch_def rename_alias_idle)

lemma normalize_radio_patch_idem:
  assumes "normalize_radio_patch v = Inr n"
  shows "normalize_radio_patch (PDict n) = Inr n"
proof -
  from assms obtain d where "v = PDict d" by (cases v) (auto simp: normalize_radio_patch_def)
  with assms have "map_of n ''target_channel'' = None" and "map_of n ''txpower_dbm'' = None"
    by (simp_all add: normalize_radio_patch_lookup patch_value_def)
  then show ?thesis by (rule normalize_radio_patch_idle)
qed

lemma dget_default_update:
  "dict_wf e \<Longrightarrow> dget_default (dict_update d e) k x =
   (case map_of e k of None \<Rightarrow> dget_default d k x | Some v \<Rightarrow> v)"
  by (simp add: dget_default_def map_of_dict_update split: option.split)

lemma validate_radio_patch_wf: "validate_radio_patch p base = Inr c \<Longrightarrow> rc_wf c"
  by (auto simp: validate_radio_patch_def split: if_splits intro: validate_radio_config_wf)

text \<open>What a patch does to each parameter: an integer given by the patch, else the base's.\<close>

definition patched_int :: "pydict \<Rightarrow> string \<Rightarrow> int \<Rightarrow> pyval" where
  "patched_int d k i = (case patch_value d k of None \<Rightarrow> PInt i | Some v \<Rightarrow> v)"

lemma rc_to_dict_lookup:
  "dget_default (rc_to_dict c) ''channel'' x = PInt (rc_channel c)"
  "dget_default (rc_to_dict c) ''radio_txpower_dbm'' x = PInt (rc_txpower c)"
  "dget_default (rc_to_dict c) ''downlink_mcs'' x = PInt (rc_downlink_mcs c)"
  "dget_default (rc_to_dict c) ''uplink_mcs'' x = PInt (rc_uplink_mcs c)"
  "dget_default (rc_to_dict c) ''uftp_rate_kbps'' x = PInt (rc_uftp_rate c)"
  by (simp_all add: rc_to_dict_def dget_default_def)

lemma dget_eq_default: "dget d k = dget_default d k PNone"
  by (simp add: dget_def dget_default_def)

lemma validate_radio_config_fields:
  assumes "validate_radio_config (PDict d) = Inr c"
  shows "dget_default d ''channel'' (PInt DEFAULT_CHANNEL) = PInt (rc_channel c)"
    and "dget_default d ''radio_txpower_dbm'' (PInt DEFAULT_TXPOWER_DBM) = PInt (rc_txpower c)"
    and "dget_default d ''downlink_mcs'' (PInt DEFAULT_DOWNLINK_MCS) = PInt (rc_downlink_mcs c)"
    and "dget_default d ''uplink_mcs'' (PInt RECOMMENDED_UPLINK_MCS) = PInt (rc_uplink_mcs c)"
    and "dget_default d ''uftp_rate_kbps'' PNone \<in> {PNone, PInt (rc_uftp_rate c)}"
  using assms unfolding validate_radio_config_Inr dget_eq_default by blast+

lemma validate_radio_patch_fields:
  assumes "validate_radio_patch (PDict d) base = Inr c" and "dict_wf d"
  shows "patched_int d ''channel'' (rc_channel base) = PInt (rc_channel c)"
    and "patched_int d ''radio_txpower_dbm'' (rc_txpower base) = PInt (rc_txpower c)"
    and "patched_int d ''downlink_mcs'' (rc_downlink_mcs base) = PInt (rc_downlink_mcs c)"
    and "patched_int d ''uplink_mcs'' (rc_uplink_mcs base) = PInt (rc_uplink_mcs c)"
    and "patched_int d ''uftp_rate_kbps'' (rc_uftp_rate base) \<in> {PNone, PInt (rc_uftp_rate c)}"
proof -
  from assms(1) obtain n where n: "normalize_radio_patch (PDict d) = Inr n"
    and v: "validate_radio_config (PDict (dict_update (rc_to_dict base) n)) = Inr c"
    by (auto simp: validate_radio_patch_def split: if_splits)
  from n assms(2) have wf: "dict_wf n" by (rule normalize_radio_patch_wf)
  have upd: "dget_default (dict_update (rc_to_dict base) n) k x =
      (case patch_value d k of None \<Rightarrow> dget_default (rc_to_dict base) k x | Some v \<Rightarrow> v)" for k x
    by (simp add: dget_default_update [OF wf] normalize_radio_patch_lookup [OF n])
  show "patched_int d ''channel'' (rc_channel base) = PInt (rc_channel c)"
    "patched_int d ''radio_txpower_dbm'' (rc_txpower base) = PInt (rc_txpower c)"
    "patched_int d ''downlink_mcs'' (rc_downlink_mcs base) = PInt (rc_downlink_mcs c)"
    "patched_int d ''uplink_mcs'' (rc_uplink_mcs base) = PInt (rc_uplink_mcs c)"
    "patched_int d ''uftp_rate_kbps'' (rc_uftp_rate base) \<in> {PNone, PInt (rc_uftp_rate c)}"
    using validate_radio_config_fields [OF v]
    unfolding upd rc_to_dict_lookup patched_int_def by blast+
qed

lemma validate_radio_patch_unmentioned:
  assumes "validate_radio_patch (PDict d) base = Inr c" and "dict_wf d"
  shows "patch_value d ''channel'' = None \<Longrightarrow> rc_channel c = rc_channel base"
    and "patch_value d ''radio_txpower_dbm'' = None \<Longrightarrow> rc_txpower c = rc_txpower base"
    and "patch_value d ''downlink_mcs'' = None \<Longrightarrow> rc_downlink_mcs c = rc_downlink_mcs base"
    and "patch_value d ''uplink_mcs'' = None \<Longrightarrow> rc_uplink_mcs c = rc_uplink_mcs base"
    and "patch_value d ''uftp_rate_kbps'' = None \<Longrightarrow> rc_uftp_rate c = rc_uftp_rate base"
  using validate_radio_patch_fields [OF assms] by (auto simp: patched_int_def)

section \<open>Guarantees\<close>

text \<open>C28: What a radio patch does. An accepted patch yields a legal configuration, never on the forbidden
  channel, in which every parameter is the one the patch gives - under its own name or its alias - and
  otherwise the base's; and the result survives being serialized and validated again.\<close>

theorem patch_effect:
  assumes "validate_radio_patch (PDict d) base = Inr c" and "dict_wf d"
  shows "rc_wf c \<and> rc_channel c \<notin> set FORBIDDEN_CHANNELS \<and>
    patched_int d ''channel'' (rc_channel base) = PInt (rc_channel c) \<and>
    patched_int d ''radio_txpower_dbm'' (rc_txpower base) = PInt (rc_txpower c) \<and>
    patched_int d ''downlink_mcs'' (rc_downlink_mcs base) = PInt (rc_downlink_mcs c) \<and>
    patched_int d ''uplink_mcs'' (rc_uplink_mcs base) = PInt (rc_uplink_mcs c) \<and>
    patched_int d ''uftp_rate_kbps'' (rc_uftp_rate base) \<in> {PNone, PInt (rc_uftp_rate c)} \<and>
    validate_radio_config (PDict (rc_to_dict c)) = Inr c"
  using validate_radio_patch_fields [OF assms] validate_radio_patch_wf [OF assms(1)]
  by (simp add: rc_wf_not_forbidden rc_wf_roundtrip)

theorem patch_effect_witness:
  "rc_channel (default_radio_config\<lparr>rc_channel := 149\<rparr>) \<notin> set FORBIDDEN_CHANNELS \<and>
   validate_radio_patch (PDict [(''target_channel'', PInt 149)]) default_radio_config
     = Inr (default_radio_config\<lparr>rc_channel := 149\<rparr>)"
proof -
  have v: "validate_radio_patch (PDict [(''target_channel'', PInt 149)]) default_radio_config
     = Inr (default_radio_config\<lparr>rc_channel := 149\<rparr>)"
    by code_simp
  with patch_effect [OF v] show ?thesis by (simp add: dict_wf_def)
qed

text \<open>When the \<open>validate\<close> command crashes. The command exits with a code except in one case: a rate is
  given together with an illegal downlink MCS; the rate bounds are looked up before the configuration
  is validated, and that error escapes.\<close>

theorem validate_command_crash:
  "(\<exists>e. cmd_validate a = Inl e) \<longleftrightarrow>
     va_uftp_rate a \<noteq> None \<and>
     (case va_downlink_mcs a of None \<Rightarrow> False | Some m \<Rightarrow> m \<notin> set ALLOWED_MCS_VALUES)"
proof (cases "va_uftp_rate a")
  case None
  then show ?thesis by (simp add: cmd_validate_def)
next
  case (Some r)
  define m where "m = (case va_downlink_mcs a of None \<Rightarrow> DEFAULT_DOWNLINK_MCS | Some m \<Rightarrow> m)"
  have "DEFAULT_DOWNLINK_MCS \<in> set ALLOWED_MCS_VALUES" by (simp add: radio_consts)
  then have m: "(case va_downlink_mcs a of None \<Rightarrow> False | Some m \<Rightarrow> m \<notin> set ALLOWED_MCS_VALUES)
      \<longleftrightarrow> m \<notin> set ALLOWED_MCS_VALUES"
    by (simp add: m_def split: option.split)
  show ?thesis
  proof (cases "get_downlink_rate_bounds m")
    case (Inl e)
    with get_downlink_rate_bounds_ok [of m] Some m show ?thesis
      by (simp add: cmd_validate_def m_def [symmetric])
  next
    case (Inr b)
    with get_downlink_rate_bounds_ok [of m] have "m \<in> set ALLOWED_MCS_VALUES" by blast
    with Some m Inr show ?thesis by (auto simp: cmd_validate_def m_def [symmetric])
  qed
qed

end
