(* ===== verification/Control_Messages.thy ===== *)
theory Control_Messages
  imports Radio_Params
begin

text \<open>
  The datagrams of the control plane (\<^verbatim>\<open>wfb_ng/fl/control.py\<close>): the client states, the hunting
  ladder, and the messages \<open>NodeHeartbeat\<close>, \<open>HeartbeatAck\<close>, \<open>PrepareAck\<close> and
  \<open>CommitSuccess\<close> with their \<^verbatim>\<open>to_dict\<close> and \<^verbatim>\<open>from_dict\<close>. A datagram is the value its JSON text
  stands for; the text itself is not modelled, but for the constant acknowledgement. Each message is
  an instance of the codec contract of the prelude.
\<close>

section \<open>Constants and client states\<close>

definition DEFAULT_BENCHMARK_CHANNEL :: int where "DEFAULT_BENCHMARK_CHANNEL = 157"

definition CANDIDATE_CHANNELS :: "int list" where
  "CANDIDATE_CHANNELS = [149, 153, 165]"

definition IDLE_MISSED_ACK_THRESHOLD :: int where "IDLE_MISSED_ACK_THRESHOLD = 2"
definition HUNTING_RETRIES_PER_CHANNEL :: nat where "HUNTING_RETRIES_PER_CHANNEL = 2"
definition HUNTING_ATTEMPT_TIMEOUT_SECONDS :: rat where
  "HUNTING_ATTEMPT_TIMEOUT_SECONDS = 23 / 100"
definition NODE_OFFLINE_THRESHOLD_SECONDS :: rat where "NODE_OFFLINE_THRESHOLD_SECONDS = 10"
definition LEASE_TIMEOUT_DEFAULT_SECONDS :: rat where "LEASE_TIMEOUT_DEFAULT_SECONDS = 15"

datatype client_node_state = HUNTING | IDLE | PREPARING | RUNNING | ABORTING

fun cns_value :: "client_node_state \<Rightarrow> string" where
  "cns_value HUNTING = ''HUNTING''"
| "cns_value IDLE = ''IDLE''"
| "cns_value PREPARING = ''PREPARING''"
| "cns_value RUNNING = ''RUNNING''"
| "cns_value ABORTING = ''ABORTING''"

definition cns_values :: "string list" where
  "cns_values = map cns_value [HUNTING, IDLE, PREPARING, RUNNING, ABORTING]"

lemma cns_value_in [simp]: "cns_value s \<in> set cns_values"
  by (cases s) (simp_all add: cns_values_def)

lemma cns_value_inj [simp]: "cns_value s = cns_value t \<longleftrightarrow> s = t"
  by (cases s; cases t) simp_all

section \<open>The hunting ladder\<close>

fun add_candidates :: "int list \<Rightarrow> int list \<Rightarrow> int list" where
  "add_candidates ladder [] = ladder"
| "add_candidates ladder (ch # chs) =
     add_candidates
       (if ch \<notin> set ladder \<and> ch \<notin> set FORBIDDEN_CHANNELS then ladder @ [ch] else ladder) chs"

definition build_hunting_ladder :: "int option \<Rightarrow> int list" where
  "build_hunting_ladder cached =
     (let l0 = (case cached of
                  Some c \<Rightarrow> if c \<in> set ALLOWED_5GHZ_CHANNELS \<and> c \<notin> set FORBIDDEN_CHANNELS
                            then [c] else []
                | None \<Rightarrow> []);
          l1 = (if DEFAULT_BENCHMARK_CHANNEL \<notin> set l0 then l0 @ [DEFAULT_BENCHMARK_CHANNEL] else l0)
      in add_candidates l1 CANDIDATE_CHANNELS)"

lemma hunting_ladder_cases:
  "build_hunting_ladder cached \<in>
     {[157, 149, 153, 165], [149, 157, 153, 165], [153, 157, 149, 165], [165, 157, 149, 153]}"
  by (cases cached)
    (auto simp: build_hunting_ladder_def radio_consts CANDIDATE_CHANNELS_def
      DEFAULT_BENCHMARK_CHANNEL_def Let_def)

section \<open>NodeHeartbeat\<close>

record node_heartbeat =
  hb_node_id :: int
  hb_state :: string
  hb_elapsed_ms :: int
  hb_current_channel :: int
  hb_txpower_dbm :: int
  hb_uplink_mcs :: int
  hb_error_code :: pyval
  hb_timestamp_ms :: "int option"

definition opt_entry :: "string \<Rightarrow> pyval \<Rightarrow> pydict" where
  "opt_entry k v = (if v = PNone then [] else [(k, v)])"

definition pint_option :: "int option \<Rightarrow> pyval" where
  "pint_option t = (case t of None \<Rightarrow> PNone | Some i \<Rightarrow> PInt i)"

definition hb_to_dict :: "node_heartbeat \<Rightarrow> pydict" where
  "hb_to_dict h =
     [(''type'', PStr ''NODE_HEARTBEAT''), (''node_id'', PInt (hb_node_id h)),
      (''state'', PStr (hb_state h)), (''elapsed_ms'', PInt (hb_elapsed_ms h)),
      (''current_channel'', PInt (hb_current_channel h)),
      (''txpower_dbm'', PInt (hb_txpower_dbm h)), (''uplink_mcs'', PInt (hb_uplink_mcs h))] @
     opt_entry ''error_code'' (hb_error_code h) @
     opt_entry ''timestamp_ms'' (pint_option (hb_timestamp_ms h))"

definition need_dict :: "pyval \<Rightarrow> pydict res" where
  "need_dict v = (case as_dict v of None \<Rightarrow> Inl (TypeError ''Payload must be a dict'') | Some d \<Rightarrow> Inr d)"

text \<open>\<^verbatim>\<open>"k" not in data or type(data["k"]) is not int or not p(data["k"])\<close> raises.\<close>

definition need_int :: "string \<Rightarrow> (int \<Rightarrow> bool) \<Rightarrow> pydict \<Rightarrow> int res" where
  "need_int k p d = (case as_int (dget d k) of
     Some i \<Rightarrow> if p i then Inr i else Inl (ValueError (''Invalid or missing '' @ k))
   | None \<Rightarrow> Inl (ValueError (''Invalid or missing '' @ k)))"

definition need_str :: "string \<Rightarrow> (string \<Rightarrow> bool) \<Rightarrow> pydict \<Rightarrow> string res" where
  "need_str k p d = (case as_str (dget d k) of
     Some s \<Rightarrow> if p s then Inr s else Inl (ValueError (''Invalid or missing '' @ k))
   | None \<Rightarrow> Inl (ValueError (''Invalid or missing '' @ k)))"

definition need_bool :: "string \<Rightarrow> pydict \<Rightarrow> bool res" where
  "need_bool k d = (case as_bool (dget d k) of
     Some b \<Rightarrow> Inr b
   | None \<Rightarrow> Inl (ValueError (''Invalid or missing boolean '' @ k)))"

definition valid_node_id :: "int \<Rightarrow> bool" where
  "valid_node_id n \<longleftrightarrow> 1 \<le> n \<and> n \<le> 10"

definition hb_from_dict :: "pyval \<Rightarrow> node_heartbeat res" where
  "hb_from_dict v =
     bind_res (need_dict v) (\<lambda>d.
     bind_res (need_int ''node_id'' valid_node_id d) (\<lambda>nid.
     bind_res (need_str ''state'' (\<lambda>_. True) d) (\<lambda>st.
     bind_res (if st \<in> set cns_values then Inr st else Inl (ValueError ''Unknown state'')) (\<lambda>st.
     bind_res (need_int ''elapsed_ms'' (\<lambda>e. 0 \<le> e) d) (\<lambda>el.
     bind_res (need_int ''current_channel'' (\<lambda>_. True) d) (\<lambda>ch.
     bind_res (need_int ''txpower_dbm'' (\<lambda>_. True) d) (\<lambda>pw.
     bind_res (need_int ''uplink_mcs'' (\<lambda>_. True) d) (\<lambda>um.
     bind_res (need_int ''timestamp_ms'' (\<lambda>t. 0 < t) d) (\<lambda>ts.
     bind_res (validate_radio_config
       (PDict [(''channel'', PInt ch), (''radio_txpower_dbm'', PInt pw), (''uplink_mcs'', PInt um)]))
       (\<lambda>_.
     Inr \<lparr>hb_node_id = nid, hb_state = st, hb_elapsed_ms = el, hb_current_channel = ch,
          hb_txpower_dbm = pw, hb_uplink_mcs = um, hb_error_code = dget d ''error_code'',
          hb_timestamp_ms = Some ts\<rparr>))))))))))"

definition hb_wf :: "node_heartbeat \<Rightarrow> bool" where
  "hb_wf h \<longleftrightarrow>
     valid_node_id (hb_node_id h) \<and> hb_state h \<in> set cns_values \<and> 0 \<le> hb_elapsed_ms h \<and>
     hb_current_channel h \<in> set ALLOWED_5GHZ_CHANNELS \<and>
     TXPOWER_MIN_DBM \<le> hb_txpower_dbm h \<and> hb_txpower_dbm h \<le> TXPOWER_MAX_DBM \<and>
     hb_uplink_mcs h \<in> set ALLOWED_MCS_VALUES \<and>
     (case hb_timestamp_ms h of None \<Rightarrow> False | Some t \<Rightarrow> 0 < t)"

section \<open>HeartbeatAck\<close>

text \<open>The bytes sent are always the literal; what is received is parsed for its \<^verbatim>\<open>ack\<close> field.\<close>

definition ack_to_bytes :: string where
  "ack_to_bytes = ''{'' @ [CHR 0x22] @ ''ack'' @ [CHR 0x22] @ '': true}''"

definition ack_to_dict :: "bool \<Rightarrow> pydict" where
  "ack_to_dict a = [(''ack'', PBool a)]"

definition ack_from_dict :: "pyval \<Rightarrow> bool res" where
  "ack_from_dict v = bind_res (need_dict v) (need_bool ''ack'')"

section \<open>PrepareAck and CommitSuccess\<close>

record prepare_ack =
  pa_node_id :: int
  pa_session_id :: string
  pa_ok :: bool
  pa_error :: pyval
  pa_timestamp_ms :: pyval

definition pa_to_dict :: "prepare_ack \<Rightarrow> pydict" where
  "pa_to_dict a =
     [(''type'', PStr ''PREPARE_ACK''), (''node_id'', PInt (pa_node_id a)),
      (''session_id'', PStr (pa_session_id a)), (''ok'', PBool (pa_ok a))] @
     opt_entry ''error'' (pa_error a) @ opt_entry ''timestamp_ms'' (pa_timestamp_ms a)"

definition pa_from_dict :: "pyval \<Rightarrow> prepare_ack res" where
  "pa_from_dict v =
     bind_res (need_dict v) (\<lambda>d.
     bind_res (need_int ''node_id'' valid_node_id d) (\<lambda>nid.
     bind_res (need_str ''session_id'' (\<lambda>s. s \<noteq> []) d) (\<lambda>sid.
     bind_res (need_bool ''ok'' d) (\<lambda>ok.
     Inr \<lparr>pa_node_id = nid, pa_session_id = sid, pa_ok = ok, pa_error = dget d ''error'',
          pa_timestamp_ms = dget d ''timestamp_ms''\<rparr>))))"

definition pa_wf :: "prepare_ack \<Rightarrow> bool" where
  "pa_wf a \<longleftrightarrow> valid_node_id (pa_node_id a) \<and> pa_session_id a \<noteq> []"

record commit_success =
  cs_node_id :: int
  cs_session_id :: string
  cs_current_channel :: int
  cs_timestamp_ms :: pyval

definition cs_to_dict :: "commit_success \<Rightarrow> pydict" where
  "cs_to_dict a =
     [(''type'', PStr ''COMMIT_SUCCESS''), (''node_id'', PInt (cs_node_id a)),
      (''session_id'', PStr (cs_session_id a)),
      (''current_channel'', PInt (cs_current_channel a))] @
     opt_entry ''timestamp_ms'' (cs_timestamp_ms a)"

definition cs_from_dict :: "pyval \<Rightarrow> commit_success res" where
  "cs_from_dict v =
     bind_res (need_dict v) (\<lambda>d.
     bind_res (need_int ''node_id'' valid_node_id d) (\<lambda>nid.
     bind_res (need_str ''session_id'' (\<lambda>_. True) d) (\<lambda>sid.
     bind_res (need_int ''current_channel'' (\<lambda>_. True) d) (\<lambda>ch.
     Inr \<lparr>cs_node_id = nid, cs_session_id = sid, cs_current_channel = ch,
          cs_timestamp_ms = dget d ''timestamp_ms''\<rparr>))))"

definition cs_wf :: "commit_success \<Rightarrow> bool" where
  "cs_wf a \<longleftrightarrow> valid_node_id (cs_node_id a)"

section \<open>Decoding undoes encoding\<close>

lemma need_dict_Inr [simp]: "need_dict v = Inr d \<longleftrightarrow> v = PDict d"
  by (cases v) (simp_all add: need_dict_def)

lemma need_int_Inr [simp]: "need_int k p d = Inr i \<longleftrightarrow> dget d k = PInt i \<and> p i"
  by (auto simp: need_int_def split: option.splits if_splits)

lemma need_str_Inr [simp]: "need_str k p d = Inr s \<longleftrightarrow> dget d k = PStr s \<and> p s"
  by (auto simp: need_str_def split: option.splits if_splits)

lemma need_bool_Inr [simp]: "need_bool k d = Inr b \<longleftrightarrow> dget d k = PBool b"
  by (auto simp: need_bool_def split: option.splits)

lemma dget_Cons [simp]: "dget ((k, v) # d) k' = (if k = k' then v else dget d k')"
  by (simp add: dget_def)

lemma dget_Nil [simp]: "dget [] k = PNone"
  by (simp add: dget_def)

lemma dget_opt_entry [simp]:
  "dget (opt_entry k v @ d) k' = (if k = k' \<and> v \<noteq> PNone then v else dget d k')"
  "dget (opt_entry k v) k' = (if k = k' then v else PNone)"
  by (simp_all add: opt_entry_def)

lemma pint_option_simps [simp]:
  "pint_option None = PNone" "pint_option (Some i) = PInt i"
  by (simp_all add: pint_option_def)

lemma hb_radio_fields_valid:
  "(\<exists>c. validate_radio_config
      (PDict [(''channel'', PInt ch), (''radio_txpower_dbm'', PInt pw), (''uplink_mcs'', PInt um)])
      = Inr c) \<longleftrightarrow>
   ch \<in> set ALLOWED_5GHZ_CHANNELS \<and> TXPOWER_MIN_DBM \<le> pw \<and> pw \<le> TXPOWER_MAX_DBM \<and>
   um \<in> set ALLOWED_MCS_VALUES" (is "?L \<longleftrightarrow> ?R")
proof
  assume ?L
  then show ?R
    unfolding validate_radio_config_Inr by (auto simp: dget_default_def)
next
  assume R: ?R
  show ?L
    by (intro exI [of _ "\<lparr>rc_channel = ch, rc_txpower = pw, rc_downlink_mcs = 3, rc_uplink_mcs = um,
        rc_uftp_rate = 15000\<rparr>"])
      (use R in \<open>simp add: validate_radio_config_Inr dget_default_def ALLOWED_CONFIG_KEYS_def
        DEFAULT_DOWNLINK_MCS_def get_downlink_rate_bounds_def DOWNLINK_RATE_BOUNDS_def
        ALLOWED_MCS_VALUES_def\<close>)
qed

lemma hb_from_dict_Inr:
  "hb_from_dict v = Inr h \<longleftrightarrow>
   (\<exists>d ts. v = PDict d \<and> dget d ''node_id'' = PInt (hb_node_id h) \<and>
      dget d ''state'' = PStr (hb_state h) \<and> dget d ''elapsed_ms'' = PInt (hb_elapsed_ms h) \<and>
      dget d ''current_channel'' = PInt (hb_current_channel h) \<and>
      dget d ''txpower_dbm'' = PInt (hb_txpower_dbm h) \<and>
      dget d ''uplink_mcs'' = PInt (hb_uplink_mcs h) \<and>
      hb_error_code h = dget d ''error_code'' \<and>
      dget d ''timestamp_ms'' = PInt ts \<and> hb_timestamp_ms h = Some ts \<and> hb_wf h)"
  (is "_ \<longleftrightarrow> ?R")
proof (cases "as_dict v")
  case None
  then show ?thesis by (cases v) (simp_all add: hb_from_dict_def need_dict_def)
next
  case (Some d)
  then have v: "v = PDict d" by simp
  have "hb_from_dict v = Inr h \<longleftrightarrow> ?R"
    unfolding hb_from_dict_def v hb_wf_def
    by (cases h) (auto simp: hb_radio_fields_valid)
  then show ?thesis .
qed

lemma hb_roundtrip: "hb_wf h \<Longrightarrow> hb_from_dict (PDict (hb_to_dict h)) = Inr h"
  unfolding hb_from_dict_Inr
  by (cases "hb_timestamp_ms h") (simp_all add: hb_to_dict_def hb_wf_def)

lemma hb_from_dict_wf: "hb_from_dict v = Inr h \<Longrightarrow> hb_wf h"
  unfolding hb_from_dict_Inr by blast

interpretation hb_codec: wire_codec "\<lambda>h. PDict (hb_to_dict h)" hb_from_dict hb_wf
  by unfold_locales (auto intro: hb_roundtrip hb_from_dict_wf)

interpretation pa_codec: wire_codec "\<lambda>a. PDict (pa_to_dict a)" pa_from_dict pa_wf
  by unfold_locales (auto simp: pa_from_dict_def pa_to_dict_def pa_wf_def)

interpretation cs_codec: wire_codec "\<lambda>a. PDict (cs_to_dict a)" cs_from_dict cs_wf
  by unfold_locales (auto simp: cs_from_dict_def cs_to_dict_def cs_wf_def)

interpretation ack_codec: wire_codec "\<lambda>a. PDict (ack_to_dict a)" ack_from_dict "\<lambda>_. True"
  by unfold_locales (auto simp: ack_from_dict_def ack_to_dict_def)

section \<open>Guarantees\<close>

text \<open>C29: The messages survive the wire. A heartbeat, a PREPARE acknowledgement and a COMMIT success are
  decoded back to themselves exactly when they are well-formed, so what a receiver accepts it could
  send on unchanged, and nothing ill-formed is accepted.\<close>

theorem message_roundtrips:
  "(hb_from_dict (PDict (hb_to_dict h)) = Inr h \<longleftrightarrow> hb_wf h) \<and>
   (pa_from_dict (PDict (pa_to_dict a)) = Inr a \<longleftrightarrow> pa_wf a) \<and>
   (cs_from_dict (PDict (cs_to_dict s)) = Inr s \<longleftrightarrow> cs_wf s)"
  using hb_codec.wf_iff_decodable pa_codec.wf_iff_decodable cs_codec.wf_iff_decodable by blast

text \<open>The hunting ladder. Whatever channel was cached, the ladder is a permutation of the allowed
  channels, never visits the forbidden one, and starts with the cached channel if it is allowed and
  with the benchmark channel otherwise; the benchmark channel is always among the first two.\<close>

theorem hunting_ladder_complete:
  "distinct (build_hunting_ladder cached) \<and>
   set (build_hunting_ladder cached) = set ALLOWED_5GHZ_CHANNELS \<and>
   set (build_hunting_ladder cached) \<inter> set FORBIDDEN_CHANNELS = {} \<and>
   hd (build_hunting_ladder cached) =
     (case cached of None \<Rightarrow> DEFAULT_BENCHMARK_CHANNEL
      | Some c \<Rightarrow> if c \<in> set ALLOWED_5GHZ_CHANNELS then c else DEFAULT_BENCHMARK_CHANNEL) \<and>
   DEFAULT_BENCHMARK_CHANNEL \<in> set (take 2 (build_hunting_ladder cached))"
proof -
  have "distinct (build_hunting_ladder cached) \<and>
      set (build_hunting_ladder cached) = set ALLOWED_5GHZ_CHANNELS \<and>
      set (build_hunting_ladder cached) \<inter> set FORBIDDEN_CHANNELS = {} \<and>
      DEFAULT_BENCHMARK_CHANNEL \<in> set (take 2 (build_hunting_ladder cached))"
    using hunting_ladder_cases [of cached] by (auto simp: radio_consts DEFAULT_BENCHMARK_CHANNEL_def)
  moreover have "hd (build_hunting_ladder cached) =
     (case cached of None \<Rightarrow> DEFAULT_BENCHMARK_CHANNEL
      | Some c \<Rightarrow> if c \<in> set ALLOWED_5GHZ_CHANNELS then c else DEFAULT_BENCHMARK_CHANNEL)"
    by (cases cached)
      (auto simp: build_hunting_ladder_def radio_consts CANDIDATE_CHANNELS_def
        DEFAULT_BENCHMARK_CHANNEL_def Let_def)
  ultimately show ?thesis by blast
qed

end
