(* ===== verification/Node_Horizon.thy ===== *)
theory Node_Horizon
  imports Control_Messages
begin

text \<open>
  \<open>NodeRecord\<close> and \<open>NodeHorizonRegistry\<close> of \<^verbatim>\<open>wfb_ng/fl/control.py\<close>: the server's view of its
  nodes. \<open>update_heartbeat\<close> records a heartbeat, drops replayed and reordered ones, passes the
  two-army gate (a node is READY only after a HUNTING heartbeat closed by an IDLE one) and returns
  the alignment patch; \<open>get_node\<close>, \<open>get_all_nodes\<close> and \<open>is_node_ready\<close> read the view, in which a
  silent node is OFFLINE. The clock is read once per operation (\<open>now\<close>). The TUN address
  \<^verbatim>\<open>10.80.0.n\<close> is kept as its last number.
\<close>

datatype node_readiness = OFFLINE | CONNECTING | READY | ACTIVE | READINESS_ABORTING

record node_record =
  nr_node_id :: int
  nr_tun_host :: int
  nr_reported_state :: string
  nr_readiness :: node_readiness
  nr_elapsed_ms :: int
  nr_current_channel :: int
  nr_txpower_dbm :: int
  nr_uplink_mcs :: int
  nr_error_code :: pyval
  nr_timestamp_ms :: "int option"
  nr_last_heartbeat_time :: rat
  nr_last_heartbeat_wall_time :: rat
  nr_addr :: "string \<times> int"

record registry =
  reg_offline_threshold :: rat
  reg_nodes :: "(int \<times> node_record) list"
  reg_verified :: "int set"
  reg_awaiting :: "(int \<times> bool) list"
  reg_hunting_ts :: "(int \<times> int) list"

definition registry_init :: "rat \<Rightarrow> registry" where
  "registry_init t =
     \<lparr>reg_offline_threshold = t, reg_nodes = [], reg_verified = {}, reg_awaiting = [],
      reg_hunting_ts = []\<rparr>"

definition get_node :: "rat \<Rightarrow> registry \<Rightarrow> int \<Rightarrow> node_record option" where
  "get_node now reg nid = (case map_of (reg_nodes reg) nid of
     None \<Rightarrow> None
   | Some node \<Rightarrow>
       if now - nr_last_heartbeat_time node > reg_offline_threshold reg
       then Some (node\<lparr>nr_readiness := OFFLINE\<rparr>) else Some node)"

fun get_all_nodes_from :: "rat \<Rightarrow> registry \<Rightarrow> int list \<Rightarrow> (int \<times> node_record) list" where
  "get_all_nodes_from now reg [] = []"
| "get_all_nodes_from now reg (nid # nids) = (case get_node now reg nid of
     None \<Rightarrow> get_all_nodes_from now reg nids
   | Some r \<Rightarrow> (nid, r) # get_all_nodes_from now reg nids)"

definition get_all_nodes :: "rat \<Rightarrow> registry \<Rightarrow> (int \<times> node_record) list" where
  "get_all_nodes now reg = get_all_nodes_from now reg (map fst (reg_nodes reg))"

definition is_node_ready :: "rat \<Rightarrow> registry \<Rightarrow> int \<Rightarrow> bool" where
  "is_node_ready now reg nid = (case get_node now reg nid of
     None \<Rightarrow> False
   | Some node \<Rightarrow> nr_readiness node = READY \<and>
       now - nr_last_heartbeat_time node \<le> reg_offline_threshold reg)"

text \<open>The replay check: both timestamps are known and the new one is not larger.\<close>

definition is_stale :: "node_record option \<Rightarrow> node_heartbeat \<Rightarrow> bool" where
  "is_stale existing hb = (case existing of
     None \<Rightarrow> False
   | Some node \<Rightarrow> (case (hb_timestamp_ms hb, nr_timestamp_ms node) of
       (Some t, Some t') \<Rightarrow> t \<le> t'
     | _ \<Rightarrow> False))"

text \<open>The two-army gate: the readiness a heartbeat earns, and the handshake state it leaves.\<close>

definition idle_ts_valid :: "registry \<Rightarrow> node_heartbeat \<Rightarrow> bool" where
  "idle_ts_valid reg hb = (case (map_of (reg_hunting_ts reg) (hb_node_id hb), hb_timestamp_ms hb) of
     (Some h, Some t) \<Rightarrow> h \<le> t
   | _ \<Rightarrow> True)"

definition two_army_gate :: "node_heartbeat \<Rightarrow> registry \<Rightarrow> node_readiness \<times> registry" where
  "two_army_gate hb reg =
     (let nid = hb_node_id hb; st = hb_state hb in
      if st = ''HUNTING'' then
        (CONNECTING,
         reg\<lparr>reg_awaiting := AList.update nid True (reg_awaiting reg),
             reg_hunting_ts := (case hb_timestamp_ms hb of
               None \<Rightarrow> reg_hunting_ts reg
             | Some t \<Rightarrow> AList.update nid t (reg_hunting_ts reg))\<rparr>)
      else if st = ''IDLE'' then
        (if (map_of (reg_awaiting reg) nid = Some True \<and> idle_ts_valid reg hb)
            \<or> nid \<in> reg_verified reg
         then (READY,
           reg\<lparr>reg_verified := insert nid (reg_verified reg),
               reg_awaiting := AList.update nid False (reg_awaiting reg)\<rparr>)
         else (CONNECTING, reg))
      else if st = ''PREPARING'' \<or> st = ''RUNNING'' then (ACTIVE, reg)
      else if st = ''ABORTING'' then (READINESS_ABORTING, reg)
      else (CONNECTING, reg))"

definition record_of :: "rat \<Rightarrow> rat \<Rightarrow> node_heartbeat \<Rightarrow> node_readiness \<Rightarrow> string \<times> int \<Rightarrow> node_record" where
  "record_of now wall hb readiness addr =
     \<lparr>nr_node_id = hb_node_id hb, nr_tun_host = 10 + hb_node_id hb,
      nr_reported_state = hb_state hb, nr_readiness = readiness,
      nr_elapsed_ms = hb_elapsed_ms hb, nr_current_channel = hb_current_channel hb,
      nr_txpower_dbm = hb_txpower_dbm hb, nr_uplink_mcs = hb_uplink_mcs hb,
      nr_error_code = hb_error_code hb, nr_timestamp_ms = hb_timestamp_ms hb,
      nr_last_heartbeat_time = now, nr_last_heartbeat_wall_time = wall, nr_addr = addr\<rparr>"

definition align_patch :: "node_heartbeat \<Rightarrow> radio_config \<Rightarrow> pydict" where
  "align_patch hb radio =
     (if hb_txpower_dbm hb \<noteq> rc_txpower radio
      then [(''radio_txpower_dbm'', PInt (rc_txpower radio))] else []) @
     (if hb_uplink_mcs hb \<noteq> rc_uplink_mcs radio
      then [(''uplink_mcs'', PInt (rc_uplink_mcs radio))] else [])"

text \<open>The acknowledgement returned with it is always \<^verbatim>\<open>HeartbeatAck(ack=True)\<close>.\<close>

definition update_heartbeat ::
  "rat \<Rightarrow> rat \<Rightarrow> node_heartbeat \<Rightarrow> string \<times> int \<Rightarrow> radio_config \<Rightarrow> registry \<Rightarrow>
   pydict option \<times> registry" where
  "update_heartbeat now wall hb addr radio reg =
     (if is_stale (get_node now reg (hb_node_id hb)) hb then (None, reg)
      else
        let (readiness, reg) = two_army_gate hb reg;
            reg = reg\<lparr>reg_nodes := AList.update (hb_node_id hb)
                       (record_of now wall hb readiness addr) (reg_nodes reg)\<rparr>;
            patch = align_patch hb radio
        in (if patch \<noteq> [] then Some patch else None, reg))"

section \<open>Reading the view\<close>

lemma get_node_Some:
  "get_node now reg nid = Some r \<longleftrightarrow>
   (\<exists>node. map_of (reg_nodes reg) nid = Some node \<and>
      r = (if now - nr_last_heartbeat_time node > reg_offline_threshold reg
           then node\<lparr>nr_readiness := OFFLINE\<rparr> else node))"
  by (auto simp: get_node_def split: option.splits)

lemma is_stale_get_node:
  "is_stale (get_node now reg nid) hb = is_stale (map_of (reg_nodes reg) nid) hb"
  by (auto simp: is_stale_def get_node_def split: option.splits)

lemma map_of_get_all_nodes_from:
  "map_of (get_all_nodes_from now reg nids) nid =
   (if nid \<in> set nids then get_node now reg nid else None)"
  by (induction nids) (auto split: option.splits)

lemma get_all_nodes_lookup: "map_of (get_all_nodes now reg) nid = get_node now reg nid"
  by (auto simp: get_all_nodes_def map_of_get_all_nodes_from get_node_def keys_eq_dom
      split: option.splits)

lemma is_node_ready_iff:
  "is_node_ready now reg nid \<longleftrightarrow> (\<exists>r. get_node now reg nid = Some r \<and> nr_readiness r = READY)"
  by (auto simp: is_node_ready_def get_node_def split: option.splits)

section \<open>Runs and the handshake invariant\<close>

record arrival =
  ar_now :: rat
  ar_wall :: rat
  ar_hb :: node_heartbeat
  ar_addr :: "string \<times> int"
  ar_radio :: radio_config

definition receive :: "arrival \<Rightarrow> registry \<Rightarrow> registry" where
  "receive a reg = snd (update_heartbeat (ar_now a) (ar_wall a) (ar_hb a) (ar_addr a) (ar_radio a) reg)"

fun receive_all :: "arrival list \<Rightarrow> registry \<Rightarrow> registry" where
  "receive_all [] reg = reg"
| "receive_all (a # as) reg = receive_all as (receive a reg)"

lemma receive_all_append: "receive_all (as @ bs) reg = receive_all bs (receive_all as reg)"
  by (induction as arbitrary: reg) simp_all

lemma receive_stale:
  "is_stale (map_of (reg_nodes reg) (hb_node_id (ar_hb a))) (ar_hb a) \<Longrightarrow> receive a reg = reg"
  by (simp add: receive_def update_heartbeat_def is_stale_get_node)

lemma receive_fresh:
  assumes "\<not> is_stale (map_of (reg_nodes reg) (hb_node_id (ar_hb a))) (ar_hb a)"
  shows "receive a reg =
    (snd (two_army_gate (ar_hb a) reg))
      \<lparr>reg_nodes := AList.update (hb_node_id (ar_hb a))
         (record_of (ar_now a) (ar_wall a) (ar_hb a) (fst (two_army_gate (ar_hb a) reg)) (ar_addr a))
         (reg_nodes reg)\<rparr>"
  using assms
  by (auto simp: receive_def update_heartbeat_def is_stale_get_node Let_def two_army_gate_def
      split: option.splits)

lemma gate_nodes [frame_simps]: "reg_nodes (snd (two_army_gate hb reg)) = reg_nodes reg"
  by (auto simp: two_army_gate_def Let_def)

lemma gate_threshold [frame_simps]:
  "reg_offline_threshold (snd (two_army_gate hb reg)) = reg_offline_threshold reg"
  by (auto simp: two_army_gate_def Let_def)

text \<open>
  What the gate knows about a node, as a fact of the heartbeats received so far: a node that is
  awaiting confirmation has sent HUNTING, and a verified one has sent IDLE after a HUNTING.
\<close>

definition said :: "arrival list \<Rightarrow> int \<Rightarrow> string \<Rightarrow> nat \<Rightarrow> bool" where
  "said as nid st i \<longleftrightarrow> i < length as \<and> hb_node_id (ar_hb (as ! i)) = nid \<and> hb_state (ar_hb (as ! i)) = st"

definition handshake :: "arrival list \<Rightarrow> int \<Rightarrow> bool" where
  "handshake as nid \<longleftrightarrow> (\<exists>i j. i < j \<and> said as nid ''HUNTING'' i \<and> said as nid ''IDLE'' j)"

definition gate_inv :: "arrival list \<Rightarrow> registry \<Rightarrow> bool" where
  "gate_inv as reg \<longleftrightarrow>
     (\<forall>nid. map_of (reg_awaiting reg) nid = Some True \<longrightarrow> (\<exists>i. said as nid ''HUNTING'' i)) \<and>
     (\<forall>nid \<in> reg_verified reg. handshake as nid) \<and>
     (\<forall>nid r. map_of (reg_nodes reg) nid = Some r \<longrightarrow>
        nr_node_id r = nid \<and> (nr_readiness r = READY \<longrightarrow> nid \<in> reg_verified reg \<and> nr_reported_state r = ''IDLE''))"

lemma said_snoc:
  "said (as @ [a]) nid st i \<longleftrightarrow>
   said as nid st i \<or> (i = length as \<and> hb_node_id (ar_hb a) = nid \<and> hb_state (ar_hb a) = st)"
  by (auto simp: said_def nth_append)

lemma said_lt: "said as nid st i \<Longrightarrow> i < length as"
  by (simp add: said_def)

lemma handshake_snoc: "handshake as nid \<Longrightarrow> handshake (as @ [a]) nid"
  unfolding handshake_def said_snoc by blast

lemma handshake_close:
  "said as nid ''HUNTING'' i \<Longrightarrow> hb_node_id (ar_hb a) = nid \<Longrightarrow> hb_state (ar_hb a) = ''IDLE'' \<Longrightarrow>
   handshake (as @ [a]) nid"
  unfolding handshake_def said_snoc by (blast dest: said_lt)

lemma gate_inv_snoc_same: "gate_inv as reg \<Longrightarrow> gate_inv (as @ [a]) reg"
  unfolding gate_inv_def said_snoc by (blast intro: handshake_snoc)

lemma gate_inv_receive:
  assumes inv: "gate_inv as reg"
  shows "gate_inv (as @ [a]) (receive a reg)"
proof (cases "is_stale (map_of (reg_nodes reg) (hb_node_id (ar_hb a))) (ar_hb a)")
  case True
  then show ?thesis using inv by (simp add: receive_stale gate_inv_snoc_same)
next
  case False
  let ?hb = "ar_hb a" and ?n = "hb_node_id (ar_hb a)"
  let ?G = "two_army_gate ?hb reg"
  note same = gate_inv_snoc_same [OF inv, of a]
  have aw: "\<exists>i. said (as @ [a]) nid ''HUNTING'' i"
    if "map_of (reg_awaiting (snd ?G)) nid = Some True" for nid
    using that same
    by (auto simp: two_army_gate_def Let_def gate_inv_def said_snoc split: if_splits)
  have ver: "handshake (as @ [a]) nid" if "nid \<in> reg_verified (snd ?G)" for nid
  proof (cases "nid \<in> reg_verified reg")
    case True
    then show ?thesis using same by (simp add: gate_inv_def)
  next
    case False
    with that have "nid = ?n" "hb_state ?hb = ''IDLE''" "map_of (reg_awaiting reg) ?n = Some True"
      by (auto simp: two_army_gate_def Let_def split: if_splits)
    then show ?thesis using inv by (auto simp: gate_inv_def intro: handshake_close)
  qed
  have rdy: "?n \<in> reg_verified (snd ?G) \<and> hb_state ?hb = ''IDLE''" if "fst ?G = READY"
    using that by (auto simp: two_army_gate_def Let_def split: if_splits)
  have mono: "reg_verified reg \<subseteq> reg_verified (snd ?G)"
    by (auto simp: two_army_gate_def Let_def)
  show ?thesis
    unfolding receive_fresh [OF False] gate_inv_def
    using aw ver rdy mono same by (auto simp: gate_inv_def record_of_def)
qed

lemma gate_inv_init: "gate_inv [] (registry_init t)"
  by (simp add: gate_inv_def registry_init_def)

lemma gate_inv_run: "gate_inv as reg \<Longrightarrow> gate_inv (as @ bs) (receive_all bs reg)"
proof (induction bs arbitrary: as reg)
  case Nil
  then show ?case by simp
next
  case (Cons b bs)
  from Cons.IH [OF gate_inv_receive [OF Cons.prems], of b] show ?case by simp
qed

section \<open>Timestamps\<close>

definition stored_ts :: "registry \<Rightarrow> int \<Rightarrow> int option" where
  "stored_ts reg nid = (case map_of (reg_nodes reg) nid of None \<Rightarrow> None | Some r \<Rightarrow> nr_timestamp_ms r)"

lemma receive_ts_mono:
  assumes "stored_ts reg nid = Some t" and "hb_timestamp_ms (ar_hb a) = Some t'"
  shows "\<exists>u. stored_ts (receive a reg) nid = Some u \<and> t \<le> u"
proof (cases "is_stale (map_of (reg_nodes reg) (hb_node_id (ar_hb a))) (ar_hb a)")
  case True
  then show ?thesis using assms by (simp add: receive_stale)
next
  case False
  then show ?thesis
    using assms by (auto simp: receive_fresh stored_ts_def record_of_def is_stale_def split: option.splits)
qed

lemma receive_all_ts_mono:
  assumes "stored_ts reg nid = Some t" and "\<forall>a \<in> set as. hb_timestamp_ms (ar_hb a) \<noteq> None"
  shows "\<exists>u. stored_ts (receive_all as reg) nid = Some u \<and> t \<le> u"
  using assms
proof (induction as arbitrary: reg t)
  case Nil
  then show ?case by simp
next
  case (Cons a as)
  from Cons.prems(2) obtain t' where "hb_timestamp_ms (ar_hb a) = Some t'" by auto
  from receive_ts_mono [OF Cons.prems(1) this] obtain u where
    "stored_ts (receive a reg) nid = Some u" "t \<le> u" by blast
  with Cons.IH [of "receive a reg" u] Cons.prems(2) show ?case by (auto intro: order_trans)
qed

lemma receive_all_replays:
  assumes "stored_ts reg nid = Some t"
    and "\<forall>a \<in> set as. hb_node_id (ar_hb a) = nid \<and> (\<exists>u \<le> t. hb_timestamp_ms (ar_hb a) = Some u)"
  shows "receive_all as reg = reg"
  using assms(2)
proof (induction as)
  case Nil
  then show ?case by simp
next
  case (Cons a as)
  have "receive a reg = reg"
    using Cons.prems assms(1)
    by (intro receive_stale) (auto simp: is_stale_def stored_ts_def split: option.splits)
  then show ?case using Cons by simp
qed

lemma align_patch_keys: "fst ` set (align_patch hb radio) \<subseteq> {''radio_txpower_dbm'', ''uplink_mcs''}"
  by (auto simp: align_patch_def)

section \<open>Guarantees\<close>

text \<open>READY needs the handshake. A node is reported ready only if its last accepted heartbeat came within
  the offline threshold, and some HUNTING heartbeat of it was followed by an IDLE one: neither an
  IDLE alone nor a silent node ever passes the two-army gate.\<close>

theorem ready_needs_handshake:
  assumes "is_node_ready now (receive_all as (registry_init t)) nid"
  shows "(\<exists>i j. i < j \<and> said as nid ''HUNTING'' i \<and> said as nid ''IDLE'' j) \<and>
    (\<exists>r. map_of (reg_nodes (receive_all as (registry_init t))) nid = Some r \<and>
       nr_reported_state r = ''IDLE'' \<and>
       now - nr_last_heartbeat_time r \<le> reg_offline_threshold (receive_all as (registry_init t)))"
proof -
  let ?reg = "receive_all as (registry_init t)"
  have inv: "gate_inv as ?reg" using gate_inv_run [OF gate_inv_init, of as t] by simp
  from assms obtain r where r: "map_of (reg_nodes ?reg) nid = Some r" "nr_readiness r = READY"
    "now - nr_last_heartbeat_time r \<le> reg_offline_threshold ?reg"
    by (auto simp: is_node_ready_def get_node_def split: option.splits if_splits)
  with inv have "nid \<in> reg_verified ?reg" "nr_reported_state r = ''IDLE''"
    unfolding gate_inv_def by blast+
  with inv r show ?thesis unfolding gate_inv_def handshake_def by blast
qed

definition sample_arrival :: "string \<Rightarrow> int \<Rightarrow> arrival" where
  "sample_arrival st t = \<lparr>ar_now = 1, ar_wall = 1,
     ar_hb = \<lparr>hb_node_id = 3, hb_state = st, hb_elapsed_ms = 0, hb_current_channel = 157,
       hb_txpower_dbm = 12, hb_uplink_mcs = 6, hb_error_code = PNone, hb_timestamp_ms = Some t\<rparr>,
     ar_addr = (''10.80.0.13'', 8000), ar_radio = default_radio_config\<rparr>"

theorem ready_needs_handshake_witness:
  "is_node_ready 2 (receive_all [sample_arrival ''HUNTING'' 5, sample_arrival ''IDLE'' 6] (registry_init 10)) 3 \<and>
   (\<exists>i j. i < j \<and> said [sample_arrival ''HUNTING'' 5, sample_arrival ''IDLE'' 6] 3 ''HUNTING'' i \<and>
      said [sample_arrival ''HUNTING'' 5, sample_arrival ''IDLE'' 6] 3 ''IDLE'' j)"
proof -
  have r: "is_node_ready 2
      (receive_all [sample_arrival ''HUNTING'' 5, sample_arrival ''IDLE'' 6] (registry_init 10)) 3"
    by code_simp
  with ready_needs_handshake [OF r] show ?thesis by blast
qed

lemma receive_stores_ts:
  assumes "hb_timestamp_ms (ar_hb a) = Some t"
  shows "\<exists>u. stored_ts (receive a reg) (hb_node_id (ar_hb a)) = Some u \<and> t \<le> u"
proof (cases "is_stale (map_of (reg_nodes reg) (hb_node_id (ar_hb a))) (ar_hb a)")
  case True
  with assms show ?thesis
    by (auto simp: receive_stale stored_ts_def is_stale_def split: option.splits)
next
  case False
  with assms show ?thesis by (simp add: receive_fresh stored_ts_def record_of_def)
qed

text \<open>Replays change nothing. Among heartbeats with time stamps (every decoded one has one), a second
  delivery of one already received - at any later time, from any address, after any others -
  leaves the registry exactly as it was.\<close>

theorem replay_ignored:
  assumes "a \<in> set as" and "\<forall>x \<in> set as. hb_timestamp_ms (ar_hb x) \<noteq> None" and "ar_hb b = ar_hb a"
  shows "receive b (receive_all as reg) = receive_all as reg"
proof -
  from assms(1) obtain xs ys where as: "as = xs @ a # ys" by (meson split_list)
  from assms(1,2) obtain t where t: "hb_timestamp_ms (ar_hb a) = Some t" by blast
  let ?n = "hb_node_id (ar_hb a)"
  obtain u where u: "stored_ts (receive a (receive_all xs reg)) ?n = Some u" "t \<le> u"
    using receive_stores_ts [OF t] by blast
  obtain v where v: "stored_ts (receive_all as reg) ?n = Some v" "u \<le> v"
    using receive_all_ts_mono [OF u(1), of ys] assms(2) as by (auto simp: receive_all_append)
  have "receive_all [b] (receive_all as reg) = receive_all as reg"
    by (rule receive_all_replays [OF v(1)]) (use assms(3) t u v in \<open>auto intro: order_trans\<close>)
  then show ?thesis by simp
qed

theorem replay_ignored_witness:
  "receive (sample_arrival ''HUNTING'' 5)
     (receive_all [sample_arrival ''HUNTING'' 5, sample_arrival ''IDLE'' 6] (registry_init 10))
   = receive_all [sample_arrival ''HUNTING'' 5, sample_arrival ''IDLE'' 6] (registry_init 10)"
  by (rule replay_ignored [of "sample_arrival ''HUNTING'' 5"]) (simp_all add: sample_arrival_def)

end
