(* ===== verification/Control_Server.thy ===== *)
theory Control_Server
  imports Node_Horizon
begin

text \<open>
  \<open>ControlPlaneServer\<close> of \<^verbatim>\<open>wfb_ng/fl/control.py\<close>, the receiving side: its state, the task
  readiness barrier and \<open>handle_datagram\<close>, which collects the acknowledgements of a radio switch and
  feeds heartbeats to the registry. A datagram is the value its JSON stands for, \<open>None\<close> if it is not
  JSON. The sockets and the callback \<^verbatim>\<open>on_heartbeat_received\<close> (which does not touch this state and
  whose exceptions are swallowed) are left out. The four places where the server collects one message
  from each expected node share the contract \<open>ack_barrier\<close>: the collected set does not depend on
  the order, on duplicates or on strangers, and the event is set exactly when it is complete.
\<close>

datatype switch_phase = PREPARE | COMMIT | FINALIZED | CONFIRMED

record ctl_server =
  sv_radio :: radio_config
  sv_radio_error :: bool
  sv_registry :: registry
  sv_session :: "string option"
  sv_target_channel :: "int option"
  sv_expected :: "int set"
  sv_phase :: "switch_phase option"
  sv_prepare_acks :: "(int \<times> prepare_ack) list"
  sv_commit_successes :: "(int \<times> commit_success) list"
  sv_finalized_acks :: "int set"
  sv_confirmed_acks :: "int set"
  sv_prepare_event :: bool
  sv_commit_event :: bool
  sv_barrier_event :: bool
  sv_task_job :: "string option"
  sv_task_expected :: "int set"
  sv_task_ready :: "int set"
  sv_task_event :: bool

definition server_init :: "radio_config \<Rightarrow> rat \<Rightarrow> ctl_server" where
  "server_init radio threshold =
     \<lparr>sv_radio = radio, sv_radio_error = False, sv_registry = registry_init threshold,
      sv_session = None, sv_target_channel = None, sv_expected = {}, sv_phase = None,
      sv_prepare_acks = [], sv_commit_successes = [], sv_finalized_acks = {},
      sv_confirmed_acks = {}, sv_prepare_event = False, sv_commit_event = False,
      sv_barrier_event = False, sv_task_job = None, sv_task_expected = {}, sv_task_ready = {},
      sv_task_event = False\<rparr>"

definition update_radio_config :: "radio_config \<Rightarrow> ctl_server \<Rightarrow> ctl_server" where
  "update_radio_config c s = s\<lparr>sv_radio := c\<rparr>"

section \<open>Task readiness\<close>

definition prepare_task_readiness :: "string \<Rightarrow> int list \<Rightarrow> ctl_server \<Rightarrow> ctl_server" where
  "prepare_task_readiness job targets s =
     s\<lparr>sv_task_job := Some job, sv_task_expected := set targets, sv_task_ready := {},
       sv_task_event := False\<rparr>"

definition clear_task_readiness :: "ctl_server \<Rightarrow> ctl_server" where
  "clear_task_readiness s =
     s\<lparr>sv_task_job := None, sv_task_expected := {}, sv_task_ready := {}, sv_task_event := False\<rparr>"

section \<open>Recording acknowledgements\<close>

definition record_task_ready :: "string \<times> int \<Rightarrow> ctl_server \<Rightarrow> ctl_server" where
  "record_task_ready m s = (case m of (job, nid) \<Rightarrow>
     if sv_task_job s = Some job \<and> nid \<in> sv_task_expected s then
       let s = s\<lparr>sv_task_ready := insert nid (sv_task_ready s)\<rparr> in
       if sv_task_expected s \<subseteq> sv_task_ready s then s\<lparr>sv_task_event := True\<rparr> else s
     else s)"

definition record_prepare_ack :: "prepare_ack \<Rightarrow> ctl_server \<Rightarrow> ctl_server" where
  "record_prepare_ack ack s =
     (if sv_session s = Some (pa_session_id ack) \<and> sv_phase s = Some PREPARE \<and>
         pa_node_id ack \<in> sv_expected s then
        let s = s\<lparr>sv_prepare_acks := AList.update (pa_node_id ack) ack (sv_prepare_acks s)\<rparr> in
        if sv_expected s \<noteq> {} \<and> sv_expected s \<subseteq> fst ` set (sv_prepare_acks s)
        then s\<lparr>sv_prepare_event := True\<rparr> else s
      else s)"

definition record_commit_success :: "commit_success \<Rightarrow> ctl_server \<Rightarrow> ctl_server" where
  "record_commit_success cs s =
     (if sv_session s = Some (cs_session_id cs) \<and> sv_phase s = Some COMMIT \<and>
         cs_node_id cs \<in> sv_expected s \<and> sv_target_channel s = Some (cs_current_channel cs) then
        let s = s\<lparr>sv_commit_successes := AList.update (cs_node_id cs) cs (sv_commit_successes s)\<rparr> in
        if sv_expected s \<noteq> {} \<and> sv_expected s \<subseteq> fst ` set (sv_commit_successes s)
        then s\<lparr>sv_commit_event := True\<rparr> else s
      else s)"

text \<open>The two final acknowledgements, read straight from the payload.\<close>

definition final_ack_matches :: "switch_phase \<Rightarrow> pydict \<Rightarrow> ctl_server \<Rightarrow> bool" where
  "final_ack_matches ph p s \<longleftrightarrow>
     (case sv_session s of None \<Rightarrow> False | Some sid \<Rightarrow> dget p ''session_id'' = PStr sid) \<and>
     sv_phase s = Some ph \<and>
     (case as_int (dget p ''channel'') of None \<Rightarrow> False | Some ch \<Rightarrow> sv_target_channel s = Some ch)"

definition record_finalized_ack :: "pydict \<Rightarrow> ctl_server \<Rightarrow> ctl_server" where
  "record_finalized_ack p s = (case as_int (dget p ''node_id'') of
     Some nid \<Rightarrow>
       if final_ack_matches FINALIZED p s \<and> nid \<in> sv_expected s then
         let s = s\<lparr>sv_finalized_acks := insert nid (sv_finalized_acks s)\<rparr> in
         if sv_expected s \<subseteq> sv_finalized_acks s then s\<lparr>sv_barrier_event := True\<rparr> else s
       else s
   | None \<Rightarrow> s)"

definition record_confirmed_ack :: "pydict \<Rightarrow> ctl_server \<Rightarrow> ctl_server" where
  "record_confirmed_ack p s = (case as_int (dget p ''node_id'') of
     Some nid \<Rightarrow>
       if final_ack_matches CONFIRMED p s \<and> nid \<in> sv_expected s then
         let s = s\<lparr>sv_confirmed_acks := insert nid (sv_confirmed_acks s)\<rparr> in
         if sv_expected s \<subseteq> sv_confirmed_acks s then s\<lparr>sv_barrier_event := True\<rparr> else s
       else s
   | None \<Rightarrow> s)"

section \<open>handle_datagram\<close>

datatype reply = ReplyAck | ReplyAlign pydict

definition handle_heartbeat ::
  "rat \<Rightarrow> rat \<Rightarrow> node_heartbeat \<Rightarrow> string \<times> int \<Rightarrow> ctl_server \<Rightarrow> reply list \<times> ctl_server" where
  "handle_heartbeat now wall hb addr s =
     (let (patch, reg) = update_heartbeat now wall hb addr (sv_radio s) (sv_registry s);
          s = s\<lparr>sv_registry := reg\<rparr>;
          patch = (if sv_radio_error s \<or> (sv_session s \<noteq> None \<and> hb_node_id hb \<in> sv_expected s)
                   then None else patch)
      in (case patch of None \<Rightarrow> [ReplyAck] | Some p \<Rightarrow> [ReplyAck, ReplyAlign p], s))"

definition handle_task_ready :: "pydict \<Rightarrow> ctl_server \<Rightarrow> reply list option \<times> ctl_server" where
  "handle_task_ready p s = (case (as_str (dget p ''job_id''), as_int (dget p ''node_id'')) of
     (Some job, Some nid) \<Rightarrow> (Some [ReplyAck], record_task_ready (job, nid) s)
   | _ \<Rightarrow> (None, s))"

text \<open>The result is what is sent back (\<open>None\<close>: nothing), or the exception that escapes to the
  receive loop, which drops the datagram.\<close>

definition handle_datagram ::
  "rat \<Rightarrow> rat \<Rightarrow> pyval option \<Rightarrow> string \<times> int \<Rightarrow> ctl_server \<Rightarrow> reply list option res \<times> ctl_server"
where
  "handle_datagram now wall payload addr s = (case payload of
     None \<Rightarrow> (Inr None, s)
   | Some v \<Rightarrow> (case as_dict v of
       None \<Rightarrow> (Inr None, s)
     | Some p \<Rightarrow>
         let t = dget p ''type'' in
         if t = PStr ''RADIO_SWITCH_FINALIZED_ACK'' then (Inr None, record_finalized_ack p s)
         else if t = PStr ''RADIO_SWITCH_CONFIRMED_ACK'' then (Inr None, record_confirmed_ack p s)
         else if t = PStr ''TASK_READY'' then
           (case handle_task_ready p s of (r, s') \<Rightarrow> (Inr r, s'))
         else if t = PStr ''PREPARE_ACK'' then
           (case pa_from_dict v of
              Inl e \<Rightarrow> (Inl e, s)
            | Inr ack \<Rightarrow> (Inr (Some [ReplyAck]), record_prepare_ack ack s))
         else if t = PStr ''COMMIT_SUCCESS'' then
           (case cs_from_dict v of
              Inl e \<Rightarrow> (Inl e, s)
            | Inr cs \<Rightarrow> (Inr (Some [ReplyAck]), record_commit_success cs s))
         else
           (case hb_from_dict v of
              Inl e \<Rightarrow> (Inl e, s)
            | Inr hb \<Rightarrow> (case handle_heartbeat now wall hb addr s of (r, s') \<Rightarrow> (Inr (Some r), s')))))"

section \<open>The barrier contract\<close>

locale ack_barrier =
  fixes record_msg :: "'m \<Rightarrow> 's \<Rightarrow> 's"
    and sender :: "'m \<Rightarrow> int option"
    and matches :: "'m \<Rightarrow> 's \<Rightarrow> bool"
    and expected :: "'s \<Rightarrow> int set"
    and acked :: "'s \<Rightarrow> int set"
    and event :: "'s \<Rightarrow> bool"
  assumes expected_same: "expected (record_msg m s) = expected s"
    and matches_same: "matches m' (record_msg m s) = matches m' s"
    and acked_hit: "sender m = Some n \<Longrightarrow> matches m s \<Longrightarrow> n \<in> expected s \<Longrightarrow>
      acked (record_msg m s) = insert n (acked s)"
    and event_hit: "sender m = Some n \<Longrightarrow> matches m s \<Longrightarrow> n \<in> expected s \<Longrightarrow>
      event (record_msg m s) = (event s \<or> expected s \<subseteq> insert n (acked s))"
    and miss: "sender m = None \<or> \<not> matches m s \<or> (\<exists>n. sender m = Some n \<and> n \<notin> expected s) \<Longrightarrow>
      record_msg m s = s"
begin

definition hits :: "'m list \<Rightarrow> 's \<Rightarrow> int set" where
  "hits ms s = {n \<in> expected s. \<exists>m \<in> set ms. sender m = Some n \<and> matches m s}"

lemma record_hits: "acked (record_msg m s) = acked s \<union> hits [m] s"
proof (cases "\<exists>n \<in> expected s. sender m = Some n \<and> matches m s")
  case True
  then show ?thesis by (auto simp: hits_def acked_hit)
next
  case False
  then have "record_msg m s = s" by (intro miss) (cases "sender m"; auto)
  with False show ?thesis by (auto simp: hits_def)
qed

lemma hits_record: "hits ms (record_msg m s) = hits ms s"
  by (simp add: hits_def expected_same matches_same)

lemma expected_fold: "expected (fold record_msg ms s) = expected s"
  by (induction ms arbitrary: s) (simp_all add: expected_same)

text \<open>Order, repetition and strangers do not matter.\<close>

lemma acked_fold: "acked (fold record_msg ms s) = acked s \<union> hits ms s"
proof (induction ms arbitrary: s)
  case Nil
  show ?case by (simp add: hits_def)
next
  case (Cons m ms)
  have "hits (m # ms) s = hits [m] s \<union> hits ms s" by (auto simp: hits_def)
  with Cons.IH [of "record_msg m s"] show ?case
    by (simp add: hits_record record_hits Un_assoc)
qed

lemma event_record:
  "event (record_msg m s) \<longleftrightarrow> event s \<or> (hits [m] s \<noteq> {} \<and> expected s \<subseteq> acked s \<union> hits [m] s)"
proof (cases "\<exists>n \<in> expected s. sender m = Some n \<and> matches m s")
  case True
  then obtain n where n: "n \<in> expected s" "sender m = Some n" "matches m s" by blast
  then have "hits [m] s = {n}" by (auto simp: hits_def)
  with n show ?thesis by (simp add: event_hit)
next
  case False
  then have "record_msg m s = s" by (intro miss) (cases "sender m"; auto)
  with False show ?thesis by (auto simp: hits_def)
qed

text \<open>From an incomplete barrier with its event clear, the event is set exactly at completion.\<close>

lemma event_fold:
  assumes "\<not> expected s \<subseteq> acked s" and "\<not> event s"
  shows "event (fold record_msg ms s) \<longleftrightarrow> expected s \<subseteq> acked (fold record_msg ms s)"
proof (induction ms rule: rev_induct)
  case Nil
  show ?case using assms by simp
next
  case (snoc m ms)
  let ?t = "fold record_msg ms s"
  have exp: "expected ?t = expected s" by (rule expected_fold)
  have "event (record_msg m ?t) \<longleftrightarrow>
      event ?t \<or> (hits [m] ?t \<noteq> {} \<and> expected s \<subseteq> acked ?t \<union> hits [m] ?t)"
    by (simp add: event_record exp)
  moreover have "acked (record_msg m ?t) = acked ?t \<union> hits [m] ?t" by (rule record_hits)
  ultimately show ?case using snoc by auto
qed

lemma complete_iff_all_heard:
  assumes "acked s = {}" and "expected s \<noteq> {}" and "\<not> event s"
  shows "event (fold record_msg ms s) \<longleftrightarrow>
    (\<forall>n \<in> expected s. \<exists>m \<in> set ms. sender m = Some n \<and> matches m s)"
  using event_fold [of s ms] assms by (auto simp: acked_fold hits_def)

end

section \<open>The server's barriers\<close>

abbreviation task_matches :: "string \<times> int \<Rightarrow> ctl_server \<Rightarrow> bool" where
  "task_matches m s \<equiv> sv_task_job s = Some (fst m)"

abbreviation prepare_matches :: "prepare_ack \<Rightarrow> ctl_server \<Rightarrow> bool" where
  "prepare_matches a s \<equiv> sv_session s = Some (pa_session_id a) \<and> sv_phase s = Some PREPARE"

abbreviation commit_matches :: "commit_success \<Rightarrow> ctl_server \<Rightarrow> bool" where
  "commit_matches a s \<equiv> sv_session s = Some (cs_session_id a) \<and> sv_phase s = Some COMMIT \<and>
     sv_target_channel s = Some (cs_current_channel a)"

interpretation task: ack_barrier record_task_ready "\<lambda>m. Some (snd m)" task_matches
  sv_task_expected sv_task_ready sv_task_event
  by unfold_locales (auto simp: record_task_ready_def Let_def split: prod.splits)

interpretation prep: ack_barrier record_prepare_ack "\<lambda>a. Some (pa_node_id a)" prepare_matches
  sv_expected "\<lambda>s. fst ` set (sv_prepare_acks s)" sv_prepare_event
  by unfold_locales (auto simp: record_prepare_ack_def Let_def fst_set_update)

interpretation comm: ack_barrier record_commit_success "\<lambda>a. Some (cs_node_id a)" commit_matches
  sv_expected "\<lambda>s. fst ` set (sv_commit_successes s)" sv_commit_event
  by unfold_locales (auto simp: record_commit_success_def Let_def fst_set_update)

interpretation fin: ack_barrier record_finalized_ack "\<lambda>p. as_int (dget p ''node_id'')"
  "final_ack_matches FINALIZED" sv_expected sv_finalized_acks sv_barrier_event
  by unfold_locales
    (auto simp: record_finalized_ack_def Let_def final_ack_matches_def split: option.splits)

interpretation conf: ack_barrier record_confirmed_ack "\<lambda>p. as_int (dget p ''node_id'')"
  "final_ack_matches CONFIRMED" sv_expected sv_confirmed_acks sv_barrier_event
  by unfold_locales
    (auto simp: record_confirmed_ack_def Let_def final_ack_matches_def split: option.splits)

section \<open>Guarantees\<close>

text \<open>The barriers fire exactly when complete. From a session just opened, the PREPARE and COMMIT events
  are set by a sequence of acknowledgements - in any order, with repetitions, from strangers, for
  other sessions, phases or channels - exactly when every expected node has sent a matching one.\<close>

theorem barriers_fire_exactly:
  assumes "sv_expected s \<noteq> {}" and "sv_prepare_acks s = []" and "sv_commit_successes s = []"
    and "\<not> sv_prepare_event s" and "\<not> sv_commit_event s"
  shows "(sv_prepare_event (fold record_prepare_ack ps s) \<longleftrightarrow>
      (\<forall>n \<in> sv_expected s. \<exists>a \<in> set ps. pa_node_id a = n \<and> prepare_matches a s)) \<and>
    (sv_commit_event (fold record_commit_success cs s) \<longleftrightarrow>
      (\<forall>n \<in> sv_expected s. \<exists>a \<in> set cs. cs_node_id a = n \<and> commit_matches a s))"
  using prep.complete_iff_all_heard [of s ps] comm.complete_iff_all_heard [of s cs] assms by simp

definition waiting_server :: ctl_server where
  "waiting_server = (server_init default_radio_config 10)
     \<lparr>sv_session := Some ''s1'', sv_phase := Some PREPARE, sv_expected := {1, 2}\<rparr>"

definition sample_pa :: "int \<Rightarrow> prepare_ack" where
  "sample_pa n = \<lparr>pa_node_id = n, pa_session_id = ''s1'', pa_ok = True, pa_error = PNone,
     pa_timestamp_ms = PInt 1\<rparr>"

theorem barriers_fire_exactly_witness:
  "sv_prepare_event (fold record_prepare_ack [sample_pa 2, sample_pa 7, sample_pa 1, sample_pa 2] waiting_server) \<and>
   \<not> sv_prepare_event (fold record_prepare_ack [sample_pa 2, sample_pa 2] waiting_server)"
  using barriers_fire_exactly [of waiting_server "[sample_pa 2, sample_pa 7, sample_pa 1, sample_pa 2]"]
    barriers_fire_exactly [of waiting_server "[sample_pa 2, sample_pa 2]"]
  by (simp add: waiting_server_def server_init_def sample_pa_def)

end
