(* ===== verification/Radio_Reconf.thy ===== *)
theory Radio_Reconf
  imports Control_Server
begin

text \<open>
  \<open>ControlPlaneServer.reconfigure_radio\<close> of \<^verbatim>\<open>wfb_ng/fl/control.py\<close>: the lease-protected radio switch
  with its PREPARE, COMMIT, FINALIZED and CONFIRMED phases. The method blocks on events and sleeps;
  the code between two blocking points is one \<^emph>\<open>turn\<close>, a function of the transaction's local
  variables (\<open>txn\<close>, with the point reached in \<open>tx_pc\<close>), the server state, and an environment that
  gives the clock reading of the turn and says which broadcasts and hardware calls raise. A turn
  returns the broadcasts it attempted, in order (one that raises may still have been delivered).
  \<open>turn_enabled\<close> is the condition on which the wait before the turn ends. The \<^verbatim>\<open>except\<close> and
  \<^verbatim>\<open>finally\<close> blocks are \<open>reconf_fail\<close> and \<open>cleanup\<close>.
\<close>

section \<open>The transaction\<close>

datatype switch_status = SwFinalized | SwRolledBack | SwRadioError

record switch_result =
  rr_session :: string
  rr_target_channel :: int
  rr_patch :: pydict
  rr_status :: switch_status
  rr_effective :: "radio_config option"
  rr_error :: "string option"
  rr_failed_phase :: "switch_phase option"
  rr_unresponsive :: "int list"

definition rr_success :: "switch_result \<Rightarrow> bool" where
  "rr_success r \<longleftrightarrow> rr_status r = SwFinalized"

datatype server_hw = SrvSetChannel int string | SrvSetTxpower int | SrvRadioApplied radio_config

record turn_env =
  te_now :: rat
  te_send :: "pydict \<Rightarrow> exn option"
  te_hw :: "server_hw \<Rightarrow> exn option"

text \<open>Where the method is: waiting for a deadline and a wake-up time, returned, or raised.\<close>

datatype txn_pc =
    PcPrepare rat
  | PcDelay rat
  | PcPing rat rat
  | PcFinal rat rat
  | PcConfirm rat rat
  | PcResult switch_result
  | PcRaise exn

record txn =
  tx_session :: string
  tx_targets :: "int list"
  tx_previous :: radio_config
  tx_updated :: radio_config
  tx_patch :: pydict
  tx_committed :: bool
  tx_commit_sent :: bool
  tx_phase :: switch_phase
  tx_delay :: rat
  tx_commit_timeout :: rat
  tx_lease_timeout :: rat
  tx_ping_interval :: rat
  tx_pc :: txn_pc

definition switch_width :: "int \<Rightarrow> string" where
  "switch_width channel = (if channel = 165 then ''HT20'' else ''HT40+'')"

definition py_trunc :: "rat \<Rightarrow> int" where
  "py_trunc r = (if 0 \<le> r then \<lfloor>r\<rfloor> else \<lceil>r\<rceil>)"

definition sw_message :: "string \<Rightarrow> string \<Rightarrow> int list \<Rightarrow> pydict \<Rightarrow> pydict" where
  "sw_message kind sid targets extra =
     [(''type'', PStr kind), (''session_id'', PStr sid),
      (''target_nodes'', PList (map PInt targets))] @ extra"

definition tx_message :: "txn \<Rightarrow> string \<Rightarrow> pydict \<Rightarrow> pydict" where
  "tx_message tx kind extra = sw_message kind (tx_session tx) (tx_targets tx) extra"

definition msg_ping :: "txn \<Rightarrow> pydict" where
  "msg_ping tx = tx_message tx ''NEW_CHANNEL_PING'' [(''channel'', PInt (rc_channel (tx_updated tx)))]"

definition msg_barrier :: "txn \<Rightarrow> string \<Rightarrow> pydict" where
  "msg_barrier tx kind = tx_message tx kind
     [(''channel'', PInt (rc_channel (tx_updated tx))), (''patch'', PDict (tx_patch tx))]"

definition msg_abort :: "txn \<Rightarrow> int \<Rightarrow> string \<Rightarrow> pydict" where
  "msg_abort tx ch reason = tx_message tx ''CONFIG_RADIO_ABORT''
     [(''channel'', PInt ch), (''reason'', PStr reason)]"

section \<open>Who is missing\<close>

definition prepare_ok :: "ctl_server \<Rightarrow> int \<Rightarrow> bool" where
  "prepare_ok s n \<longleftrightarrow> (\<exists>(k, a) \<in> set (sv_prepare_acks s). k = n \<and> pa_ok a)"

definition missing_in :: "switch_phase \<Rightarrow> ctl_server \<Rightarrow> int list \<Rightarrow> int list" where
  "missing_in ph s targets = (case ph of
     PREPARE \<Rightarrow> filter (\<lambda>n. \<not> prepare_ok s n) targets
   | COMMIT \<Rightarrow> filter (\<lambda>n. n \<notin> fst ` set (sv_commit_successes s)) targets
   | FINALIZED \<Rightarrow> filter (\<lambda>n. n \<notin> sv_finalized_acks s) targets
   | CONFIRMED \<Rightarrow> filter (\<lambda>n. n \<notin> sv_confirmed_acks s) targets)"

section \<open>The exception path\<close>

definition cleanup :: "ctl_server \<Rightarrow> ctl_server" where
  "cleanup s =
     s\<lparr>sv_session := None, sv_target_channel := None, sv_phase := None, sv_expected := {},
       sv_prepare_acks := [], sv_commit_successes := [], sv_finalized_acks := {},
       sv_confirmed_acks := {}, sv_prepare_event := False, sv_commit_event := False,
       sv_barrier_event := False\<rparr>"

definition restore_ops :: "radio_config \<Rightarrow> radio_config \<Rightarrow> server_hw list" where
  "restore_ops previous fallback =
     [SrvSetChannel DEFAULT_BENCHMARK_CHANNEL (switch_width DEFAULT_BENCHMARK_CHANNEL),
      SrvSetTxpower (rc_txpower previous), SrvRadioApplied fallback]"

text \<open>All restores are attempted; the errors are collected.\<close>

definition restore_errors :: "turn_env \<Rightarrow> server_hw list \<Rightarrow> string list" where
  "restore_errors env ops = map exn_str (List.map_filter (te_hw env) ops)"

definition result_of ::
  "txn \<Rightarrow> switch_status \<Rightarrow> radio_config option \<Rightarrow> string option \<Rightarrow> switch_phase option \<Rightarrow> int list \<Rightarrow>
   switch_result" where
  "result_of tx st eff err ph un =
     \<lparr>rr_session = tx_session tx, rr_target_channel = rc_channel (tx_updated tx),
      rr_patch = tx_patch tx, rr_status = st, rr_effective = eff, rr_error = err,
      rr_failed_phase = ph, rr_unresponsive = un\<rparr>"

definition finish_failed ::
  "txn \<Rightarrow> switch_status \<Rightarrow> radio_config option \<Rightarrow> string \<Rightarrow> ctl_server \<Rightarrow> pydict list \<Rightarrow>
   txn \<times> ctl_server \<times> pydict list" where
  "finish_failed tx st eff err s outs =
     (let s = (if st = SwRadioError then s\<lparr>sv_radio_error := True\<rparr> else s);
          r = result_of tx st eff (Some err) (Some (tx_phase tx))
                (missing_in (tx_phase tx) s (tx_targets tx))
      in (tx\<lparr>tx_pc := PcResult r\<rparr>, cleanup s, outs))"

definition reconf_fail ::
  "turn_env \<Rightarrow> exn \<Rightarrow> txn \<Rightarrow> ctl_server \<Rightarrow> pydict list \<Rightarrow> txn \<times> ctl_server \<times> pydict list" where
  "reconf_fail env e tx s outs =
     (if tx_committed tx then
        finish_failed tx SwRadioError (Some (tx_updated tx)) (exn_str e) s outs
      else
        (case validate_radio_patch (PDict [(''channel'', PInt DEFAULT_BENCHMARK_CHANNEL)])
               (tx_previous tx) of
           Inl e' \<Rightarrow> (tx\<lparr>tx_pc := PcRaise e'\<rparr>, cleanup s, outs)
         | Inr fallback \<Rightarrow>
             let early = (if tx_commit_sent tx then []
                          else [msg_abort tx (rc_channel (tx_previous tx)) (exn_str e)]);
                 errs = restore_errors env (restore_ops (tx_previous tx) fallback)
             in if errs \<noteq> [] then
                  (let err = exn_str e @ ''; restore failed: '' @ concat errs;
                       a = msg_abort tx DEFAULT_BENCHMARK_CHANNEL err
                   in finish_failed tx SwRadioError None err s (outs @ early @ [a, a]))
                else
                  (let a = msg_abort tx DEFAULT_BENCHMARK_CHANNEL (exn_str e)
                   in finish_failed tx SwRolledBack (Some fallback) (exn_str e)
                        (update_radio_config fallback s) (outs @ early @ [a, a]))))"

section \<open>The turns\<close>

text \<open>From the lock being taken to the first wait.\<close>

record switch_timeouts =
  to_prepare :: rat
  to_commit_delay :: rat
  to_commit :: rat
  to_lease :: rat
  to_ping :: rat

definition default_timeouts :: switch_timeouts where
  "default_timeouts =
     \<lparr>to_prepare = 5, to_commit_delay = 2, to_commit = 10, to_lease = 15, to_ping = 1\<rparr>"

definition online_targets :: "rat \<Rightarrow> ctl_server \<Rightarrow> int list" where
  "online_targets now s =
     map fst (filter (\<lambda>(_, r). nr_readiness r = READY \<or> nr_readiness r = ACTIVE)
       (get_all_nodes now (sv_registry s)))"

definition open_session :: "string \<Rightarrow> int list \<Rightarrow> int \<Rightarrow> ctl_server \<Rightarrow> ctl_server" where
  "open_session sid targets ch s =
     s\<lparr>sv_session := Some sid, sv_target_channel := Some ch, sv_expected := set targets,
       sv_prepare_acks := [], sv_commit_successes := [], sv_finalized_acks := {},
       sv_confirmed_acks := {}, sv_prepare_event := False, sv_commit_event := False,
       sv_barrier_event := False, sv_phase := Some PREPARE\<rparr>"

datatype begin_result =
    Refused exn
  | NoTargets switch_result
  | Started txn ctl_server "pydict list"

definition begin_targets :: "rat \<Rightarrow> int list \<Rightarrow> ctl_server \<Rightarrow> int list" where
  "begin_targets now target_nodes s =
     sort (remdups (if target_nodes \<noteq> [] then target_nodes else online_targets now s))"

definition new_txn ::
  "rat \<Rightarrow> string \<Rightarrow> int list \<Rightarrow> radio_config \<Rightarrow> radio_config \<Rightarrow> pydict \<Rightarrow> switch_timeouts \<Rightarrow> txn" where
  "new_txn now sid targets previous updated npatch tmo =
     \<lparr>tx_session = sid, tx_targets = targets, tx_previous = previous,
      tx_updated = updated, tx_patch = npatch, tx_committed = False,
      tx_commit_sent = False, tx_phase = PREPARE, tx_delay = to_commit_delay tmo,
      tx_commit_timeout = to_commit tmo, tx_lease_timeout = to_lease tmo,
      tx_ping_interval = to_ping tmo, tx_pc = PcPrepare (now + to_prepare tmo)\<rparr>"

definition msg_prepare :: "txn \<Rightarrow> switch_timeouts \<Rightarrow> pydict" where
  "msg_prepare tx tmo = tx_message tx ''CONFIG_RADIO_PREPARE''
     [(''patch'', PDict (tx_patch tx)), (''timeout_seconds'', PFloat (Fin (to_prepare tmo)))]"

definition reconf_begin ::
  "turn_env \<Rightarrow> string \<Rightarrow> int list \<Rightarrow> pyval \<Rightarrow> switch_timeouts \<Rightarrow> ctl_server \<Rightarrow> begin_result" where
  "reconf_begin env sid target_nodes patch tmo s =
     (if sv_radio_error s then Refused (fl_error ''radio_error'' ''radio state unconfirmed'')
      else case normalize_radio_patch patch of
        Inl e \<Rightarrow> Refused e
      | Inr npatch \<Rightarrow> (case validate_radio_patch (PDict npatch) (sv_radio s) of
          Inl e \<Rightarrow> Refused e
        | Inr updated \<Rightarrow>
            let targets = begin_targets (te_now env) target_nodes s;
                tx = new_txn (te_now env) sid targets (sv_radio s) updated npatch tmo
            in if targets = [] then
                 NoTargets (result_of (tx\<lparr>tx_session := []\<rparr>) SwRolledBack (Some (sv_radio s))
                   (Some ''no online target'') (Some PREPARE) [])
               else
                 let s' = open_session sid targets (rc_channel updated) s;
                     m = msg_prepare tx tmo
                 in (case te_send env m of
                       Some e \<Rightarrow> (case reconf_fail env e tx s' [m] of (tx', s'', o') \<Rightarrow> Started tx' s'' o')
                     | None \<Rightarrow> Started tx s' [m])))"

definition prepared_turn :: "turn_env \<Rightarrow> txn \<Rightarrow> ctl_server \<Rightarrow> txn \<times> ctl_server \<times> pydict list" where
  "prepared_turn env tx s =
     (if missing_in PREPARE s (tx_targets tx) \<noteq> []
      then reconf_fail env (TimeoutError ''nodes missing or not prepared'') tx s []
      else
        let s = s\<lparr>sv_phase := Some COMMIT\<rparr>;
            tx = tx\<lparr>tx_phase := COMMIT, tx_commit_sent := True\<rparr>;
            m = tx_message tx ''CONFIG_RADIO_COMMIT''
                  [(''patch'', PDict (tx_patch tx)), (''delay_ms'', PInt (py_trunc (tx_delay tx * 1000))),
                   (''lease_timeout_seconds'', PFloat (Fin (tx_lease_timeout tx)))]
        in (case te_send env m of
              Some e \<Rightarrow> reconf_fail env e tx s [m]
            | None \<Rightarrow> (tx\<lparr>tx_pc := PcDelay (te_now env + max 0 (tx_delay tx))\<rparr>, s, [m])))"

definition apply_ops :: "txn \<Rightarrow> server_hw list" where
  "apply_ops tx =
     (if rc_channel (tx_updated tx) \<noteq> rc_channel (tx_previous tx)
      then [SrvSetChannel (rc_channel (tx_updated tx)) (switch_width (rc_channel (tx_updated tx)))]
      else []) @
     (if rc_txpower (tx_updated tx) \<noteq> rc_txpower (tx_previous tx)
      then [SrvSetTxpower (rc_txpower (tx_updated tx))] else []) @
     [SrvRadioApplied (tx_updated tx)]"

fun first_error :: "turn_env \<Rightarrow> server_hw list \<Rightarrow> exn option" where
  "first_error env [] = None"
| "first_error env (x # xs) = (case te_hw env x of Some e \<Rightarrow> Some e | None \<Rightarrow> first_error env xs)"

definition apply_turn :: "turn_env \<Rightarrow> txn \<Rightarrow> ctl_server \<Rightarrow> txn \<times> ctl_server \<times> pydict list" where
  "apply_turn env tx s = (case first_error env (apply_ops tx) of
     Some e \<Rightarrow> reconf_fail env e tx s []
   | None \<Rightarrow>
       (tx\<lparr>tx_pc := PcPing (te_now env + tx_commit_timeout tx) (te_now env)\<rparr>,
        update_radio_config (tx_updated tx) s, []))"

definition ping_turn :: "turn_env \<Rightarrow> rat \<Rightarrow> txn \<Rightarrow> ctl_server \<Rightarrow> txn \<times> ctl_server \<times> pydict list" where
  "ping_turn env deadline tx s = (case te_send env (msg_ping tx) of
     Some e \<Rightarrow> reconf_fail env e tx s [msg_ping tx]
   | None \<Rightarrow>
       if missing_in COMMIT s (tx_targets tx) = [] then
         (tx\<lparr>tx_phase := FINALIZED,
             tx_pc := PcFinal (te_now env + tx_commit_timeout tx) (te_now env)\<rparr>,
          s\<lparr>sv_phase := Some FINALIZED, sv_barrier_event := False\<rparr>, [msg_ping tx])
       else
         let remaining = deadline - te_now env in
         if remaining \<le> 0 then
           reconf_fail env (TimeoutError ''new channel check-in timeout'') tx s [msg_ping tx]
         else (tx\<lparr>tx_pc := PcPing deadline (te_now env + min (tx_ping_interval tx) remaining)\<rparr>, s,
               [msg_ping tx]))"

definition barrier_wake :: "turn_env \<Rightarrow> rat \<Rightarrow> txn \<Rightarrow> rat" where
  "barrier_wake env deadline tx =
     te_now env + max 0 (min (tx_ping_interval tx) (deadline - te_now env))"

definition final_turn :: "turn_env \<Rightarrow> rat \<Rightarrow> txn \<Rightarrow> ctl_server \<Rightarrow> txn \<times> ctl_server \<times> pydict list" where
  "final_turn env deadline tx s =
     (let p = msg_ping tx; m = msg_barrier tx ''RADIO_SWITCH_FINALIZED'' in
      if \<not> te_now env < deadline then reconf_fail env (TimeoutError ''FINALIZED ACK timeout'') tx s []
      else case te_send env p of
        Some e \<Rightarrow> reconf_fail env e tx s [p]
      | None \<Rightarrow> (case te_send env m of
          Some e \<Rightarrow> reconf_fail env e tx s [p, m]
        | None \<Rightarrow>
            if missing_in FINALIZED s (tx_targets tx) = [] then
              (tx\<lparr>tx_committed := True, tx_phase := CONFIRMED,
                  tx_pc := PcConfirm (te_now env + tx_commit_timeout tx) (te_now env)\<rparr>,
               s\<lparr>sv_phase := Some CONFIRMED, sv_barrier_event := False\<rparr>, [p, m])
            else (tx\<lparr>tx_pc := PcFinal deadline (barrier_wake env deadline tx)\<rparr>,
                  s\<lparr>sv_barrier_event := False\<rparr>, [p, m])))"

definition confirm_turn :: "turn_env \<Rightarrow> rat \<Rightarrow> txn \<Rightarrow> ctl_server \<Rightarrow> txn \<times> ctl_server \<times> pydict list" where
  "confirm_turn env deadline tx s =
     (let m = msg_barrier tx ''RADIO_SWITCH_CONFIRMED'' in
      if \<not> te_now env < deadline then reconf_fail env (TimeoutError ''CONFIRMED ACK timeout'') tx s []
      else case te_send env m of
        Some e \<Rightarrow> reconf_fail env e tx s [m]
      | None \<Rightarrow>
          if missing_in CONFIRMED s (tx_targets tx) = [] then
            (tx\<lparr>tx_pc := PcResult (result_of tx SwFinalized (Some (tx_updated tx)) None None [])\<rparr>,
             cleanup s, [m])
          else (tx\<lparr>tx_pc := PcConfirm deadline (barrier_wake env deadline tx)\<rparr>,
                s\<lparr>sv_barrier_event := False\<rparr>, [m]))"

fun reconf_turn :: "turn_env \<Rightarrow> txn \<Rightarrow> ctl_server \<Rightarrow> txn \<times> ctl_server \<times> pydict list" where
  "reconf_turn env tx s = (case tx_pc tx of
     PcPrepare w \<Rightarrow> prepared_turn env tx s
   | PcDelay w \<Rightarrow> apply_turn env tx s
   | PcPing d w \<Rightarrow> ping_turn env d tx s
   | PcFinal d w \<Rightarrow> final_turn env d tx s
   | PcConfirm d w \<Rightarrow> confirm_turn env d tx s
   | PcResult r \<Rightarrow> (tx, s, [])
   | PcRaise e \<Rightarrow> (tx, s, []))"

declare reconf_turn.simps [simp del]

definition turn_enabled :: "rat \<Rightarrow> txn \<Rightarrow> ctl_server \<Rightarrow> bool" where
  "turn_enabled now tx s = (case tx_pc tx of
     PcPrepare w \<Rightarrow> sv_prepare_event s \<or> w \<le> now
   | PcDelay w \<Rightarrow> w \<le> now
   | PcPing d w \<Rightarrow> sv_commit_event s \<or> w \<le> now
   | PcFinal d w \<Rightarrow> sv_barrier_event s \<or> w \<le> now
   | PcConfirm d w \<Rightarrow> sv_barrier_event s \<or> w \<le> now
   | PcResult r \<Rightarrow> False
   | PcRaise e \<Rightarrow> False)"

definition tx_active :: "txn \<Rightarrow> bool" where
  "tx_active tx = (case tx_pc tx of PcResult r \<Rightarrow> False | PcRaise e \<Rightarrow> False | _ \<Rightarrow> True)"

lemmas turn_defs = prepared_turn_def apply_turn_def ping_turn_def final_turn_def confirm_turn_def

section \<open>The exception path\<close>

lemma cleanup_fields [simp]:
  "sv_radio (cleanup s) = sv_radio s" "sv_radio_error (cleanup s) = sv_radio_error s"
  "sv_session (cleanup s) = None" "sv_phase (cleanup s) = None" "sv_expected (cleanup s) = {}"
  "sv_registry (cleanup s) = sv_registry s"
  by (simp_all add: cleanup_def)

lemma finish_failed_eq:
  "finish_failed tx st eff err s outs = (tx', s', o') \<longleftrightarrow>
   (let t = (if st = SwRadioError then s\<lparr>sv_radio_error := True\<rparr> else s) in
    s' = cleanup t \<and> o' = outs \<and>
    tx' = tx\<lparr>tx_pc := PcResult (result_of tx st eff (Some err) (Some (tx_phase tx))
                   (missing_in (tx_phase tx) t (tx_targets tx)))\<rparr>)"
  by (auto simp: finish_failed_def Let_def)

text \<open>How a failed call ends: never with \<open>SwFinalized\<close>, always with the session closed; rolled back
  only before the irreversible commit, and then on the fallback configuration; otherwise latched.\<close>

definition failed_outcome :: "txn \<Rightarrow> ctl_server \<Rightarrow> txn \<Rightarrow> ctl_server \<Rightarrow> bool" where
  "failed_outcome tx s tx' s' \<longleftrightarrow>
     sv_session s' = None \<and> sv_phase s' = None \<and> sv_expected s' = {} \<and>
     (case tx_pc tx' of
        PcResult r \<Rightarrow>
          rr_failed_phase r = Some (tx_phase tx) \<and> rr_session r = tx_session tx \<and>
          (rr_status r = SwRolledBack \<and> \<not> tx_committed tx \<and> sv_radio_error s' = sv_radio_error s \<and>
             rc_channel (sv_radio s') = DEFAULT_BENCHMARK_CHANNEL \<and>
             rc_txpower (sv_radio s') = rc_txpower (tx_previous tx) \<and>
             rc_uplink_mcs (sv_radio s') = rc_uplink_mcs (tx_previous tx) \<and>
             rr_effective r = Some (sv_radio s')
           \<or> rr_status r = SwRadioError \<and> sv_radio_error s' \<and> sv_radio s' = sv_radio s \<and>
             rr_effective r = (if tx_committed tx then Some (tx_updated tx) else None))
      | PcRaise e \<Rightarrow> \<not> rc_wf (tx_previous tx) \<and> \<not> tx_committed tx
      | _ \<Rightarrow> False)"

lemma benchmark_patch:
  assumes "rc_wf base"
  shows "validate_radio_patch (PDict [(''channel'', PInt DEFAULT_BENCHMARK_CHANNEL)]) base =
    Inr (base\<lparr>rc_channel := DEFAULT_BENCHMARK_CHANNEL\<rparr>)"
proof -
  let ?c = "base\<lparr>rc_channel := DEFAULT_BENCHMARK_CHANNEL\<rparr>"
  have "rc_wf ?c" using assms
    by (simp add: rc_wf_def radio_consts DEFAULT_BENCHMARK_CHANNEL_def)
  then have "validate_radio_config (PDict (rc_to_dict ?c)) = Inr ?c" by (rule rc_wf_roundtrip)
  moreover have "dict_update (rc_to_dict base) [(''channel'', PInt DEFAULT_BENCHMARK_CHANNEL)]
      = rc_to_dict ?c"
    by (simp add: rc_to_dict_def)
  ultimately show ?thesis
    by (simp add: validate_radio_patch_def normalize_radio_patch_idle ALLOWED_PATCH_KEYS_def)
qed

lemma reconf_fail_outcome:
  assumes "reconf_fail env e tx s outs = (tx', s', o')"
  shows "failed_outcome tx s tx' s'"
proof (cases "tx_committed tx")
  case True
  with assms show ?thesis
    by (auto simp: reconf_fail_def finish_failed_eq failed_outcome_def result_of_def Let_def)
next
  case False
  show ?thesis
  proof (cases "rc_wf (tx_previous tx)")
    case True
    with assms False show ?thesis
      by (auto simp: reconf_fail_def benchmark_patch finish_failed_eq failed_outcome_def
          result_of_def Let_def update_radio_config_def split: if_splits)
  next
    case wf: False
    show ?thesis
    proof (cases "validate_radio_patch (PDict [(''channel'', PInt DEFAULT_BENCHMARK_CHANNEL)])
        (tx_previous tx)")
      case (Inl e')
      with assms False wf show ?thesis
        by (auto simp: reconf_fail_def failed_outcome_def)
    next
      case (Inr fb)
      have one: "dict_wf [(''channel'', PInt DEFAULT_BENCHMARK_CHANNEL)]"
        by (simp add: dict_wf_def)
      have pv: "patch_value [(''channel'', PInt DEFAULT_BENCHMARK_CHANNEL)] ''radio_txpower_dbm'' = None"
        "patch_value [(''channel'', PInt DEFAULT_BENCHMARK_CHANNEL)] ''uplink_mcs'' = None"
        "patch_value [(''channel'', PInt DEFAULT_BENCHMARK_CHANNEL)] ''channel'' =
           Some (PInt DEFAULT_BENCHMARK_CHANNEL)"
        by (simp_all add: patch_value_def has_key_def)
      have fb: "rc_channel fb = DEFAULT_BENCHMARK_CHANNEL" "rc_txpower fb = rc_txpower (tx_previous tx)"
        "rc_uplink_mcs fb = rc_uplink_mcs (tx_previous tx)"
        using validate_radio_patch_fields(1) [OF Inr one]
          validate_radio_patch_unmentioned(2,4) [OF Inr one] pv
        by (simp_all add: patched_int_def)
      from assms False Inr fb show ?thesis
        by (auto simp: reconf_fail_def finish_failed_eq failed_outcome_def
            result_of_def Let_def update_radio_config_def split: if_splits)
    qed
  qed
qed

lemma failed_outcome_inactive: "failed_outcome tx s tx' s' \<Longrightarrow> \<not> tx_active tx'"
  by (auto simp: failed_outcome_def tx_active_def split: txn_pc.splits)

section \<open>The invariant of a running transaction\<close>

definition pc_phase_ok :: "txn \<Rightarrow> bool" where
  "pc_phase_ok tx = (case tx_pc tx of
     PcPrepare w \<Rightarrow> tx_phase tx = PREPARE \<and> \<not> tx_committed tx \<and> \<not> tx_commit_sent tx
   | PcDelay w \<Rightarrow> tx_phase tx = COMMIT \<and> \<not> tx_committed tx \<and> tx_commit_sent tx
   | PcPing d w \<Rightarrow> tx_phase tx = COMMIT \<and> \<not> tx_committed tx \<and> tx_commit_sent tx
   | PcFinal d w \<Rightarrow> tx_phase tx = FINALIZED \<and> \<not> tx_committed tx \<and> tx_commit_sent tx
   | PcConfirm d w \<Rightarrow> tx_phase tx = CONFIRMED \<and> tx_committed tx \<and> tx_commit_sent tx
   | _ \<Rightarrow> True)"

definition txn_inv :: "txn \<Rightarrow> ctl_server \<Rightarrow> bool" where
  "txn_inv tx s \<longleftrightarrow>
     sv_session s = Some (tx_session tx) \<and> sv_expected s = set (tx_targets tx) \<and>
     tx_targets tx \<noteq> [] \<and> sv_target_channel s = Some (rc_channel (tx_updated tx)) \<and>
     sv_phase s = Some (tx_phase tx) \<and> pc_phase_ok tx \<and> \<not> sv_radio_error s \<and>
     (tx_phase tx \<noteq> PREPARE \<longrightarrow> missing_in PREPARE s (tx_targets tx) = []) \<and>
     (tx_phase tx \<in> {FINALIZED, CONFIRMED} \<longrightarrow>
        missing_in COMMIT s (tx_targets tx) = [] \<and> sv_radio s = tx_updated tx) \<and>
     (tx_phase tx = CONFIRMED \<longrightarrow> missing_in FINALIZED s (tx_targets tx) = []) \<and>
     (case tx_pc tx of PcPing d w \<Rightarrow> sv_radio s = tx_updated tx | _ \<Rightarrow> True)"

text \<open>What a datagram leaves alone, and what it can only add.\<close>

lemmas record_defs = record_task_ready_def record_prepare_ack_def record_commit_success_def
  record_finalized_ack_def record_confirmed_ack_def Let_def

definition datagram_frame :: "ctl_server \<Rightarrow> ctl_server \<Rightarrow> bool" where
  "datagram_frame s s' \<longleftrightarrow>
     sv_session s' = sv_session s \<and> sv_expected s' = sv_expected s \<and>
     sv_target_channel s' = sv_target_channel s \<and> sv_phase s' = sv_phase s \<and>
     sv_radio s' = sv_radio s \<and> sv_radio_error s' = sv_radio_error s \<and>
     (sv_phase s \<noteq> Some PREPARE \<longrightarrow> sv_prepare_acks s' = sv_prepare_acks s) \<and>
     fst ` set (sv_commit_successes s) \<subseteq> fst ` set (sv_commit_successes s') \<and>
     sv_finalized_acks s \<subseteq> sv_finalized_acks s' \<and> sv_confirmed_acks s \<subseteq> sv_confirmed_acks s'"

lemma datagram_frame_refl [simp]: "datagram_frame s s"
  by (simp add: datagram_frame_def)

lemma record_frames:
  "datagram_frame s (record_task_ready m s)"
  "datagram_frame s (record_prepare_ack a s)"
  "datagram_frame s (record_commit_success c s)"
  "datagram_frame s (record_finalized_ack p s)"
  "datagram_frame s (record_confirmed_ack p s)"
  by (auto simp: datagram_frame_def record_defs fst_set_update split: prod.splits option.splits)

lemma heartbeat_frame: "handle_heartbeat now wall hb addr s = (r, s') \<Longrightarrow> datagram_frame s s'"
  by (auto simp: handle_heartbeat_def datagram_frame_def Let_def split: prod.splits)

lemma handle_datagram_frame:
  "handle_datagram now wall payload addr s = (r, s') \<Longrightarrow> datagram_frame s s'"
  by (auto simp: handle_datagram_def handle_task_ready_def Let_def record_frames
      split: option.splits sum.splits if_splits prod.splits dest: heartbeat_frame)

definition present_in :: "switch_phase \<Rightarrow> ctl_server \<Rightarrow> int \<Rightarrow> bool" where
  "present_in ph s n = (case ph of
     PREPARE \<Rightarrow> prepare_ok s n
   | COMMIT \<Rightarrow> n \<in> fst ` set (sv_commit_successes s)
   | FINALIZED \<Rightarrow> n \<in> sv_finalized_acks s
   | CONFIRMED \<Rightarrow> n \<in> sv_confirmed_acks s)"

lemma missing_in_Nil: "missing_in ph s ts = [] \<longleftrightarrow> (\<forall>n \<in> set ts. present_in ph s n)"
  by (cases ph) (auto simp: missing_in_def present_in_def filter_empty_conv)

lemma present_in_frame:
  assumes "datagram_frame s s'" and "present_in ph s n"
    and "ph = PREPARE \<Longrightarrow> sv_phase s \<noteq> Some PREPARE"
  shows "present_in ph s' n"
proof (cases ph)
  case PREPARE
  with assms show ?thesis by (simp add: present_in_def datagram_frame_def prepare_ok_def)
next
  case COMMIT
  from assms(1) have "fst ` set (sv_commit_successes s) \<subseteq> fst ` set (sv_commit_successes s')"
    by (simp add: datagram_frame_def)
  from subsetD [OF this, of n] assms(2) COMMIT show ?thesis by (simp add: present_in_def)
next
  case FINALIZED
  from assms(1) have "sv_finalized_acks s \<subseteq> sv_finalized_acks s'"
    by (simp add: datagram_frame_def)
  from subsetD [OF this, of n] assms(2) FINALIZED show ?thesis by (simp add: present_in_def)
next
  case CONFIRMED
  from assms(1) have "sv_confirmed_acks s \<subseteq> sv_confirmed_acks s'"
    by (simp add: datagram_frame_def)
  from subsetD [OF this, of n] assms(2) CONFIRMED show ?thesis by (simp add: present_in_def)
qed

lemma missing_in_frame:
  assumes "datagram_frame s s'" and "missing_in ph s ts = []"
    and "ph = PREPARE \<Longrightarrow> sv_phase s \<noteq> Some PREPARE"
  shows "missing_in ph s' ts = []"
  using assms(2) present_in_frame [OF assms(1) _ assms(3)] by (auto simp: missing_in_Nil)

lemma txn_inv_datagram:
  assumes "txn_inv tx s" and "datagram_frame s s'"
  shows "txn_inv tx s'"
  using assms missing_in_frame [OF assms(2)]
  by (auto simp: txn_inv_def datagram_frame_def split: txn_pc.splits)

lemma missing_in_upd [simp]:
  "missing_in ph (s\<lparr>sv_phase := x\<rparr>) ts = missing_in ph s ts"
  "missing_in ph (s\<lparr>sv_barrier_event := b\<rparr>) ts = missing_in ph s ts"
  "missing_in ph (s\<lparr>sv_radio := c\<rparr>) ts = missing_in ph s ts"
  by (cases ph; simp add: missing_in_def prepare_ok_def)+

text \<open>One turn keeps the invariant, returns success with every acknowledgement in, or fails.\<close>

definition success_outcome :: "txn \<Rightarrow> ctl_server \<Rightarrow> txn \<Rightarrow> ctl_server \<Rightarrow> bool" where
  "success_outcome tx s tx' s' \<longleftrightarrow>
     tx' = tx\<lparr>tx_pc := PcResult (result_of tx SwFinalized (Some (tx_updated tx)) None None [])\<rparr> \<and>
     s' = cleanup s \<and> tx_committed tx \<and> tx_phase tx = CONFIRMED \<and>
     (\<forall>ph. missing_in ph s (tx_targets tx) = [])"

definition fails_from :: "txn \<Rightarrow> ctl_server \<Rightarrow> txn \<Rightarrow> ctl_server \<Rightarrow> bool" where
  "fails_from tx s tx' s' \<longleftrightarrow>
     (\<exists>tx1 s1. failed_outcome tx1 s1 tx' s' \<and> tx_committed tx1 = tx_committed tx \<and>
        tx_previous tx1 = tx_previous tx \<and> tx_updated tx1 = tx_updated tx \<and>
        tx_session tx1 = tx_session tx \<and> sv_radio s1 = sv_radio s \<and>
        sv_radio_error s1 = sv_radio_error s)"

lemma fails_fromI:
  "reconf_fail env e tx1 s1 outs = (tx', s', o') \<Longrightarrow> tx_committed tx1 = tx_committed tx \<Longrightarrow>
   tx_previous tx1 = tx_previous tx \<Longrightarrow> tx_updated tx1 = tx_updated tx \<Longrightarrow>
   tx_session tx1 = tx_session tx \<Longrightarrow> sv_radio s1 = sv_radio s \<Longrightarrow>
   sv_radio_error s1 = sv_radio_error s \<Longrightarrow> fails_from tx s tx' s'"
  unfolding fails_from_def by (blast dest: reconf_fail_outcome)

lemma reconf_turn_cases:
  assumes turn: "reconf_turn env tx s = (tx', s', outs)" and inv: "txn_inv tx s"
    and act: "tx_active tx"
  shows "txn_inv tx' s' \<and> tx_active tx' \<or> success_outcome tx s tx' s' \<or> fails_from tx s tx' s'"
proof (cases "tx_pc tx")
  case (PcPrepare w)
  with turn have t: "prepared_turn env tx s = (tx', s', outs)" by (simp add: reconf_turn.simps)
  show ?thesis
  proof (cases "missing_in PREPARE s (tx_targets tx) = []")
    case True
    let ?tx = "tx\<lparr>tx_phase := COMMIT, tx_commit_sent := True\<rparr>"
    let ?m = "tx_message ?tx ''CONFIG_RADIO_COMMIT''
      [(''patch'', PDict (tx_patch tx)), (''delay_ms'', PInt (py_trunc (tx_delay tx * 1000))),
       (''lease_timeout_seconds'', PFloat (Fin (tx_lease_timeout tx)))]"
    show ?thesis
    proof (cases "te_send env ?m")
      case None
      with True t have eq: "tx' = ?tx\<lparr>tx_pc := PcDelay (te_now env + max 0 (tx_delay tx))\<rparr>"
        "s' = s\<lparr>sv_phase := Some COMMIT\<rparr>"
        by (simp_all add: prepared_turn_def Let_def)
      from inv PcPrepare True have "txn_inv tx' s'"
        unfolding eq by (simp add: txn_inv_def pc_phase_ok_def)
      then show ?thesis by (simp add: eq tx_active_def)
    next
      case (Some e)
      with True t have "reconf_fail env e ?tx (s\<lparr>sv_phase := Some COMMIT\<rparr>) [?m] = (tx', s', outs)"
        by (simp add: prepared_turn_def Let_def)
      then have "fails_from tx s tx' s'" by (rule fails_fromI) simp_all
      then show ?thesis by simp
    qed
  next
    case False
    with t have "reconf_fail env (TimeoutError ''nodes missing or not prepared'') tx s [] = (tx', s', outs)"
      by (simp add: prepared_turn_def)
    then have "fails_from tx s tx' s'" by (rule fails_fromI) simp_all
    then show ?thesis by simp
  qed
next
  case (PcDelay w)
  with turn inv show ?thesis
    by (auto simp: reconf_turn.simps apply_turn_def txn_inv_def pc_phase_ok_def tx_active_def
        update_radio_config_def split: option.splits intro: fails_fromI)
next
  case (PcPing d w)
  with turn have t: "ping_turn env d tx s = (tx', s', outs)" by (simp add: reconf_turn.simps)
  from t inv PcPing show ?thesis
    by (auto simp: ping_turn_def Let_def txn_inv_def pc_phase_ok_def tx_active_def
        split: option.splits if_splits intro: fails_fromI)
next
  case (PcFinal d w)
  with turn have t: "final_turn env d tx s = (tx', s', outs)" by (simp add: reconf_turn.simps)
  from t inv PcFinal show ?thesis
    by (auto simp: final_turn_def Let_def txn_inv_def pc_phase_ok_def tx_active_def
        split: option.splits if_splits intro: fails_fromI)
next
  case (PcConfirm d w)
  with turn have t: "confirm_turn env d tx s = (tx', s', outs)" by (simp add: reconf_turn.simps)
  show ?thesis
  proof (cases "missing_in CONFIRMED s (tx_targets tx) = []")
    case True
    have "missing_in ph s (tx_targets tx) = []" for ph
      using True inv PcConfirm by (cases ph) (simp_all add: txn_inv_def pc_phase_ok_def)
    moreover have "tx_committed tx" "tx_phase tx = CONFIRMED"
      using inv PcConfirm by (simp_all add: txn_inv_def pc_phase_ok_def)
    ultimately show ?thesis using t
      by (auto simp: confirm_turn_def Let_def success_outcome_def
          split: option.splits if_splits intro: fails_fromI)
  next
    case False
    with t inv PcConfirm show ?thesis
      by (auto simp: confirm_turn_def Let_def txn_inv_def pc_phase_ok_def tx_active_def
          split: option.splits if_splits intro: fails_fromI)
  qed
qed (use act in \<open>simp_all add: tx_active_def\<close>)

end
