(* ===== verification/Reconf_Runs.thy ===== *)
theory Reconf_Runs
  imports Radio_Reconf
begin

text \<open>
  Runs of one \<open>reconfigure_radio\<close> call: its turns interleaved with any datagrams the receive thread
  handles meanwhile. The invariant of \<open>Radio_Reconf\<close> is carried along every run, which gives what the
  result says about the acknowledgements and about the radio the server is left with; and a rank on
  the waiting points bounds the number of turns taken past their deadlines.
\<close>

inductive srv_step :: "txn \<times> ctl_server \<Rightarrow> pydict list \<Rightarrow> txn \<times> ctl_server \<Rightarrow> bool" where
  srv_datagram: "handle_datagram now wall payload addr s = (r, s') \<Longrightarrow> srv_step (tx, s) [] (tx, s')"
| srv_turn: "turn_enabled (te_now env) tx s \<Longrightarrow> reconf_turn env tx s = (tx', s', outs) \<Longrightarrow>
    srv_step (tx, s) outs (tx', s')"

inductive_cases srv_stepE: "srv_step (tx, s) outs (tx', s')"

text \<open>What holds of a call at every moment: it runs under its invariant, or it has ended.\<close>

definition ended_well :: "txn \<Rightarrow> ctl_server \<Rightarrow> bool" where
  "ended_well tx s = (case tx_pc tx of
     PcResult r \<Rightarrow>
       rr_session r = tx_session tx \<and> rr_target_channel r = rc_channel (tx_updated tx) \<and>
       (rr_status r = SwFinalized \<longrightarrow>
          tx_committed tx \<and> sv_radio s = tx_updated tx \<and> rr_effective r = Some (tx_updated tx)) \<and>
       (rr_status r = SwRolledBack \<longrightarrow>
          \<not> tx_committed tx \<and> rr_effective r = Some (sv_radio s) \<and>
          rc_channel (sv_radio s) = DEFAULT_BENCHMARK_CHANNEL \<and>
          rc_txpower (sv_radio s) = rc_txpower (tx_previous tx) \<and>
          rc_uplink_mcs (sv_radio s) = rc_uplink_mcs (tx_previous tx)) \<and>
       (rr_status r = SwRadioError \<longrightarrow> sv_radio_error s \<and>
          rr_effective r = (if tx_committed tx then Some (tx_updated tx) else None)) \<and>
       (tx_committed tx \<longrightarrow> sv_radio s = tx_updated tx)
   | PcRaise e \<Rightarrow> \<not> rc_wf (tx_previous tx) \<and> \<not> tx_committed tx
   | _ \<Rightarrow> False)"

definition call_ok :: "txn \<Rightarrow> ctl_server \<Rightarrow> bool" where
  "call_ok tx s \<longleftrightarrow>
     (tx_active tx \<longrightarrow> txn_inv tx s) \<and>
     (\<not> tx_active tx \<longrightarrow> sv_session s = None \<and> sv_phase s = None \<and> sv_expected s = {} \<and> ended_well tx s)"

lemma reconf_fail_same:
  "reconf_fail env e tx s outs = (tx', s', o') \<Longrightarrow>
   tx_session tx' = tx_session tx \<and> tx_updated tx' = tx_updated tx \<and>
   tx_previous tx' = tx_previous tx \<and> tx_committed tx' = tx_committed tx \<and>
   tx_targets tx' = tx_targets tx \<and>
   (\<forall>r. tx_pc tx' = PcResult r \<longrightarrow>
     rr_session r = tx_session tx \<and> rr_target_channel r = rc_channel (tx_updated tx))"
  by (auto simp: reconf_fail_def finish_failed_eq result_of_def Let_def
      split: if_splits sum.splits)

lemma reconf_turn_same:
  "reconf_turn env tx s = (tx', s', outs) \<Longrightarrow>
   tx_session tx' = tx_session tx \<and> tx_updated tx' = tx_updated tx \<and>
   tx_previous tx' = tx_previous tx \<and> tx_targets tx' = tx_targets tx"
  by (auto simp: reconf_turn.simps turn_defs Let_def
      split: txn_pc.splits option.splits if_splits dest!: reconf_fail_same)

lemma reconf_turn_result:
  "reconf_turn env tx s = (tx', s', outs) \<Longrightarrow> tx_active tx \<Longrightarrow> tx_pc tx' = PcResult r \<Longrightarrow>
   rr_session r = tx_session tx \<and> rr_target_channel r = rc_channel (tx_updated tx)"
  by (auto simp: reconf_turn.simps turn_defs Let_def tx_active_def result_of_def
      split: txn_pc.splits option.splits if_splits dest!: reconf_fail_same)

lemma fails_from_committed:
  assumes "reconf_turn env tx s = (tx', s', outs)" and "\<not> tx_active tx'" and "tx_active tx"
  shows "tx_committed tx' = tx_committed tx"
  using assms
  by (auto simp: reconf_turn.simps turn_defs Let_def tx_active_def
      split: txn_pc.splits option.splits if_splits dest!: reconf_fail_same)

lemma txn_inv_committed_radio:
  "txn_inv tx s \<Longrightarrow> tx_active tx \<Longrightarrow> tx_committed tx \<Longrightarrow> sv_radio s = tx_updated tx"
  by (auto simp: txn_inv_def pc_phase_ok_def tx_active_def split: txn_pc.splits)

lemma call_ok_turn:
  assumes ok: "call_ok tx s" and act: "tx_active tx"
    and turn: "reconf_turn env tx s = (tx', s', outs)"
  shows "call_ok tx' s'"
proof -
  from ok act have inv: "txn_inv tx s" by (simp add: call_ok_def)
  note same = reconf_turn_same [OF turn] and res = reconf_turn_result [OF turn act]
  from reconf_turn_cases [OF turn inv act] show ?thesis
  proof (elim disjE)
    assume "txn_inv tx' s' \<and> tx_active tx'"
    then show ?thesis by (simp add: call_ok_def)
  next
    assume succ: "success_outcome tx s tx' s'"
    with txn_inv_committed_radio [OF inv act] show ?thesis
      by (auto simp: success_outcome_def call_ok_def tx_active_def ended_well_def result_of_def)
  next
    assume "fails_from tx s tx' s'"
    then obtain tx1 s1 where f: "failed_outcome tx1 s1 tx' s'"
      and eqs: "tx_committed tx1 = tx_committed tx" "tx_previous tx1 = tx_previous tx"
        "tx_updated tx1 = tx_updated tx" "sv_radio s1 = sv_radio s"
      by (auto simp: fails_from_def)
    from f have inact: "\<not> tx_active tx'" by (rule failed_outcome_inactive)
    note comm = fails_from_committed [OF turn inact act]
    have "ended_well tx' s'"
    proof (cases "tx_pc tx'")
      case (PcResult r)
      with f eqs comm same res [OF PcResult] txn_inv_committed_radio [OF inv act] show ?thesis
        by (auto simp: failed_outcome_def ended_well_def)
    next
      case (PcRaise e)
      with f eqs comm same show ?thesis by (simp add: failed_outcome_def ended_well_def)
    qed (use inact in \<open>simp_all add: tx_active_def\<close>)
    with f inact show ?thesis by (auto simp: call_ok_def failed_outcome_def)
  qed
qed

lemma turn_enabled_active: "turn_enabled now tx s \<Longrightarrow> tx_active tx"
  by (auto simp: turn_enabled_def tx_active_def split: txn_pc.splits)

lemma call_ok_datagram:
  assumes "call_ok tx s" and fr: "datagram_frame s s'"
  shows "call_ok tx s'"
proof -
  have "ended_well tx s' = ended_well tx s"
    using fr by (cases "tx_pc tx") (simp_all add: ended_well_def datagram_frame_def)
  with assms txn_inv_datagram [OF _ fr, of tx] show ?thesis
    by (simp add: call_ok_def) (auto simp: datagram_frame_def)
qed

lemma call_ok_step:
  assumes "srv_step (tx, s) outs (tx', s')" and "call_ok tx s"
  shows "call_ok tx' s'"
  using assms
  by (elim srv_stepE)
    (auto intro: call_ok_datagram handle_datagram_frame call_ok_turn turn_enabled_active)

section \<open>The start of a call\<close>

lemma txn_inv_begin:
  assumes "reconf_begin env sid nodes patch tmo s = Started tx s' outs"
  shows "call_ok tx s' \<and> tx_session tx = sid \<and> tx_previous tx = sv_radio s \<and> \<not> tx_committed tx \<and>
    rc_wf (tx_updated tx) \<and> tx_targets tx \<noteq> [] \<and> sorted (tx_targets tx) \<and> distinct (tx_targets tx)"
proof -
  define ts where "ts = begin_targets (te_now env) nodes s"
  from assms obtain d u where err: "\<not> sv_radio_error s"
    and d: "normalize_radio_patch patch = Inr d" and u: "validate_radio_patch (PDict d) (sv_radio s) = Inr u"
    by (auto simp: reconf_begin_def split: if_splits sum.splits)
  define tx0 where "tx0 = new_txn (te_now env) sid ts (sv_radio s) u d tmo"
  define s0 where "s0 = open_session sid ts (rc_channel u) s"
  define m where "m = msg_prepare tx0 tmo"
  from assms err d u have ne: "ts \<noteq> []"
    by (auto simp: reconf_begin_def Let_def ts_def split: if_splits)
  from assms err d u ne have run: "(case te_send env m of
        Some e \<Rightarrow> (case reconf_fail env e tx0 s0 [m] of (tx', s'', o') \<Rightarrow> Started tx' s'' o')
      | None \<Rightarrow> Started tx0 s0 [m]) = Started tx s' outs"
    unfolding reconf_begin_def Let_def ts_def m_def s0_def tx0_def by simp
  have tx0: "tx_session tx0 = sid" "tx_previous tx0 = sv_radio s" "\<not> tx_committed tx0"
    "tx_updated tx0 = u" "tx_targets tx0 = ts"
    by (simp_all add: tx0_def new_txn_def)
  have ts: "sorted ts" "distinct ts" by (simp_all add: ts_def begin_targets_def)
  have u_wf: "rc_wf u" using u by (rule validate_radio_patch_wf)
  show ?thesis
  proof (cases "te_send env m")
    case None
    with run have "tx = tx0" "s' = s0" by simp_all
    moreover have "txn_inv tx0 s0" "tx_active tx0"
      using err ne by (simp_all add: txn_inv_def pc_phase_ok_def tx0_def new_txn_def s0_def
        open_session_def tx_active_def)
    ultimately show ?thesis using tx0 ts u_wf ne by (simp add: call_ok_def)
  next
    case (Some e)
    with run have f: "reconf_fail env e tx0 s0 [m] = (tx, s', outs)"
      by (auto split: prod.splits)
    note same = reconf_fail_same [OF f] and out = reconf_fail_outcome [OF f]
    from out have inact: "\<not> tx_active tx" by (rule failed_outcome_inactive)
    have "ended_well tx s'"
    proof (cases "tx_pc tx")
      case (PcResult r)
      with out same tx0 show ?thesis by (auto simp: failed_outcome_def ended_well_def)
    next
      case (PcRaise e)
      with out same show ?thesis by (simp add: failed_outcome_def ended_well_def)
    qed (use inact in \<open>simp_all add: tx_active_def\<close>)
    with inact out same tx0 ts u_wf ne show ?thesis by (auto simp: call_ok_def failed_outcome_def)
  qed
qed

section \<open>Reachable moments of a call\<close>

inductive srv_reach :: "ctl_server \<Rightarrow> string \<Rightarrow> txn \<times> ctl_server \<Rightarrow> bool" for s0 sid where
  srv_start: "reconf_begin env sid nodes patch tmo s0 = Started tx s outs \<Longrightarrow> srv_reach s0 sid (tx, s)"
| srv_next: "srv_reach s0 sid (tx, s) \<Longrightarrow> srv_step (tx, s) outs (tx', s') \<Longrightarrow> srv_reach s0 sid (tx', s')"

lemma srv_step_same:
  "srv_step (tx, s) outs (tx', s') \<Longrightarrow>
   tx_session tx' = tx_session tx \<and> tx_updated tx' = tx_updated tx \<and>
   tx_previous tx' = tx_previous tx \<and> tx_targets tx' = tx_targets tx"
  by (erule srv_stepE) (auto dest: reconf_turn_same)

lemma srv_reach_ok:
  assumes "srv_reach s0 sid (tx, s)"
  shows "call_ok tx s \<and> tx_session tx = sid \<and> tx_previous tx = sv_radio s0 \<and> rc_wf (tx_updated tx)"
  using assms
proof (induction "(tx, s)" arbitrary: tx s rule: srv_reach.induct)
  case (srv_start env nodes patch tmo tx s outs)
  from txn_inv_begin [OF this] show ?case by simp
next
  case (srv_next tx s outs tx' s')
  with srv_step_same [OF \<open>srv_step (tx, s) outs (tx', s')\<close>] call_ok_step [of tx s outs tx' s']
  show ?case by simp
qed

section \<open>The call ends\<close>

fun pc_rank :: "txn_pc \<Rightarrow> nat" where
  "pc_rank (PcPrepare w) = 5"
| "pc_rank (PcDelay w) = 4"
| "pc_rank (PcPing d w) = 3"
| "pc_rank (PcFinal d w) = 2"
| "pc_rank (PcConfirm d w) = 1"
| "pc_rank (PcResult r) = 0"
| "pc_rank (PcRaise e) = 0"

text \<open>The time after which the next turn leaves the waiting point for good.\<close>

fun pc_deadline :: "txn_pc \<Rightarrow> rat" where
  "pc_deadline (PcPrepare w) = w"
| "pc_deadline (PcDelay w) = w"
| "pc_deadline (PcPing d w) = max d w"
| "pc_deadline (PcFinal d w) = max d w"
| "pc_deadline (PcConfirm d w) = max d w"
| "pc_deadline (PcResult r) = 0"
| "pc_deadline (PcRaise e) = 0"

lemma inactive_rank: "\<not> tx_active tx \<longleftrightarrow> pc_rank (tx_pc tx) = 0"
  by (cases "tx_pc tx") (simp_all add: tx_active_def)

lemma fail_rank: "reconf_fail env e tx s outs = (tx', s', o') \<Longrightarrow> pc_rank (tx_pc tx') = 0"
  by (drule reconf_fail_outcome, drule failed_outcome_inactive) (simp add: inactive_rank)

lemma turn_rank_le:
  "reconf_turn env tx s = (tx', s', outs) \<Longrightarrow> pc_rank (tx_pc tx') \<le> pc_rank (tx_pc tx)"
  by (cases "tx_pc tx")
    (auto simp: reconf_turn.simps turn_defs Let_def split: option.splits if_splits dest: fail_rank)

lemma late_turn_rank:
  assumes "reconf_turn env tx s = (tx', s', outs)" and "tx_active tx"
    and "pc_deadline (tx_pc tx) \<le> te_now env"
  shows "pc_rank (tx_pc tx') < pc_rank (tx_pc tx)"
  using assms
  by (cases "tx_pc tx")
    (auto simp: reconf_turn.simps turn_defs Let_def tx_active_def split: option.splits if_splits
      dest: fail_rank)

lemma late_turn_enabled:
  "tx_active tx \<Longrightarrow> pc_deadline (tx_pc tx) \<le> now \<Longrightarrow> turn_enabled now tx s"
  by (cases "tx_pc tx") (simp_all add: tx_active_def turn_enabled_def)

text \<open>Turns interleaved with datagrams; every turn is taken at or after the deadline then in force.\<close>

datatype call_event =
    CallTurn turn_env
  | CallDatagram rat rat "pyval option" "string \<times> int"

fun call_step :: "call_event \<Rightarrow> txn \<times> ctl_server \<Rightarrow> txn \<times> ctl_server" where
  "call_step (CallTurn env) (tx, s) = (case reconf_turn env tx s of (tx', s', _) \<Rightarrow> (tx', s'))"
| "call_step (CallDatagram now wall p addr) (tx, s) = (tx, snd (handle_datagram now wall p addr s))"

fun call_run :: "call_event list \<Rightarrow> txn \<times> ctl_server \<Rightarrow> txn \<times> ctl_server" where
  "call_run [] c = c"
| "call_run (e # es) c = call_run es (call_step e c)"

fun event_late :: "call_event \<Rightarrow> txn \<Rightarrow> bool" where
  "event_late (CallTurn env) tx \<longleftrightarrow> pc_deadline (tx_pc tx) \<le> te_now env"
| "event_late (CallDatagram now wall p addr) tx \<longleftrightarrow> True"

fun all_late :: "call_event list \<Rightarrow> txn \<times> ctl_server \<Rightarrow> bool" where
  "all_late [] c \<longleftrightarrow> True"
| "all_late (e # es) c \<longleftrightarrow> event_late e (fst c) \<and> all_late es (call_step e c)"

fun turns_in :: "call_event list \<Rightarrow> nat" where
  "turns_in [] = 0"
| "turns_in (CallTurn env # es) = Suc (turns_in es)"
| "turns_in (CallDatagram now wall p addr # es) = turns_in es"

lemma call_run_rank:
  "all_late es (tx, s) \<Longrightarrow> pc_rank (tx_pc tx) \<le> turns_in es \<Longrightarrow>
   pc_rank (tx_pc (fst (call_run es (tx, s)))) = 0"
proof (induction es arbitrary: tx s)
  case Nil
  then show ?case by simp
next
  case (Cons e es)
  show ?case
  proof (cases e)
    case (CallTurn env)
    obtain tx' s' outs where t: "reconf_turn env tx s = (tx', s', outs)" by (metis prod_cases3)
    have "pc_rank (tx_pc tx') \<le> turns_in es"
    proof (cases "tx_active tx")
      case True
      with late_turn_rank [OF t] Cons.prems CallTurn have "pc_rank (tx_pc tx') < pc_rank (tx_pc tx)"
        by simp
      with Cons.prems CallTurn show ?thesis by simp
    next
      case False
      with turn_rank_le [OF t] show ?thesis by (simp add: inactive_rank)
    qed
    with Cons CallTurn t show ?thesis by simp
  next
    case (CallDatagram now wall p addr)
    with Cons show ?thesis by simp
  qed
qed

lemma pc_rank_le: "pc_rank pc \<le> 5"
  by (cases pc) simp_all

lemma rc_wf_reach_no_raise:
  "srv_reach s0 sid (tx, s) \<Longrightarrow> rc_wf (sv_radio s0) \<Longrightarrow> tx_pc tx \<noteq> PcRaise e"
  by (auto dest!: srv_reach_ok simp: call_ok_def tx_active_def ended_well_def)

end
