(* ===== verification/Lease_Watchdog.thy ===== *)
theory Lease_Watchdog
  imports Control_Messages
begin

text \<open>
  \<open>LeaseWatchdog\<close> of \<^verbatim>\<open>wfb_ng/fl/control.py\<close>. Every method runs under the watchdog's lock and is one
  step on the record below, given the reading \<open>now\<close> of the monotonic clock; \<^verbatim>\<open>_run\<close>'s loop body
  (one turn of the \<^verbatim>\<open>while\<close>, executed with the lock held) is the step of the thread that was
  started for a given generation. The locale \<open>lease\<close> is what the client control plane relies on: a
  lease can be confirmed or refreshed only while it is alive, and a confirmed one never expires.
\<close>

record watchdog =
  wd_timeout :: rat
  wd_generation :: nat
  wd_deadline :: rat
  wd_armed :: bool
  wd_expired :: bool

definition watchdog_init :: "rat \<Rightarrow> watchdog" where
  "watchdog_init t =
     \<lparr>wd_timeout = t, wd_generation = 0, wd_deadline = 0, wd_armed = False, wd_expired = False\<rparr>"

definition wd_is_armed :: "rat \<Rightarrow> watchdog \<Rightarrow> bool" where
  "wd_is_armed now w \<longleftrightarrow> wd_armed w \<and> \<not> wd_expired w \<and> now < wd_deadline w"

definition set_timeout :: "rat option \<Rightarrow> watchdog \<Rightarrow> watchdog" where
  "set_timeout t w = (case t of None \<Rightarrow> w | Some s \<Rightarrow> w\<lparr>wd_timeout := s\<rparr>)"

definition wd_arm :: "rat \<Rightarrow> rat option \<Rightarrow> watchdog \<Rightarrow> watchdog" where
  "wd_arm now t w =
     (let w = set_timeout t w in
      w\<lparr>wd_deadline := now + wd_timeout w, wd_armed := True, wd_expired := False,
        wd_generation := Suc (wd_generation w)\<rparr>)"

definition wd_refresh :: "rat \<Rightarrow> rat option \<Rightarrow> watchdog \<Rightarrow> bool \<times> watchdog" where
  "wd_refresh now t w =
     (if \<not> wd_armed w \<or> wd_expired w \<or> wd_deadline w \<le> now then (False, w)
      else let w = set_timeout t w in (True, w\<lparr>wd_deadline := now + wd_timeout w\<rparr>))"

definition wd_disarm :: "watchdog \<Rightarrow> watchdog" where
  "wd_disarm w = w\<lparr>wd_armed := False\<rparr>"

definition wd_disarm_if_alive :: "rat \<Rightarrow> watchdog \<Rightarrow> bool \<times> watchdog" where
  "wd_disarm_if_alive now w = (if \<not> wd_is_armed now w then (False, w) else (True, wd_disarm w))"

datatype thread_outcome = ThreadExit | ThreadWait rat | ThreadExpired

definition wd_run_turn :: "nat \<Rightarrow> rat \<Rightarrow> watchdog \<Rightarrow> thread_outcome \<times> watchdog" where
  "wd_run_turn gen now w =
     (if gen = wd_generation w \<and> wd_armed w then
        let remaining = wd_deadline w - now in
        if remaining > 0 then (ThreadWait remaining, w)
        else (ThreadExpired, w\<lparr>wd_armed := False, wd_expired := True\<rparr>)
      else (ThreadExit, w))"

section \<open>Runs\<close>

datatype wd_event =
    EvArm "rat option" | EvRefresh "rat option" | EvDisarm | EvDisarmIfAlive | EvThread nat

fun wd_event_step :: "rat \<Rightarrow> wd_event \<Rightarrow> watchdog \<Rightarrow> watchdog" where
  "wd_event_step now (EvArm t) w = wd_arm now t w"
| "wd_event_step now (EvRefresh t) w = snd (wd_refresh now t w)"
| "wd_event_step now EvDisarm w = wd_disarm w"
| "wd_event_step now EvDisarmIfAlive w = snd (wd_disarm_if_alive now w)"
| "wd_event_step now (EvThread g) w = snd (wd_run_turn g now w)"

fun wd_run :: "(rat \<times> wd_event) list \<Rightarrow> watchdog \<Rightarrow> watchdog" where
  "wd_run [] w = w"
| "wd_run ((now, e) # es) w = wd_run es (wd_event_step now e w)"

fun is_arm :: "wd_event \<Rightarrow> bool" where
  "is_arm (EvArm t) = True"
| "is_arm _ = False"

definition wd_inv :: "watchdog \<Rightarrow> bool" where
  "wd_inv w \<longleftrightarrow> \<not> (wd_armed w \<and> wd_expired w)"

lemmas wd_defs = wd_is_armed_def wd_arm_def wd_refresh_def wd_disarm_def wd_disarm_if_alive_def
  wd_run_turn_def set_timeout_def Let_def

lemma wd_inv_init [wf_intros]: "wd_inv (watchdog_init t)"
  by (simp add: wd_inv_def watchdog_init_def)

lemma wd_event_step_inv [wf_intros]: "wd_inv w \<Longrightarrow> wd_inv (wd_event_step now e w)"
  by (cases e) (auto simp: wd_inv_def wd_defs split: option.splits)

lemma wd_run_inv [wf_intros]: "wd_inv w \<Longrightarrow> wd_inv (wd_run es w)"
  by (induction es w rule: wd_run.induct) (auto intro: wf_intros)

lemma wd_event_step_unarmed:
  "\<not> wd_armed w \<Longrightarrow> \<not> is_arm e \<Longrightarrow>
   \<not> wd_armed (wd_event_step now e w) \<and>
   wd_expired (wd_event_step now e w) = wd_expired w"
  by (cases e) (auto simp: wd_defs)

lemma wd_run_unarmed:
  "\<not> wd_armed w \<Longrightarrow> list_all (\<lambda>(_, e). \<not> is_arm e) es \<Longrightarrow>
   \<not> wd_armed (wd_run es w) \<and> wd_expired (wd_run es w) = wd_expired w"
proof (induction es w rule: wd_run.induct)
  case (1 w)
  then show ?case by simp
next
  case (2 now e es w)
  then have "\<not> is_arm e" and "list_all (\<lambda>(_, e). \<not> is_arm e) es" by simp_all
  with 2 show ?case using wd_event_step_unarmed [OF "2.prems"(1) \<open>\<not> is_arm e\<close>, of now] by simp
qed

section \<open>The contract the client relies on\<close>

locale lease =
  fixes alive :: "rat \<Rightarrow> 'w \<Rightarrow> bool"
    and arm :: "rat \<Rightarrow> rat option \<Rightarrow> 'w \<Rightarrow> 'w"
    and refresh :: "rat \<Rightarrow> rat option \<Rightarrow> 'w \<Rightarrow> bool \<times> 'w"
    and confirm :: "rat \<Rightarrow> 'w \<Rightarrow> bool \<times> 'w"
    and turn :: "nat \<Rightarrow> rat \<Rightarrow> 'w \<Rightarrow> thread_outcome \<times> 'w"
    and expired :: "'w \<Rightarrow> bool"
  assumes refresh_iff: "fst (refresh now t w) = alive now w"
    and refresh_fail: "\<not> alive now w \<Longrightarrow> snd (refresh now t w) = w"
    and confirm_iff: "fst (confirm now w) = alive now w"
    and confirm_fail: "\<not> alive now w \<Longrightarrow> snd (confirm now w) = w"
    and confirm_dead: "alive now w \<Longrightarrow> \<not> alive later (snd (confirm now w))"
    and confirm_unexpired: "alive now w \<Longrightarrow> \<not> expired (snd (confirm now w))"
    and confirm_turn: "alive now w \<Longrightarrow> turn g later (snd (confirm now w)) = (ThreadExit, snd (confirm now w))"
    and expired_not_alive: "expired w \<Longrightarrow> \<not> alive now w"
    and turn_keeps: "fst (turn g now w) \<noteq> ThreadExpired \<Longrightarrow> snd (turn g now w) = w"
    and turn_expired: "fst (turn g now w) = ThreadExpired \<Longrightarrow> \<not> alive now w \<and> expired (snd (turn g now w))"
begin

lemma confirm_at_most_once: "fst (confirm now w) \<Longrightarrow> \<not> fst (confirm later (snd (confirm now w)))"
  by (simp add: confirm_iff confirm_dead)

lemma confirm_excludes_refresh: "fst (confirm now w) \<Longrightarrow> \<not> fst (refresh later t (snd (confirm now w)))"
  by (simp add: confirm_iff refresh_iff confirm_dead)

lemma confirm_excludes_expiry: "fst (confirm now w) \<Longrightarrow> fst (turn g later (snd (confirm now w))) = ThreadExit"
  by (simp add: confirm_iff confirm_turn)

lemma expiry_excludes_confirm:
  "fst (turn g now w) = ThreadExpired \<Longrightarrow> \<not> fst (confirm later (snd (turn g now w)))"
  by (simp add: confirm_iff turn_expired expired_not_alive)

end

interpretation wd: lease wd_is_armed wd_arm wd_refresh wd_disarm_if_alive wd_run_turn wd_expired
  by unfold_locales (auto simp: wd_defs not_le not_less split: if_splits)

section \<open>Expiry\<close>

lemma wd_arm_alive: "0 < t \<Longrightarrow> wd_is_armed now (wd_arm now (Some t) w)"
  by (simp add: wd_defs)

lemma wd_turn_waits_to_deadline:
  "fst (wd_run_turn g now w) = ThreadWait r \<Longrightarrow>
   0 < r \<and> now + r = wd_deadline w \<and> fst (wd_run_turn g (now + r) w) = ThreadExpired"
  by (auto simp: wd_run_turn_def Let_def split: if_splits)

lemma wd_old_generation: "g \<noteq> wd_generation w \<Longrightarrow> wd_run_turn g now w = (ThreadExit, w)"
  by (simp add: wd_run_turn_def)

section \<open>Guarantees\<close>

text \<open>Confirming and expiring exclude each other. Once the lease has been confirmed
  (\<open>disarm_if_alive\<close> returned true), no watchdog thread of any generation expires it, whatever
  refreshes, disarms and thread turns follow; and once a thread has declared it expired, no later
  confirmation or refresh succeeds - until the lease is armed anew.\<close>

theorem confirm_xor_expire:
  assumes "list_all (\<lambda>(_, e). \<not> is_arm e) es" and "wd_inv w"
  shows "(wd_disarm_if_alive now w = (True, w') \<longrightarrow>
      \<not> wd_expired (wd_run es w') \<and> (\<forall>g later. fst (wd_run_turn g later (wd_run es w')) = ThreadExit)) \<and>
    (wd_run_turn g now w = (ThreadExpired, w'') \<longrightarrow>
      wd_expired (wd_run es w'') \<and>
      (\<forall>later t. \<not> fst (wd_disarm_if_alive later (wd_run es w'')) \<and> \<not> fst (wd_refresh later t (wd_run es w''))))"
proof (intro conjI impI)
  assume c: "wd_disarm_if_alive now w = (True, w')"
  then have un: "\<not> wd_armed w'" "\<not> wd_expired w'" by (auto simp: wd_defs split: if_splits)
  from wd_run_unarmed [OF un(1) assms(1)] un(2)
  show "\<not> wd_expired (wd_run es w')" "\<forall>g later. fst (wd_run_turn g later (wd_run es w')) = ThreadExit"
    by (simp_all add: wd_run_turn_def)
next
  assume e: "wd_run_turn g now w = (ThreadExpired, w'')"
  then have "\<not> wd_armed w''" "wd_expired w''" by (auto simp: wd_run_turn_def Let_def split: if_splits)
  with wd_run_unarmed [OF this(1) assms(1)] have ex: "wd_expired (wd_run es w'')" by simp
  then show "wd_expired (wd_run es w'')"
    "\<forall>later t. \<not> fst (wd_disarm_if_alive later (wd_run es w'')) \<and> \<not> fst (wd_refresh later t (wd_run es w''))"
    by (simp_all add: wd.confirm_iff wd.refresh_iff wd.expired_not_alive)
qed

theorem confirm_xor_expire_witness:
  "\<not> wd_expired (wd_run [(9, EvThread 1)] (wd_disarm (wd_arm 0 (Some 5) (watchdog_init 15)))) \<and>
   wd_expired (wd_run [(6, EvRefresh None)] (snd (wd_run_turn 1 5 (wd_arm 0 (Some 5) (watchdog_init 15)))))"
proof -
  let ?w = "wd_arm 0 (Some 5) (watchdog_init 15)"
  have inv: "wd_inv ?w" by code_simp
  have "wd_disarm_if_alive 1 ?w = (True, wd_disarm ?w)"
    "wd_run_turn 1 5 ?w = (ThreadExpired, snd (wd_run_turn 1 5 ?w))" by code_simp+
  with confirm_xor_expire [OF _ inv, of "[(9, EvThread 1)]" 1 "wd_disarm ?w"]
    confirm_xor_expire [OF _ inv, of "[(6, EvRefresh None)]" 1 "wd_disarm ?w" 1]
    confirm_xor_expire [OF _ inv, of "[(6, EvRefresh None)]" 5 "wd_disarm ?w" 1 "snd (wd_run_turn 1 5 ?w)"]
  show ?thesis by simp
qed

end
