(* ===== verification/Control_Client.thy ===== *)
theory Control_Client
  imports Lease_Watchdog Radio_Reconf
begin

text \<open>
  \<open>ControlPlaneClient\<close> of \<^verbatim>\<open>wfb_ng/fl/control.py\<close>: channel hunting, heartbeats, alignment, and the
  client's side of the radio switch under the lease watchdog. Every method that takes the client
  lock is one function; the blocking receives of \<open>hunt_once\<close> split it into locked turns, which are
  composed for an undisturbed run. Hardware and daemon callbacks are an oracle that says which call
  raises (the same call within one step answers the same); an operation that may raise half way
  returns the exception together with the state reached. \<open>float\<close> and \<open>int\<close> of the two numeric
  fields of a COMMIT are modelled on finite numbers; a string or a non-finite float there is
  refused in the model.
\<close>

section \<open>State and environment\<close>

datatype client_hw = CliSetChannel int string | CliSetTxpower int | CliRadioApplied radio_config

record ctl_client =
  cc_node_id :: int
  cc_channel :: int
  cc_cached :: int
  cc_locked :: "int option"
  cc_txpower :: int
  cc_uplink_mcs :: int
  cc_state :: client_node_state
  cc_missed :: int
  cc_entered :: rat
  cc_last_ts :: int
  cc_watchdog :: watchdog
  cc_session :: "string option"
  cc_patch :: "pydict option"
  cc_pre :: "radio_config option"
  cc_applied :: bool
  cc_proposal :: "string option"
  cc_confirmed :: "string option"
  cc_confirmed_channel :: "int option"
  cc_threads :: "(rat \<times> string \<times> pydict) list"

record client_env =
  ce_now :: rat
  ce_hw :: "client_hw \<Rightarrow> exn option"

text \<open>\<^verbatim>\<open>cached_channel or initial_channel\<close>: zero counts as absent.\<close>

definition client_init :: "int \<Rightarrow> int \<Rightarrow> int option \<Rightarrow> int \<Rightarrow> int \<Rightarrow> rat \<Rightarrow> ctl_client" where
  "client_init nid ch cached pw um now =
     \<lparr>cc_node_id = nid, cc_channel = ch,
      cc_cached = (case cached of None \<Rightarrow> ch | Some c \<Rightarrow> if c = 0 then ch else c),
      cc_locked = None, cc_txpower = pw, cc_uplink_mcs = um, cc_state = HUNTING, cc_missed = 0,
      cc_entered = now, cc_last_ts = 0,
      cc_watchdog = watchdog_init LEASE_TIMEOUT_DEFAULT_SECONDS, cc_session = None,
      cc_patch = None, cc_pre = None, cc_applied = False, cc_proposal = None,
      cc_confirmed = None, cc_confirmed_channel = None, cc_threads = []\<rparr>"

text \<open>\<^verbatim>\<open>RadioConfig(channel=..., radio_txpower_dbm=..., uplink_mcs=...)\<close> of the current fields.\<close>

definition current_config :: "ctl_client \<Rightarrow> radio_config" where
  "current_config c = default_radio_config
     \<lparr>rc_channel := cc_channel c, rc_txpower := cc_txpower c, rc_uplink_mcs := cc_uplink_mcs c\<rparr>"

definition elapsed_ms :: "rat \<Rightarrow> ctl_client \<Rightarrow> int" where
  "elapsed_ms now c = py_trunc ((now - cc_entered c) * 1000)"

definition next_timestamp :: "rat \<Rightarrow> ctl_client \<Rightarrow> int \<times> ctl_client" where
  "next_timestamp now c =
     (let t = (if \<lfloor>now * 1000\<rfloor> \<le> cc_last_ts c then cc_last_ts c + 1 else \<lfloor>now * 1000\<rfloor>)
      in (t, c\<lparr>cc_last_ts := t\<rparr>))"

section \<open>Hardware operations\<close>

type_synonym client_op = "ctl_client \<Rightarrow> exn option \<times> ctl_client"

definition then_op :: "client_op \<Rightarrow> client_op \<Rightarrow> client_op" where
  "then_op f g c = (case f c of (Some e, c') \<Rightarrow> (Some e, c') | (None, c') \<Rightarrow> g c')"

definition apply_channel_switch :: "client_env \<Rightarrow> int \<Rightarrow> client_op" where
  "apply_channel_switch env ch c = (case ce_hw env (CliSetChannel ch (switch_width ch)) of
     Some e \<Rightarrow> (Some e, c) | None \<Rightarrow> (None, c\<lparr>cc_channel := ch\<rparr>))"

definition apply_txpower_switch :: "client_env \<Rightarrow> int \<Rightarrow> client_op" where
  "apply_txpower_switch env pw c = (case ce_hw env (CliSetTxpower pw) of
     Some e \<Rightarrow> (Some e, c) | None \<Rightarrow> (None, c\<lparr>cc_txpower := pw\<rparr>))"

definition set_uplink_mcs :: "int \<Rightarrow> client_op" where
  "set_uplink_mcs m c = (None, c\<lparr>cc_uplink_mcs := m\<rparr>)"

definition notify_radio_applied :: "client_env \<Rightarrow> client_op" where
  "notify_radio_applied env c = (ce_hw env (CliRadioApplied (current_config c)), c)"

lemmas op_defs = then_op_def apply_channel_switch_def apply_txpower_switch_def set_uplink_mcs_def
  notify_radio_applied_def

section \<open>Alignment\<close>

definition align_update :: "client_env \<Rightarrow> radio_config \<Rightarrow> client_op" where
  "align_update env u =
     then_op (\<lambda>c. if rc_txpower u \<noteq> cc_txpower c then apply_txpower_switch env (rc_txpower u) c
                  else (None, c))
    (then_op (set_uplink_mcs (rc_uplink_mcs u)) (notify_radio_applied env))"

definition align_restore :: "client_env \<Rightarrow> radio_config \<Rightarrow> client_op" where
  "align_restore env base =
     then_op (apply_txpower_switch env (rc_txpower base))
    (then_op (set_uplink_mcs (rc_uplink_mcs base)) (notify_radio_applied env))"

definition apply_alignment :: "client_env \<Rightarrow> pyval \<Rightarrow> client_op" where
  "apply_alignment env patch c = (case as_dict patch of
     None \<Rightarrow> (None, c)
   | Some d \<Rightarrow>
       if cc_pre c \<noteq> None \<or> d = [] then (None, c)
       else
         let base = current_config c; safe = filter (\<lambda>(k, v). k \<noteq> ''channel'') d in
         if safe = [] then (None, c)
         else (case validate_radio_patch (PDict safe) base of
             Inl e \<Rightarrow> (Some e, c)
           | Inr u \<Rightarrow> (case align_update env u c of
               (None, c') \<Rightarrow> (None, c')
             | (Some e, c') \<Rightarrow> (case align_restore env base c' of
                   (Some e', c'') \<Rightarrow> (Some e', c'')
                 | (None, c'') \<Rightarrow> (Some e, c'')))))"

text \<open>\<^verbatim>\<open>_check_and_apply_alignment_packet\<close>: the extra packet, if one came and parsed.\<close>

definition check_alignment_packet :: "client_env \<Rightarrow> pyval option \<Rightarrow> ctl_client \<Rightarrow> ctl_client" where
  "check_alignment_packet env extra c = (case Option.bind extra as_dict of
     None \<Rightarrow> c
   | Some m \<Rightarrow>
       if dget m ''type'' = PStr ''CONFIG_RADIO_ALIGN'' \<and> has_key m ''patch''
       then snd (apply_alignment env (dget m ''patch'') c) else c)"

section \<open>Heartbeats\<close>

text \<open>What the network does to one heartbeat: whether the send raises, the reply that arrives in
  time and parses, and the packet that follows it.\<close>

record hb_io =
  io_sent :: bool
  io_reply :: "pyval option"
  io_extra :: "pyval option"

definition reply_acks :: "hb_io \<Rightarrow> bool" where
  "reply_acks io \<longleftrightarrow> io_sent io \<and>
     (case io_reply io of None \<Rightarrow> False | Some v \<Rightarrow> ack_from_dict v = Inr True)"

definition make_heartbeat :: "string \<Rightarrow> int \<Rightarrow> int \<Rightarrow> int \<Rightarrow> ctl_client \<Rightarrow> node_heartbeat" where
  "make_heartbeat st elapsed ch ts c =
     \<lparr>hb_node_id = cc_node_id c, hb_state = st, hb_elapsed_ms = elapsed, hb_current_channel = ch,
      hb_txpower_dbm = cc_txpower c, hb_uplink_mcs = cc_uplink_mcs c, hb_error_code = PNone,
      hb_timestamp_ms = Some ts\<rparr>"

definition send_heartbeat ::
  "client_env \<Rightarrow> hb_io \<Rightarrow> string \<Rightarrow> int \<Rightarrow> ctl_client \<Rightarrow> bool \<times> ctl_client \<times> pydict list" where
  "send_heartbeat env io st elapsed c =
     (case next_timestamp (ce_now env) c of (ts, c) \<Rightarrow>
        let out = [hb_to_dict (make_heartbeat st elapsed (cc_channel c) ts c)] in
        if reply_acks io
        then (True, check_alignment_packet env (io_extra io) (c\<lparr>cc_missed := 0\<rparr>), out)
        else (False, c, out))"

definition send_heartbeat_once ::
  "client_env \<Rightarrow> hb_io \<Rightarrow> ctl_client \<Rightarrow> bool \<times> ctl_client \<times> pydict list" where
  "send_heartbeat_once env io c =
     (case send_heartbeat env io (cns_value (cc_state c)) (elapsed_ms (ce_now env) c) c of
        (acked, c, out) \<Rightarrow>
          if \<not> acked \<and> cc_state c = IDLE \<and> cc_pre c = None then
            let c = c\<lparr>cc_missed := cc_missed c + 1\<rparr> in
            if IDLE_MISSED_ACK_THRESHOLD \<le> cc_missed c
            then (acked, c\<lparr>cc_state := HUNTING, cc_entered := ce_now env\<rparr>, out)
            else (acked, c, out)
          else (acked, c, out))"

definition notify_state_change ::
  "client_env \<Rightarrow> hb_io \<Rightarrow> client_node_state \<Rightarrow> ctl_client \<Rightarrow> ctl_client \<times> pydict list" where
  "notify_state_change env io st c =
     (if cc_state c = st then (c, [])
      else snd (send_heartbeat env io (cns_value st) 0 (c\<lparr>cc_state := st, cc_entered := ce_now env\<rparr>)))"

text \<open>\<^verbatim>\<open>notify_task_ready\<close>: the message is sent once per attempt until an acknowledgement arrives;
  the list has one entry per attempt made before the deadline. A reply that parses but is not an
  object raises \<^verbatim>\<open>TypeError\<close>, which this loop does not catch.\<close>

definition task_ready_message :: "string \<Rightarrow> int \<Rightarrow> int \<Rightarrow> pydict" where
  "task_ready_message job nid ts =
     [(''type'', PStr ''TASK_READY''), (''job_id'', PStr job), (''node_id'', PInt nid),
      (''timestamp_ms'', PInt ts)]"

definition reply_not_object :: "hb_io \<Rightarrow> bool" where
  "reply_not_object io \<longleftrightarrow> io_sent io \<and>
     (case io_reply io of None \<Rightarrow> False | Some v \<Rightarrow> as_dict v = None)"

fun ready_attempts :: "hb_io list \<Rightarrow> nat \<times> unit res option" where
  "ready_attempts [] = (0, None)"
| "ready_attempts (io # ios) =
     (if reply_acks io then (1, Some (Inr ()))
      else if reply_not_object io then (1, Some (Inl (TypeError ''Payload must be a dict'')))
      else case ready_attempts ios of (n, r) \<Rightarrow> (Suc n, r))"

definition notify_task_ready ::
  "client_env \<Rightarrow> string \<Rightarrow> hb_io list \<Rightarrow> ctl_client \<Rightarrow> unit res \<times> ctl_client \<times> pydict list" where
  "notify_task_ready env job ios c =
     (case next_timestamp (ce_now env) c of (ts, c) \<Rightarrow>
      case ready_attempts ios of (n, r) \<Rightarrow>
        (case r of Some x \<Rightarrow> x | None \<Rightarrow> Inl (fl_error ''task_ready_timeout'' job), c,
         replicate n (task_ready_message job (cc_node_id c) ts)))"

section \<open>Hunting\<close>

text \<open>\<^verbatim>\<open>hunt_once\<close> in locked turns: tuning to a channel, sending an attempt, handling its reply.\<close>

datatype tune_outcome = Tuned | Suspended | TuneRaises exn

definition hunt_tune :: "client_env \<Rightarrow> int \<Rightarrow> ctl_client \<Rightarrow> tune_outcome \<times> ctl_client" where
  "hunt_tune env ch c =
     (if cc_pre c \<noteq> None then (Suspended, c)
      else case apply_channel_switch env ch c of
        (Some e, c') \<Rightarrow> (TuneRaises e, c') | (None, c') \<Rightarrow> (Tuned, c'))"

definition hunt_send :: "client_env \<Rightarrow> int \<Rightarrow> ctl_client \<Rightarrow> ctl_client \<times> pydict" where
  "hunt_send env ch c =
     (let el = elapsed_ms (ce_now env) c in
      case next_timestamp (ce_now env) c of (ts, c) \<Rightarrow>
        (c, hb_to_dict (make_heartbeat (cns_value HUNTING) el ch ts c)))"

datatype hunt_outcome = HuntFound | HuntStopped | HuntNext | HuntRaises exn

definition hunt_reply ::
  "client_env \<Rightarrow> int \<Rightarrow> hb_io \<Rightarrow> hb_io \<Rightarrow> ctl_client \<Rightarrow> hunt_outcome \<times> ctl_client \<times> pydict list" where
  "hunt_reply env ch io io_idle c =
     (if \<not> reply_acks io then (HuntNext, c, [])
      else if cc_pre c \<noteq> None then (HuntStopped, c, [])
      else
        let c = c\<lparr>cc_locked := Some ch, cc_cached := ch, cc_missed := 0\<rparr>;
            c = check_alignment_packet env (io_extra io) c;
            c = c\<lparr>cc_state := IDLE, cc_entered := ce_now env\<rparr>
        in case send_heartbeat env io_idle (cns_value IDLE) 0 c of (_, c, outs) \<Rightarrow> (HuntFound, c, outs))"

text \<open>One undisturbed pass. Each attempt has its environment and the two exchanges it may make.\<close>

type_synonym attempt = "client_env \<times> hb_io \<times> hb_io"

fun hunt_attempts ::
  "int \<Rightarrow> attempt list \<Rightarrow> ctl_client \<Rightarrow> hunt_outcome \<times> ctl_client \<times> pydict list" where
  "hunt_attempts ch [] c = (HuntNext, c, [])"
| "hunt_attempts ch ((env, io, io_idle) # as) c =
     (case hunt_send env ch c of (c, m) \<Rightarrow>
      case hunt_reply env ch io io_idle c of
        (HuntNext, c, outs) \<Rightarrow>
          (case hunt_attempts ch as c of (r, c, outs') \<Rightarrow> (r, c, m # outs @ outs'))
      | (r, c, outs) \<Rightarrow> (r, c, m # outs))"

fun hunt_channels ::
  "(client_env \<times> int \<times> attempt list) list \<Rightarrow> ctl_client \<Rightarrow> hunt_outcome \<times> ctl_client \<times> pydict list"
where
  "hunt_channels [] c = (HuntNext, c, [])"
| "hunt_channels ((env, ch, as) # chs) c =
     (case hunt_tune env ch c of
        (Suspended, c) \<Rightarrow> (HuntStopped, c, [])
      | (TuneRaises e, c) \<Rightarrow> (HuntRaises e, c, [])
      | (Tuned, c) \<Rightarrow>
          (case hunt_attempts ch (take HUNTING_RETRIES_PER_CHANNEL as) c of
             (HuntNext, c, outs) \<Rightarrow>
               (case hunt_channels chs c of (r, c, outs') \<Rightarrow> (r, c, outs @ outs'))
           | (r, c, outs) \<Rightarrow> (r, c, outs)))"

text \<open>The environments of the channels of the ladder are supplied by a function of the channel.\<close>

definition hunt_once ::
  "(int \<Rightarrow> client_env \<times> attempt list) \<Rightarrow> int list option \<Rightarrow> ctl_client \<Rightarrow>
   hunt_outcome \<times> ctl_client \<times> pydict list" where
  "hunt_once world ladder c =
     (if cc_pre c \<noteq> None then (HuntStopped, c, [])
      else
        let chs = (case ladder of Some l \<Rightarrow> l | None \<Rightarrow> build_hunting_ladder (Some (cc_cached c)))
        in hunt_channels (map (\<lambda>ch. case world ch of (env, as) \<Rightarrow> (env, ch, as)) chs) c)"

end
