(* ===== verification/Client_Switch.thy ===== *)
theory Client_Switch
  imports Control_Client
begin

text \<open>
  The client's side of the radio switch (\<open>ControlPlaneClient\<close> of \<^verbatim>\<open>wfb_ng/fl/control.py\<close>): the
  handlers of the six broadcasts, the delayed switch thread a COMMIT starts, the watchdog callback,
  the supervisor's retry of a failed restore, and the dispatch of broadcasts through the
  physical-channel filter. A handler returns the exception that escapes it, the state reached and
  the datagrams it sent. The second half is the invariant of the client under all of these.
\<close>

type_synonym handler = "client_env \<Rightarrow> pydict \<Rightarrow> ctl_client \<Rightarrow> exn option \<times> ctl_client \<times> pydict list"

section \<open>Which broadcasts concern this client\<close>

text \<open>\<^verbatim>\<open>self.node_id in msg.get("target_nodes", [self.node_id])\<close>: membership in a dictionary looks
  at its string keys; in a string or a number it raises.\<close>

definition in_targets :: "int \<Rightarrow> pydict \<Rightarrow> bool res" where
  "in_targets n msg = (case map_of msg ''target_nodes'' of
     None \<Rightarrow> Inr True
   | Some (PList xs) \<Rightarrow> Inr (py_in (PInt n) xs)
   | Some (PDict d) \<Rightarrow> Inr False
   | Some _ \<Rightarrow> Inl (TypeError ''argument is not iterable''))"

definition matches_pending :: "pydict \<Rightarrow> ctl_client \<Rightarrow> bool res" where
  "matches_pending msg c = (case cc_session c of
     None \<Rightarrow> Inr False
   | Some sid \<Rightarrow> if dget msg ''session_id'' = PStr sid then in_targets (cc_node_id c) msg else Inr False)"

definition channel_is_current :: "pydict \<Rightarrow> ctl_client \<Rightarrow> bool" where
  "channel_is_current msg c = py_eq (dget msg ''channel'') (PInt (cc_channel c))"

definition clear_pending_switch :: "ctl_client \<Rightarrow> ctl_client" where
  "clear_pending_switch c = c\<lparr>cc_session := None, cc_patch := None, cc_pre := None,
     cc_applied := False, cc_proposal := None\<rparr>"

section \<open>PREPARE\<close>

definition prepare_ack_datagram :: "int \<Rightarrow> string \<Rightarrow> exn option \<Rightarrow> int \<Rightarrow> pydict" where
  "prepare_ack_datagram nid sid err ts = pa_to_dict
     \<lparr>pa_node_id = nid, pa_session_id = sid, pa_ok = (err = None),
      pa_error = (case err of None \<Rightarrow> PNone | Some e \<Rightarrow> PStr (exn_str e)), pa_timestamp_ms = PInt ts\<rparr>"

definition prepare_check :: "pydict \<Rightarrow> ctl_client \<Rightarrow> pydict res" where
  "prepare_check msg c =
     bind_res (normalize_radio_patch (dget_default msg ''patch'' (PDict []))) (\<lambda>p.
     bind_res (validate_radio_patch (PDict p) (current_config c)) (\<lambda>_. Inr p))"

definition handle_prepare :: handler where
  "handle_prepare env msg c = (case as_str (dget msg ''session_id'') of
     None \<Rightarrow> (None, c, [])
   | Some sid \<Rightarrow>
       if sid = [] then (None, c, [])
       else (case in_targets (cc_node_id c) msg of
           Inl e \<Rightarrow> (Some e, c, [])
         | Inr False \<Rightarrow> (None, c, [])
         | Inr True \<Rightarrow>
             if cc_pre c \<noteq> None then (None, c, [])
             else (case prepare_check msg c of
                 Inl e \<Rightarrow>
                   (case next_timestamp (ce_now env) c of (ts, c) \<Rightarrow>
                      (None, c, [prepare_ack_datagram (cc_node_id c) sid (Some e) ts]))
               | Inr p \<Rightarrow>
                   (case next_timestamp (ce_now env)
                      (c\<lparr>cc_session := Some sid, cc_patch := Some p, cc_proposal := None,
                         cc_confirmed := None, cc_confirmed_channel := None\<rparr>) of (ts, c) \<Rightarrow>
                      (None, c, [prepare_ack_datagram (cc_node_id c) sid None ts])))))"

section \<open>COMMIT and the delayed switch\<close>

text \<open>\<^verbatim>\<open>int(v)\<close> and \<^verbatim>\<open>float(v)\<close> on the finite numbers.\<close>

definition py_int :: "pyval \<Rightarrow> int res" where
  "py_int v = (case num_of v of
     Some (Fin r) \<Rightarrow> Inr (py_trunc r)
   | Some NaN \<Rightarrow> Inl (ValueError ''cannot convert float NaN to integer'')
   | Some _ \<Rightarrow> Inl OverflowError
   | None \<Rightarrow> Inl (TypeError ''int() argument''))"

definition py_float :: "pyval \<Rightarrow> rat res" where
  "py_float v = (case num_of v of
     Some (Fin r) \<Rightarrow> Inr r
   | _ \<Rightarrow> Inl (TypeError ''float() argument''))"

text \<open>\<^verbatim>\<open>msg.get("patch") or self._pending_switch_patch or {}\<close>\<close>

definition commit_patch :: "pydict \<Rightarrow> ctl_client \<Rightarrow> pyval" where
  "commit_patch msg c =
     (if truthy (dget msg ''patch'') then dget msg ''patch''
      else case cc_patch c of None \<Rightarrow> PDict [] | Some p \<Rightarrow> PDict p)"

definition handle_commit :: handler where
  "handle_commit env msg c = (case matches_pending msg c of
     Inl e \<Rightarrow> (Some e, c, [])
   | Inr m \<Rightarrow>
       if \<not> m \<or> cc_pre c \<noteq> None then (None, c, [])
       else (case normalize_radio_patch (commit_patch msg c) of
           Inl e \<Rightarrow> (Some e, c, [])
         | Inr p \<Rightarrow>
             if (case cc_patch c of None \<Rightarrow> True | Some q \<Rightarrow> \<not> py_eq (PDict p) (PDict q))
             then (None, c, [])
             else
               let sid = the (cc_session c); c = c\<lparr>cc_pre := Some (current_config c)\<rparr>
               in (case py_int (dget_default msg ''delay_ms'' (PInt 2000)) of
                   Inl e \<Rightarrow> (Some e, c, [])
                 | Inr ms \<Rightarrow>
                     let delay = max 0 (of_int ms / 1000); c = c\<lparr>cc_applied := False\<rparr> in
                     (case py_float (dget_default msg ''lease_timeout_seconds''
                          (PFloat (Fin LEASE_TIMEOUT_DEFAULT_SECONDS))) of
                        Inl e \<Rightarrow> (Some e, c, [])
                      | Inr secs \<Rightarrow>
                          (None, c\<lparr>cc_watchdog := wd_arm (ce_now env) (Some secs) (cc_watchdog c),
                             cc_threads := cc_threads c @ [(ce_now env + delay, sid, p)]\<rparr>, [])))))"

text \<open>A value of the patch, which equals an integer that passed the validation of PREPARE.\<close>

definition patch_int :: "pydict \<Rightarrow> string \<Rightarrow> int option" where
  "patch_int p k = (case map_of p k of
     None \<Rightarrow> None
   | Some v \<Rightarrow> (case num_of v of Some (Fin r) \<Rightarrow> Some \<lfloor>r\<rfloor> | _ \<Rightarrow> None))"

definition opt_op :: "int option \<Rightarrow> (int \<Rightarrow> client_op) \<Rightarrow> client_op" where
  "opt_op x f c = (case x of None \<Rightarrow> (None, c) | Some i \<Rightarrow> f i c)"

definition apply_patch :: "client_env \<Rightarrow> pydict \<Rightarrow> client_op" where
  "apply_patch env p =
     then_op (opt_op (patch_int p ''channel'') (apply_channel_switch env))
    (then_op (opt_op (patch_int p ''radio_txpower_dbm'') (apply_txpower_switch env))
    (then_op (opt_op (patch_int p ''uplink_mcs'') set_uplink_mcs)
       (notify_radio_applied env)))"

text \<open>The body of the thread once its sleep is over.\<close>

definition delayed_switch :: "client_env \<Rightarrow> string \<Rightarrow> pydict \<Rightarrow> ctl_client \<Rightarrow> ctl_client" where
  "delayed_switch env sid p c =
     (if cc_session c \<noteq> Some sid \<or> \<not> wd_is_armed (ce_now env) (cc_watchdog c) then c
      else case apply_patch env p c of
        (None, c') \<Rightarrow> c'\<lparr>cc_applied := True\<rparr>
      | (Some e, c') \<Rightarrow> c'\<lparr>cc_patch := None\<rparr>)"

section \<open>The check-in and the final barriers\<close>

text \<open>The guard shared by the PING and FINALIZED handlers; it refreshes the lease.\<close>

definition lease_guard :: "client_env \<Rightarrow> pydict \<Rightarrow> ctl_client \<Rightarrow> bool res \<times> ctl_client" where
  "lease_guard env msg c = (case matches_pending msg c of
     Inl e \<Rightarrow> (Inl e, c)
   | Inr m \<Rightarrow>
       if \<not> m \<or> \<not> channel_is_current msg c \<or> cc_patch c = None \<or> \<not> cc_applied c then (Inr False, c)
       else (case wd_refresh (ce_now env) None (cc_watchdog c) of
           (ok, w) \<Rightarrow> (Inr ok, c\<lparr>cc_watchdog := w\<rparr>)))"

definition handle_ping :: handler where
  "handle_ping env msg c = (case lease_guard env msg c of
     (Inl e, c) \<Rightarrow> (Some e, c, [])
   | (Inr False, c) \<Rightarrow> (None, c, [])
   | (Inr True, c) \<Rightarrow>
       (case next_timestamp (ce_now env) c of (ts, c) \<Rightarrow>
          (None, c, [cs_to_dict \<lparr>cs_node_id = cc_node_id c, cs_session_id = the (cc_session c),
             cs_current_channel = cc_channel c, cs_timestamp_ms = PInt ts\<rparr>])))"

definition final_ack :: "string \<Rightarrow> string \<Rightarrow> ctl_client \<Rightarrow> pydict" where
  "final_ack kind sid c =
     [(''type'', PStr kind), (''session_id'', PStr sid), (''node_id'', PInt (cc_node_id c)),
      (''channel'', PInt (cc_channel c))]"

definition handle_finalized :: handler where
  "handle_finalized env msg c = (case lease_guard env msg c of
     (Inl e, c) \<Rightarrow> (Some e, c, [])
   | (Inr False, c) \<Rightarrow> (None, c, [])
   | (Inr True, c) \<Rightarrow>
       (let sid = the (cc_session c); c = c\<lparr>cc_proposal := Some sid\<rparr>
        in (None, c, [final_ack ''RADIO_SWITCH_FINALIZED_ACK'' sid c])))"

text \<open>The callback \<^verbatim>\<open>on_radio_finalized\<close> runs after the lock is released; its exceptions are dropped.\<close>

definition confirm_switch :: "client_env \<Rightarrow> string \<Rightarrow> ctl_client \<Rightarrow> ctl_client \<times> pydict list" where
  "confirm_switch env sid c =
     (let c = c\<lparr>cc_locked := Some (cc_channel c), cc_cached := cc_channel c,
                cc_confirmed := Some sid, cc_confirmed_channel := Some (cc_channel c)\<rparr>;
          c = (clear_pending_switch c)\<lparr>cc_state := IDLE, cc_entered := ce_now env\<rparr>
      in (c, [final_ack ''RADIO_SWITCH_CONFIRMED_ACK'' sid c]))"

definition handle_confirmed :: handler where
  "handle_confirmed env msg c = (case as_str (dget msg ''session_id'') of
     None \<Rightarrow> (None, c, [])
   | Some sid \<Rightarrow>
       if sid = [] then (None, c, [])
       else (case in_targets (cc_node_id c) msg of
           Inl e \<Rightarrow> (Some e, c, [])
         | Inr t \<Rightarrow>
             if \<not> t \<or> \<not> channel_is_current msg c then (None, c, [])
             else if cc_confirmed c = Some sid \<and> cc_confirmed_channel c = Some (cc_channel c)
             then (None, c, [final_ack ''RADIO_SWITCH_CONFIRMED_ACK'' sid c])
             else (case matches_pending msg c of
                 Inl e \<Rightarrow> (Some e, c, [])
               | Inr m \<Rightarrow>
                   if \<not> m \<or> cc_proposal c \<noteq> Some sid then (None, c, [])
                   else (case wd_disarm_if_alive (ce_now env) (cc_watchdog c) of
                       (False, w) \<Rightarrow> (None, c, [])
                     | (True, w) \<Rightarrow>
                         (case confirm_switch env sid (c\<lparr>cc_watchdog := w\<rparr>) of
                            (c, outs) \<Rightarrow> (None, c, outs))))))"

section \<open>Rollback\<close>

definition rollback_begin :: client_op where
  "rollback_begin c = (None, c\<lparr>cc_applied := False, cc_proposal := None\<rparr>)"

definition rollback_params :: "client_env \<Rightarrow> client_op" where
  "rollback_params env c = (case cc_pre c of
     None \<Rightarrow> (None, c)
   | Some r \<Rightarrow> then_op (apply_txpower_switch env (rc_txpower r)) (set_uplink_mcs (rc_uplink_mcs r)) c)"

definition rollback_end :: "client_env \<Rightarrow> client_op" where
  "rollback_end env c =
     (None, (clear_pending_switch c)\<lparr>cc_locked := None, cc_state := HUNTING, cc_entered := ce_now env\<rparr>)"

definition rollback_switch :: "client_env \<Rightarrow> client_op" where
  "rollback_switch env =
     then_op rollback_begin
    (then_op (apply_channel_switch env DEFAULT_BENCHMARK_CHANNEL)
    (then_op (rollback_params env)
    (then_op (notify_radio_applied env) (rollback_end env))))"

definition handle_abort :: handler where
  "handle_abort env msg c = (case matches_pending msg c of
     Inl e \<Rightarrow> (Some e, c, [])
   | Inr m \<Rightarrow>
       if \<not> m \<or> \<not> py_eq (dget_default msg ''channel'' (PInt (cc_channel c))) (PInt (cc_channel c))
       then (None, c, [])
       else (case rollback_switch env c of
           (Some e, c') \<Rightarrow> (Some e, c', [])
         | (None, c') \<Rightarrow> (None, c'\<lparr>cc_watchdog := wd_disarm (cc_watchdog c')\<rparr>, [])))"

text \<open>\<^verbatim>\<open>_on_lease_watchdog_expired\<close>, the callback of the watchdog thread, and the supervisor's retry.\<close>

definition on_lease_expired :: "client_env \<Rightarrow> client_op" where
  "on_lease_expired env c =
     (if \<not> wd_expired (cc_watchdog c) \<or> cc_session c = None then (None, c) else rollback_switch env c)"

definition supervise_restore :: "client_env \<Rightarrow> ctl_client \<Rightarrow> bool \<times> ctl_client" where
  "supervise_restore env c =
     (if cc_pre c \<noteq> None \<and> wd_expired (cc_watchdog c) then
        (case rollback_switch env c of (None, c') \<Rightarrow> (False, c') | (Some e, c') \<Rightarrow> (True, c'))
      else (cc_pre c \<noteq> None, c))"

section \<open>Dispatch\<close>

definition handler_of :: "string \<Rightarrow> handler option" where
  "handler_of t =
     (if t = ''CONFIG_RADIO_PREPARE'' then Some handle_prepare
      else if t = ''CONFIG_RADIO_COMMIT'' then Some handle_commit
      else if t = ''CONFIG_RADIO_ABORT'' then Some handle_abort
      else if t = ''NEW_CHANNEL_PING'' then Some handle_ping
      else if t = ''RADIO_SWITCH_FINALIZED'' then Some handle_finalized
      else if t = ''RADIO_SWITCH_CONFIRMED'' then Some handle_confirmed
      else None)"

text \<open>A handler's exception is logged and dropped; an unhashable type makes the lookup itself raise,
  outside every \<^verbatim>\<open>try\<close>. Messages of other types go to handlers of the daemon, which are not part of
  this state.\<close>

definition handle_broadcast :: "client_env \<Rightarrow> pyval \<Rightarrow> ctl_client \<Rightarrow> exn option \<times> ctl_client \<times> pydict list" where
  "handle_broadcast env v c = (case as_dict v of
     None \<Rightarrow> (None, c, [])
   | Some msg \<Rightarrow>
       if dget msg ''channel'' \<noteq> PNone \<and> \<not> channel_is_current msg c then (None, c, [])
       else
         let t = dget_default msg ''type'' (PStr []) in
         if \<not> hashable t then (Some (TypeError ''unhashable type''), c, [])
         else (case Option.bind (as_str t) handler_of of
             None \<Rightarrow> (None, c, [])
           | Some h \<Rightarrow> (case h env msg c of (_, c', outs) \<Rightarrow> (None, c', outs))))"

end
