(* ===== verification/Client_Runs.thy ===== *)
theory Client_Runs
  imports Client_Switch
begin

text \<open>
  Runs of one client: any interleaving of broadcasts, delayed switches that are due, watchdog turns
  and callbacks, supervisor retries, hunting turns and heartbeats. \<open>cc_inv\<close> is kept by all of them.
  \<open>switch_part\<close> is the part of the state only the switch protocol writes; everything else leaves it
  alone. The lemmas at the end say what each acknowledgement a client sends presupposes.
\<close>

datatype client_event =
    CeBroadcast pyval
  | CeSwitch nat
  | CeWatchdog nat
  | CeExpired
  | CeSupervise
  | CeTune int
  | CeHuntSend int
  | CeHuntReply int hb_io hb_io
  | CeHeartbeat hb_io
  | CeNotify hb_io client_node_state
  | CeTaskReady string "hb_io list"

text \<open>The \<open>i\<close>-th sleeping switch thread runs if its sleep is over.\<close>

definition run_switch_thread :: "client_env \<Rightarrow> nat \<Rightarrow> ctl_client \<Rightarrow> ctl_client" where
  "run_switch_thread env i c =
     (if i < length (cc_threads c) then
        (case cc_threads c ! i of (wake, sid, p) \<Rightarrow>
           if wake \<le> ce_now env
           then delayed_switch env sid p
                  (c\<lparr>cc_threads := take i (cc_threads c) @ drop (Suc i) (cc_threads c)\<rparr>)
           else c)
      else c)"

fun client_step :: "client_env \<Rightarrow> client_event \<Rightarrow> ctl_client \<Rightarrow> ctl_client \<times> pydict list" where
  "client_step env (CeBroadcast v) c = snd (handle_broadcast env v c)"
| "client_step env (CeSwitch i) c = (run_switch_thread env i c, [])"
| "client_step env (CeWatchdog g) c =
     (c\<lparr>cc_watchdog := snd (wd_run_turn g (ce_now env) (cc_watchdog c))\<rparr>, [])"
| "client_step env CeExpired c = (snd (on_lease_expired env c), [])"
| "client_step env CeSupervise c = (snd (supervise_restore env c), [])"
| "client_step env (CeTune ch) c = (snd (hunt_tune env ch c), [])"
| "client_step env (CeHuntSend ch) c = (case hunt_send env ch c of (c', m) \<Rightarrow> (c', [m]))"
| "client_step env (CeHuntReply ch io io_idle) c = snd (hunt_reply env ch io io_idle c)"
| "client_step env (CeHeartbeat io) c = snd (send_heartbeat_once env io c)"
| "client_step env (CeNotify io st) c = notify_state_change env io st c"
| "client_step env (CeTaskReady job ios) c = snd (notify_task_ready env job ios c)"

fun client_run :: "(client_env \<times> client_event) list \<Rightarrow> ctl_client \<Rightarrow> ctl_client \<times> pydict list" where
  "client_run [] c = (c, [])"
| "client_run ((env, e) # es) c =
     (case client_step env e c of (c', outs) \<Rightarrow>
      case client_run es c' of (c'', outs') \<Rightarrow> (c'', outs @ outs'))"

section \<open>The invariant\<close>

definition cc_inv :: "ctl_client \<Rightarrow> bool" where
  "cc_inv c \<longleftrightarrow>
     (cc_pre c \<noteq> None \<longrightarrow> cc_session c \<noteq> None) \<and>
     (wd_armed (cc_watchdog c) \<longrightarrow> cc_pre c \<noteq> None) \<and>
     (cc_applied c \<longrightarrow> cc_pre c \<noteq> None) \<and>
     (cc_proposal c \<noteq> None \<longrightarrow> cc_proposal c = cc_session c \<and> cc_pre c \<noteq> None) \<and>
     (cc_session c \<noteq> None \<longrightarrow> cc_session c \<noteq> Some [] \<and> cc_session c \<noteq> cc_confirmed c) \<and>
     wd_inv (cc_watchdog c)"

text \<open>The part of the state that belongs to the switch protocol.\<close>

definition switch_part where
  "switch_part c = (cc_node_id c, cc_session c, cc_patch c, cc_pre c, cc_applied c, cc_proposal c,
     cc_confirmed c, cc_confirmed_channel c, cc_watchdog c, cc_threads c)"

lemma switch_part_eqs:
  "switch_part c' = switch_part c \<Longrightarrow>
   cc_node_id c' = cc_node_id c \<and> cc_session c' = cc_session c \<and> cc_patch c' = cc_patch c \<and>
   cc_pre c' = cc_pre c \<and> cc_applied c' = cc_applied c \<and> cc_proposal c' = cc_proposal c \<and>
   cc_confirmed c' = cc_confirmed c \<and> cc_confirmed_channel c' = cc_confirmed_channel c \<and>
   cc_watchdog c' = cc_watchdog c \<and> cc_threads c' = cc_threads c"
  by (simp add: switch_part_def)

lemma cc_inv_switch_part: "switch_part c' = switch_part c \<Longrightarrow> cc_inv c' = cc_inv c"
  by (simp add: switch_part_def cc_inv_def)

text \<open>Frame lemmas, from the hardware operations up.\<close>

definition keeps :: "client_op \<Rightarrow> bool" where
  "keeps f \<longleftrightarrow> (\<forall>c. switch_part (snd (f c)) = switch_part c)"

lemma keeps_then [frame_simps]: "keeps f \<Longrightarrow> keeps g \<Longrightarrow> keeps (then_op f g)"
  by (auto simp: keeps_def then_op_def split: prod.split option.split) (metis snd_conv)+

lemma keeps_ops [frame_simps]:
  "keeps (apply_channel_switch env ch)" "keeps (apply_txpower_switch env pw)"
  "keeps (set_uplink_mcs m)" "keeps (notify_radio_applied env)"
  by (auto simp: keeps_def op_defs switch_part_def split: option.split)

lemma keeps_opt [frame_simps]: "(\<And>i. keeps (f i)) \<Longrightarrow> keeps (opt_op x f)"
  by (auto simp: keeps_def opt_op_def split: option.split)

lemma keeps_if [frame_simps]: "keeps f \<Longrightarrow> keeps (\<lambda>c. if P c then f c else (None, c))"
  by (simp add: keeps_def)

lemma keeps_align [frame_simps]: "keeps (align_update env u)" "keeps (align_restore env base)"
  unfolding align_update_def align_restore_def by (intro frame_simps)+

lemma keeps_apply_patch [frame_simps]: "keeps (apply_patch env p)"
  unfolding apply_patch_def by (intro frame_simps)

lemma keepsD: "keeps f \<Longrightarrow> f c = (r, c') \<Longrightarrow> switch_part c' = switch_part c"
  by (metis keeps_def snd_conv)

lemma apply_alignment_part: "switch_part (snd (apply_alignment env patch c)) = switch_part c"
  using keeps_align [of env]
  by (auto simp: apply_alignment_def Let_def keeps_def split: option.split sum.split prod.split)
    (metis snd_conv)+

lemma check_alignment_part: "switch_part (check_alignment_packet env extra c) = switch_part c"
  by (auto simp: check_alignment_packet_def apply_alignment_part split: option.split)

lemma next_timestamp_part [simp]: "next_timestamp now c = (ts, c') \<Longrightarrow> switch_part c' = switch_part c"
  by (auto simp: next_timestamp_def Let_def switch_part_def)

lemma switch_part_upd [simp]:
  "switch_part (c\<lparr>cc_state := st\<rparr>) = switch_part c" "switch_part (c\<lparr>cc_entered := t\<rparr>) = switch_part c"
  "switch_part (c\<lparr>cc_missed := n\<rparr>) = switch_part c" "switch_part (c\<lparr>cc_locked := l\<rparr>) = switch_part c"
  "switch_part (c\<lparr>cc_cached := k\<rparr>) = switch_part c" "switch_part (c\<lparr>cc_channel := h\<rparr>) = switch_part c"
  by (simp_all add: switch_part_def)

lemma send_heartbeat_part:
  "send_heartbeat env io st el c = (a, c', outs) \<Longrightarrow> switch_part c' = switch_part c"
  by (auto simp: send_heartbeat_def Let_def check_alignment_part split: prod.splits if_splits)

lemma send_heartbeat_once_part:
  "send_heartbeat_once env io c = (a, c', outs) \<Longrightarrow> switch_part c' = switch_part c"
  by (auto simp: send_heartbeat_once_def Let_def split: prod.splits if_splits
      dest!: send_heartbeat_part)

lemma notify_state_change_part:
  "notify_state_change env io st c = (c', outs) \<Longrightarrow> switch_part c' = switch_part c"
  by (cases "send_heartbeat env io (cns_value st) 0 (c\<lparr>cc_state := st, cc_entered := ce_now env\<rparr>)")
    (auto simp: notify_state_change_def split: if_splits dest!: send_heartbeat_part)

lemma notify_task_ready_part:
  "notify_task_ready env job ios c = (r, c', outs) \<Longrightarrow> switch_part c' = switch_part c"
  by (auto simp: notify_task_ready_def Let_def split: prod.splits option.splits)

lemma hunt_parts:
  "hunt_tune env ch c = (r, c') \<Longrightarrow> switch_part c' = switch_part c"
  "hunt_send env ch c = (c', m) \<Longrightarrow> switch_part c' = switch_part c"
  "hunt_reply env ch io io_idle c = (h, c', outs) \<Longrightarrow> switch_part c' = switch_part c"
  by (auto simp: hunt_tune_def hunt_send_def hunt_reply_def Let_def check_alignment_part
      split: prod.splits option.splits if_splits
      dest!: send_heartbeat_part keepsD [OF keeps_ops(1)])

text \<open>The events that are not part of the switch protocol.\<close>

fun switch_event :: "client_event \<Rightarrow> bool" where
  "switch_event (CeBroadcast v) = True"
| "switch_event (CeSwitch i) = True"
| "switch_event (CeWatchdog g) = True"
| "switch_event CeExpired = True"
| "switch_event CeSupervise = True"
| "switch_event _ = False"

lemma other_event_part:
  assumes "\<not> switch_event e" and step: "client_step env e c = (c', outs)"
  shows "switch_part c' = switch_part c"
proof (cases e)
  case (CeTune ch)
  with step show ?thesis by (cases "hunt_tune env ch c") (auto dest: hunt_parts(1))
next
  case (CeHuntSend ch)
  with step show ?thesis by (cases "hunt_send env ch c") (auto dest: hunt_parts(2))
next
  case (CeHuntReply ch io io_idle)
  with step show ?thesis by (cases "hunt_reply env ch io io_idle c") (auto dest: hunt_parts(3))
next
  case (CeHeartbeat io)
  with step show ?thesis
    by (cases "send_heartbeat_once env io c") (auto dest: send_heartbeat_once_part)
next
  case (CeNotify io st)
  with step show ?thesis by (auto dest: notify_state_change_part)
next
  case (CeTaskReady job ios)
  with step show ?thesis
    by (cases "notify_task_ready env job ios c") (auto dest: notify_task_ready_part)
qed (use assms(1) in simp_all)

section \<open>Rollback\<close>

definition rolled_back :: "client_env \<Rightarrow> ctl_client \<Rightarrow> ctl_client \<Rightarrow> bool" where
  "rolled_back env c c' \<longleftrightarrow>
     cc_channel c' = DEFAULT_BENCHMARK_CHANNEL \<and> cc_state c' = HUNTING \<and> cc_locked c' = None \<and>
     cc_session c' = None \<and> cc_patch c' = None \<and> cc_pre c' = None \<and> \<not> cc_applied c' \<and>
     cc_proposal c' = None \<and> cc_entered c' = ce_now env \<and>
     (case cc_pre c of
        None \<Rightarrow> cc_txpower c' = cc_txpower c \<and> cc_uplink_mcs c' = cc_uplink_mcs c
      | Some r \<Rightarrow> cc_txpower c' = rc_txpower r \<and> cc_uplink_mcs c' = rc_uplink_mcs r) \<and>
     cc_confirmed c' = cc_confirmed c \<and> cc_confirmed_channel c' = cc_confirmed_channel c \<and>
     cc_watchdog c' = cc_watchdog c \<and> cc_threads c' = cc_threads c \<and> cc_node_id c' = cc_node_id c \<and>
     cc_cached c' = cc_cached c \<and> cc_last_ts c' = cc_last_ts c"

definition rollback_pending :: "ctl_client \<Rightarrow> ctl_client \<Rightarrow> bool" where
  "rollback_pending c c' \<longleftrightarrow>
     switch_part c' = switch_part (c\<lparr>cc_applied := False, cc_proposal := None\<rparr>)"

lemma rollback_switch_outcome:
  "rollback_switch env c = (r, c') \<Longrightarrow>
   (case r of None \<Rightarrow> rolled_back env c c' | Some e \<Rightarrow> rollback_pending c c')"
  by (auto simp: rollback_switch_def rollback_begin_def rollback_params_def rollback_end_def op_defs
      rolled_back_def rollback_pending_def switch_part_def clear_pending_switch_def
      split: option.splits)

lemma rollback_switch_simps:
  "rollback_switch env c = (None, c') \<Longrightarrow> rolled_back env c c'"
  "rollback_switch env c = (Some e, c') \<Longrightarrow> rollback_pending c c'"
  by (drule rollback_switch_outcome, simp)+

lemma rolled_back_inv:
  "rolled_back env c c' \<Longrightarrow> wd_inv (cc_watchdog c) \<Longrightarrow> \<not> wd_armed (cc_watchdog c) \<Longrightarrow> cc_inv c'"
  by (simp add: rolled_back_def cc_inv_def)

lemma rollback_pending_inv: "rollback_pending c c' \<Longrightarrow> cc_inv c \<Longrightarrow> cc_inv c'"
  by (simp add: rollback_pending_def cc_inv_def switch_part_def)

section \<open>Every event keeps the invariant\<close>

lemma wd_steps_inv:
  "wd_inv w \<Longrightarrow> wd_inv (wd_arm now t w)"
  "wd_inv w \<Longrightarrow> wd_refresh now t w = (b, w') \<Longrightarrow> wd_inv w'"
  "wd_inv w \<Longrightarrow> wd_refresh now t w = (b, w') \<Longrightarrow> wd_armed w' = wd_armed w"
  "wd_inv w \<Longrightarrow> wd_inv (wd_disarm w)"
  "wd_disarm_if_alive now w = (True, w') \<Longrightarrow> w' = wd_disarm w \<and> wd_is_armed now w"
  "\<not> wd_armed (wd_disarm w)"
  by (auto simp: wd_inv_def wd_defs split: option.splits if_splits)

lemma cc_inv_upd [simp]:
  "cc_inv (c\<lparr>cc_last_ts := t\<rparr>) = cc_inv c" "cc_inv (c\<lparr>cc_state := st\<rparr>) = cc_inv c"
  "cc_inv (c\<lparr>cc_entered := tm\<rparr>) = cc_inv c" "cc_inv (c\<lparr>cc_threads := th\<rparr>) = cc_inv c"
  by (simp_all add: cc_inv_def)

lemma next_timestamp_inv: "next_timestamp now c = (ts, c') \<Longrightarrow> cc_inv c' = cc_inv c"
  by (auto simp: next_timestamp_def Let_def)

lemma handle_prepare_inv: "cc_inv c \<Longrightarrow> handle_prepare env msg c = (r, c', outs) \<Longrightarrow> cc_inv c'"
  by (auto simp: handle_prepare_def Let_def split: option.splits if_splits sum.splits bool.splits
      prod.splits dest!: next_timestamp_inv) (auto simp: cc_inv_def)

lemma matches_pending_true: "matches_pending msg c = Inr True \<Longrightarrow>
  \<exists>sid. cc_session c = Some sid \<and> dget msg ''session_id'' = PStr sid \<and> in_targets (cc_node_id c) msg = Inr True"
  by (auto simp: matches_pending_def split: option.splits if_splits)

lemma handle_commit_inv: "cc_inv c \<Longrightarrow> handle_commit env msg c = (r, c', outs) \<Longrightarrow> cc_inv c'"
  by (auto simp: handle_commit_def Let_def split: option.splits if_splits sum.splits
      dest!: matches_pending_true) (auto simp: cc_inv_def wd_steps_inv)

lemma lease_guard_true:
  "lease_guard env msg c = (Inr True, c') \<Longrightarrow>
   \<exists>sid. cc_session c = Some sid \<and> dget msg ''session_id'' = PStr sid \<and>
     in_targets (cc_node_id c) msg = Inr True \<and> channel_is_current msg c \<and> cc_applied c \<and>
     cc_patch c \<noteq> None \<and> wd_is_armed (ce_now env) (cc_watchdog c) \<and>
     c' = c\<lparr>cc_watchdog := snd (wd_refresh (ce_now env) None (cc_watchdog c))\<rparr>"
  using wd.refresh_iff [of "ce_now env" None "cc_watchdog c"]
  by (auto simp: lease_guard_def split: sum.splits if_splits prod.splits dest!: matches_pending_true)

lemma lease_guard_inv: "cc_inv c \<Longrightarrow> lease_guard env msg c = (r, c') \<Longrightarrow> cc_inv c'"
  using wd_steps_inv(2,3) [of "cc_watchdog c" "ce_now env" None]
  by (auto simp: lease_guard_def split: sum.splits if_splits prod.splits) (auto simp: cc_inv_def)

lemma handle_ping_inv: "cc_inv c \<Longrightarrow> handle_ping env msg c = (r, c', outs) \<Longrightarrow> cc_inv c'"
  using lease_guard_inv [of c env msg]
  by (auto simp: handle_ping_def split: sum.splits bool.splits prod.splits dest!: next_timestamp_inv)

lemma handle_finalized_inv: "cc_inv c \<Longrightarrow> handle_finalized env msg c = (r, c', outs) \<Longrightarrow> cc_inv c'"
  using lease_guard_inv [of c env msg]
  by (auto simp: handle_finalized_def Let_def split: sum.splits bool.splits prod.splits
      dest!: lease_guard_true) (auto simp: cc_inv_def)

lemma handle_confirmed_inv: "cc_inv c \<Longrightarrow> handle_confirmed env msg c = (r, c', outs) \<Longrightarrow> cc_inv c'"
  by (auto simp: handle_confirmed_def confirm_switch_def clear_pending_switch_def Let_def
      split: option.splits if_splits sum.splits bool.splits prod.splits dest!: wd_steps_inv(5))
    (auto simp: cc_inv_def wd_steps_inv)

lemma rolled_back_disarm_inv:
  "rolled_back env c c' \<Longrightarrow> cc_inv c \<Longrightarrow> cc_inv (c'\<lparr>cc_watchdog := wd_disarm (cc_watchdog c')\<rparr>)"
  by (simp add: rolled_back_def cc_inv_def wd_steps_inv)

lemma handle_abort_inv: "cc_inv c \<Longrightarrow> handle_abort env msg c = (r, c', outs) \<Longrightarrow> cc_inv c'"
  by (auto simp: handle_abort_def split: option.splits if_splits sum.splits prod.splits
      dest: rollback_switch_simps intro: rolled_back_disarm_inv rollback_pending_inv)

lemma expired_unarmed: "cc_inv c \<Longrightarrow> wd_expired (cc_watchdog c) \<Longrightarrow> \<not> wd_armed (cc_watchdog c)"
  by (auto simp: cc_inv_def wd_inv_def)

lemma rollback_switch_inv:
  assumes inv: "cc_inv c" and ex: "wd_expired (cc_watchdog c)" and r: "rollback_switch env c = (r, c')"
  shows "cc_inv c'"
proof (cases r)
  case None
  with r have "rolled_back env c c'" by (simp add: rollback_switch_simps)
  then show ?thesis
    by (rule rolled_back_inv) (use inv expired_unarmed [OF inv ex] in \<open>simp_all add: cc_inv_def\<close>)
next
  case (Some e)
  with r have "rollback_pending c c'" by (simp add: rollback_switch_simps)
  then show ?thesis using inv by (rule rollback_pending_inv)
qed

lemma on_lease_expired_inv: "cc_inv c \<Longrightarrow> on_lease_expired env c = (r, c') \<Longrightarrow> cc_inv c'"
  by (auto simp: on_lease_expired_def split: if_splits intro: rollback_switch_inv)

lemma supervise_restore_inv: "cc_inv c \<Longrightarrow> supervise_restore env c = (r, c') \<Longrightarrow> cc_inv c'"
  by (auto simp: supervise_restore_def split: if_splits prod.splits option.splits
      intro: rollback_switch_inv)

lemma wd_turn_inv: "cc_inv c \<Longrightarrow>
  cc_inv (c\<lparr>cc_watchdog := snd (wd_run_turn g now (cc_watchdog c))\<rparr>)"
  by (auto simp: cc_inv_def wd_inv_def wd_run_turn_def Let_def)

lemma delayed_switch_inv: "cc_inv c \<Longrightarrow> cc_inv (delayed_switch env sid p c)"
  using keepsD [OF keeps_apply_patch [of env p]]
  by (auto simp: delayed_switch_def cc_inv_def wd_is_armed_def switch_part_def split: option.split
      prod.split)

lemma run_switch_thread_inv: "cc_inv c \<Longrightarrow> cc_inv (run_switch_thread env i c)"
  by (auto simp: run_switch_thread_def split: prod.split intro: delayed_switch_inv)

lemma handler_inv:
  "cc_inv c \<Longrightarrow> handler_of t = Some h \<Longrightarrow> h env msg c = (r, c', outs) \<Longrightarrow> cc_inv c'"
  by (auto simp: handler_of_def split: if_splits intro: handle_prepare_inv handle_commit_inv
      handle_ping_inv handle_finalized_inv handle_confirmed_inv handle_abort_inv)

lemma handle_broadcast_inv: "cc_inv c \<Longrightarrow> handle_broadcast env v c = (r, c', outs) \<Longrightarrow> cc_inv c'"
  by (auto simp: handle_broadcast_def Let_def bind_eq_Some_conv split: option.splits if_splits prod.splits
      intro: handler_inv)

lemma other_event_inv:
  "\<not> switch_event e \<Longrightarrow> client_step env e c = (c', outs) \<Longrightarrow> cc_inv c \<Longrightarrow> cc_inv c'"
  by (drule (1) other_event_part) (rule iffD2 [OF cc_inv_switch_part])

lemma client_step_inv:
  assumes inv: "cc_inv c" and step: "client_step env e c = (c', outs)"
  shows "cc_inv c'"
proof (cases e)
  case (CeBroadcast v)
  with step inv show ?thesis by (cases "handle_broadcast env v c") (auto dest: handle_broadcast_inv)
next
  case (CeSwitch i)
  with step inv show ?thesis by (auto simp: run_switch_thread_inv)
next
  case (CeWatchdog g)
  with step inv show ?thesis by (auto simp: wd_turn_inv)
next
  case CeExpired
  with step inv show ?thesis by (cases "on_lease_expired env c") (auto dest: on_lease_expired_inv)
next
  case CeSupervise
  with step inv show ?thesis by (cases "supervise_restore env c") (auto dest: supervise_restore_inv)
qed (rule other_event_inv [OF _ step inv], simp)+

lemma client_run_inv: "cc_inv c \<Longrightarrow> client_run es c = (c', outs) \<Longrightarrow> cc_inv c'"
  by (induction es c arbitrary: outs rule: client_run.induct)
    (auto split: prod.splits dest: client_step_inv)

lemma cc_inv_init: "cc_inv (client_init nid ch cached pw um now)"
  by (simp add: cc_inv_def client_init_def watchdog_init_def wd_inv_def)

section \<open>What the acknowledgements presuppose\<close>

lemma next_timestamp_id: "next_timestamp now c = (ts, c') \<Longrightarrow>
  c' = c\<lparr>cc_last_ts := ts\<rparr> \<and> cc_last_ts c < ts \<and> \<lfloor>now * 1000\<rfloor> \<le> ts"
  by (auto simp: next_timestamp_def Let_def split: if_splits)

text \<open>Heartbeats and task readiness are the only datagrams outside the switch protocol.\<close>

definition plain_datagram :: "pydict \<Rightarrow> bool" where
  "plain_datagram m \<longleftrightarrow> dget m ''type'' = PStr ''NODE_HEARTBEAT'' \<or> dget m ''type'' = PStr ''TASK_READY''"

lemma hb_to_dict_type [simp]: "dget (hb_to_dict h) ''type'' = PStr ''NODE_HEARTBEAT''"
  by (simp add: hb_to_dict_def)

lemma plain_hb [simp]: "plain_datagram (hb_to_dict h)"
  by (simp add: plain_datagram_def)

lemma send_heartbeat_plain:
  "send_heartbeat env io st el c = (a, c', outs) \<Longrightarrow> m \<in> set outs \<Longrightarrow> plain_datagram m"
  by (auto simp: send_heartbeat_def Let_def split: prod.splits if_splits)

lemma send_heartbeat_once_plain:
  "send_heartbeat_once env io c = (a, c', outs) \<Longrightarrow> m \<in> set outs \<Longrightarrow> plain_datagram m"
  by (auto simp: send_heartbeat_once_def Let_def split: prod.splits if_splits
      dest: send_heartbeat_plain)

lemma hunt_reply_plain:
  "hunt_reply env ch io io_idle c = (r, c', outs) \<Longrightarrow> m \<in> set outs \<Longrightarrow> plain_datagram m"
  by (auto simp: hunt_reply_def Let_def split: prod.splits if_splits dest: send_heartbeat_plain)

lemma notify_state_change_plain:
  "notify_state_change env io st c = (c', outs) \<Longrightarrow> m \<in> set outs \<Longrightarrow> plain_datagram m"
  by (cases "send_heartbeat env io (cns_value st) 0 (c\<lparr>cc_state := st, cc_entered := ce_now env\<rparr>)")
    (auto simp: notify_state_change_def split: if_splits dest: send_heartbeat_plain)

lemma notify_task_ready_plain:
  "notify_task_ready env job ios c = (r, c', outs) \<Longrightarrow> m \<in> set outs \<Longrightarrow> plain_datagram m"
  by (auto simp: notify_task_ready_def Let_def task_ready_message_def plain_datagram_def
      split: prod.splits option.splits)

lemma other_event_plain:
  assumes "\<not> switch_event e" and step: "client_step env e c = (c', outs)" and m: "m \<in> set outs"
  shows "plain_datagram m"
proof (cases e)
  case (CeTune ch)
  with step m show ?thesis by simp
next
  case (CeHuntSend ch)
  with step m show ?thesis by (auto simp: hunt_send_def Let_def split: prod.splits)
next
  case (CeHuntReply ch io io_idle)
  with step m show ?thesis
    by (cases "hunt_reply env ch io io_idle c") (auto dest: hunt_reply_plain)
next
  case (CeHeartbeat io)
  with step m show ?thesis
    by (cases "send_heartbeat_once env io c") (auto dest: send_heartbeat_once_plain)
next
  case (CeNotify io st)
  with step m show ?thesis by (auto dest: notify_state_change_plain)
next
  case (CeTaskReady job ios)
  with step m show ?thesis
    by (cases "notify_task_ready env job ios c") (auto dest: notify_task_ready_plain)
qed (use assms(1) in simp_all)

text \<open>Each handler: what it sends, and how it moves the confirmation.\<close>

lemma handle_prepare_effect:
  "handle_prepare env msg c = (r, c', outs) \<Longrightarrow>
   (cc_confirmed c' = cc_confirmed c \<or> cc_confirmed c' = None) \<and> cc_node_id c' = cc_node_id c \<and>
   (\<forall>m \<in> set outs. dget m ''type'' = PStr ''PREPARE_ACK'' \<and> dget m ''node_id'' = PInt (cc_node_id c) \<and>
      (dget m ''ok'' = PBool True \<longrightarrow> (\<exists>sid. dget m ''session_id'' = PStr sid \<and> cc_session c' = Some sid)))"
  by (auto simp: handle_prepare_def Let_def prepare_ack_datagram_def pa_to_dict_def
      split: option.splits if_splits sum.splits bool.splits prod.splits dest!: next_timestamp_id)

lemma handle_commit_effect:
  "handle_commit env msg c = (r, c', outs) \<Longrightarrow>
   cc_confirmed c' = cc_confirmed c \<and> cc_node_id c' = cc_node_id c \<and> outs = []"
  by (auto simp: handle_commit_def Let_def split: option.splits if_splits sum.splits)

lemma handle_ping_effect:
  "handle_ping env msg c = (r, c', outs) \<Longrightarrow>
   cc_confirmed c' = cc_confirmed c \<and> cc_node_id c' = cc_node_id c \<and> cc_channel c' = cc_channel c \<and>
   (\<forall>m \<in> set outs. cc_applied c \<and> wd_is_armed (ce_now env) (cc_watchdog c) \<and>
      (\<exists>ts. m = cs_to_dict \<lparr>cs_node_id = cc_node_id c, cs_session_id = the (cc_session c),
         cs_current_channel = cc_channel c, cs_timestamp_ms = PInt ts\<rparr>))"
  by (auto simp: handle_ping_def split: sum.splits bool.splits prod.splits
      dest!: next_timestamp_id lease_guard_true)
    (auto simp: lease_guard_def split: sum.splits if_splits prod.splits)

lemma handle_finalized_effect:
  "handle_finalized env msg c = (r, c', outs) \<Longrightarrow>
   cc_confirmed c' = cc_confirmed c \<and> cc_node_id c' = cc_node_id c \<and> cc_channel c' = cc_channel c \<and>
   (\<forall>m \<in> set outs. cc_applied c \<and> wd_is_armed (ce_now env) (cc_watchdog c) \<and>
      cc_proposal c' = cc_session c \<and>
      m = final_ack ''RADIO_SWITCH_FINALIZED_ACK'' (the (cc_session c)) c')"
  by (auto simp: handle_finalized_def Let_def split: sum.splits bool.splits prod.splits
      dest!: lease_guard_true)
    (auto simp: lease_guard_def split: sum.splits if_splits prod.splits)

lemma handle_confirmed_effect:
  "handle_confirmed env msg c = (r, c', outs) \<Longrightarrow>
   cc_node_id c' = cc_node_id c \<and> cc_channel c' = cc_channel c \<and>
   (cc_confirmed c' \<noteq> cc_confirmed c \<longrightarrow>
      (\<exists>sid. cc_confirmed c' = Some sid \<and> dget msg ''session_id'' = PStr sid \<and>
         cc_proposal c = Some sid \<and> wd_is_armed (ce_now env) (cc_watchdog c))) \<and>
   (\<forall>m \<in> set outs. \<exists>sid. cc_confirmed c' = Some sid \<and>
      cc_confirmed_channel c' = Some (cc_channel c') \<and> dget msg ''session_id'' = PStr sid \<and>
      m = final_ack ''RADIO_SWITCH_CONFIRMED_ACK'' sid c')"
  by (auto simp: handle_confirmed_def confirm_switch_def clear_pending_switch_def Let_def final_ack_def
      split: option.splits if_splits sum.splits bool.splits prod.splits dest!: wd_steps_inv(5))

lemma handle_abort_effect:
  "handle_abort env msg c = (r, c', outs) \<Longrightarrow>
   cc_confirmed c' = cc_confirmed c \<and> cc_node_id c' = cc_node_id c \<and> outs = []"
  by (auto simp: handle_abort_def split: option.splits if_splits sum.splits prod.splits
      dest!: rollback_switch_simps)
    (auto simp: rolled_back_def rollback_pending_def switch_part_def)

section \<open>One step of a client\<close>

definition broadcast_of :: "client_event \<Rightarrow> pydict option" where
  "broadcast_of e = (case e of CeBroadcast v \<Rightarrow> as_dict v | _ \<Rightarrow> None)"

lemma rollback_keeps:
  "rollback_switch env c = (r, c') \<Longrightarrow> cc_confirmed c' = cc_confirmed c \<and> cc_node_id c' = cc_node_id c"
  by (drule rollback_switch_outcome, cases r)
    (auto simp: rolled_back_def rollback_pending_def switch_part_def)

lemma delayed_switch_keeps:
  "cc_confirmed (delayed_switch env sid p c) = cc_confirmed c \<and>
   cc_node_id (delayed_switch env sid p c) = cc_node_id c"
  using keepsD [OF keeps_apply_patch [of env p]]
  by (auto simp: delayed_switch_def switch_part_def split: option.split prod.split)

text \<open>Outside the broadcasts the confirmation does not move and no acknowledgement is sent.\<close>

lemma quiet_step:
  assumes "\<forall>v. e \<noteq> CeBroadcast v" and step: "client_step env e c = (c', outs)"
  shows "cc_confirmed c' = cc_confirmed c \<and> cc_node_id c' = cc_node_id c \<and>
    (\<forall>m \<in> set outs. plain_datagram m)"
proof (cases "switch_event e")
  case True
  then consider (sw) i where "e = CeSwitch i" | (wd) g where "e = CeWatchdog g"
    | (ex) "e = CeExpired" | (su) "e = CeSupervise"
    using assms(1) by (cases e) auto
  then show ?thesis
  proof cases
    case sw
    with step show ?thesis
      by (auto simp: run_switch_thread_def delayed_switch_keeps split: prod.splits)
  next
    case wd
    with step show ?thesis by auto
  next
    case ex
    with step show ?thesis
      by (cases "on_lease_expired env c")
        (auto simp: on_lease_expired_def split: if_splits dest: rollback_keeps)
  next
    case su
    with step show ?thesis
      by (cases "supervise_restore env c")
        (auto simp: supervise_restore_def split: if_splits prod.splits option.splits
          dest: rollback_keeps)
  qed
next
  case False
  from switch_part_eqs [OF other_event_part [OF False step]] other_event_plain [OF False step]
  show ?thesis by blast
qed

lemma handler_of_cases:
  "handler_of t = Some h \<Longrightarrow>
   t = ''CONFIG_RADIO_PREPARE'' \<and> h = handle_prepare \<or> t = ''CONFIG_RADIO_COMMIT'' \<and> h = handle_commit \<or>
   t = ''CONFIG_RADIO_ABORT'' \<and> h = handle_abort \<or> t = ''NEW_CHANNEL_PING'' \<and> h = handle_ping \<or>
   t = ''RADIO_SWITCH_FINALIZED'' \<and> h = handle_finalized \<or>
   t = ''RADIO_SWITCH_CONFIRMED'' \<and> h = handle_confirmed"
  unfolding handler_of_def by (auto split: if_splits)

lemma dget_default_type:
  "dget_default d k (PStr []) = PStr x \<Longrightarrow> handler_of x = Some h \<Longrightarrow> dget d k = PStr x"
  by (auto simp: dget_default_def dget_def handler_of_def split: option.splits)

lemma broadcast_cases:
  assumes "client_step env (CeBroadcast v) c = (c', outs)"
  shows "c' = c \<and> outs = [] \<or>
    (\<exists>msg t h r'. v = PDict msg \<and> dget msg ''type'' = PStr t \<and> handler_of t = Some h \<and>
       h env msg c = (r', c', outs))"
proof (cases "as_dict v")
  case None
  with assms show ?thesis by (simp add: handle_broadcast_def)
next
  case (Some msg)
  let ?t = "dget_default msg ''type'' (PStr [])"
  show ?thesis
  proof (cases "Option.bind (as_str ?t) handler_of")
    case None
    with Some assms show ?thesis by (auto simp: handle_broadcast_def Let_def split: if_splits)
  next
    case (Some h)
    then obtain t where t: "?t = PStr t" "handler_of t = Some h" by (auto simp: bind_eq_Some_conv)
    obtain r' c1 o1 where run: "h env msg c = (r', c1, o1)" by (metis prod_cases3)
    with Some \<open>as_dict v = Some msg\<close> assms t have "c' = c \<and> outs = [] \<or> c' = c1 \<and> outs = o1"
      by (auto simp: handle_broadcast_def Let_def split: if_splits)
    then show ?thesis
    proof
      assume "c' = c1 \<and> outs = o1"
      with run dget_default_type [OF t] t(2) \<open>as_dict v = Some msg\<close> show ?thesis by auto
    qed simp
  qed
qed

text \<open>Which handler moved the state or sent something.\<close>

lemma broadcast_handlers:
  assumes "client_step env (CeBroadcast v) c = (c', outs)"
  shows "c' = c \<and> outs = [] \<or> (\<exists>msg r. v = PDict msg \<and>
    (handle_prepare env msg c = (r, c', outs) \<or> handle_commit env msg c = (r, c', outs) \<or>
     handle_abort env msg c = (r, c', outs) \<or> handle_ping env msg c = (r, c', outs) \<or>
     handle_finalized env msg c = (r, c', outs) \<or>
     dget msg ''type'' = PStr ''RADIO_SWITCH_CONFIRMED'' \<and> handle_confirmed env msg c = (r, c', outs)))"
  using broadcast_cases [OF assms]
proof (elim disjE exE conjE)
  fix msg t h r'
  assume v: "v = PDict msg" and t: "dget msg ''type'' = PStr t" and h: "handler_of t = Some h"
    and run: "h env msg c = (r', c', outs)"
  from handler_of_cases [OF h] run t v show ?thesis by (elim disjE conjE) (simp_all, blast+)
qed simp

text \<open>A confirmation appears only through a CONFIRMED broadcast of a session this client finalized,
  with its lease alive.\<close>

lemma confirmed_step:
  assumes step: "client_step env e c = (c', outs)" and "cc_confirmed c' = Some sid"
  shows "cc_confirmed c = Some sid \<or>
    (\<exists>msg. broadcast_of e = Some msg \<and> dget msg ''type'' = PStr ''RADIO_SWITCH_CONFIRMED'' \<and>
       dget msg ''session_id'' = PStr sid \<and> cc_proposal c = Some sid \<and>
       wd_is_armed (ce_now env) (cc_watchdog c))"
proof (cases "\<exists>v. e = CeBroadcast v")
  case False
  with quiet_step [OF _ step] assms(2) show ?thesis by auto
next
  case True
  then obtain v where e: "e = CeBroadcast v" by blast
  have bo: "v = PDict msg \<Longrightarrow> broadcast_of e = Some msg" for msg by (simp add: broadcast_of_def e)
  from broadcast_handlers [OF step [unfolded e]] assms(2) show ?thesis
    by (elim disjE exE conjE)
      (auto simp: bo dest!: handle_prepare_effect handle_commit_effect
          handle_ping_effect handle_finalized_effect handle_confirmed_effect handle_abort_effect)
qed

lemma node_id_step:
  assumes step: "client_step env e c = (c', outs)"
  shows "cc_node_id c' = cc_node_id c"
proof (cases "\<exists>v. e = CeBroadcast v")
  case False
  with quiet_step [OF _ step] show ?thesis by auto
next
  case True
  then obtain v where e: "e = CeBroadcast v" by blast
  from broadcast_handlers [OF step [unfolded e]] show ?thesis
    by (auto dest!: handle_prepare_effect handle_commit_effect
        handle_ping_effect handle_finalized_effect handle_confirmed_effect handle_abort_effect)
qed

text \<open>What the sender of an acknowledgement was, when it sent it.\<close>

definition just_commit :: "client_env \<Rightarrow> ctl_client \<Rightarrow> pydict \<Rightarrow> bool" where
  "just_commit env c m \<longleftrightarrow>
     dget m ''type'' = PStr ''COMMIT_SUCCESS'' \<and> cc_applied c \<and>
     wd_is_armed (ce_now env) (cc_watchdog c) \<and>
     dget m ''session_id'' = PStr (the (cc_session c)) \<and>
     dget m ''current_channel'' = PInt (cc_channel c)"

definition just_finalized :: "client_env \<Rightarrow> ctl_client \<Rightarrow> ctl_client \<Rightarrow> pydict \<Rightarrow> bool" where
  "just_finalized env c c' m \<longleftrightarrow>
     dget m ''type'' = PStr ''RADIO_SWITCH_FINALIZED_ACK'' \<and> cc_applied c \<and>
     wd_is_armed (ce_now env) (cc_watchdog c) \<and> cc_proposal c' = cc_session c \<and>
     dget m ''session_id'' = PStr (the (cc_session c)) \<and> cc_channel c' = cc_channel c \<and>
     dget m ''channel'' = PInt (cc_channel c)"

definition just_confirmed :: "ctl_client \<Rightarrow> pydict \<Rightarrow> bool" where
  "just_confirmed c' m \<longleftrightarrow>
     dget m ''type'' = PStr ''RADIO_SWITCH_CONFIRMED_ACK'' \<and>
     cc_confirmed_channel c' = Some (cc_channel c') \<and> dget m ''channel'' = PInt (cc_channel c') \<and>
     (\<exists>sid. cc_confirmed c' = Some sid \<and> dget m ''session_id'' = PStr sid)"

definition ack_justified :: "client_env \<Rightarrow> ctl_client \<Rightarrow> ctl_client \<Rightarrow> pydict \<Rightarrow> bool" where
  "ack_justified env c c' m \<longleftrightarrow>
     plain_datagram m \<or>
     dget m ''node_id'' = PInt (cc_node_id c) \<and>
     (dget m ''type'' = PStr ''PREPARE_ACK'' \<or> just_commit env c m \<or>
      just_finalized env c c' m \<or> just_confirmed c' m)"

lemma ack_justified_handlers:
  "handle_prepare env msg c = (r, c', outs) \<Longrightarrow> m \<in> set outs \<Longrightarrow> ack_justified env c c' m"
  "handle_commit env msg c = (r, c', outs) \<Longrightarrow> m \<in> set outs \<Longrightarrow> ack_justified env c c' m"
  "handle_abort env msg c = (r, c', outs) \<Longrightarrow> m \<in> set outs \<Longrightarrow> ack_justified env c c' m"
  "handle_ping env msg c = (r, c', outs) \<Longrightarrow> m \<in> set outs \<Longrightarrow> ack_justified env c c' m"
  "handle_finalized env msg c = (r, c', outs) \<Longrightarrow> m \<in> set outs \<Longrightarrow> ack_justified env c c' m"
  "handle_confirmed env msg c = (r, c', outs) \<Longrightarrow> m \<in> set outs \<Longrightarrow> ack_justified env c c' m"
proof -
  assume "handle_prepare env msg c = (r, c', outs)" and "m \<in> set outs"
  from handle_prepare_effect [OF this(1)] this(2) show "ack_justified env c c' m"
    by (simp add: ack_justified_def)
next
  assume "handle_commit env msg c = (r, c', outs)" and "m \<in> set outs"
  from handle_commit_effect [OF this(1)] this(2) show "ack_justified env c c' m" by simp
next
  assume "handle_abort env msg c = (r, c', outs)" and "m \<in> set outs"
  from handle_abort_effect [OF this(1)] this(2) show "ack_justified env c c' m" by simp
next
  assume "handle_ping env msg c = (r, c', outs)" and "m \<in> set outs"
  from handle_ping_effect [OF this(1)] this(2)
  have "dget m ''node_id'' = PInt (cc_node_id c)" "just_commit env c m"
    by (auto simp: just_commit_def cs_to_dict_def)
  then show "ack_justified env c c' m" by (simp add: ack_justified_def)
next
  assume "handle_finalized env msg c = (r, c', outs)" and "m \<in> set outs"
  from handle_finalized_effect [OF this(1)] this(2)
  have "dget m ''node_id'' = PInt (cc_node_id c)" "just_finalized env c c' m"
    by (auto simp: just_finalized_def final_ack_def)
  then show "ack_justified env c c' m" by (simp add: ack_justified_def)
next
  assume "handle_confirmed env msg c = (r, c', outs)" and "m \<in> set outs"
  from handle_confirmed_effect [OF this(1)] this(2)
  have "dget m ''node_id'' = PInt (cc_node_id c)" "just_confirmed c' m"
    by (auto simp: just_confirmed_def final_ack_def)
  then show "ack_justified env c c' m" by (simp add: ack_justified_def)
qed

lemma acks_justified:
  assumes step: "client_step env e c = (c', outs)" and m: "m \<in> set outs"
  shows "ack_justified env c c' m"
proof (cases "\<exists>v. e = CeBroadcast v")
  case False
  with quiet_step [OF _ step] m show ?thesis by (auto simp: ack_justified_def)
next
  case True
  then obtain v where e: "e = CeBroadcast v" by blast
  from broadcast_handlers [OF step [unfolded e]] m show ?thesis
    by (elim disjE exE conjE) (simp, (erule (1) ack_justified_handlers)+)
qed

end
