(* ===== verification/Radio_Switch.thy ===== *)
theory Radio_Switch
  imports Reconf_Runs Client_Runs
begin

text \<open>
  The radio switch as a distributed protocol: one \<open>reconfigure_radio\<close> call of the server, any number
  of clients, and a network that may lose, delay, repeat and reorder. A broadcast once sent may be
  delivered to any client at any time, any number of times or never; likewise a datagram to the
  server. Broadcasts and datagrams of earlier sessions may still be around; the session of the call
  is fresh (\<^verbatim>\<open>uuid4\<close>). The clients' other events - watchdogs, hunting, heartbeats - interleave freely.
  A message is received as the value that was sent: the JSON text in between is not modelled.
\<close>

record switch_world =
  sw_txn :: txn
  sw_srv :: ctl_server
  sw_clients :: "int \<Rightarrow> ctl_client"
  sw_bcast :: "pydict set"
  sw_dgrams :: "pydict set"

inductive sw_step :: "switch_world \<Rightarrow> switch_world \<Rightarrow> bool" where
  sw_turn: "turn_enabled (te_now env) (sw_txn w) (sw_srv w) \<Longrightarrow>
    reconf_turn env (sw_txn w) (sw_srv w) = (tx', s', outs) \<Longrightarrow>
    sw_step w (w\<lparr>sw_txn := tx', sw_srv := s', sw_bcast := sw_bcast w \<union> set outs\<rparr>)"
| sw_recv: "d \<in> sw_dgrams w \<Longrightarrow>
    handle_datagram now wall (Some (PDict d)) addr (sw_srv w) = (r, s') \<Longrightarrow>
    sw_step w (w\<lparr>sw_srv := s'\<rparr>)"
| sw_client: "(\<And>msg. broadcast_of e = Some msg \<Longrightarrow> msg \<in> sw_bcast w) \<Longrightarrow>
    client_step env e (sw_clients w n) = (c', outs) \<Longrightarrow>
    sw_step w (w\<lparr>sw_clients := (sw_clients w)(n := c'), sw_dgrams := sw_dgrams w \<union> set outs\<rparr>)"

inductive_cases sw_stepE: "sw_step w w'"

text \<open>A world in which the call has just begun and nobody has heard of its session.\<close>

definition sw_start :: "string \<Rightarrow> switch_world \<Rightarrow> bool" where
  "sw_start sid w \<longleftrightarrow>
     (\<exists>env nodes patch tmo s0 outs old.
        reconf_begin env sid nodes patch tmo s0 = Started (sw_txn w) (sw_srv w) outs \<and>
        sw_bcast w = old \<union> set outs \<and>
        (\<forall>m \<in> old \<union> sw_dgrams w. dget m ''session_id'' \<noteq> PStr sid)) \<and>
     (\<forall>n. cc_node_id (sw_clients w n) = n \<and> cc_inv (sw_clients w n) \<and>
        cc_session (sw_clients w n) \<noteq> Some sid \<and> cc_confirmed (sw_clients w n) \<noteq> Some sid)"

inductive sw_reach :: "string \<Rightarrow> switch_world \<Rightarrow> bool" for sid where
  sw_begin: "sw_start sid w \<Longrightarrow> sw_reach sid w"
| sw_next: "sw_reach sid w \<Longrightarrow> sw_step w w' \<Longrightarrow> sw_reach sid w'"

section \<open>What the server broadcasts\<close>

lemma tx_message_dget [simp]:
  "dget (tx_message tx kind extra) ''type'' = PStr kind"
  "dget (tx_message tx kind extra) ''session_id'' = PStr (tx_session tx)"
  by (simp_all add: tx_message_def sw_message_def)

lemma msg_dget [simp]:
  "dget (msg_ping tx) ''type'' = PStr ''NEW_CHANNEL_PING''"
  "dget (msg_barrier tx k) ''type'' = PStr k"
  "dget (msg_abort tx ch r) ''type'' = PStr ''CONFIG_RADIO_ABORT''"
  "dget (msg_prepare tx tmo) ''type'' = PStr ''CONFIG_RADIO_PREPARE''"
  by (simp_all add: msg_ping_def msg_barrier_def msg_abort_def msg_prepare_def)

definition no_confirm :: "pydict list \<Rightarrow> bool" where
  "no_confirm ms \<longleftrightarrow> (\<forall>m \<in> set ms. dget m ''type'' \<noteq> PStr ''RADIO_SWITCH_CONFIRMED'')"

lemma reconf_fail_outs:
  "reconf_fail env e tx s outs = (tx', s', o') \<Longrightarrow> no_confirm outs \<Longrightarrow> no_confirm o'"
  by (auto simp: reconf_fail_def finish_failed_eq no_confirm_def Let_def split: if_splits sum.splits)

text \<open>Only the committed transaction says CONFIRMED.\<close>

lemma reconf_fail_committed:
  "reconf_fail env e tx s outs = (tx', s', o') \<Longrightarrow> tx_committed tx \<Longrightarrow> tx_committed tx' \<and> o' = outs"
  by (auto simp: reconf_fail_def finish_failed_eq Let_def)

lemma reconf_turn_committed:
  "reconf_turn env tx s = (tx', s', outs) \<Longrightarrow> tx_committed tx \<Longrightarrow> tx_committed tx'"
  by (auto simp: reconf_turn.simps turn_defs Let_def
      split: txn_pc.splits option.splits if_splits dest!: reconf_fail_same)

lemma reconf_turn_confirms:
  assumes turn: "reconf_turn env tx s = (tx', s', outs)" and ok: "call_ok tx s"
    and m: "m \<in> set outs" "dget m ''type'' = PStr ''RADIO_SWITCH_CONFIRMED''"
  shows "tx_committed tx"
proof (rule ccontr)
  assume nc: "\<not> tx_committed tx"
  then have "\<nexists>d v. tx_pc tx = PcConfirm d v"
    using ok by (auto simp: call_ok_def tx_active_def txn_inv_def pc_phase_ok_def)
  then have "no_confirm outs"
    using turn
    by (auto simp: reconf_turn.simps prepared_turn_def apply_turn_def ping_turn_def final_turn_def
        Let_def split: txn_pc.splits option.splits if_splits dest!: reconf_fail_outs)
      (auto simp: no_confirm_def)
  with m show False by (auto simp: no_confirm_def)
qed

section \<open>What the server has heard\<close>

definition ack_sent :: "switch_phase \<Rightarrow> int \<Rightarrow> string \<Rightarrow> int \<Rightarrow> pydict \<Rightarrow> bool" where
  "ack_sent ph n sid ch d \<longleftrightarrow>
     dget d ''node_id'' = PInt n \<and> dget d ''session_id'' = PStr sid \<and>
     (case ph of
        PREPARE \<Rightarrow> dget d ''type'' = PStr ''PREPARE_ACK'' \<and> dget d ''ok'' = PBool True
      | COMMIT \<Rightarrow> dget d ''type'' = PStr ''COMMIT_SUCCESS'' \<and> dget d ''current_channel'' = PInt ch
      | FINALIZED \<Rightarrow> dget d ''type'' = PStr ''RADIO_SWITCH_FINALIZED_ACK'' \<and> dget d ''channel'' = PInt ch
      | CONFIRMED \<Rightarrow> dget d ''type'' = PStr ''RADIO_SWITCH_CONFIRMED_ACK'' \<and> dget d ''channel'' = PInt ch)"

lemma pa_from_dict_Inr: "pa_from_dict (PDict d) = Inr a \<Longrightarrow>
  dget d ''node_id'' = PInt (pa_node_id a) \<and> dget d ''session_id'' = PStr (pa_session_id a) \<and>
  dget d ''ok'' = PBool (pa_ok a)"
  by (auto simp: pa_from_dict_def)

lemma cs_from_dict_Inr: "cs_from_dict (PDict d) = Inr a \<Longrightarrow>
  dget d ''node_id'' = PInt (cs_node_id a) \<and> dget d ''session_id'' = PStr (cs_session_id a) \<and>
  dget d ''current_channel'' = PInt (cs_current_channel a)"
  by (auto simp: cs_from_dict_def)

lemma heartbeat_present: "handle_heartbeat now wall hb addr s = (r, s') \<Longrightarrow> present_in ph s' n = present_in ph s n"
  by (auto simp: handle_heartbeat_def Let_def present_in_def prepare_ok_def
      split: prod.splits switch_phase.split)

lemma task_ready_present: "present_in ph (record_task_ready m s) n = present_in ph s n"
  by (cases ph; cases m) (auto simp: record_task_ready_def Let_def present_in_def prepare_ok_def)

lemma update_set: "(k', v') \<in> set (AList.update k v d) \<Longrightarrow> (k', v') = (k, v) \<or> (k', v') \<in> set d"
  by (induction d) (auto split: if_splits)

lemma record_present:
  "present_in ph (record_prepare_ack a s) n \<Longrightarrow> \<not> present_in ph s n \<Longrightarrow>
     ph = PREPARE \<and> n = pa_node_id a \<and> pa_ok a \<and> sv_session s = Some (pa_session_id a)"
  "present_in ph (record_commit_success b s) n \<Longrightarrow> \<not> present_in ph s n \<Longrightarrow>
     ph = COMMIT \<and> n = cs_node_id b \<and> sv_session s = Some (cs_session_id b) \<and>
     sv_target_channel s = Some (cs_current_channel b)"
  "present_in ph (record_finalized_ack p s) n \<Longrightarrow> \<not> present_in ph s n \<Longrightarrow>
     ph = FINALIZED \<and> dget p ''node_id'' = PInt n \<and> final_ack_matches FINALIZED p s"
  "present_in ph (record_confirmed_ack p s) n \<Longrightarrow> \<not> present_in ph s n \<Longrightarrow>
     ph = CONFIRMED \<and> dget p ''node_id'' = PInt n \<and> final_ack_matches CONFIRMED p s"
  by (cases ph; auto simp: present_in_def prepare_ok_def record_defs fst_set_update
      split: if_splits option.splits dest: update_set)+

lemma handle_datagram_present:
  assumes h: "handle_datagram now wall (Some (PDict d)) addr s = (r, s')"
    and new: "present_in ph s' n" "\<not> present_in ph s n"
    and s: "sv_session s = Some sid" "sv_target_channel s = Some ch"
  shows "ack_sent ph n sid ch d"
  using h new s
  by (auto simp: handle_datagram_def handle_task_ready_def Let_def task_ready_present ack_sent_def
      final_ack_matches_def
      split: option.splits sum.splits if_splits prod.splits
      dest!: heartbeat_present record_present pa_from_dict_Inr cs_from_dict_Inr)

section \<open>What a turn changes\<close>

lemma fail_inactive: "reconf_fail env e tx s outs = (tx', s', o') \<Longrightarrow> \<not> tx_active tx'"
  by (drule reconf_fail_outcome) (rule failed_outcome_inactive)

lemma present_in_upd [simp]:
  "present_in ph (s\<lparr>sv_phase := x\<rparr>) n = present_in ph s n"
  "present_in ph (s\<lparr>sv_barrier_event := b\<rparr>) n = present_in ph s n"
  "present_in ph (s\<lparr>sv_radio := c\<rparr>) n = present_in ph s n"
  "present_in ph (update_radio_config c s) n = present_in ph s n"
  by (cases ph; simp add: present_in_def prepare_ok_def update_radio_config_def)+

lemma turn_present:
  "reconf_turn env tx s = (tx', s', outs) \<Longrightarrow> tx_active tx \<Longrightarrow> tx_active tx' \<Longrightarrow>
   present_in ph s' n = present_in ph s n"
  by (cases "tx_pc tx")
    (auto simp: reconf_turn.simps turn_defs Let_def split: option.splits if_splits
      dest: fail_inactive, simp_all add: tx_active_def)

lemma turn_commits:
  assumes "reconf_turn env tx s = (tx', s', outs)" and "\<not> tx_committed tx" and "tx_committed tx'"
  shows "tx_phase tx' = CONFIRMED \<and> missing_in FINALIZED s (tx_targets tx) = [] \<and>
    (\<exists>d v. tx_pc tx = PcFinal d v)"
  using assms
  by (auto simp: reconf_turn.simps turn_defs Let_def split: txn_pc.splits option.splits if_splits
      dest!: reconf_fail_same)

lemma turn_finalized:
  assumes "reconf_turn env tx s = (tx', s', outs)" and "txn_inv tx s" and "tx_active tx"
    and "tx_pc tx' = PcResult r" and "rr_status r = SwFinalized"
  shows "missing_in ph s (tx_targets tx) = []"
  using reconf_turn_cases [OF assms(1-3)] assms(4,5)
  by (auto simp: tx_active_def success_outcome_def fails_from_def failed_outcome_def)

section \<open>The invariant of the protocol\<close>

definition evidence :: "switch_world \<Rightarrow> switch_phase \<Rightarrow> int \<Rightarrow> bool" where
  "evidence w ph n \<longleftrightarrow> (\<exists>d \<in> sw_dgrams w.
     ack_sent ph n (tx_session (sw_txn w)) (rc_channel (tx_updated (sw_txn w))) d)"

definition sw_inv :: "string \<Rightarrow> switch_world \<Rightarrow> bool" where
  "sw_inv sid w \<longleftrightarrow>
     call_ok (sw_txn w) (sw_srv w) \<and> tx_session (sw_txn w) = sid \<and>
     (\<forall>n. cc_node_id (sw_clients w n) = n \<and> cc_inv (sw_clients w n)) \<and>
     (\<forall>m \<in> sw_bcast w. dget m ''session_id'' = PStr sid \<longrightarrow>
        dget m ''type'' = PStr ''RADIO_SWITCH_CONFIRMED'' \<longrightarrow> tx_committed (sw_txn w)) \<and>
     (\<forall>n. cc_confirmed (sw_clients w n) = Some sid \<longrightarrow> tx_committed (sw_txn w)) \<and>
     (tx_active (sw_txn w) \<longrightarrow> (\<forall>ph n. present_in ph (sw_srv w) n \<longrightarrow> evidence w ph n)) \<and>
     (tx_committed (sw_txn w) \<longrightarrow> (\<forall>n \<in> set (tx_targets (sw_txn w)).
        evidence w PREPARE n \<and> evidence w COMMIT n \<and> evidence w FINALIZED n)) \<and>
     (\<forall>r. tx_pc (sw_txn w) = PcResult r \<longrightarrow> rr_status r = SwFinalized \<longrightarrow>
        (\<forall>n \<in> set (tx_targets (sw_txn w)). evidence w CONFIRMED n))"

lemma sw_inv_recv:
  assumes inv: "sw_inv sid w" and d: "d \<in> sw_dgrams w"
    and h: "handle_datagram now wall (Some (PDict d)) addr (sw_srv w) = (r, s')"
  shows "sw_inv sid (w\<lparr>sw_srv := s'\<rparr>)"
proof -
  let ?tx = "sw_txn w"
  have ok: "call_ok ?tx s'"
    by (rule call_ok_datagram [OF _ handle_datagram_frame [OF h]]) (use inv in \<open>simp add: sw_inv_def\<close>)
  have "evidence w ph n" if act: "tx_active ?tx" and p: "present_in ph s' n" for ph n
  proof (cases "present_in ph (sw_srv w) n")
    case True
    with inv act show ?thesis by (simp add: sw_inv_def)
  next
    case False
    from inv act have "txn_inv ?tx (sw_srv w)" by (simp add: sw_inv_def call_ok_def)
    then have "sv_session (sw_srv w) = Some (tx_session ?tx)"
      "sv_target_channel (sw_srv w) = Some (rc_channel (tx_updated ?tx))"
      by (simp_all add: txn_inv_def)
    from handle_datagram_present [OF h p False this] d show ?thesis
      by (auto simp: evidence_def)
  qed
  moreover have "evidence (w\<lparr>sw_srv := s'\<rparr>) ph n = evidence w ph n" for ph n
    by (simp add: evidence_def)
  ultimately show ?thesis using inv ok by (simp add: sw_inv_def)
qed

lemma evidence_mono:
  "evidence w ph n \<Longrightarrow> sw_dgrams w \<subseteq> sw_dgrams w' \<Longrightarrow> tx_session (sw_txn w') = tx_session (sw_txn w) \<Longrightarrow>
   tx_updated (sw_txn w') = tx_updated (sw_txn w) \<Longrightarrow> evidence w' ph n"
  by (auto simp: evidence_def)

lemma sw_inv_client:
  assumes inv: "sw_inv sid w" and heard: "\<And>msg. broadcast_of e = Some msg \<Longrightarrow> msg \<in> sw_bcast w"
    and step: "client_step env e (sw_clients w n) = (c', outs)"
  shows "sw_inv sid (w\<lparr>sw_clients := (sw_clients w)(n := c'), sw_dgrams := sw_dgrams w \<union> set outs\<rparr>)"
    (is "sw_inv sid ?w")
proof -
  have mono: "evidence w ph k \<Longrightarrow> evidence ?w ph k" for ph k
    by (erule evidence_mono) auto
  have "cc_node_id c' = n" "cc_inv c'"
    using inv node_id_step [OF step] client_step_inv [OF _ step] by (simp_all add: sw_inv_def)
  moreover have "cc_confirmed c' = Some sid \<longrightarrow> tx_committed (sw_txn w)"
    using confirmed_step [OF step] heard inv by (auto simp: sw_inv_def)
  moreover from this have "\<forall>k. cc_confirmed (((sw_clients w)(n := c')) k) = Some sid \<longrightarrow>
      tx_committed (sw_txn w)"
    using inv by (auto simp: sw_inv_def)
  ultimately show ?thesis using inv mono by (simp add: sw_inv_def)
qed

lemma sw_inv_turn:
  assumes inv: "sw_inv sid w" and en: "turn_enabled (te_now env) (sw_txn w) (sw_srv w)"
    and turn: "reconf_turn env (sw_txn w) (sw_srv w) = (tx', s', outs)"
  shows "sw_inv sid (w\<lparr>sw_txn := tx', sw_srv := s', sw_bcast := sw_bcast w \<union> set outs\<rparr>)"
    (is "sw_inv sid ?w")
proof -
  let ?tx = "sw_txn w" and ?s = "sw_srv w"
  from en have act: "tx_active ?tx" by (rule turn_enabled_active)
  from inv have ok: "call_ok ?tx ?s" by (simp add: sw_inv_def)
  with act have ti: "txn_inv ?tx ?s" by (simp add: call_ok_def)
  note same = reconf_turn_same [OF turn]
  have ev: "evidence ?w ph n = evidence w ph n" for ph n by (simp add: evidence_def same)
  have heard: "evidence w ph n" if "present_in ph ?s n" for ph n
    using inv act that by (simp add: sw_inv_def)
  have all: "missing_in ph ?s (tx_targets ?tx) = [] \<Longrightarrow> n \<in> set (tx_targets ?tx) \<Longrightarrow> evidence w ph n"
    for ph n by (auto simp: missing_in_Nil intro: heard)
  have comm: "tx_committed ?tx \<Longrightarrow> tx_committed tx'" by (rule reconf_turn_committed [OF turn])
  have "\<forall>m \<in> set outs. dget m ''type'' = PStr ''RADIO_SWITCH_CONFIRMED'' \<longrightarrow> tx_committed tx'"
    using reconf_turn_confirms [OF turn ok] comm by blast
  moreover have "tx_active tx' \<longrightarrow> (\<forall>ph n. present_in ph s' n \<longrightarrow> evidence w ph n)"
    using turn_present [OF turn act] heard by blast
  moreover have "\<forall>n \<in> set (tx_targets ?tx).
      evidence w PREPARE n \<and> evidence w COMMIT n \<and> evidence w FINALIZED n" if "tx_committed tx'"
  proof (cases "tx_committed ?tx")
    case True
    with inv show ?thesis by (simp add: sw_inv_def)
  next
    case False
    from turn_commits [OF turn this that]
    have f: "missing_in FINALIZED ?s (tx_targets ?tx) = []" and pc: "\<exists>d v. tx_pc ?tx = PcFinal d v"
      by auto
    from pc ti have "missing_in PREPARE ?s (tx_targets ?tx) = []" "missing_in COMMIT ?s (tx_targets ?tx) = []"
      by (auto simp: txn_inv_def pc_phase_ok_def)
    with f all show ?thesis by blast
  qed
  moreover have "\<forall>n \<in> set (tx_targets ?tx). evidence w CONFIRMED n"
    if "tx_pc tx' = PcResult r" "rr_status r = SwFinalized" for r
    using turn_finalized [OF turn ti act that] all by blast
  ultimately show ?thesis
    using inv call_ok_turn [OF ok act turn] same comm
    by (simp add: sw_inv_def ev) blast
qed

lemma no_confirm_prepare: "no_confirm [msg_prepare tx tmo]"
  by (simp add: no_confirm_def)

lemma begin_outs: "reconf_begin env sid nodes patch tmo s0 = Started tx s outs \<Longrightarrow> no_confirm outs"
  by (auto simp: reconf_begin_def Let_def no_confirm_prepare split: if_splits sum.splits option.splits
      prod.splits dest: reconf_fail_outs [OF _ no_confirm_prepare])

lemma begin_fresh:
  "reconf_begin env sid nodes patch tmo s0 = Started tx s outs \<Longrightarrow> tx_active tx \<Longrightarrow>
   \<not> present_in ph s n"
  by (cases ph)
    (auto simp: reconf_begin_def Let_def open_session_def present_in_def prepare_ok_def
      split: if_splits sum.splits option.splits prod.splits dest: fail_inactive)

lemma sw_inv_start:
  assumes "sw_start sid w"
  shows "sw_inv sid w"
proof -
  from assms obtain env nodes patch tmo s0 outs old where
    b: "reconf_begin env sid nodes patch tmo s0 = Started (sw_txn w) (sw_srv w) outs" and
    bc: "sw_bcast w = old \<union> set outs" and
    old: "\<forall>m \<in> old \<union> sw_dgrams w. dget m ''session_id'' \<noteq> PStr sid" and
    cl: "\<forall>n. cc_node_id (sw_clients w n) = n \<and> cc_inv (sw_clients w n) \<and>
        cc_session (sw_clients w n) \<noteq> Some sid \<and> cc_confirmed (sw_clients w n) \<noteq> Some sid"
    unfolding sw_start_def by blast
  note bg = txn_inv_begin [OF b] and nc = begin_outs [OF b] and fresh = begin_fresh [OF b]
  have "\<forall>r. tx_pc (sw_txn w) = PcResult r \<longrightarrow> rr_status r \<noteq> SwFinalized"
    using bg by (auto simp: call_ok_def tx_active_def ended_well_def)
  with bg cl old nc fresh show ?thesis
    by (auto simp: sw_inv_def bc no_confirm_def)
qed

lemma sw_step_inv: "sw_step w w' \<Longrightarrow> sw_inv sid w \<Longrightarrow> sw_inv sid w'"
  by (erule sw_stepE) (blast intro: sw_inv_turn sw_inv_recv sw_inv_client)+

lemma sw_reach_inv: "sw_reach sid w \<Longrightarrow> sw_inv sid w"
  by (induction rule: sw_reach.induct) (auto intro: sw_inv_start sw_step_inv)

end
