(* ===== verification/Switch_Safety.thy ===== *)
theory Switch_Safety
  imports Radio_Switch
begin

text \<open>
  What the radio switch guarantees across the server and its clients. The theorems are consequences
  of the protocol invariant of \<open>Radio_Switch\<close>. The scripts at the start execute sequences of protocol
  steps; two of them, a switch that is finalized and one that is rolled back, show that the
  guarantees are not vacuous.
\<close>

section \<open>Scripts of steps\<close>

datatype sw_action =
    ActTurn turn_env
  | ActRecv rat rat pydict "string \<times> int"
  | ActClient int client_env client_event

fun sw_do :: "sw_action \<Rightarrow> switch_world \<Rightarrow> switch_world option" where
  "sw_do (ActTurn env) w =
     (if turn_enabled (te_now env) (sw_txn w) (sw_srv w) then
        (case reconf_turn env (sw_txn w) (sw_srv w) of (tx', s', outs) \<Rightarrow>
           Some (w\<lparr>sw_txn := tx', sw_srv := s', sw_bcast := sw_bcast w \<union> set outs\<rparr>))
      else None)"
| "sw_do (ActRecv now wall d addr) w =
     (if d \<in> sw_dgrams w
      then Some (w\<lparr>sw_srv := snd (handle_datagram now wall (Some (PDict d)) addr (sw_srv w))\<rparr>)
      else None)"
| "sw_do (ActClient n env e) w =
     (if (case broadcast_of e of None \<Rightarrow> True | Some m \<Rightarrow> m \<in> sw_bcast w) then
        (case client_step env e (sw_clients w n) of (c', outs) \<Rightarrow>
           Some (w\<lparr>sw_clients := (sw_clients w)(n := c'), sw_dgrams := sw_dgrams w \<union> set outs\<rparr>))
      else None)"

fun sw_script :: "sw_action list \<Rightarrow> switch_world \<Rightarrow> switch_world option" where
  "sw_script [] w = Some w"
| "sw_script (a # as) w = Option.bind (sw_do a w) (sw_script as)"

lemma sw_do_step:
  assumes "sw_do a w = Some w'"
  shows "sw_step w w'"
proof (cases a)
  case (ActTurn env)
  with assms show ?thesis by (auto split: if_splits prod.splits intro: sw_turn)
next
  case (ActRecv now wall d addr)
  obtain r s' where "handle_datagram now wall (Some (PDict d)) addr (sw_srv w) = (r, s')"
    by (cases "handle_datagram now wall (Some (PDict d)) addr (sw_srv w)")
  with assms ActRecv show ?thesis by (auto split: if_splits intro: sw_recv)
next
  case (ActClient n env e)
  obtain c' outs where h: "client_step env e (sw_clients w n) = (c', outs)"
    by (cases "client_step env e (sw_clients w n)")
  with assms ActClient have "\<And>m. broadcast_of e = Some m \<Longrightarrow> m \<in> sw_bcast w"
    and "w' = w\<lparr>sw_clients := (sw_clients w)(n := c'), sw_dgrams := sw_dgrams w \<union> set outs\<rparr>"
    by (auto split: if_splits option.splits)
  with sw_client [of e w env n c' outs] h show ?thesis by simp
qed

lemma sw_script_reach:
  "sw_reach sid w \<Longrightarrow> sw_script as w = Some w' \<Longrightarrow> sw_reach sid w'"
  by (induction as arbitrary: w) (auto simp: bind_eq_Some_conv dest: sw_do_step intro: sw_next)

section \<open>Two sample calls\<close>

definition fine_turn :: "rat \<Rightarrow> turn_env" where
  "fine_turn t = \<lparr>te_now = t, te_send = \<lambda>_. None, te_hw = \<lambda>_. None\<rparr>"

definition fine_client :: "rat \<Rightarrow> client_env" where
  "fine_client t = \<lparr>ce_now = t, ce_hw = \<lambda>_. None\<rparr>"

definition sample_patch :: pydict where
  "sample_patch = [(''channel'', PInt 149)]"

definition sample_server :: ctl_server where
  "sample_server = server_init default_radio_config 10"

definition sample_txn :: txn where
  "sample_txn = new_txn 0 ''s1'' [1] default_radio_config
     (default_radio_config\<lparr>rc_channel := 149\<rparr>) sample_patch default_timeouts"

definition sample_world :: switch_world where
  "sample_world =
     \<lparr>sw_txn = sample_txn, sw_srv = open_session ''s1'' [1] 149 sample_server,
      sw_clients = \<lambda>n. client_init n 157 None 12 6 0,
      sw_bcast = {msg_prepare sample_txn default_timeouts}, sw_dgrams = {}\<rparr>"

lemma sample_begin:
  "reconf_begin (fine_turn 0) ''s1'' [1] (PDict sample_patch) default_timeouts sample_server =
   Started (sw_txn sample_world) (sw_srv sample_world) [msg_prepare sample_txn default_timeouts]"
proof -
  have n: "normalize_radio_patch (PDict sample_patch) = Inr sample_patch"
    by (simp add: sample_patch_def normalize_radio_patch_idle)
  have v: "validate_radio_patch (PDict sample_patch) default_radio_config =
      Inr (default_radio_config\<lparr>rc_channel := 149\<rparr>)"
    by code_simp
  have t: "begin_targets 0 [1] s = [1]" for s by (simp add: begin_targets_def)
  show ?thesis
    by (simp add: reconf_begin_def sample_server_def server_init_def n v t fine_turn_def Let_def
        sample_world_def sample_txn_def [symmetric])
qed

lemma sample_start: "sw_start ''s1'' sample_world"
  unfolding sw_start_def
proof (intro conjI allI)
  show "\<exists>env nodes patch tmo s0 outs old.
      reconf_begin env ''s1'' nodes patch tmo s0 = Started (sw_txn sample_world) (sw_srv sample_world) outs \<and>
      sw_bcast sample_world = old \<union> set outs \<and>
      (\<forall>m \<in> old \<union> sw_dgrams sample_world. dget m ''session_id'' \<noteq> PStr ''s1'')"
    by (rule exI [of _ "fine_turn 0"], rule exI [of _ "[1]"], rule exI [of _ "PDict sample_patch"],
        rule exI [of _ default_timeouts], rule exI [of _ sample_server],
        rule exI [of _ "[msg_prepare sample_txn default_timeouts]"], rule exI [of _ "{}"])
      (simp add: sample_begin, simp add: sample_world_def)
qed (simp_all add: sample_world_def cc_inv_init, simp_all add: client_init_def)

text \<open>Client 1 hears every broadcast once and every acknowledgement arrives.\<close>

definition final_ack_of_1 :: "string \<Rightarrow> pydict" where
  "final_ack_of_1 kind =
     [(''type'', PStr kind), (''session_id'', PStr ''s1''), (''node_id'', PInt 1), (''channel'', PInt 149)]"

definition hear :: "rat \<Rightarrow> pydict \<Rightarrow> sw_action" where
  "hear t m = ActClient 1 (fine_client t) (CeBroadcast (PDict m))"

definition arrive :: "rat \<Rightarrow> pydict \<Rightarrow> sw_action" where
  "arrive t d = ActRecv t t d (''10.5.0.2'', 8000)"

definition happy_script :: "sw_action list" where
  "happy_script =
     [hear 0 (msg_prepare sample_txn default_timeouts),
      arrive 0 (prepare_ack_datagram 1 ''s1'' None 1),
      ActTurn (fine_turn 0),
      hear 0 (tx_message sample_txn ''CONFIG_RADIO_COMMIT''
        [(''patch'', PDict sample_patch), (''delay_ms'', PInt 2000),
         (''lease_timeout_seconds'', PFloat (Fin 15))]),
      ActTurn (fine_turn 2), ActClient 1 (fine_client 2) (CeSwitch 0), ActTurn (fine_turn 2),
      hear 2 (msg_ping sample_txn),
      arrive 2 (cs_to_dict \<lparr>cs_node_id = 1, cs_session_id = ''s1'', cs_current_channel = 149,
        cs_timestamp_ms = PInt 2000\<rparr>),
      ActTurn (fine_turn 2), ActTurn (fine_turn 2),
      hear 2 (msg_barrier sample_txn ''RADIO_SWITCH_FINALIZED''),
      arrive 2 (final_ack_of_1 ''RADIO_SWITCH_FINALIZED_ACK''),
      ActTurn (fine_turn 2), ActTurn (fine_turn 2),
      hear 2 (msg_barrier sample_txn ''RADIO_SWITCH_CONFIRMED''),
      arrive 2 (final_ack_of_1 ''RADIO_SWITCH_CONFIRMED_ACK''),
      ActTurn (fine_turn 2)]"

definition script_status :: "sw_action list \<Rightarrow> switch_status option" where
  "script_status as = (case sw_script as sample_world of
     None \<Rightarrow> None
   | Some w \<Rightarrow> (case tx_pc (sw_txn w) of PcResult r \<Rightarrow> Some (rr_status r) | _ \<Rightarrow> None))"

definition script_confirmed :: "sw_action list \<Rightarrow> string option" where
  "script_confirmed as = (case sw_script as sample_world of
     None \<Rightarrow> None | Some w \<Rightarrow> cc_confirmed (sw_clients w 1))"

text \<open>Nobody answers the PREPARE.\<close>

definition silent_script :: "sw_action list" where
  "silent_script = [ActTurn (fine_turn 5)]"

lemma happy_status: "script_status happy_script = Some SwFinalized" by code_simp
lemma happy_confirmed: "script_confirmed happy_script = Some ''s1''" by code_simp
lemma silent_status: "script_status silent_script = Some SwRolledBack" by code_simp

lemma script_reached:
  assumes "script_status as = Some st"
  shows "\<exists>w r. sw_script as sample_world = Some w \<and> sw_reach ''s1'' w \<and>
    tx_pc (sw_txn w) = PcResult r \<and> rr_status r = st"
proof -
  from assms obtain w r where w: "sw_script as sample_world = Some w"
    and r: "tx_pc (sw_txn w) = PcResult r" "rr_status r = st"
    by (auto simp: script_status_def split: option.splits txn_pc.splits)
  from sw_script_reach [OF sw_begin [OF sample_start] w] w r show ?thesis by blast
qed

section \<open>Guarantees\<close>

text \<open>C1: Atomicity of a failed switch. When \<open>reconfigure_radio\<close> returns \<open>rolled_back\<close>, no client anywhere
  has completed the switch of this session - whatever the network lost, repeated or reordered - and
  the server is back on the benchmark channel with its previous power.\<close>

theorem rolled_back_atomic:
  assumes "sw_reach sid w" and "tx_pc (sw_txn w) = PcResult r" and "rr_status r = SwRolledBack"
  shows "cc_confirmed (sw_clients w n) \<noteq> Some sid \<and>
    rc_channel (sv_radio (sw_srv w)) = DEFAULT_BENCHMARK_CHANNEL \<and>
    rc_txpower (sv_radio (sw_srv w)) = rc_txpower (tx_previous (sw_txn w)) \<and>
    rr_effective r = Some (sv_radio (sw_srv w))"
proof -
  from sw_reach_inv [OF assms(1)] have inv: "sw_inv sid w" .
  then have "call_ok (sw_txn w) (sw_srv w)" by (simp add: sw_inv_def)
  with assms(2,3) have "\<not> tx_committed (sw_txn w)" "rr_effective r = Some (sv_radio (sw_srv w))"
    "rc_channel (sv_radio (sw_srv w)) = DEFAULT_BENCHMARK_CHANNEL"
    "rc_txpower (sv_radio (sw_srv w)) = rc_txpower (tx_previous (sw_txn w))"
    by (simp_all add: call_ok_def tx_active_def ended_well_def)
  with inv show ?thesis by (simp add: sw_inv_def)
qed

theorem rolled_back_atomic_witness:
  "\<exists>w r. sw_script silent_script sample_world = Some w \<and> tx_pc (sw_txn w) = PcResult r \<and>
     cc_confirmed (sw_clients w 1) \<noteq> Some ''s1'' \<and>
     rc_channel (sv_radio (sw_srv w)) = DEFAULT_BENCHMARK_CHANNEL"
  using script_reached [OF silent_status] rolled_back_atomic [of "''s1''"] by blast

text \<open>C2: Agreement of a successful switch. When \<open>reconfigure_radio\<close> returns \<open>finalized\<close>, every target
  node has sent all four acknowledgements of this session - the last three from the new channel - and
  the server runs the requested configuration.\<close>

theorem finalized_agreement:
  assumes "sw_reach sid w" and "tx_pc (sw_txn w) = PcResult r" and "rr_status r = SwFinalized"
    and "n \<in> set (tx_targets (sw_txn w))"
  shows "(\<forall>ph. \<exists>d \<in> sw_dgrams w. ack_sent ph n sid (rc_channel (tx_updated (sw_txn w))) d) \<and>
    sv_radio (sw_srv w) = tx_updated (sw_txn w) \<and> rr_effective r = Some (tx_updated (sw_txn w))"
proof -
  from sw_reach_inv [OF assms(1)] have inv: "sw_inv sid w" .
  then have sid: "tx_session (sw_txn w) = sid" and ok: "call_ok (sw_txn w) (sw_srv w)"
    by (simp_all add: sw_inv_def)
  from ok assms(2,3) have e: "tx_committed (sw_txn w)" "sv_radio (sw_srv w) = tx_updated (sw_txn w)"
    "rr_effective r = Some (tx_updated (sw_txn w))"
    by (simp_all add: call_ok_def tx_active_def ended_well_def)
  have "evidence w ph n" for ph
    using inv e assms(2-4) by (cases ph) (simp_all add: sw_inv_def)
  with sid e show ?thesis by (simp add: evidence_def)
qed

theorem finalized_agreement_witness:
  "\<exists>w. sw_script happy_script sample_world = Some w \<and> sv_radio (sw_srv w) = tx_updated (sw_txn w) \<and>
     (\<exists>d \<in> sw_dgrams w. ack_sent CONFIRMED 1 ''s1'' 149 d)"
proof -
  obtain w r where w: "sw_script happy_script sample_world = Some w" "sw_reach ''s1'' w"
    "tx_pc (sw_txn w) = PcResult r" "rr_status r = SwFinalized"
    using script_reached [OF happy_status] by blast
  have "map_option (\<lambda>w. (tx_targets (sw_txn w), rc_channel (tx_updated (sw_txn w))))
      (sw_script happy_script sample_world) = Some ([1], 149)"
    by code_simp
  with w(1) have "1 \<in> set (tx_targets (sw_txn w))" "rc_channel (tx_updated (sw_txn w)) = 149"
    by simp_all
  with finalized_agreement [OF w(2-4), of 1] w(1) show ?thesis by auto
qed

text \<open>C3: No client runs ahead. A client that has completed the switch - released its lease and locked
  the new channel - proves that every target had prepared, had switched and had acknowledged
  FINALIZED from the new channel, and that the server had committed and runs the new configuration.\<close>

theorem confirmed_needs_all:
  assumes "sw_reach sid w" and "cc_confirmed (sw_clients w k) = Some sid"
    and "n \<in> set (tx_targets (sw_txn w))" and "ph \<noteq> CONFIRMED"
  shows "(\<exists>d \<in> sw_dgrams w. ack_sent ph n sid (rc_channel (tx_updated (sw_txn w))) d) \<and>
    tx_committed (sw_txn w) \<and> sv_radio (sw_srv w) = tx_updated (sw_txn w)"
proof -
  from sw_reach_inv [OF assms(1)] have inv: "sw_inv sid w" .
  with assms(2) have c: "tx_committed (sw_txn w)" and sid: "tx_session (sw_txn w) = sid"
    and ok: "call_ok (sw_txn w) (sw_srv w)"
    by (auto simp: sw_inv_def)
  have "evidence w ph n" using inv c assms(3,4) by (cases ph) (simp_all add: sw_inv_def)
  moreover have "sv_radio (sw_srv w) = tx_updated (sw_txn w)"
  proof (cases "tx_active (sw_txn w)")
    case True
    with ok c show ?thesis by (simp add: call_ok_def txn_inv_committed_radio)
  next
    case False
    with ok c show ?thesis by (auto simp: call_ok_def ended_well_def split: txn_pc.splits)
  qed
  ultimately show ?thesis using c sid by (simp add: evidence_def)
qed

theorem confirmed_needs_all_witness:
  "\<exists>w. sw_script happy_script sample_world = Some w \<and> cc_confirmed (sw_clients w 1) = Some ''s1'' \<and>
     (\<exists>d \<in> sw_dgrams w. ack_sent FINALIZED 1 ''s1'' 149 d)"
proof -
  obtain w where w: "sw_script happy_script sample_world = Some w" "sw_reach ''s1'' w"
    using script_reached [OF happy_status] by blast
  with happy_confirmed have c: "cc_confirmed (sw_clients w 1) = Some ''s1''"
    by (simp add: script_confirmed_def)
  have "map_option (\<lambda>w. (tx_targets (sw_txn w), rc_channel (tx_updated (sw_txn w))))
      (sw_script happy_script sample_world) = Some ([1], 149)"
    by code_simp
  with w(1) have "1 \<in> set (tx_targets (sw_txn w))" "rc_channel (tx_updated (sw_txn w)) = 149"
    by simp_all
  with confirmed_needs_all [OF w(2) c, of 1 FINALIZED] w(1) c show ?thesis by auto
qed

section \<open>One call of \<open>reconfigure_radio\<close>\<close>

text \<open>C23: Outcome of a call. However turns and datagrams interleave, a call that has returned has closed
  its session, and its status tells the truth: \<open>finalized\<close> means the server runs the requested
  configuration; \<open>rolled_back\<close> means it never committed and is back on the benchmark channel with
  the power and MCS it had before the call; \<open>radio_error\<close> leaves the error flag set, and is reported
  with an effective configuration exactly when the switch had been committed.\<close>

theorem call_outcome:
  assumes "srv_reach s0 sid (tx, s)" and "tx_pc tx = PcResult r"
  shows "sv_session s = None \<and> sv_phase s = None \<and> sv_expected s = {} \<and> rr_session r = sid \<and>
    (case rr_status r of
       SwFinalized \<Rightarrow> tx_committed tx \<and> sv_radio s = tx_updated tx \<and> rr_effective r = Some (tx_updated tx)
     | SwRolledBack \<Rightarrow> \<not> tx_committed tx \<and> rr_effective r = Some (sv_radio s) \<and>
         rc_channel (sv_radio s) = DEFAULT_BENCHMARK_CHANNEL \<and>
         rc_txpower (sv_radio s) = rc_txpower (sv_radio s0) \<and>
         rc_uplink_mcs (sv_radio s) = rc_uplink_mcs (sv_radio s0)
     | SwRadioError \<Rightarrow> sv_radio_error s \<and>
         rr_effective r = (if tx_committed tx then Some (tx_updated tx) else None))"
  using srv_reach_ok [OF assms(1)] assms(2)
  by (cases "rr_status r") (simp_all add: call_ok_def tx_active_def ended_well_def)

theorem call_outcome_witness:
  "\<exists>tx s r. srv_reach sample_server ''s1'' (tx, s) \<and> tx_pc tx = PcResult r \<and>
     rr_status r = SwRolledBack \<and> sv_session s = None \<and>
     rc_channel (sv_radio s) = DEFAULT_BENCHMARK_CHANNEL"
proof -
  have start: "srv_reach sample_server ''s1'' (sw_txn sample_world, sw_srv sample_world)"
    using srv_start [OF sample_begin] .
  obtain tx s outs where t: "reconf_turn (fine_turn 5) (sw_txn sample_world) (sw_srv sample_world) = (tx, s, outs)"
    by (metis prod_cases3)
  have "turn_enabled 5 (sw_txn sample_world) (sw_srv sample_world)" by code_simp
  with srv_turn [of "fine_turn 5"] t have "srv_step (sw_txn sample_world, sw_srv sample_world) outs (tx, s)"
    by (simp add: fine_turn_def)
  with start have reach: "srv_reach sample_server ''s1'' (tx, s)" by (rule srv_next)
  have "(case reconf_turn (fine_turn 5) (sw_txn sample_world) (sw_srv sample_world) of
      (tx, s, outs) \<Rightarrow> (case tx_pc tx of PcResult r \<Rightarrow> rr_status r = SwRolledBack | _ \<Rightarrow> False))"
    by code_simp
  with t obtain r where r: "tx_pc tx = PcResult r" "rr_status r = SwRolledBack"
    by (auto split: txn_pc.splits)
  from call_outcome [OF reach r(1)] r reach show ?thesis by auto
qed

text \<open>C24: A call never raises once it has begun. From a server whose radio configuration is well-formed -
  and every configuration the validators accept is - no sequence of turns, datagrams, send failures
  and hardware failures makes \<open>reconfigure_radio\<close> end in an exception: it returns a result.\<close>

theorem call_never_raises:
  assumes "rc_wf (sv_radio s0)" and "srv_reach s0 sid (tx, s)"
  shows "tx_pc tx \<noteq> PcRaise e \<and> rc_wf (tx_updated tx)"
  using rc_wf_reach_no_raise [OF assms(2,1)] srv_reach_ok [OF assms(2)] by blast

theorem call_never_raises_witness:
  "tx_pc (sw_txn sample_world) \<noteq> PcRaise (KeyError ''channel'') \<and> rc_wf (tx_updated (sw_txn sample_world))"
  by (rule call_never_raises [OF _ srv_start [OF sample_begin]]) code_simp

text \<open>C25: A call ends. A turn taken past the deadline of its waiting point is always enabled, and however
  datagrams are interleaved, after at most five such turns the call has returned.\<close>

theorem call_terminates:
  assumes "all_late es (tx, s)" and "5 \<le> turns_in es"
  shows "(tx_active tx \<and> pc_deadline (tx_pc tx) \<le> now \<longrightarrow> turn_enabled now tx s) \<and>
    \<not> tx_active (fst (call_run es (tx, s)))"
  using call_run_rank [OF assms(1)] pc_rank_le [of "tx_pc tx"] assms(2) late_turn_enabled
  by (simp add: inactive_rank)

theorem call_terminates_witness:
  "\<not> tx_active (fst (call_run (CallDatagram 0 0 None (''10.5.0.2'', 8000) # replicate 5 (CallTurn (fine_turn 5)))
     (sw_txn sample_world, sw_srv sample_world)))"
  by (rule call_terminates [THEN conjunct2]) (code_simp, code_simp)

end
