(* ===== verification/Client_Time.thy ===== *)
theory Client_Time
  imports Client_Runs Node_Horizon
begin

text \<open>
  The time stamps of a client's heartbeats, what a held lease forbids, and the meeting of a client's
  hunt with the server's registry: the heartbeats of a successful hunt take the node through the
  two-army gate.
\<close>

section \<open>Time stamps\<close>

lemma last_ts_ops:
  "cc_last_ts (snd (apply_channel_switch env ch c)) = cc_last_ts c"
  "cc_last_ts (snd (align_update env u c)) = cc_last_ts c"
  "cc_last_ts (snd (align_restore env u c)) = cc_last_ts c"
  "cc_last_ts (snd (apply_patch env p c)) = cc_last_ts c"
  "cc_last_ts (snd (rollback_switch env c)) = cc_last_ts c"
  by (auto simp: align_update_def align_restore_def apply_patch_def rollback_switch_def
      rollback_begin_def rollback_params_def rollback_end_def clear_pending_switch_def opt_op_def op_defs
      split: option.split prod.split)

lemma last_ts_alignment: "cc_last_ts (snd (apply_alignment env patch c)) = cc_last_ts c"
  using last_ts_ops(2,3) [of env]
  by (auto simp: apply_alignment_def Let_def split: option.split sum.split prod.split) (metis snd_conv)+

lemma last_ts_check: "cc_last_ts (check_alignment_packet env extra c) = cc_last_ts c"
  by (auto simp: check_alignment_packet_def last_ts_alignment split: option.split)

definition heartbeat_stamps :: "pydict list \<Rightarrow> int list" where
  "heartbeat_stamps outs = List.map_filter
     (\<lambda>m. if dget m ''type'' = PStr ''NODE_HEARTBEAT'' then as_int (dget m ''timestamp_ms'') else None) outs"

lemma stamps_simps [simp]:
  "heartbeat_stamps [] = []"
  "heartbeat_stamps (xs @ ys) = heartbeat_stamps xs @ heartbeat_stamps ys"
  by (simp_all add: heartbeat_stamps_def List.map_filter_def)

lemma stamps_Cons:
  "heartbeat_stamps (m # ms) = (if dget m ''type'' = PStr ''NODE_HEARTBEAT''
     then (case as_int (dget m ''timestamp_ms'') of None \<Rightarrow> [] | Some t \<Rightarrow> [t]) else []) @ heartbeat_stamps ms"
  by (cases "as_int (dget m ''timestamp_ms'')") (auto simp: heartbeat_stamps_def List.map_filter_def)

lemma stamps_none: "\<forall>m \<in> set ms. dget m ''type'' \<noteq> PStr ''NODE_HEARTBEAT'' \<Longrightarrow> heartbeat_stamps ms = []"
  by (induction ms) (simp_all add: stamps_Cons)

lemma stamp_heartbeat [simp]:
  "heartbeat_stamps (hb_to_dict (make_heartbeat st el ch ts c) # ms) = ts # heartbeat_stamps ms"
  by (simp add: stamps_Cons make_heartbeat_def hb_to_dict_def)

text \<open>Between two moments: the stamps in between ascend strictly.\<close>

definition stamps_between :: "int \<Rightarrow> int list \<Rightarrow> int \<Rightarrow> bool" where
  "stamps_between a ts b \<longleftrightarrow> a \<le> b \<and> sorted_wrt (<) ts \<and> (\<forall>t \<in> set ts. a < t \<and> t \<le> b)"

lemma stamps_between_append:
  "stamps_between a ts b \<Longrightarrow> stamps_between b us c \<Longrightarrow> stamps_between a (ts @ us) c"
  by (fastforce simp: stamps_between_def sorted_wrt_append)

lemma stamps_between_Nil: "stamps_between a [] b \<longleftrightarrow> a \<le> b"
  by (simp add: stamps_between_def)

lemma send_heartbeat_stamps:
  "send_heartbeat env io st el c = (a, c', outs) \<Longrightarrow>
   stamps_between (cc_last_ts c) (heartbeat_stamps outs) (cc_last_ts c')"
  by (auto simp: send_heartbeat_def Let_def last_ts_check stamps_between_def
      split: prod.splits if_splits dest!: next_timestamp_id)

lemma hunt_reply_stamps:
  "hunt_reply env ch io io_idle c = (r, c', outs) \<Longrightarrow>
   stamps_between (cc_last_ts c) (heartbeat_stamps outs) (cc_last_ts c')"
  by (auto simp: hunt_reply_def Let_def stamps_between_Nil last_ts_check split: if_splits prod.splits
      dest!: send_heartbeat_stamps)

lemma send_heartbeat_once_stamps:
  "send_heartbeat_once env io c = (a, c', outs) \<Longrightarrow>
   stamps_between (cc_last_ts c) (heartbeat_stamps outs) (cc_last_ts c')"
  by (auto simp: send_heartbeat_once_def Let_def split: if_splits prod.splits
      dest!: send_heartbeat_stamps)

lemma task_ready_stamps:
  "notify_task_ready env job ios c = (r, c', outs) \<Longrightarrow>
   heartbeat_stamps outs = [] \<and> cc_last_ts c \<le> cc_last_ts c'"
  by (auto simp: notify_task_ready_def Let_def task_ready_message_def split: prod.splits option.splits
      intro!: stamps_none dest!: next_timestamp_id)

lemma delayed_switch_last_ts: "cc_last_ts (delayed_switch env sid p c) = cc_last_ts c"
  using last_ts_ops(4) [of env p c] by (auto simp: delayed_switch_def split: option.split prod.split)

lemma handler_last_ts:
  "handle_prepare env msg c = (r, c', outs) \<Longrightarrow> cc_last_ts c \<le> cc_last_ts c'"
  "handle_commit env msg c = (r, c', outs) \<Longrightarrow> cc_last_ts c \<le> cc_last_ts c'"
  "handle_ping env msg c = (r, c', outs) \<Longrightarrow> cc_last_ts c \<le> cc_last_ts c'"
  "handle_finalized env msg c = (r, c', outs) \<Longrightarrow> cc_last_ts c \<le> cc_last_ts c'"
  "handle_confirmed env msg c = (r, c', outs) \<Longrightarrow> cc_last_ts c \<le> cc_last_ts c'"
  "handle_abort env msg c = (r, c', outs) \<Longrightarrow> cc_last_ts c \<le> cc_last_ts c'"
proof -
  show "handle_prepare env msg c = (r, c', outs) \<Longrightarrow> cc_last_ts c \<le> cc_last_ts c'"
    by (auto simp: handle_prepare_def split: option.splits if_splits sum.splits bool.splits prod.splits
        dest!: next_timestamp_id)
  show "handle_commit env msg c = (r, c', outs) \<Longrightarrow> cc_last_ts c \<le> cc_last_ts c'"
    by (auto simp: handle_commit_def Let_def split: option.splits if_splits sum.splits)
  show "handle_ping env msg c = (r, c', outs) \<Longrightarrow> cc_last_ts c \<le> cc_last_ts c'"
    by (auto simp: handle_ping_def lease_guard_def split: sum.splits if_splits bool.splits prod.splits
        dest!: next_timestamp_id)
  show "handle_finalized env msg c = (r, c', outs) \<Longrightarrow> cc_last_ts c \<le> cc_last_ts c'"
    by (auto simp: handle_finalized_def lease_guard_def Let_def
        split: sum.splits if_splits bool.splits prod.splits)
  show "handle_confirmed env msg c = (r, c', outs) \<Longrightarrow> cc_last_ts c \<le> cc_last_ts c'"
    by (auto simp: handle_confirmed_def confirm_switch_def clear_pending_switch_def Let_def
        split: option.splits if_splits sum.splits bool.splits prod.splits)
  show "handle_abort env msg c = (r, c', outs) \<Longrightarrow> cc_last_ts c \<le> cc_last_ts c'"
    using last_ts_ops(5) [of env c]
    by (auto simp: handle_abort_def split: option.splits if_splits sum.splits prod.splits)
qed

lemma broadcast_stamps:
  assumes step: "client_step env (CeBroadcast v) c = (c', outs)"
  shows "heartbeat_stamps outs = [] \<and> cc_last_ts c \<le> cc_last_ts c'"
proof -
  have no: "heartbeat_stamps outs = []"
  proof (rule stamps_none, rule ballI)
    fix m assume m: "m \<in> set outs"
    from broadcast_handlers [OF step] show "dget m ''type'' \<noteq> PStr ''NODE_HEARTBEAT''"
    proof (elim disjE exE conjE)
      fix msg r assume "handle_prepare env msg c = (r, c', outs)"
      from handle_prepare_effect [OF this] m show ?thesis by auto
    next
      fix msg r assume "handle_commit env msg c = (r, c', outs)"
      from handle_commit_effect [OF this] m show ?thesis by auto
    next
      fix msg r assume "handle_abort env msg c = (r, c', outs)"
      from handle_abort_effect [OF this] m show ?thesis by auto
    next
      fix msg r assume "handle_ping env msg c = (r, c', outs)"
      from handle_ping_effect [OF this] m show ?thesis by (auto simp: cs_to_dict_def)
    next
      fix msg r assume "handle_finalized env msg c = (r, c', outs)"
      from handle_finalized_effect [OF this] m show ?thesis by (auto simp: final_ack_def)
    next
      fix msg r assume "handle_confirmed env msg c = (r, c', outs)"
      from handle_confirmed_effect [OF this] m show ?thesis by (auto simp: final_ack_def)
    qed (use m in simp)
  qed
  from broadcast_handlers [OF step] have "cc_last_ts c \<le> cc_last_ts c'"
    by (elim disjE exE conjE) (simp, (erule handler_last_ts)+)
  with no show ?thesis by blast
qed

lemma client_step_stamps:
  assumes step: "client_step env e c = (c', outs)"
  shows "stamps_between (cc_last_ts c) (heartbeat_stamps outs) (cc_last_ts c')"
proof (cases e)
  case (CeBroadcast v)
  with broadcast_stamps [of env v c c' outs] step show ?thesis by (simp add: stamps_between_Nil)
next
  case (CeSwitch i)
  with step show ?thesis
    by (auto simp: run_switch_thread_def delayed_switch_last_ts stamps_between_Nil split: prod.split)
next
  case (CeWatchdog g)
  with step show ?thesis by (auto simp: stamps_between_Nil)
next
  case CeExpired
  with step last_ts_ops(5) [of env c] show ?thesis
    by (auto simp: on_lease_expired_def stamps_between_Nil)
next
  case CeSupervise
  with step last_ts_ops(5) [of env c] show ?thesis
    by (auto simp: supervise_restore_def stamps_between_Nil split: prod.splits option.splits)
next
  case (CeTune ch)
  with step last_ts_ops(1) [of env ch c] show ?thesis
    by (auto simp: hunt_tune_def stamps_between_Nil split: prod.splits option.splits)
next
  case (CeHuntSend ch)
  with step show ?thesis
    by (auto simp: hunt_send_def Let_def stamps_between_def split: prod.splits dest!: next_timestamp_id)
next
  case (CeHuntReply ch io io_idle)
  with step show ?thesis
    by (cases "hunt_reply env ch io io_idle c") (auto dest: hunt_reply_stamps)
next
  case (CeHeartbeat io)
  with step show ?thesis
    by (cases "send_heartbeat_once env io c") (auto dest: send_heartbeat_once_stamps)
next
  case (CeNotify io st)
  with step show ?thesis
    by (cases "send_heartbeat env io (cns_value st) 0 (c\<lparr>cc_state := st, cc_entered := ce_now env\<rparr>)")
      (auto simp: notify_state_change_def stamps_between_Nil split: if_splits dest!: send_heartbeat_stamps)
next
  case (CeTaskReady job ios)
  with step show ?thesis
    by (cases "notify_task_ready env job ios c") (auto simp: stamps_between_Nil dest!: task_ready_stamps)
qed

lemma client_run_stamps:
  "client_run es c = (c', outs) \<Longrightarrow>
   stamps_between (cc_last_ts c) (heartbeat_stamps outs) (cc_last_ts c')"
proof (induction es c arbitrary: c' outs rule: client_run.induct)
  case (1 c)
  then show ?case by (simp add: stamps_between_Nil)
next
  case (2 env e es c)
  obtain c1 o1 where s: "client_step env e c = (c1, o1)" by fastforce
  obtain c2 o2 where r: "client_run es c1 = (c2, o2)" by fastforce
  from 2(2) s r have "c' = c2" "outs = o1 @ o2" by simp_all
  with stamps_between_append [OF client_step_stamps [OF s] 2(1) [OF s [symmetric] r]]
  show ?case by simp
qed

section \<open>A held lease pins the radio\<close>

definition radio_part :: "ctl_client \<Rightarrow> int \<times> int \<times> int" where
  "radio_part c = (cc_channel c, cc_txpower c, cc_uplink_mcs c)"

lemma alignment_refused: "cc_pre c \<noteq> None \<Longrightarrow> apply_alignment env patch c = (None, c)"
  by (auto simp: apply_alignment_def split: option.split)

lemma check_alignment_refused: "cc_pre c \<noteq> None \<Longrightarrow> check_alignment_packet env extra c = c"
  by (auto simp: check_alignment_packet_def alignment_refused split: option.split)

lemma send_heartbeat_pinned:
  "send_heartbeat env io st el c = (a, c', outs) \<Longrightarrow> cc_pre c \<noteq> None \<Longrightarrow> radio_part c' = radio_part c"
  by (auto simp: send_heartbeat_def Let_def check_alignment_refused radio_part_def
      split: prod.splits if_splits dest!: next_timestamp_id)

lemma other_event_pinned:
  assumes "\<not> switch_event e" and step: "client_step env e c = (c', outs)" and pre: "cc_pre c \<noteq> None"
  shows "radio_part c' = radio_part c"
proof (cases e)
  case (CeTune ch)
  with step pre show ?thesis by (simp add: hunt_tune_def)
next
  case (CeHuntSend ch)
  with step show ?thesis
    by (auto simp: hunt_send_def Let_def radio_part_def split: prod.splits dest!: next_timestamp_id)
next
  case (CeHuntReply ch io io_idle)
  with step pre show ?thesis by (simp add: hunt_reply_def split: if_splits)
next
  case (CeHeartbeat io)
  obtain a c1 o1 where h: "send_heartbeat env io (cns_value (cc_state c)) (elapsed_ms (ce_now env) c) c = (a, c1, o1)"
    by (metis prod_cases3)
  with CeHeartbeat step send_heartbeat_pinned [OF h pre] show ?thesis
    by (auto simp: send_heartbeat_once_def Let_def radio_part_def split: if_splits)
next
  case (CeNotify io st)
  obtain a c1 o1 where h: "send_heartbeat env io (cns_value st) 0 (c\<lparr>cc_state := st, cc_entered := ce_now env\<rparr>) = (a, c1, o1)"
    by (metis prod_cases3)
  with CeNotify step send_heartbeat_pinned [OF h] pre show ?thesis
    by (auto simp: notify_state_change_def radio_part_def split: if_splits)
next
  case (CeTaskReady job ios)
  with step show ?thesis
    by (auto simp: notify_task_ready_def Let_def radio_part_def split: prod.splits option.splits
        dest!: next_timestamp_id)
qed (use assms(1) in simp_all)

section \<open>A successful hunt makes the node ready\<close>

lemma hunt_send_message:
  "hunt_send env ch c = (c', m) \<Longrightarrow>
   \<exists>ts el. m = hb_to_dict (make_heartbeat ''HUNTING'' el ch ts c') \<and> cc_last_ts c' = ts \<and>
     cc_node_id c' = cc_node_id c"
  by (auto simp: hunt_send_def Let_def split: prod.splits dest!: next_timestamp_id)

lemma send_heartbeat_message:
  assumes "send_heartbeat env io st el c = (a, c', outs)"
  shows "\<exists>ts c1. outs = [hb_to_dict (make_heartbeat st el (cc_channel c1) ts c1)] \<and> cc_last_ts c < ts \<and>
     cc_node_id c1 = cc_node_id c"
proof -
  obtain ts c1 where n: "next_timestamp (ce_now env) c = (ts, c1)" by fastforce
  from next_timestamp_id [OF n] have "cc_last_ts c < ts" "c1 = c\<lparr>cc_last_ts := ts\<rparr>" by simp_all
  moreover from assms n have "outs = [hb_to_dict (make_heartbeat st el (cc_channel c1) ts c1)]"
    by (auto simp: send_heartbeat_def Let_def split: if_splits)
  ultimately show ?thesis by (intro exI [of _ ts] exI [of _ c1]) simp
qed

lemma hunt_reply_message:
  assumes "hunt_reply env ch io io_idle c = (HuntFound, c', outs)"
  shows "\<exists>ts c1. outs = [hb_to_dict (make_heartbeat ''IDLE'' 0 (cc_channel c1) ts c1)] \<and>
    cc_last_ts c < ts \<and> cc_node_id c1 = cc_node_id c"
proof -
  define c1 where "c1 = (check_alignment_packet env (io_extra io)
      (c\<lparr>cc_locked := Some ch, cc_cached := ch, cc_missed := 0\<rparr>))\<lparr>cc_state := IDLE, cc_entered := ce_now env\<rparr>"
  obtain a c2 o2 where h: "send_heartbeat env io_idle ''IDLE'' 0 c1 = (a, c2, o2)" by (metis prod_cases3)
  with assms have "outs = o2"
    by (auto simp: hunt_reply_def Let_def c1_def [symmetric] split: if_splits)
  moreover have "cc_last_ts c1 = cc_last_ts c" by (simp add: c1_def last_ts_check)
  moreover have "cc_node_id c1 = cc_node_id c"
    using check_alignment_part [of env "io_extra io" "c\<lparr>cc_locked := Some ch, cc_cached := ch, cc_missed := 0\<rparr>"]
    by (simp add: c1_def switch_part_def)
  ultimately show ?thesis using send_heartbeat_message [OF h] by auto
qed

lemma decoded_heartbeat:
  "hb_from_dict (PDict (hb_to_dict (make_heartbeat st el ch ts c))) = Inr h \<Longrightarrow>
   hb_node_id h = cc_node_id c \<and> hb_state h = st \<and> hb_timestamp_ms h = Some ts"
  unfolding hb_from_dict_Inr by (auto simp: make_heartbeat_def hb_to_dict_def)

lemma gate_hunting_idle:
  assumes a: "hb_node_id (ar_hb a) = nid" "hb_state (ar_hb a) = ''HUNTING''" "hb_timestamp_ms (ar_hb a) = Some t"
    and b: "hb_node_id (ar_hb b) = nid" "hb_state (ar_hb b) = ''IDLE''" "hb_timestamp_ms (ar_hb b) = Some u"
    and old: "\<And>v. stored_ts reg nid = Some v \<Longrightarrow> v < t" and "t < u"
  shows "\<exists>r. map_of (reg_nodes (receive_all [a, b] reg)) nid = Some r \<and> nr_readiness r = READY \<and>
    nr_last_heartbeat_time r = ar_now b"
proof -
  have f1: "\<not> is_stale (map_of (reg_nodes reg) nid) (ar_hb a)"
    using old a by (force simp: is_stale_def stored_ts_def split: option.splits)
  let ?reg1 = "receive a reg"
  from f1 a have r1: "?reg1 = (snd (two_army_gate (ar_hb a) reg))
      \<lparr>reg_nodes := AList.update nid
         (record_of (ar_now a) (ar_wall a) (ar_hb a) (fst (two_army_gate (ar_hb a) reg)) (ar_addr a))
         (reg_nodes reg)\<rparr>"
    using receive_fresh [of reg a] by simp
  have f2: "\<not> is_stale (map_of (reg_nodes ?reg1) nid) (ar_hb b)"
    using a b \<open>t < u\<close> by (simp add: r1 is_stale_def record_of_def)
  have aw: "map_of (reg_awaiting ?reg1) nid = Some True" "map_of (reg_hunting_ts ?reg1) nid = Some t"
    using a by (simp_all add: r1 two_army_gate_def Let_def)
  from f2 b have "receive b ?reg1 = (snd (two_army_gate (ar_hb b) ?reg1))
      \<lparr>reg_nodes := AList.update nid
         (record_of (ar_now b) (ar_wall b) (ar_hb b) (fst (two_army_gate (ar_hb b) ?reg1)) (ar_addr b))
         (reg_nodes ?reg1)\<rparr>"
    using receive_fresh [of ?reg1 b] by simp
  moreover have "fst (two_army_gate (ar_hb b) ?reg1) = READY"
    using aw b \<open>t < u\<close> by (simp add: two_army_gate_def Let_def idle_ts_valid_def)
  ultimately show ?thesis by (simp add: record_of_def)
qed

end
