(* ===== verification/Client_Safety.thy ===== *)
theory Client_Safety
  imports Client_Time
begin

text \<open>
  What one client guarantees by itself, over any sequence of broadcasts, hunting turns, heartbeats,
  due switch threads, watchdog turns and supervisor retries. The sample run at the start prepares,
  commits, applies, checks in, finalizes and confirms one switch; the witnesses are taken from it.
\<close>

section \<open>A sample run\<close>

definition calm :: "rat \<Rightarrow> client_env" where
  "calm t = \<lparr>ce_now = t, ce_hw = \<lambda>_. None\<rparr>"

definition radio_message :: "string \<Rightarrow> pydict \<Rightarrow> client_event" where
  "radio_message kind extra = CeBroadcast (PDict
     ([(''type'', PStr kind), (''session_id'', PStr ''s1''), (''target_nodes'', PList [PInt 1])] @ extra))"

definition ask_149 :: pydict where
  "ask_149 = [(''channel'', PInt 149)]"

definition lease_15 :: "client_event" where
  "lease_15 = radio_message ''CONFIG_RADIO_COMMIT''
     [(''patch'', PDict ask_149), (''delay_ms'', PInt 2000), (''lease_timeout_seconds'', PFloat (Fin 15))]"

definition switch_events :: "(client_env \<times> client_event) list" where
  "switch_events =
     [(calm 0, radio_message ''CONFIG_RADIO_PREPARE'' [(''patch'', PDict ask_149)]),
      (calm 0, lease_15), (calm 2, CeSwitch 0),
      (calm 2, radio_message ''NEW_CHANNEL_PING'' ask_149),
      (calm 3, radio_message ''RADIO_SWITCH_FINALIZED'' ask_149),
      (calm 3, radio_message ''RADIO_SWITCH_CONFIRMED'' ask_149)]"

definition node_1 :: ctl_client where
  "node_1 = client_init 1 157 None 12 6 0"

definition committed_1 :: ctl_client where
  "committed_1 = fst (client_run (take 2 switch_events) node_1)"

section \<open>Helpers\<close>

lemma client_run_append:
  "client_run (xs @ ys) c =
     (case client_run xs c of (c', o1) \<Rightarrow> case client_run ys c' of (c'', o2) \<Rightarrow> (c'', o1 @ o2))"
  by (induction xs c rule: client_run.induct) (auto split: prod.splits)

lemma confirmed_history:
  assumes "client_run es c = (c', outs)" and "cc_confirmed c' = Some sid" and "cc_confirmed c \<noteq> Some sid"
  shows "\<exists>pre env e post c1 o1 msg. es = pre @ (env, e) # post \<and> client_run pre c = (c1, o1) \<and>
    broadcast_of e = Some msg \<and> dget msg ''type'' = PStr ''RADIO_SWITCH_CONFIRMED'' \<and>
    dget msg ''session_id'' = PStr sid \<and> cc_proposal c1 = Some sid \<and>
    wd_is_armed (ce_now env) (cc_watchdog c1)"
  using assms
proof (induction es arbitrary: c' outs rule: rev_induct)
  case Nil
  then show ?case by simp
next
  case (snoc x es)
  obtain env e where x: "x = (env, e)" by (cases x)
  obtain c1 o1 where r: "client_run es c = (c1, o1)" by fastforce
  obtain c2 o2 where s: "client_step env e c1 = (c2, o2)" by fastforce
  from snoc.prems(1) r s x have "c' = c2" by (simp add: client_run_append)
  from confirmed_step [OF s] snoc.prems(2) this
  consider "cc_confirmed c1 = Some sid"
    | msg where "broadcast_of e = Some msg" "dget msg ''type'' = PStr ''RADIO_SWITCH_CONFIRMED''"
        "dget msg ''session_id'' = PStr sid" "cc_proposal c1 = Some sid"
        "wd_is_armed (ce_now env) (cc_watchdog c1)"
    by blast
  then show ?case
  proof cases
    case 1
    from snoc.IH [OF r this snoc.prems(3)] show ?thesis
    proof (elim exE conjE)
      fix pre env' e' post c1' o1' msg
      assume "es = pre @ (env', e') # post" and h: "client_run pre c = (c1', o1')"
        "broadcast_of e' = Some msg" "dget msg ''type'' = PStr ''RADIO_SWITCH_CONFIRMED''"
        "dget msg ''session_id'' = PStr sid" "cc_proposal c1' = Some sid"
        "wd_is_armed (ce_now env') (cc_watchdog c1')"
      then have "es @ [x] = pre @ (env', e') # (post @ [x])" by simp
      with h show ?thesis by blast
    qed
  next
    case 2
    with r x show ?thesis by blast
  qed
qed

lemma rollback_fine:
  "(\<And>h. ce_hw env h = None) \<Longrightarrow> \<exists>c'. rollback_switch env c = (None, c')"
  by (auto simp: rollback_switch_def rollback_begin_def rollback_params_def rollback_end_def op_defs
      split: option.split)

lemma expiry_turn:
  assumes "client_step env (CeWatchdog (wd_generation (cc_watchdog c))) c = (c1, o1)"
    and "wd_armed (cc_watchdog c)" and "wd_deadline (cc_watchdog c) \<le> ce_now env"
  shows "c1 = c\<lparr>cc_watchdog := (cc_watchdog c)\<lparr>wd_armed := False, wd_expired := True\<rparr>\<rparr>"
  using assms by (auto simp: wd_run_turn_def Let_def)

text \<open>A normalized patch validated against the client's configuration says what it sets.\<close>

lemma prepared_patch_values:
  assumes "normalize_radio_patch (PDict d) = Inr p" and "dict_wf d"
    and "validate_radio_patch (PDict p) base = Inr cfg"
  shows "case_option (rc_channel base) id (patch_int p ''channel'') = rc_channel cfg"
    and "case_option (rc_txpower base) id (patch_int p ''radio_txpower_dbm'') = rc_txpower cfg"
    and "case_option (rc_uplink_mcs base) id (patch_int p ''uplink_mcs'') = rc_uplink_mcs cfg"
proof -
  have look: "map_of p k = patch_value d k" for k by (rule normalize_radio_patch_lookup [OF assms(1)])
  have "patch_value p k = map_of p k" for k
    by (auto simp: patch_value_def look has_key_def)
  then have val: "patched_int p k i = (case map_of p k of None \<Rightarrow> PInt i | Some v \<Rightarrow> v)" for k i
    by (simp add: patched_int_def)
  have int: "patched_int p k i = PInt j \<Longrightarrow> case_option i id (patch_int p k) = j" for k i j
    by (auto simp: val patch_int_def split: option.splits)
  from assms(1,2) have "dict_wf p" by (rule normalize_radio_patch_wf)
  from validate_radio_patch_fields [OF assms(3) this]
  show "case_option (rc_channel base) id (patch_int p ''channel'') = rc_channel cfg"
    "case_option (rc_txpower base) id (patch_int p ''radio_txpower_dbm'') = rc_txpower cfg"
    "case_option (rc_uplink_mcs base) id (patch_int p ''uplink_mcs'') = rc_uplink_mcs cfg"
    by (auto intro: int)
qed

lemma current_config_fields:
  "rc_channel (current_config c) = cc_channel c" "rc_txpower (current_config c) = cc_txpower c"
  "rc_uplink_mcs (current_config c) = cc_uplink_mcs c"
  by (simp_all add: current_config_def)

lemma apply_patch_fine:
  assumes "\<And>h. ce_hw env h = None"
  shows "\<exists>c'. apply_patch env p c = (None, c') \<and>
    cc_channel c' = case_option (cc_channel c) id (patch_int p ''channel'') \<and>
    cc_txpower c' = case_option (cc_txpower c) id (patch_int p ''radio_txpower_dbm'') \<and>
    cc_uplink_mcs c' = case_option (cc_uplink_mcs c) id (patch_int p ''uplink_mcs'') \<and>
    switch_part c' = switch_part c"
  using assms
  by (auto simp: apply_patch_def opt_op_def op_defs switch_part_def split: option.split)

section \<open>Guarantees\<close>





text \<open>The state of a client is consistent after any run: a pre-switch configuration, an armed lease,
  an applied switch or an acknowledged FINALIZED exist only within a session; the pending session
  is never the confirmed one; and the watchdog is never both armed and expired.\<close>

theorem client_consistent:
  assumes "client_run es (client_init nid ch cached pw um t0) = (c, outs)"
  shows "(cc_pre c \<noteq> None \<longrightarrow> cc_session c \<noteq> None) \<and>
    (wd_armed (cc_watchdog c) \<longrightarrow> cc_pre c \<noteq> None \<and> \<not> wd_expired (cc_watchdog c)) \<and>
    (cc_applied c \<longrightarrow> cc_pre c \<noteq> None) \<and>
    (cc_proposal c \<noteq> None \<longrightarrow> cc_proposal c = cc_session c \<and> cc_pre c \<noteq> None) \<and>
    (cc_session c \<noteq> None \<longrightarrow> cc_session c \<noteq> cc_confirmed c) \<and>
    cc_node_id c = nid"
proof -
  have "cc_inv c" by (rule client_run_inv [OF cc_inv_init assms])
  moreover have "client_run es d = (c, outs) \<Longrightarrow> cc_node_id c = cc_node_id d" for d outs
    by (induction es d arbitrary: outs rule: client_run.induct)
      (auto split: prod.splits dest: node_id_step)
  from this [OF assms] have "cc_node_id c = nid" by (simp add: client_init_def)
  ultimately show ?thesis by (simp add: cc_inv_def wd_inv_def)
qed

theorem client_consistent_witness:
  "cc_pre committed_1 \<noteq> None \<and> cc_session committed_1 \<noteq> None"
proof -
  obtain c outs where r: "client_run (take 2 switch_events) (client_init 1 157 None 12 6 0) = (c, outs)"
    by fastforce
  have "cc_pre committed_1 \<noteq> None" by code_simp
  moreover have "committed_1 = c" using r by (simp add: committed_1_def node_1_def)
  ultimately show ?thesis using client_consistent [OF r] by blast
qed

text \<open>C21: An expired lease always leads home. When the watchdog finds the lease run out, its callback and
  one turn of the supervisor bring the client back: on the benchmark channel, hunting, outside any
  session, with the power and uplink MCS of the configuration held before the switch. The hardware
  may fail in any way during the callback, as long as it works for the supervisor's retry; and the
  confirmed session is never touched.\<close>

theorem expired_lease_leads_home:
  assumes "cc_inv c" and "cc_pre c = Some r" and "wd_armed (cc_watchdog c)"
    and "wd_deadline (cc_watchdog c) \<le> ce_now env1"
    and s1: "client_step env1 (CeWatchdog (wd_generation (cc_watchdog c))) c = (c1, o1)"
    and s2: "client_step env2 CeExpired c1 = (c2, o2)"
    and s3: "client_step env3 CeSupervise c2 = (c3, o3)" and fine: "\<And>h. ce_hw env3 h = None"
  shows "cc_channel c3 = DEFAULT_BENCHMARK_CHANNEL \<and> cc_state c3 = HUNTING \<and> cc_locked c3 = None \<and>
    cc_session c3 = None \<and> cc_pre c3 = None \<and> \<not> cc_applied c3 \<and>
    cc_txpower c3 = rc_txpower r \<and> cc_uplink_mcs c3 = rc_uplink_mcs r \<and>
    cc_confirmed c3 = cc_confirmed c"
proof -
  note c1 = expiry_turn [OF s1 assms(3,4)]
  have pre1: "cc_pre c1 = Some r" "cc_session c1 \<noteq> None" "wd_expired (cc_watchdog c1)"
    "cc_confirmed c1 = cc_confirmed c"
    using assms(1,2) by (auto simp: c1 cc_inv_def)
  obtain e where roll: "rollback_switch env2 c1 = (e, c2)"
    using s2 pre1 by (cases "rollback_switch env2 c1") (auto simp: on_lease_expired_def)
  show ?thesis
  proof (cases e)
    case None
    with roll have b: "rolled_back env2 c1 c2" by (simp add: rollback_switch_simps)
    with s3 have "c3 = c2" by (auto simp: supervise_restore_def rolled_back_def)
    with b pre1 show ?thesis by (simp add: rolled_back_def)
  next
    case (Some x)
    with roll have p: "rollback_pending c1 c2" by (simp add: rollback_switch_simps)
    then have pre2: "cc_pre c2 = Some r" "wd_expired (cc_watchdog c2)" "cc_confirmed c2 = cc_confirmed c"
      using pre1 by (auto simp: rollback_pending_def switch_part_def)
    obtain d where d: "rollback_switch env3 c2 = (None, d)" using rollback_fine [OF fine] by blast
    with s3 pre2 have "c3 = d" by (simp add: supervise_restore_def)
    with rollback_switch_simps(1) [OF d] pre2 show ?thesis by (simp add: rolled_back_def)
  qed
qed

theorem expired_lease_leads_home_witness:
  "\<exists>c1 c2 c3. client_step (calm 20) (CeWatchdog 1) committed_1 = (c1, []) \<and>
     client_step ((calm 20)\<lparr>ce_hw := \<lambda>_. Some (OSError ''iw'')\<rparr>) CeExpired c1 = (c2, []) \<and>
     client_step (calm 21) CeSupervise c2 = (c3, []) \<and>
     cc_channel c3 = DEFAULT_BENCHMARK_CHANNEL \<and> cc_session c3 = None"
proof -
  have inv: "cc_inv committed_1"
    unfolding committed_1_def node_1_def
    by (cases "client_run (take 2 switch_events) (client_init 1 157 None 12 6 0)")
      (auto intro: client_run_inv [OF cc_inv_init])
  have "cc_pre committed_1 = Some (current_config node_1)" "wd_armed (cc_watchdog committed_1)"
    "wd_deadline (cc_watchdog committed_1) \<le> ce_now (calm 20)"
    "wd_generation (cc_watchdog committed_1) = 1"
    by code_simp+
  from expired_lease_leads_home [OF inv this(1-3), unfolded this(4),
      OF prod.collapse [symmetric] prod.collapse [symmetric] prod.collapse [symmetric], of "calm 21"
        "(calm 20)\<lparr>ce_hw := \<lambda>_. Some (OSError ''iw'')\<rparr>"]
  show ?thesis by (simp add: calm_def)
qed



text \<open>A prepared patch is what gets applied. If the patch of a PREPARE was accepted against the
  client's configuration, and the switch thread wakes within the lease with working hardware, the
  client ends up with exactly the channel, power and uplink MCS of the validated configuration -
  aliases and defaults resolved - which is a legal one, and marks the switch as applied.\<close>

theorem prepared_patch_applies:
  assumes "dget_default msg ''patch'' (PDict []) = PDict d" and "dict_wf d"
    and "prepare_check msg c = Inr p" and "validate_radio_patch (PDict p) (current_config c) = Inr cfg"
    and "cc_session c = Some sid" and "wd_is_armed (ce_now env) (cc_watchdog c)"
    and fine: "\<And>h. ce_hw env h = None"
  shows "cc_channel (delayed_switch env sid p c) = rc_channel cfg \<and>
    cc_txpower (delayed_switch env sid p c) = rc_txpower cfg \<and>
    cc_uplink_mcs (delayed_switch env sid p c) = rc_uplink_mcs cfg \<and>
    cc_applied (delayed_switch env sid p c) \<and> rc_wf cfg"
proof -
  from assms(1,3) have n: "normalize_radio_patch (PDict d) = Inr p" by (auto simp: prepare_check_def)
  from apply_patch_fine [OF fine] obtain c' where a: "apply_patch env p c = (None, c')"
    "cc_channel c' = case_option (cc_channel c) id (patch_int p ''channel'')"
    "cc_txpower c' = case_option (cc_txpower c) id (patch_int p ''radio_txpower_dbm'')"
    "cc_uplink_mcs c' = case_option (cc_uplink_mcs c) id (patch_int p ''uplink_mcs'')"
    by blast
  from assms(5,6) a(1) have "delayed_switch env sid p c = c'\<lparr>cc_applied := True\<rparr>"
    by (simp add: delayed_switch_def)
  with a prepared_patch_values [OF n assms(2,4), unfolded current_config_fields]
    validate_radio_patch_wf [OF assms(4)]
  show ?thesis by simp
qed

theorem prepared_patch_applies_witness:
  "cc_channel (delayed_switch (calm 2) ''s1'' [(''channel'', PInt 165)] committed_1) = 165"
proof -
  have "cc_session committed_1 = Some ''s1''" "wd_is_armed (ce_now (calm 2)) (cc_watchdog committed_1)"
    by code_simp+
  moreover have "prepare_check [(''patch'', PDict [(''target_channel'', PInt 165)])] committed_1
      = Inr [(''channel'', PInt 165)]"
    "validate_radio_patch (PDict [(''channel'', PInt 165)]) (current_config committed_1)
      = Inr (default_radio_config\<lparr>rc_channel := 165\<rparr>)"
    by code_simp+
  ultimately show ?thesis
    using prepared_patch_applies [of "[(''patch'', PDict [(''target_channel'', PInt 165)])]"
        "[(''target_channel'', PInt 165)]" committed_1]
    by (simp add: dget_default_def dict_wf_def calm_def)
qed


definition quiet_io :: hb_io where
  "quiet_io = \<lparr>io_sent = True, io_reply = None, io_extra = None\<rparr>"


text \<open>A successful hunt makes the node ready. When a hunt on a channel is answered, the client has sent
  a HUNTING and then an IDLE heartbeat; if the server decodes both, and its registry has only older
  time stamps of this node, the node passes the two-army gate and is READY.\<close>

theorem hunt_makes_ready:
  assumes send: "hunt_send env1 ch c = (c1, m1)"
    and reply: "hunt_reply env2 ch io io_idle c1 = (HuntFound, c2, [m2])"
    and dec1: "hb_from_dict (PDict m1) = Inr (ar_hb a)" and dec2: "hb_from_dict (PDict m2) = Inr (ar_hb b)"
    and old: "\<And>v. stored_ts reg (cc_node_id c) = Some v \<Longrightarrow> v \<le> cc_last_ts c"
    and thr: "0 \<le> reg_offline_threshold reg"
  shows "is_node_ready (ar_now b) (receive_all [a, b] reg) (cc_node_id c)"
proof -
  from send have "cc_last_ts c < cc_last_ts c1"
    by (auto simp: hunt_send_def Let_def split: prod.splits dest!: next_timestamp_id)
  moreover from hunt_send_message [OF send] obtain el
    where m1: "m1 = hb_to_dict (make_heartbeat ''HUNTING'' el ch (cc_last_ts c1) c1)"
      "cc_node_id c1 = cc_node_id c" by blast
  moreover from hunt_reply_message [OF reply] obtain ts d
    where m2: "m2 = hb_to_dict (make_heartbeat ''IDLE'' 0 (cc_channel d) ts d)"
      "cc_last_ts c1 < ts" "cc_node_id d = cc_node_id c1" by auto
  moreover have "v < cc_last_ts c1" if "stored_ts reg (cc_node_id c) = Some v" for v
    using old [OF that] \<open>cc_last_ts c < cc_last_ts c1\<close> by simp
  ultimately obtain r where r: "map_of (reg_nodes (receive_all [a, b] reg)) (cc_node_id c) = Some r"
    "nr_readiness r = READY" "nr_last_heartbeat_time r = ar_now b"
    using gate_hunting_idle [of a "cc_node_id c" "cc_last_ts c1" b ts reg]
      decoded_heartbeat [OF dec1 [unfolded m1(1)]] decoded_heartbeat [OF dec2 [unfolded m2(1)]]
    by auto
  have "reg_offline_threshold (receive x g) = reg_offline_threshold g" for x g
    by (cases "is_stale (map_of (reg_nodes g) (hb_node_id (ar_hb x))) (ar_hb x)")
      (simp_all add: receive_stale receive_fresh gate_threshold)
  with r thr show ?thesis by (simp add: is_node_ready_def get_node_def)
qed

definition acking_io :: hb_io where
  "acking_io = \<lparr>io_sent = True, io_reply = Some (PDict [(''ack'', PBool True)]), io_extra = None\<rparr>"

definition arrival_of :: "rat \<Rightarrow> pydict \<Rightarrow> arrival" where
  "arrival_of t m = \<lparr>ar_now = t, ar_wall = t,
     ar_hb = (case hb_from_dict (PDict m) of Inr h \<Rightarrow> h
       | Inl e \<Rightarrow> make_heartbeat [] 0 0 0 node_1),
     ar_addr = (''10.5.0.2'', 8000), ar_radio = default_radio_config\<rparr>"

theorem hunt_makes_ready_witness:
  "\<exists>c1 m1 c2 m2. hunt_send (calm 1) 157 node_1 = (c1, m1) \<and>
     hunt_reply (calm 1) 157 acking_io quiet_io c1 = (HuntFound, c2, [m2]) \<and>
     is_node_ready 1 (receive_all [arrival_of 1 m1, arrival_of 1 m2] (registry_init 10)) 1"
proof -
  obtain c1 m1 where s: "hunt_send (calm 1) 157 node_1 = (c1, m1)" by fastforce
  obtain r c2 outs where h: "hunt_reply (calm 1) 157 acking_io quiet_io c1 = (r, c2, outs)"
    by (metis prod_cases3)
  have "(case hunt_send (calm 1) 157 node_1 of (c1, m1) \<Rightarrow>
      case hunt_reply (calm 1) 157 acking_io quiet_io c1 of (r, c2, outs) \<Rightarrow>
        r = HuntFound \<and> list_all (\<lambda>m. is_ok (hb_from_dict (PDict m))) (m1 # outs) \<and> length outs = 1)"
    by code_simp
  with s h obtain m2 where m2: "r = HuntFound" "outs = [m2]"
    and ok: "is_ok (hb_from_dict (PDict m1))" "is_ok (hb_from_dict (PDict m2))"
    by (auto simp: length_Suc_conv)
  have dec: "is_ok (hb_from_dict (PDict m)) \<Longrightarrow> hb_from_dict (PDict m) = Inr (ar_hb (arrival_of 1 m))" for m
    by (cases "hb_from_dict (PDict m)") (simp_all add: arrival_of_def)
  have old: "stored_ts (registry_init 10) (cc_node_id node_1) = Some v \<Longrightarrow> v \<le> cc_last_ts node_1" for v
    by (simp add: stored_ts_def registry_init_def)
  have thr: "0 \<le> reg_offline_threshold (registry_init 10)" by (simp add: registry_init_def)
  have "is_node_ready (ar_now (arrival_of 1 m2))
      (receive_all [arrival_of 1 m1, arrival_of 1 m2] (registry_init 10)) (cc_node_id node_1)"
    by (rule hunt_makes_ready [OF s h [unfolded m2] dec [OF ok(1)] dec [OF ok(2)] old thr])
  with s h m2 show ?thesis by (simp add: arrival_of_def node_1_def client_init_def)
qed

text \<open>What can kill the broadcast loop. A broadcast that is not for this channel, has an unknown type,
  or whose handler raises leaves the loop running; the one exception that escapes is that of a
  dictionary whose \<open>type\<close> is itself a list or a dictionary, and then nothing has changed.\<close>

theorem broadcast_escape_iff:
  "fst (handle_broadcast env v c) \<noteq> None \<longleftrightarrow>
     (\<exists>msg t. v = PDict msg \<and> (dget msg ''channel'' = PNone \<or> channel_is_current msg c) \<and>
        map_of msg ''type'' = Some t \<and> \<not> hashable t)"
proof (cases v)
  case (PDict msg)
  have "hashable (dget_default msg ''type'' (PStr [])) \<longleftrightarrow>
      \<not> (\<exists>t. map_of msg ''type'' = Some t \<and> \<not> hashable t)"
    by (auto simp: dget_default_def split: option.split)
  with PDict show ?thesis
    by (auto simp: handle_broadcast_def Let_def split: option.splits prod.splits)
qed (simp_all add: handle_broadcast_def)

text \<open>Alignment cannot move the channel. Whatever patch the server (or anyone) puts into an alignment
  packet - the channel under its own name or under its alias included - the client stays on its
  channel and keeps the whole state of its switch; and when it is applied without an error, either
  nothing of the radio changed or its power and uplink MCS are legal ones.\<close>

theorem alignment_keeps_channel:
  assumes "apply_alignment env patch c = (r, c')"
  shows "cc_channel c' = cc_channel c \<and> switch_part c' = switch_part c \<and>
    (r = None \<longrightarrow> radio_part c' = radio_part c \<or>
       TXPOWER_MIN_DBM \<le> cc_txpower c' \<and> cc_txpower c' \<le> TXPOWER_MAX_DBM \<and>
       cc_uplink_mcs c' \<in> set ALLOWED_MCS_VALUES)"
proof -
  have op: "cc_channel (snd (align_update env u d)) = cc_channel d"
    "cc_channel (snd (align_restore env u d)) = cc_channel d" for u d
    by (auto simp: align_update_def align_restore_def op_defs split: option.split)
  have "cc_channel (snd (apply_alignment env patch c)) = cc_channel c"
    using op by (auto simp: apply_alignment_def Let_def split: option.split sum.split prod.split)
      (metis snd_conv)+
  moreover have fine: "align_update env u d = (None, d') \<Longrightarrow>
      cc_txpower d' = rc_txpower u \<and> cc_uplink_mcs d' = rc_uplink_mcs u" for u d d'
    by (auto simp: align_update_def op_defs split: option.splits if_splits)
  have "r = None \<Longrightarrow> c' = c \<or> (\<exists>p u. validate_radio_patch p (current_config c) = Inr u \<and>
      align_update env u c = (None, c'))"
    using assms by (auto simp: apply_alignment_def Let_def
        split: option.splits sum.splits prod.splits if_splits)
  then have "r = None \<Longrightarrow> radio_part c' = radio_part c \<or>
       TXPOWER_MIN_DBM \<le> cc_txpower c' \<and> cc_txpower c' \<le> TXPOWER_MAX_DBM \<and>
       cc_uplink_mcs c' \<in> set ALLOWED_MCS_VALUES"
    using fine by (auto simp: rc_wf_def dest!: validate_radio_patch_wf)
  ultimately show ?thesis using apply_alignment_part [of env patch c] assms by simp
qed

theorem alignment_keeps_channel_witness:
  "cc_channel (snd (apply_alignment (calm 1)
      (PDict [(''target_channel'', PInt 149), (''uplink_mcs'', PInt 4)]) node_1)) = 157 \<and>
   cc_uplink_mcs (snd (apply_alignment (calm 1)
      (PDict [(''target_channel'', PInt 149), (''uplink_mcs'', PInt 4)]) node_1)) = 4"
proof -
  let ?a = "apply_alignment (calm 1) (PDict [(''target_channel'', PInt 149), (''uplink_mcs'', PInt 4)]) node_1"
  have "cc_uplink_mcs (snd ?a) = 4" "cc_channel node_1 = 157" by code_simp+
  with alignment_keeps_channel [of "calm 1" _ node_1 "fst ?a" "snd ?a"] show ?thesis by simp
qed

end
