(* ===== verification/Artifacts.thy ===== *)
theory Artifacts
  imports FL_Prelude "HOL-Library.Word"
begin

text \<open>
  \<^verbatim>\<open>wfb_ng/fl/artifacts.py\<close>: the managed files. A path leads to a \<open>node\<close> of the file system; a regular
  file has its bytes and the identity \<^verbatim>\<open>fstat\<close> reports. Reading a file is a sequence of chunks ended by
  an empty one, and another process may change the file between the reads: \<open>source_view\<close> is what one
  archiving run gets to see. The digest (\<^verbatim>\<open>hashlib.sha256\<close>) is an argument of the definitions. JSON files
  hold values or do not parse; a write replaces the file at once or leaves it alone.
\<close>

type_synonym bytes = "8 word list"
type_synonym digest = "bytes \<Rightarrow> string"

definition CHUNK_SIZE :: nat where "CHUNK_SIZE = 65536"

section \<open>Identifiers\<close>

definition path_safe_char :: "char \<Rightarrow> bool" where
  "path_safe_char c \<longleftrightarrow>
     c \<in> set ''abcdefghijklmnopqrstuvwxyzABCDEFGHIJKLMNOPQRSTUVWXYZ0123456789_-''"

definition validate_path_safe_identifier :: "pyval \<Rightarrow> string \<Rightarrow> string res" where
  "validate_path_safe_identifier v name = (case as_str v of
     None \<Rightarrow> Inl (fl_error (''invalid_'' @ name) ''not a non-empty string'')
   | Some s \<Rightarrow>
       if s = [] then Inl (fl_error (''invalid_'' @ name) ''not a non-empty string'')
       else if \<not> list_all path_safe_char s then Inl (fl_error (''invalid_'' @ name) ''illegal characters'')
       else Inr s)"

lemma path_safe_identifier_Inr:
  "validate_path_safe_identifier v name = Inr s \<longleftrightarrow> v = PStr s \<and> s \<noteq> [] \<and> list_all path_safe_char s"
  by (auto simp: validate_path_safe_identifier_def split: option.splits)

text \<open>Such a name is one path component: no separator, no dot.\<close>

lemma path_safe_no_escape:
  "list_all path_safe_char s \<Longrightarrow> CHR ''/'' \<notin> set s \<and> CHR ''.'' \<notin> set s \<and> CHR 0x00 \<notin> set s"
  unfolding list_all_iff path_safe_char_def
  by (intro conjI notI) (drule (1) bspec, simp)+

section \<open>Opening\<close>

record file_stat =
  st_dev :: int
  st_ino :: int
  st_size :: nat
  st_mtime_ns :: int

datatype node = Absent | Unreadable | Directory | Regular bytes file_stat

definition open_artifact :: "node \<Rightarrow> nat option \<Rightarrow> (bytes \<times> file_stat) res" where
  "open_artifact n max_size = (case n of
     Regular b st \<Rightarrow>
       (case max_size of
          Some m \<Rightarrow> if m < st_size st then Inl (fl_error ''artifact_too_large'' ''too large'') else Inr (b, st)
        | None \<Rightarrow> Inr (b, st))
   | _ \<Rightarrow> Inl (fl_error ''invalid_artifact'' ''not a readable regular file''))"

definition inspect_artifact :: "string \<Rightarrow> node \<Rightarrow> nat option \<Rightarrow> string res" where
  "inspect_artifact path n max_size = bind_res (open_artifact n max_size) (\<lambda>_. Inr path)"

definition preflight_artifact :: "node \<Rightarrow> nat option \<Rightarrow> (bytes \<times> file_stat) res" where
  "preflight_artifact n max_size = open_artifact n max_size"

section \<open>Archiving\<close>

text \<open>The read loop: chunks until the first empty one.\<close>

fun read_all :: "bytes list \<Rightarrow> bytes" where
  "read_all [] = []"
| "read_all (c # cs) = (if c = [] then [] else c @ read_all cs)"

text \<open>The copy loop checks the size after every chunk it has written.\<close>

fun copy_loop :: "nat option \<Rightarrow> bytes \<Rightarrow> bytes list \<Rightarrow> bytes res" where
  "copy_loop m written [] = Inr written"
| "copy_loop m written (c # cs) =
     (if c = [] then Inr written
      else if (case m of None \<Rightarrow> False | Some k \<Rightarrow> k < length (written @ c))
      then Inl (fl_error ''artifact_too_large'' ''too large'')
      else copy_loop m (written @ c) cs)"

record source_view =
  view_first :: "bytes list"
  view_stat :: file_stat
  view_second :: "bytes list"
  view_stat2 :: file_stat

text \<open>The result and what is at the target path afterwards (\<open>None\<close>: what was there before).\<close>

definition archive_open_file ::
  "digest \<Rightarrow> file_stat \<Rightarrow> source_view \<Rightarrow> nat option \<Rightarrow> (nat \<times> string) res \<times> bytes option" where
  "archive_open_file dig st view m = (case copy_loop m [] (view_first view) of
     Inl e \<Rightarrow> (Inl e, None)
   | Inr b \<Rightarrow>
       if view_stat view \<noteq> st then (Inl (fl_error ''artifact_changed'' ''changed''), None)
       else
         let v = read_all (view_second view) in
         if view_stat2 view \<noteq> st \<or> length v \<noteq> length b \<or> dig v \<noteq> dig b
         then (Inl (fl_error ''artifact_changed'' ''changed''), None)
         else (Inr (length b, dig b), Some b))"

text \<open>A file nobody touches is read in chunks of the fixed size.\<close>

function chunks_of :: "bytes \<Rightarrow> bytes list" where
  "chunks_of b = (if b = [] then [] else take CHUNK_SIZE b # chunks_of (drop CHUNK_SIZE b))"
  by pat_completeness auto

termination chunks_of
  by (relation "measure length") (auto simp: CHUNK_SIZE_def)

declare chunks_of.simps [simp del]

definition quiet_view :: "bytes \<Rightarrow> file_stat \<Rightarrow> source_view" where
  "quiet_view b st =
     \<lparr>view_first = chunks_of b, view_stat = st, view_second = chunks_of b, view_stat2 = st\<rparr>"

text \<open>\<^verbatim>\<open>archive_file\<close> of a file nobody touches.\<close>

definition archive_file :: "digest \<Rightarrow> node \<Rightarrow> nat option \<Rightarrow> (nat \<times> string) res \<times> bytes option" where
  "archive_file dig n m = (case open_artifact n m of
     Inl e \<Rightarrow> (Inl e, None)
   | Inr (b, st) \<Rightarrow> archive_open_file dig st (quiet_view b st) m)"

section \<open>Checking a managed file\<close>

text \<open>\<^verbatim>\<open>validate_artifact\<close> and \<^verbatim>\<open>file_sha256\<close> of a file nobody writes meanwhile.\<close>

definition integrity_failed :: exn where
  "integrity_failed = fl_error ''artifact_integrity_failed'' ''integrity check failed''"

definition validate_artifact :: "digest \<Rightarrow> node \<Rightarrow> int \<Rightarrow> string \<Rightarrow> nat option \<Rightarrow> unit res" where
  "validate_artifact dig n size_bytes expected m = (case open_artifact n m of
     Inl (FLRuntimeError code msg r i) \<Rightarrow>
       (if code = ''artifact_too_large'' then Inl (FLRuntimeError code msg r i) else Inl integrity_failed)
   | Inl e \<Rightarrow> Inl e
   | Inr (b, st) \<Rightarrow>
       if int (st_size st) \<noteq> size_bytes then Inl integrity_failed
       else if int (length b) \<noteq> size_bytes \<or> dig b \<noteq> expected then Inl integrity_failed
       else Inr ())"

definition file_sha256 :: "digest \<Rightarrow> node \<Rightarrow> string res" where
  "file_sha256 dig n = (case n of
     Regular b st \<Rightarrow> Inr (dig b)
   | _ \<Rightarrow> Inl integrity_failed)"

section \<open>JSON files\<close>

text \<open>\<^verbatim>\<open>_strict_object\<close>: a repeated key is an error.\<close>

fun strict_object :: "(string \<times> pyval) list \<Rightarrow> pydict \<Rightarrow> pydict res" where
  "strict_object [] d = Inr d"
| "strict_object ((k, v) # ps) d =
     (if has_key d k then Inl (ValueError ''duplicate JSON key'') else strict_object ps (d @ [(k, v)]))"

datatype json_file = NoFile | BadJson | Json pyval

definition read_json :: "json_file \<Rightarrow> pyval res" where
  "read_json f = (case f of Json v \<Rightarrow> Inr v | _ \<Rightarrow> Inl (fl_error ''invalid_manifest'' ''unreadable manifest''))"

text \<open>\<^verbatim>\<open>write_json_atomic\<close>: the new contents are in place, or the exception leaves the old ones.\<close>

definition write_json_atomic :: "exn option \<Rightarrow> pyval \<Rightarrow> json_file \<Rightarrow> unit res \<times> json_file" where
  "write_json_atomic err v f = (case err of None \<Rightarrow> (Inr (), Json v) | Some e \<Rightarrow> (Inl e, f))"

section \<open>Lemmas\<close>

lemma open_artifact_Inr:
  "open_artifact n m = Inr (b, st) \<longleftrightarrow>
   n = Regular b st \<and> (case m of None \<Rightarrow> True | Some k \<Rightarrow> st_size st \<le> k)"
  by (auto simp: open_artifact_def split: node.splits option.splits)

lemma copy_loop_Inr:
  "copy_loop m w cs = Inr b \<Longrightarrow> (\<forall>k. m = Some k \<longrightarrow> length w \<le> k) \<Longrightarrow>
   b = w @ read_all cs \<and> (\<forall>k. m = Some k \<longrightarrow> length b \<le> k)"
  by (induction m w cs rule: copy_loop.induct) (auto split: if_splits option.splits)

lemma copy_loop_complete:
  "(\<And>k. m = Some k \<Longrightarrow> length (w @ read_all cs) \<le> k) \<Longrightarrow> copy_loop m w cs = Inr (w @ read_all cs)"
proof (induction m w cs rule: copy_loop.induct)
  case (2 m w c cs)
  show ?case
  proof (cases "c = []")
    case False
    with 2(2) have "\<not> (case m of None \<Rightarrow> False | Some k \<Rightarrow> k < length (w @ c))"
      by (auto split: option.split)
    with False 2 show ?thesis by simp
  qed simp
qed simp

lemma copy_loop_error: "copy_loop m w cs = Inl e \<Longrightarrow> e = fl_error ''artifact_too_large'' ''too large'' \<and> m \<noteq> None"
  by (induction m w cs rule: copy_loop.induct) (auto split: if_splits option.splits)

lemma read_all_chunks [simp]: "read_all (chunks_of b) = b"
proof (induction b rule: chunks_of.induct)
  case (1 b)
  then show ?case
    by (cases "b = []") (simp add: chunks_of.simps, simp add: chunks_of.simps [of b] CHUNK_SIZE_def)
qed

lemma archive_open_file_cases:
  "archive_open_file dig st view m = (r, t) \<Longrightarrow>
   (case r of
      Inl e \<Rightarrow> t = None
    | Inr (n, d) \<Rightarrow> \<exists>b. t = Some b \<and> b = read_all (view_first view) \<and> n = length b \<and> d = dig b \<and>
        dig (read_all (view_second view)) = d \<and> length (read_all (view_second view)) = n \<and>
        view_stat view = st \<and> view_stat2 view = st \<and> (\<forall>k. m = Some k \<longrightarrow> n \<le> k))"
  using copy_loop_Inr [of m "[]" "view_first view"]
  by (auto simp: archive_open_file_def Let_def split: sum.splits if_splits)

lemma archive_quiet:
  assumes "\<And>k. m = Some k \<Longrightarrow> length b \<le> k"
  shows "archive_open_file dig st (quiet_view b st) m = (Inr (length b, dig b), Some b)"
  using copy_loop_complete [of m "[]" "chunks_of b"] assms
  by (simp add: archive_open_file_def quiet_view_def Let_def)

lemma validate_artifact_Inr:
  "validate_artifact dig n sz d m = Inr () \<longleftrightarrow>
   (\<exists>b st. n = Regular b st \<and> int (st_size st) = sz \<and> int (length b) = sz \<and> dig b = d \<and>
      (\<forall>k. m = Some k \<longrightarrow> st_size st \<le> k))"
  by (auto simp: validate_artifact_def open_artifact_def split: node.splits option.splits if_splits)

lemma strict_object_Inr:
  "strict_object ps d = Inr d' \<Longrightarrow> dict_wf d \<Longrightarrow> d' = d @ ps \<and> dict_wf d'"
proof (induction ps d rule: strict_object.induct)
  case (2 k v ps d)
  then have k: "\<not> has_key d k" by (simp split: if_splits)
  then have "k \<notin> fst ` set d" by (simp add: has_key_def keys_eq_dom)
  with 2(3) have "dict_wf (d @ [(k, v)])" by (simp add: dict_wf_def)
  with 2(1) [OF k] 2(2) k show ?case by auto
qed simp

section \<open>Guarantees\<close>

text \<open>C27: An archive holds what its record says. Whatever another process does to the source between the
  reads, archiving either raises and leaves the target alone, or puts exactly the bytes it copied in
  place and returns their length and digest - within the limit, with the file's identity unchanged and
  a second reading of the same length and digest - so that checking the archived file against the
  record succeeds.\<close>

theorem archive_sound:
  assumes "archive_open_file dig st view m = (r, t)"
  shows "(\<exists>e. r = Inl e \<and> t = None) \<or>
    (\<exists>b. r = Inr (length b, dig b) \<and> t = Some b \<and> b = read_all (view_first view) \<and>
       length (read_all (view_second view)) = length b \<and> dig (read_all (view_second view)) = dig b \<and>
       view_stat view = st \<and> view_stat2 view = st \<and>
       validate_artifact dig (Regular b (st\<lparr>st_size := length b\<rparr>)) (int (length b)) (dig b) m = Inr ())"
proof (cases r)
  case (Inl e)
  with archive_open_file_cases [OF assms] show ?thesis by simp
next
  case (Inr p)
  with archive_open_file_cases [OF assms] show ?thesis
    by (auto simp: validate_artifact_Inr)
qed

definition byte_sum :: digest where
  "byte_sum b = map (\<lambda>x. char_of (unat x)) [sum_list b]"

definition sample_stat :: file_stat where
  "sample_stat = \<lparr>st_dev = 1, st_ino = 7, st_size = 3, st_mtime_ns = 5\<rparr>"

theorem archive_sound_witness:
  "\<exists>r t. archive_open_file byte_sum sample_stat (quiet_view [1, 2, 3] sample_stat) (Some 10) = (r, t) \<and>
     t = Some [1, 2, 3] \<and> r = Inr (3, byte_sum [1, 2, 3])"
proof -
  have a: "archive_open_file byte_sum sample_stat (quiet_view [1, 2, 3] sample_stat) (Some 10)
      = (Inr (3, byte_sum [1, 2, 3]), Some [1, 2, 3])"
    using archive_quiet [of "Some 10" "[1, 2, 3]" byte_sum sample_stat] by simp
  with archive_sound [OF a] show ?thesis by simp
qed

text \<open>An undisturbed archive succeeds. A readable regular file within the limit that nobody touches is
  archived whole - whatever its length is relative to the chunk size - and nothing else is.\<close>

theorem archive_complete:
  "archive_file dig n m = (Inr (sz, d), Some b) \<longleftrightarrow>
     (\<exists>st. n = Regular b st \<and> sz = length b \<and> d = dig b \<and>
        (case m of None \<Rightarrow> True | Some k \<Rightarrow> st_size st \<le> k \<and> length b \<le> k))"
proof (cases "open_artifact n m")
  case (Inl e)
  then show ?thesis by (auto simp: archive_file_def open_artifact_def split: option.splits)
next
  case (Inr p)
  obtain c st where p: "p = (c, st)" by (cases p)
  with Inr have n: "n = Regular c st" "case m of None \<Rightarrow> True | Some k \<Rightarrow> st_size st \<le> k"
    by (simp_all add: open_artifact_Inr)
  have fl: "archive_file dig n m = archive_open_file dig st (quiet_view c st) m"
    by (simp add: archive_file_def Inr p)
  show ?thesis
  proof (cases "\<forall>k. m = Some k \<longrightarrow> length c \<le> k")
    case True
    with archive_quiet [of m c dig st] n show ?thesis
      unfolding fl by (auto split: option.splits)
  next
    case False
    have "\<not> (\<exists>x t. archive_open_file dig st (quiet_view c st) m = (Inr x, t))"
    proof (rule notI, elim exE)
      fix x t assume "archive_open_file dig st (quiet_view c st) m = (Inr x, t)"
      then obtain y where "copy_loop m [] (chunks_of c) = Inr y"
        by (cases "copy_loop m [] (chunks_of c)") (simp_all add: archive_open_file_def quiet_view_def)
      from copy_loop_Inr [OF this] have "\<forall>k. m = Some k \<longrightarrow> length c \<le> k" by auto
      with False show False by blast
    qed
    with False n show ?thesis unfolding fl by (cases m) auto
  qed
qed

end
