(* ===== verification/Round_State.thy ===== *)
theory Round_State
  imports Artifacts
begin

text \<open>
  The persisted state of training rounds, shared by both runtimes of \<^verbatim>\<open>wfb_ng/fl/runtime.py\<close>: round
  identifiers, the checks of manifests and of \<^verbatim>\<open>round-state.json\<close>, and the recovery that runs when a
  runtime opens its working directory. The directory \<^verbatim>\<open>rounds\<close> is a list of entries in the order
  \<^verbatim>\<open>os.listdir\<close> gives; an entry that is a directory has its state file. Recovery writes as it scans, so it
  returns the directory it leaves even when it raises.
\<close>

section \<open>Identifiers and digests\<close>

definition hex_digit :: "char \<Rightarrow> bool" where
  "hex_digit c \<longleftrightarrow> c \<in> set ''0123456789abcdef''"

text \<open>\<^verbatim>\<open>str(uuid.UUID(value)) == value\<close>: 32 lower-case hexadecimal digits in groups of 8, 4, 4, 4, 12.\<close>

definition uuid_hyphens :: "nat list" where "uuid_hyphens = [8, 13, 18, 23]"

definition canonical_uuid :: "string \<Rightarrow> bool" where
  "canonical_uuid s \<longleftrightarrow> length s = 36 \<and>
     (\<forall>i \<in> set [0..<36]. if i \<in> set uuid_hyphens then s ! i = CHR ''-'' else hex_digit (s ! i))"

text \<open>Version 4 of the RFC 4122 variant.\<close>

definition uuid4_string :: "string \<Rightarrow> bool" where
  "uuid4_string s \<longleftrightarrow> canonical_uuid s \<and> s ! 14 = CHR ''4'' \<and> s ! 19 \<in> set ''89ab''"

definition bad_manifest :: exn where
  "bad_manifest = fl_error ''invalid_manifest'' ''invalid manifest''"

definition parse_round_id :: "pyval \<Rightarrow> string res" where
  "parse_round_id v = (case as_str v of
     None \<Rightarrow> Inl bad_manifest
   | Some s \<Rightarrow> if uuid4_string s then Inr s else Inl bad_manifest)"

definition validate_sha256 :: "pyval \<Rightarrow> unit res" where
  "validate_sha256 v = (case as_str v of
     None \<Rightarrow> Inl bad_manifest
   | Some s \<Rightarrow> if length s = 64 \<and> list_all hex_digit s then Inr () else Inl bad_manifest)"

definition validate_exact_fields :: "pyval \<Rightarrow> string list \<Rightarrow> pydict res" where
  "validate_exact_fields v ks = (case as_dict v of
     None \<Rightarrow> Inl bad_manifest
   | Some d \<Rightarrow> if set (map fst d) = set ks then Inr d else Inl bad_manifest)"

definition validate_max_update_size :: "pyval \<Rightarrow> unit res" where
  "validate_max_update_size v = (case as_int v of
     None \<Rightarrow> Inl (fl_error ''invalid_configuration'' ''update size limit'')
   | Some i \<Rightarrow> if i \<le> 0 then Inl (fl_error ''invalid_configuration'' ''update size limit'') else Inr ())"

text \<open>A list of positive integers, strictly ascending: \<^verbatim>\<open>xs == sorted(set(xs))\<close> after the type checks.\<close>

fun positive_ints :: "pyval list \<Rightarrow> int list option" where
  "positive_ints [] = Some []"
| "positive_ints (v # vs) = (case (as_int v, positive_ints vs) of
     (Some i, Some is) \<Rightarrow> if 0 < i then Some (i # is) else None
   | _ \<Rightarrow> None)"

definition node_id_list :: "pyval \<Rightarrow> int list option" where
  "node_id_list v = (case as_list v of
     None \<Rightarrow> None
   | Some vs \<Rightarrow> (case positive_ints vs of
       None \<Rightarrow> None
     | Some is \<Rightarrow> if is = sorted_list_of_set (set is) then Some is else None))"

section \<open>State files\<close>

datatype role = ServerRole | ClientRole

definition role_name :: "role \<Rightarrow> string" where
  "role_name r = (case r of ServerRole \<Rightarrow> ''server'' | ClientRole \<Rightarrow> ''client'')"

definition active_states :: "role \<Rightarrow> string list" where
  "active_states r = (case r of
     ServerRole \<Rightarrow> [''publishing_model'', ''waiting_for_updates'']
   | ClientRole \<Rightarrow> [''model_received'', ''submitting_update''])"

definition terminal_states :: "string list" where
  "terminal_states = [''succeeded'', ''failed'']"

definition corrupted :: exn where
  "corrupted = fl_error ''round_state_corrupted'' ''corrupted round state''"

definition nonempty_str :: "pyval \<Rightarrow> bool" where
  "nonempty_str v \<longleftrightarrow> (case as_str v of None \<Rightarrow> False | Some s \<Rightarrow> s \<noteq> [])"

definition is_str :: "pyval \<Rightarrow> bool" where
  "is_str v \<longleftrightarrow> as_str v \<noteq> None"

definition error_object :: "string \<Rightarrow> string \<Rightarrow> pyval \<Rightarrow> bool" where
  "error_object k1 k2 v \<longleftrightarrow> (case as_dict v of
     None \<Rightarrow> False
   | Some d \<Rightarrow> set (map fst d) = {k1, k2} \<and> nonempty_str (dget d k1) \<and> is_str (dget d k2))"

definition diagnostics_ok :: "pyval \<Rightarrow> role \<Rightarrow> bool" where
  "diagnostics_ok v r \<longleftrightarrow> (case as_dict v of
     None \<Rightarrow> False
   | Some d \<Rightarrow>
       r = ServerRole \<and> d \<noteq> [] \<and>
       set (map fst d) \<subseteq> {''natural_result'', ''cancel_result'', ''cancel_error''} \<and>
       (has_key d ''natural_result'' \<longrightarrow>
          dget d ''natural_result'' = PStr ''succeeded'' \<or>
          error_object ''error_code'' ''error_message'' (dget d ''natural_result'')) \<and>
       (has_key d ''cancel_result'' \<longrightarrow>
          dget d ''cancel_result'' \<in> {PStr ''cancelled'', PStr ''already_completed''}) \<and>
       (has_key d ''cancel_error'' \<longrightarrow>
          error_object ''exception_type'' ''message'' (dget d ''cancel_error'')) \<and>
       \<not> (dget d ''cancel_result'' \<noteq> PNone \<and> dget d ''cancel_error'' \<noteq> PNone))"

definition success_ok :: "pydict \<Rightarrow> bool" where
  "success_ok d \<longleftrightarrow>
     (case (node_id_list (dget d ''participant_node_ids''),
            node_id_list (dget d ''committed_update_node_ids'')) of
        (Some ps, Some cs) \<Rightarrow> cs \<noteq> [] \<and> set cs \<subseteq> set ps
      | _ \<Rightarrow> False)"

definition failure_ok :: "pydict \<Rightarrow> role \<Rightarrow> bool" where
  "failure_ok d r \<longleftrightarrow>
     nonempty_str (dget d ''error_code'') \<and> is_str (dget d ''error_message'') \<and>
     (dget d ''node_id'' = PNone \<or>
        (case as_int (dget d ''node_id'') of None \<Rightarrow> False | Some i \<Rightarrow> 0 < i)) \<and>
     (has_key d ''downlink_diagnostics'' \<longrightarrow> diagnostics_ok (dget d ''downlink_diagnostics'') r)"

definition state_of :: "pydict \<Rightarrow> string" where
  "state_of d = (case as_str (dget d ''state'') of None \<Rightarrow> [] | Some s \<Rightarrow> s)"

definition round_state_ok :: "pyval \<Rightarrow> string \<Rightarrow> role \<Rightarrow> bool" where
  "round_state_ok v round_id r \<longleftrightarrow> (case as_dict v of
     None \<Rightarrow> False
   | Some d \<Rightarrow>
       dget d ''schema_version'' = PInt 1 \<and> dget d ''round_id'' = PStr round_id \<and>
       dget d ''role'' = PStr (role_name r) \<and> is_str (dget d ''state'') \<and>
       state_of d \<in> set (active_states r @ terminal_states) \<and>
       (state_of d = ''succeeded'' \<and> r = ServerRole \<longrightarrow> success_ok d) \<and>
       (has_key d ''downlink_diagnostics'' \<longrightarrow> state_of d = ''failed'') \<and>
       (state_of d = ''failed'' \<longrightarrow> failure_ok d r))"

definition validate_round_state :: "pyval \<Rightarrow> string \<Rightarrow> role \<Rightarrow> pydict res" where
  "validate_round_state v round_id r =
     (if round_state_ok v round_id r then Inr (the (as_dict v)) else Inl corrupted)"

section \<open>Recovery\<close>

record work_dir =
  wd_rounds :: "(string \<times> json_file option) list"
  wd_current :: json_file

text \<open>\<open>None\<close> as an entry's file: it is not a directory.\<close>

definition is_terminal :: "pydict \<Rightarrow> bool" where
  "is_terminal d \<longleftrightarrow> state_of d \<in> set terminal_states"

definition restarted_state :: "pydict \<Rightarrow> pydict" where
  "restarted_state d = dict_update d
     [(''state'', PStr ''failed''), (''error_code'', PStr ''runtime_restarted''),
      (''error_message'', PStr ''runtime restart ended an unfinished round''),
      (''restart_previous_state'', dget d ''state'')]"

text \<open>One entry: its state as the scan leaves it, and whether it was restarted.\<close>

definition scan_entry :: "role \<Rightarrow> string \<Rightarrow> json_file option \<Rightarrow> (pydict \<times> bool) res" where
  "scan_entry r name entry = (case entry of
     None \<Rightarrow> Inl corrupted
   | Some f \<Rightarrow>
       if \<not> canonical_uuid name then Inl corrupted
       else (case read_json f of
           Inl e \<Rightarrow> Inl corrupted
         | Inr v \<Rightarrow> (case validate_round_state v name r of
             Inl e \<Rightarrow> Inl e
           | Inr d \<Rightarrow> if is_terminal d then Inr (d, False) else Inr (restarted_state d, True))))"

text \<open>The scan: the terminal states by round, the restarted ones in order, the entries written so far.
  \<open>werr\<close> says which state files cannot be written.\<close>

fun scan_rounds ::
  "role \<Rightarrow> (string \<Rightarrow> exn option) \<Rightarrow> (string \<times> json_file option) list \<Rightarrow>
   ((string \<times> pydict) list \<times> pydict list) res \<times> (string \<times> json_file option) list" where
  "scan_rounds r werr [] = (Inr ([], []), [])"
| "scan_rounds r werr ((name, entry) # es) = (case scan_entry r name entry of
     Inl e \<Rightarrow> (Inl e, (name, entry) # es)
   | Inr (d, again) \<Rightarrow>
       (case (if again then werr name else None) of
          Some e \<Rightarrow> (Inl e, (name, entry) # es)
        | None \<Rightarrow>
            (case scan_rounds r werr es of (res, es') \<Rightarrow>
               (case res of
                  Inl e \<Rightarrow> Inl e
                | Inr (ts, rs) \<Rightarrow> Inr ((name, d) # ts, if again then d # rs else rs),
                (name, if again then Some (Json (PDict d)) else entry) # es'))))"

definition current_pointer :: "role \<Rightarrow> string \<Rightarrow> pydict" where
  "current_pointer r round_id =
     [(''schema_version'', PInt 1), (''role'', PStr (role_name r)), (''round_id'', PStr round_id)]"

definition read_current :: "role \<Rightarrow> json_file \<Rightarrow> string res" where
  "read_current r f = (case f of
     Json v \<Rightarrow>
       (case Option.bind (as_dict v) (\<lambda>d. as_str (dget d ''round_id'')) of
          None \<Rightarrow> Inl corrupted
        | Some s \<Rightarrow>
            if canonical_uuid s \<and> py_eq v (PDict (current_pointer r s)) then Inr s else Inl corrupted)
   | _ \<Rightarrow> Inl corrupted)"

definition recover_round_states ::
  "role \<Rightarrow> (string \<Rightarrow> exn option) \<Rightarrow> work_dir \<Rightarrow> pydict option res \<times> work_dir" where
  "recover_round_states r werr w = (case scan_rounds r werr (wd_rounds w) of
     (Inl e, es) \<Rightarrow> (Inl e, w\<lparr>wd_rounds := es\<rparr>)
   | (Inr (ts, rs), es) \<Rightarrow>
       (let w' = w\<lparr>wd_rounds := es\<rparr> in
        if wd_current w = NoFile then
          (case rs of
             [] \<Rightarrow> (Inr None, w')
           | [d] \<Rightarrow> (Inr (Some d), w')
           | _ \<Rightarrow> (Inl corrupted, w'))
        else (case read_current r (wd_current w) of
            Inl e \<Rightarrow> (Inl e, w')
          | Inr s \<Rightarrow> (case map_of ts s of None \<Rightarrow> (Inl corrupted, w') | Some d \<Rightarrow> (Inr (Some d), w')))))"

definition write_current_round :: "role \<Rightarrow> string \<Rightarrow> exn option \<Rightarrow> work_dir \<Rightarrow> unit res \<times> work_dir" where
  "write_current_round r round_id err w =
     (case write_json_atomic err (PDict (current_pointer r round_id)) (wd_current w) of
        (res, f) \<Rightarrow> (res, w\<lparr>wd_current := f\<rparr>))"

section \<open>What recovery leaves\<close>

lemma dget_dict_update:
  "dict_wf e \<Longrightarrow> dget (dict_update d e) k = (case map_of e k of None \<Rightarrow> dget d k | Some v \<Rightarrow> v)"
  by (simp add: dget_def map_of_dict_update split: option.split)

lemma has_key_dict_update:
  "dict_wf e \<Longrightarrow> has_key (dict_update d e) k \<longleftrightarrow> has_key e k \<or> has_key d k"
  by (auto simp: has_key_def map_of_dict_update split: option.splits)

text \<open>An unfinished round carries no node identifier: only failures do.\<close>

definition tidy_state :: "pydict \<Rightarrow> bool" where
  "tidy_state d \<longleftrightarrow> is_terminal d \<or> dget d ''node_id'' = PNone"

definition tidy_entry :: "json_file option \<Rightarrow> bool" where
  "tidy_entry f \<longleftrightarrow> (case f of Some (Json (PDict d)) \<Rightarrow> tidy_state d | _ \<Rightarrow> True)"

lemma restarted_fields:
  "dget (restarted_state d) k =
     (if k = ''state'' then PStr ''failed''
      else if k = ''error_code'' then PStr ''runtime_restarted''
      else if k = ''error_message'' then PStr ''runtime restart ended an unfinished round''
      else if k = ''restart_previous_state'' then dget d ''state'' else dget d k)"
  unfolding restarted_state_def by (subst dget_dict_update) (simp_all add: dict_wf_def)

lemma restarted_has_key:
  "has_key (restarted_state d) ''downlink_diagnostics'' = has_key d ''downlink_diagnostics''"
  unfolding restarted_state_def
  by (subst has_key_dict_update) (simp_all add: dict_wf_def, simp add: has_key_def)

lemma restarted_terminal [simp]: "is_terminal (restarted_state d)"
  by (simp add: is_terminal_def state_of_def restarted_fields terminal_states_def)

lemma restarted_ok:
  assumes ok: "round_state_ok (PDict d) rid r" and nt: "\<not> is_terminal d" and "tidy_state d"
  shows "round_state_ok (PDict (restarted_state d)) rid r"
proof -
  from ok nt have "\<not> has_key d ''downlink_diagnostics''"
    by (auto simp: round_state_ok_def is_terminal_def terminal_states_def)
  moreover have "state_of (restarted_state d) = ''failed''"
    by (simp add: state_of_def restarted_fields)
  ultimately show ?thesis using assms
    by (simp add: round_state_ok_def restarted_fields restarted_has_key failure_ok_def tidy_state_def
        nonempty_str_def is_str_def terminal_states_def)
qed

lemma scan_entry_Inr:
  "scan_entry r name entry = Inr (d, again) \<longleftrightarrow>
   (\<exists>d0. entry = Some (Json (PDict d0)) \<and> canonical_uuid name \<and> round_state_ok (PDict d0) name r \<and>
      again = (\<not> is_terminal d0) \<and> d = (if again then restarted_state d0 else d0))"
proof -
  have "round_state_ok v name r \<Longrightarrow> \<exists>d0. v = PDict d0" for v
    by (auto simp: round_state_ok_def split: option.splits)
  then show ?thesis
    by (fastforce simp: scan_entry_def validate_round_state_def read_json_def
        split: option.splits json_file.splits if_splits)
qed

lemma scan_entry_again:
  assumes "scan_entry r name entry = Inr (d, again)" and "tidy_entry entry"
  shows "scan_entry r name (Some (Json (PDict d))) = Inr (d, False)"
proof -
  from assms obtain d0 where d0: "entry = Some (Json (PDict d0))" "canonical_uuid name"
    "round_state_ok (PDict d0) name r" "again = (\<not> is_terminal d0)"
    "d = (if again then restarted_state d0 else d0)"
    unfolding scan_entry_Inr by blast
  with assms(2) show ?thesis
    unfolding scan_entry_Inr by (auto simp: tidy_entry_def intro: restarted_ok)
qed

text \<open>A scan that succeeds: every entry it leaves is a terminal state, and scanning again returns the
  same states, restarts nothing and writes nothing.\<close>

lemma scan_rounds_again:
  assumes "scan_rounds r werr es = (Inr (ts, rs), es')" and "list_all (\<lambda>(_, f). tidy_entry f) es"
  shows "scan_rounds r werr' es' = (Inr (ts, []), es') \<and> map fst ts = map fst es \<and>
    list_all (\<lambda>(_, d). is_terminal d) ts \<and> es' = map (\<lambda>(n, d). (n, Some (Json (PDict d)))) ts"
  using assms
proof (induction es arbitrary: ts rs es')
  case Nil
  then show ?case by simp
next
  case (Cons p es)
  obtain name entry where p: "p = (name, entry)" by (cases p)
  from Cons.prems(1) p obtain d again ts1 rs1 es1 where
    e: "scan_entry r name entry = Inr (d, again)" and
    rest: "scan_rounds r werr es = (Inr (ts1, rs1), es1)" and
    out: "ts = (name, d) # ts1" "es' = (name, if again then Some (Json (PDict d)) else entry) # es1"
    by (auto split: sum.splits prod.splits option.splits)
  from Cons.prems(2) p have tidy: "tidy_entry entry" and "list_all (\<lambda>(_, f). tidy_entry f) es"
    by simp_all
  note IH = Cons.IH [OF rest this(2)]
  from e have entry: "\<not> again \<Longrightarrow> entry = Some (Json (PDict d))" and "is_terminal d"
    by (auto simp: scan_entry_Inr)
  then have "es' = (name, Some (Json (PDict d))) # es1" using out by auto
  moreover have "scan_rounds r werr' es1 = (Inr (ts1, []), es1)" using IH by blast
  with calculation scan_entry_again [OF e tidy] out(1)
  have "scan_rounds r werr' es' = (Inr (ts, []), es')" by simp
  ultimately show ?case using IH out p \<open>is_terminal d\<close> by simp
qed

lemma scan_rounds_error:
  "scan_rounds r werr es = (Inl e, es') \<Longrightarrow> map fst es' = map fst es"
  by (induction es arbitrary: e es') (auto split: sum.splits prod.splits option.splits)

text \<open>A round directory without a readable state file stops every recovery.\<close>

lemma scan_rounds_blocked:
  assumes "(name, entry) \<in> set es" and "\<And>d. entry \<noteq> Some (Json (PDict d))"
  shows "\<exists>e. fst (scan_rounds r werr es) = Inl e"
proof (rule ccontr)
  assume "\<not> ?thesis"
  then obtain x es' where s: "scan_rounds r werr es = (Inr x, es')"
    by (cases "scan_rounds r werr es"; cases "fst (scan_rounds r werr es)") auto
  then have "\<forall>(n, f) \<in> set es. \<exists>d again. scan_entry r n f = Inr (d, again)"
    by (induction es arbitrary: x es') (auto split: sum.splits prod.splits option.splits)
  with assms(1) obtain d again where "scan_entry r name entry = Inr (d, again)" by blast
  with assms(2) show False by (auto simp: scan_entry_Inr)
qed

section \<open>Guarantees\<close>

lemma recover_cases:
  assumes "recover_round_states r werr w = (Inr d, w')"
  obtains ts rs where "scan_rounds r werr (wd_rounds w) = (Inr (ts, rs), wd_rounds w')"
    and "wd_current w' = wd_current w"
    and "wd_current w = NoFile \<and> (rs = [] \<and> d = None \<or> (\<exists>x. rs = [x] \<and> d = Some x)) \<or>
      wd_current w \<noteq> NoFile \<and> (\<exists>s x. read_current r (wd_current w) = Inr s \<and> map_of ts s = Some x \<and> d = Some x)"
  using assms
  by (auto simp: recover_round_states_def Let_def split: prod.splits sum.splits if_splits option.splits
      list.splits)


definition sample_round :: string where
  "sample_round = ''00000000-0000-4000-8000-000000000000''"

definition waiting_state :: pydict where
  "waiting_state =
     [(''schema_version'', PInt 1), (''round_id'', PStr sample_round), (''role'', PStr ''server''),
      (''state'', PStr ''waiting_for_updates'')]"

definition crashed_dir :: work_dir where
  "crashed_dir = \<lparr>wd_rounds = [(sample_round, Some (Json (PDict waiting_state)))],
     wd_current = Json (PDict (current_pointer ServerRole sample_round))\<rparr>"


text \<open>One unfinished directory blocks every start. If a round's directory exists without a readable
  state file - a process that ended between creating the one and writing the other leaves it so -
  then recovery raises, whatever else is on disk, and leaves the directory there for the next start.\<close>

theorem recovery_blocked:
  assumes "(name, Some f) \<in> set (wd_rounds w)" and "f = NoFile \<or> f = BadJson"
  shows "\<exists>e w'. recover_round_states r werr w = (Inl e, w') \<and> name \<in> fst ` set (wd_rounds w')"
proof -
  have "\<exists>e. fst (scan_rounds r werr (wd_rounds w)) = Inl e"
    using scan_rounds_blocked [OF assms(1), of r werr] assms(2) by auto
  then obtain e es where s: "scan_rounds r werr (wd_rounds w) = (Inl e, es)"
    by (metis prod.collapse)
  from scan_rounds_error [OF this] assms(1) have "name \<in> fst ` set es"
    by (metis fst_conv image_eqI list.set_map)
  with s show ?thesis by (simp add: recover_round_states_def)
qed

theorem recovery_blocked_witness:
  "\<exists>e w'. recover_round_states ServerRole (\<lambda>_. None)
     (crashed_dir\<lparr>wd_rounds := [(''r2'', Some NoFile)]\<rparr>) = (Inl e, w')"
  using recovery_blocked [of "''r2''" NoFile "crashed_dir\<lparr>wd_rounds := [(''r2'', Some NoFile)]\<rparr>"
      ServerRole "\<lambda>_. None"] by auto

section \<open>Recovering a good directory\<close>

definition entry_good :: "role \<Rightarrow> string \<times> json_file option \<Rightarrow> bool" where
  "entry_good r p \<longleftrightarrow> (case p of
     (name, Some (Json (PDict d))) \<Rightarrow> canonical_uuid name \<and> round_state_ok (PDict d) name r
   | _ \<Rightarrow> False)"

definition left_state :: "json_file option \<Rightarrow> pydict" where
  "left_state f = (case f of
     Some (Json (PDict d)) \<Rightarrow> if is_terminal d then d else restarted_state d
   | _ \<Rightarrow> [])"

lemma scan_entry_good:
  "entry_good r (name, f) \<Longrightarrow> \<exists>again. scan_entry r name f = Inr (left_state f, again)"
  by (auto simp: entry_good_def left_state_def scan_entry_Inr
      split: option.splits json_file.splits pyval.splits)

lemma scan_rounds_good:
  "list_all (entry_good r) es \<Longrightarrow>
   \<exists>rs es'. scan_rounds r (\<lambda>_. None) es = (Inr (map (\<lambda>(n, f). (n, left_state f)) es, rs), es')"
proof (induction es)
  case (Cons p es)
  obtain name f where p: "p = (name, f)" by (cases p)
  with Cons.prems have g: "entry_good r (name, f)" "list_all (entry_good r) es" by simp_all
  from scan_entry_good [OF g(1)] obtain again where "scan_entry r name f = Inr (left_state f, again)" ..
  with Cons.IH [OF g(2)] p show ?case by auto
qed simp

lemma read_current_pointer:
  "canonical_uuid s \<Longrightarrow> read_current r (Json (PDict (current_pointer r s))) = Inr s"
  by (simp add: read_current_def current_pointer_def dget_def)

lemma recover_good:
  assumes "list_all (entry_good r) (wd_rounds w)" and "(name, f) \<in> set (wd_rounds w)"
    and "distinct (map fst (wd_rounds w))"
    and "wd_current w = Json (PDict (current_pointer r name))"
  shows "\<exists>w'. recover_round_states r (\<lambda>_. None) w = (Inr (Some (left_state f)), w')"
proof -
  from scan_rounds_good [OF assms(1)] obtain rs es' where
    s: "scan_rounds r (\<lambda>_. None) (wd_rounds w) = (Inr (map (\<lambda>(n, f). (n, left_state f)) (wd_rounds w), rs), es')"
    by blast
  have "map_of (map (\<lambda>(n, f). (n, left_state f)) (wd_rounds w)) name = Some (left_state f)"
    using assms(2,3) by (simp add: map_of_map)
  moreover have "entry_good r (name, f)" using assms(1,2) by (auto simp: list_all_iff)
  then have "canonical_uuid name"
    by (auto simp: entry_good_def split: option.splits json_file.splits pyval.splits)
  ultimately show ?thesis
    by (simp add: recover_round_states_def s assms(4) read_current_pointer Let_def)
qed

lemma left_state_terminal: "entry_good r (name, f) \<Longrightarrow> is_terminal (left_state f)"
  by (auto simp: entry_good_def left_state_def split: option.splits json_file.splits pyval.splits)

end
