(* ===== verification/Server_Runtime.thy ===== *)
theory Server_Runtime
  imports Round_State
begin

text \<open>
  \<open>ServerRuntime\<close> of \<^verbatim>\<open>wfb_ng/fl/runtime.py\<close>: one training round at a time, from publishing the model
  to having enough updates. The record holds the runtime's fields and the files of the current round's
  directory. Every method that takes the condition is a function; a method that may raise returns
  the exception with the state it leaves. What the transport does (a component of its own), whether a
  file can be written, and which failures are reported from other threads meanwhile, are arguments.
  \<^verbatim>\<open>publish_model\<close> is one function of such a plan; the polls of \<^verbatim>\<open>wait_for_updates\<close> are a list.
\<close>

section \<open>State\<close>

datatype round_status = Publishing | Waiting | Succeeded | Failed

fun status_name :: "round_status \<Rightarrow> string" where
  "status_name Publishing = ''publishing_model''"
| "status_name Waiting = ''waiting_for_updates''"
| "status_name Succeeded = ''succeeded''"
| "status_name Failed = ''failed''"

record server_rt =
  sr_participants :: "int list"
  sr_max :: nat
  sr_match :: bool
  sr_fatal :: "exn option"
  sr_round :: "string option"
  sr_downlink_done :: bool
  sr_failure :: "exn option"
  sr_state :: "round_status option"
  sr_consumed :: bool
  sr_publish_active :: bool
  sr_op :: bool
  sr_diag :: pydict
  sr_cancel_done :: bool
  sr_wait_active :: bool
  sr_file :: json_file
  sr_legacy :: json_file
  sr_model :: json_file
  sr_updates :: "int \<Rightarrow> json_file \<times> node"

text \<open>\<open>sr_file\<close> is \<^verbatim>\<open>round-state.json\<close> of the current round, \<open>sr_legacy\<close> a file \<^verbatim>\<open>state.json\<close> beside it.\<close>

definition invalid_configuration :: exn where
  "invalid_configuration = fl_error ''invalid_configuration'' ''participant set''"

definition server_rt_init :: "pyval list \<Rightarrow> pyval \<Rightarrow> server_rt res" where
  "server_rt_init participants max_size = (case positive_ints participants of
     None \<Rightarrow> Inl invalid_configuration
   | Some ps \<Rightarrow>
       if ps = [] \<or> \<not> distinct ps then Inl invalid_configuration
       else bind_res (validate_max_update_size max_size) (\<lambda>_.
         Inr \<lparr>sr_participants = sort ps, sr_max = nat (the (as_int max_size)), sr_match = False,
              sr_fatal = None, sr_round = None, sr_downlink_done = False, sr_failure = None,
              sr_state = None, sr_consumed = False, sr_publish_active = False, sr_op = False,
              sr_diag = [], sr_cancel_done = False, sr_wait_active = False, sr_file = NoFile,
              sr_legacy = NoFile, sr_model = NoFile, sr_updates = \<lambda>_. (NoFile, Absent)\<rparr>))"

text \<open>What recovery found becomes the current round.\<close>

definition str_of :: "pyval \<Rightarrow> string" where
  "str_of v = (case as_str v of None \<Rightarrow> [] | Some s \<Rightarrow> s)"

definition restore_terminal_state :: "pydict \<Rightarrow> json_file \<Rightarrow> server_rt \<Rightarrow> server_rt res" where
  "restore_terminal_state d legacy s =
     (let s' = s\<lparr>sr_round := Some (str_of (dget d ''round_id'')), sr_file := Json (PDict d),
                 sr_legacy := legacy\<rparr> in
      if state_of d = ''succeeded'' then
        (if success_ok d then Inr (s'\<lparr>sr_downlink_done := True, sr_state := Some Succeeded\<rparr>)
         else Inl corrupted)
      else if state_of d = ''failed'' then
        (if is_str (dget d ''error_code'') \<and> is_str (dget d ''error_message'') then
           Inr (s'\<lparr>sr_failure := Some (FLRuntimeError (str_of (dget d ''error_code''))
                     (str_of (dget d ''error_message'')) (Some (str_of (dget d ''round_id'')))
                     (as_int (dget d ''node_id''))),
                   sr_diag := (case as_dict (dget d ''downlink_diagnostics'') of None \<Rightarrow> [] | Some g \<Rightarrow> g),
                   sr_state := Some Failed\<rparr>)
         else Inl corrupted)
      else Inl corrupted)"

section \<open>Writing the state\<close>

definition rid :: "server_rt \<Rightarrow> string" where
  "rid s = (case sr_round s of None \<Rightarrow> [] | Some r \<Rightarrow> r)"

definition state_value :: "server_rt \<Rightarrow> round_status \<Rightarrow> pydict \<Rightarrow> pydict" where
  "state_value s st extra =
     [(''schema_version'', PInt 1), (''round_id'', PStr (rid s)), (''role'', PStr ''server''),
      (''state'', PStr (status_name st))] @ extra"

definition persistence_failed :: "server_rt \<Rightarrow> exn" where
  "persistence_failed s =
     FLRuntimeError ''state_persistence_failed'' ''cannot persist'' (sr_round s) None"

definition write_state ::
  "exn option \<Rightarrow> round_status \<Rightarrow> pydict \<Rightarrow> server_rt \<Rightarrow> unit res \<times> server_rt" where
  "write_state werr st extra s =
     (case write_json_atomic werr (PDict (state_value s st extra)) (sr_file s) of
        (Inl e, f) \<Rightarrow> (Inl (persistence_failed s), s\<lparr>sr_fatal := Some (persistence_failed s)\<rparr>)
      | (Inr _, f) \<Rightarrow> (Inr (), s\<lparr>sr_file := f, sr_state := Some st\<rparr>))"

definition failure_extra :: "string \<Rightarrow> string \<Rightarrow> pydict \<Rightarrow> pydict" where
  "failure_extra code msg diag =
     [(''error_code'', PStr code), (''error_message'', PStr msg)] @
     (if diag = [] then [] else [(''downlink_diagnostics'', PDict diag)])"

definition fail_round ::
  "exn option \<Rightarrow> string \<Rightarrow> string \<Rightarrow> server_rt \<Rightarrow> unit res \<times> server_rt" where
  "fail_round werr code msg s =
     (if sr_round s = None \<or> sr_failure s \<noteq> None \<or> sr_state s = Some Succeeded then (Inr (), s)
      else write_state werr Failed (failure_extra code msg (sr_diag s))
             (s\<lparr>sr_failure := Some (FLRuntimeError code msg (sr_round s) None)\<rparr>))"

definition failed_record :: "server_rt \<Rightarrow> pydict" where
  "failed_record s = (case sr_failure s of
     Some (FLRuntimeError code msg r n) \<Rightarrow>
       state_value s Failed
         ([(''error_code'', PStr code), (''error_message'', PStr msg),
           (''downlink_diagnostics'', PDict (sr_diag s))] @
          (case n of None \<Rightarrow> [] | Some i \<Rightarrow> [(''node_id'', PInt i)]))
   | _ \<Rightarrow> [])"

definition persist_diagnostics :: "exn option \<Rightarrow> server_rt \<Rightarrow> server_rt" where
  "persist_diagnostics werr s =
     (if sr_state s \<noteq> Some Failed \<or> sr_failure s = None then s
      else s\<lparr>sr_file := snd (write_json_atomic werr (PDict (failed_record s)) (sr_file s))\<rparr>)"

section \<open>The downlink\<close>

fun exn_type :: "exn \<Rightarrow> string" where
  "exn_type (FLRuntimeError c m r n) = ''FLRuntimeError''"
| "exn_type (ValueError m) = ''ValueError''"
| "exn_type (TypeError m) = ''TypeError''"
| "exn_type (KeyError m) = ''KeyError''"
| "exn_type (TimeoutError m) = ''TimeoutError''"
| "exn_type (OSError m) = ''OSError''"
| "exn_type (RuntimeError m) = ''RuntimeError''"
| "exn_type OverflowError = ''OverflowError''"
| "exn_type (OtherException m) = ''Exception''"

definition natural_result_of :: "exn option \<Rightarrow> pyval" where
  "natural_result_of r = (case r of
     None \<Rightarrow> PStr ''succeeded''
   | Some (FLRuntimeError code msg _ _) \<Rightarrow>
       PDict [(''error_code'', PStr code), (''error_message'', PStr msg)]
   | Some e \<Rightarrow> PDict [(''error_code'', PStr (exn_type e)), (''error_message'', PStr (exn_str e))])"

definition record_natural_result :: "exn option \<Rightarrow> exn option \<Rightarrow> server_rt \<Rightarrow> server_rt" where
  "record_natural_result werr r s =
     persist_diagnostics werr
       (s\<lparr>sr_diag := AList.update ''natural_result'' (natural_result_of r) (sr_diag s)\<rparr>)"

definition cancel_diag :: "string res \<Rightarrow> pydict" where
  "cancel_diag r = (case r of
     Inr s \<Rightarrow> [(''cancel_result'', PStr s)]
   | Inl e \<Rightarrow> [(''cancel_error'', PDict [(''exception_type'', PStr (exn_type e)),
                                       (''message'', PStr (exn_str e))])])"

text \<open>A second cancellation waits for the first and then finds it finished.\<close>

definition cancel_downlink :: "exn option \<Rightarrow> string res \<Rightarrow> server_rt \<Rightarrow> server_rt" where
  "cancel_downlink werr r s =
     (if sr_cancel_done s then s
      else persist_diagnostics werr
             (s\<lparr>sr_diag := dict_update (sr_diag s) (cancel_diag r), sr_cancel_done := True\<rparr>))"

text \<open>A failure reported by the transport: the node, the code, the message, and what writing the state
  and cancelling the downlink would do.\<close>

record failure_report =
  fr_round :: string
  fr_node :: int
  fr_code :: string
  fr_message :: string
  fr_werr :: "exn option"
  fr_werr2 :: "exn option"
  fr_cancel :: "string res"

definition report_update_failure :: "failure_report \<Rightarrow> server_rt \<Rightarrow> unit res \<times> server_rt" where
  "report_update_failure f s =
     (if sr_round s \<noteq> Some (fr_round f) \<or> fr_node f \<notin> set (sr_participants s) \<or>
         sr_state s \<in> {Some Succeeded, Some Failed} \<or> sr_failure s \<noteq> None
      then (Inr (), s)
      else
        (case write_state (fr_werr f) Failed
                [(''error_code'', PStr (fr_code f)), (''error_message'', PStr (fr_message f)),
                 (''node_id'', PInt (fr_node f))]
                (s\<lparr>sr_failure := Some (FLRuntimeError (fr_code f) (fr_message f)
                      (Some (fr_round f)) (Some (fr_node f)))\<rparr>) of
           (r, s') \<Rightarrow>
             (r, if sr_op s' \<and> sr_publish_active s'
                 then cancel_downlink (fr_werr2 f) (fr_cancel f) s' else s')))"

fun reports :: "failure_report list \<Rightarrow> server_rt \<Rightarrow> server_rt" where
  "reports [] s = s"
| "reports (f # fs) s = reports fs (snd (report_update_failure f s))"

section \<open>Updates\<close>

definition manifest_fields :: "string list" where
  "manifest_fields =
     [''schema_version'', ''artifact_type'', ''round_id'', ''node_id'', ''size_bytes'', ''sha256'']"

definition validate_update_manifest :: "nat \<Rightarrow> pyval \<Rightarrow> string \<Rightarrow> int \<Rightarrow> unit res" where
  "validate_update_manifest max_size v round_id node =
     bind_res (validate_exact_fields v manifest_fields) (\<lambda>d.
       if dget d ''schema_version'' \<noteq> PInt 1 \<or> dget d ''artifact_type'' \<noteq> PStr ''update''
       then Inl bad_manifest
       else bind_res (parse_round_id (dget d ''round_id'')) (\<lambda>r.
         if r \<noteq> round_id \<or> dget d ''node_id'' \<noteq> PInt node then Inl bad_manifest
         else (case as_int (dget d ''size_bytes'') of
             None \<Rightarrow> Inl bad_manifest
           | Some sz \<Rightarrow>
               if sz < 0 then Inl bad_manifest
               else if int max_size < sz then Inl (fl_error ''artifact_too_large'' ''update too large'')
               else validate_sha256 (dget d ''sha256''))))"

definition is_file :: "node \<Rightarrow> bool" where
  "is_file n = (case n of Regular b st \<Rightarrow> True | Unreadable \<Rightarrow> True | _ \<Rightarrow> False)"

definition has_update :: "server_rt \<Rightarrow> int \<Rightarrow> bool" where
  "has_update s n = (case sr_updates s n of (m, b) \<Rightarrow> m \<noteq> NoFile \<and> is_file b)"

definition update_mismatch :: "server_rt \<Rightarrow> int \<Rightarrow> exn" where
  "update_mismatch s n =
     FLRuntimeError ''update_model_mismatch'' ''update differs from the model'' (sr_round s) (Some n)"

definition check_model_match :: "server_rt \<Rightarrow> int \<Rightarrow> pydict \<Rightarrow> unit res" where
  "check_model_match s n d =
     (if \<not> sr_match s then Inr ()
      else bind_res (read_json (sr_model s)) (\<lambda>v. case as_dict v of
          None \<Rightarrow> Inl (TypeError ''manifest is not a dict'')
        | Some m \<Rightarrow>
            if \<not> has_key m ''size_bytes'' then Inl (KeyError ''size_bytes'')
            else if \<not> py_eq (dget d ''size_bytes'') (dget m ''size_bytes'')
              then Inl (update_mismatch s n)
            else if \<not> has_key m ''sha256'' then Inl (KeyError ''sha256'')
            else if \<not> py_eq (dget d ''sha256'') (dget m ''sha256'') then Inl (update_mismatch s n)
            else Inr ()))"

definition check_update :: "digest \<Rightarrow> server_rt \<Rightarrow> int \<Rightarrow> unit res" where
  "check_update dig s n = (case sr_updates s n of (mf, b) \<Rightarrow>
     bind_res (read_json mf) (\<lambda>v.
     bind_res (validate_update_manifest (sr_max s) v (rid s) n) (\<lambda>_.
     (let d = (case as_dict v of None \<Rightarrow> [] | Some d \<Rightarrow> d);
          sz = (case as_int (dget d ''size_bytes'') of None \<Rightarrow> 0 | Some i \<Rightarrow> i)
      in bind_res (validate_artifact dig b sz (str_of (dget d ''sha256'')) (Some (sr_max s))) (\<lambda>_.
         check_model_match s n d)))))"

fun check_updates :: "digest \<Rightarrow> server_rt \<Rightarrow> int list \<Rightarrow> unit res" where
  "check_updates dig s [] = Inr ()"
| "check_updates dig s (n # ns) = bind_res (check_update dig s n) (\<lambda>_. check_updates dig s ns)"

definition quota :: "nat option \<Rightarrow> server_rt \<Rightarrow> nat" where
  "quota m s = (case m of None \<Rightarrow> length (sr_participants s) | Some k \<Rightarrow> k)"

definition available_updates :: "server_rt \<Rightarrow> int list" where
  "available_updates s = filter (has_update s) (sr_participants s)"

definition committed_extra :: "int list \<Rightarrow> server_rt \<Rightarrow> pydict" where
  "committed_extra ns s =
     [(''participant_node_ids'', PList (map PInt (sr_participants s))),
      (''committed_update_node_ids'', PList (map PInt (sort ns)))]"

text \<open>The second half: check every update, then commit the round.\<close>

definition commit_round ::
  "digest \<Rightarrow> exn option \<Rightarrow> int list \<Rightarrow> server_rt \<Rightarrow> int list option res \<times> server_rt" where
  "commit_round dig werr ns s = (case check_updates dig s ns of
     Inl (FLRuntimeError code msg r n) \<Rightarrow>
       (case fail_round werr code msg s of
          (Inl e, s') \<Rightarrow> (Inl e, s')
        | (Inr _, s') \<Rightarrow> (Inl (FLRuntimeError code msg r n), s'))
   | Inl e \<Rightarrow> (Inl e, s)
   | Inr _ \<Rightarrow> (case sr_failure s of
       Some e \<Rightarrow> (Inl e, s)
     | None \<Rightarrow> (case write_state werr Succeeded (committed_extra ns s) s of
         (Inl e, s') \<Rightarrow> (Inl e, s')
       | (Inr _, s') \<Rightarrow> (Inr (Some ns), s'))))"

definition complete_round_if_ready ::
  "digest \<Rightarrow> exn option \<Rightarrow> nat option \<Rightarrow> server_rt \<Rightarrow> int list option res \<times> server_rt" where
  "complete_round_if_ready dig werr min_updates s =
     (if \<not> sr_downlink_done s \<or> length (available_updates s) < quota min_updates s then (Inr None, s)
      else commit_round dig werr (available_updates s) s)"

section \<open>Publishing a model\<close>

definition require_ready :: "bool \<Rightarrow> server_rt \<Rightarrow> unit res" where
  "require_ready ready s = (case sr_fatal s of
     Some e \<Rightarrow> Inl e
   | None \<Rightarrow> if ready then Inr () else Inl (fl_error ''transport_not_ready'' ''transport not ready''))"

record publish_plan =
  pp_ready :: bool
  pp_source :: node
  pp_round :: string
  pp_open_werr :: "exn option"
  pp_pointer_err :: "exn option"
  pp_view :: source_view
  pp_archive_err :: "exn option"
  pp_manifest_err :: "exn option"
  pp_install :: "exn option"
  pp_before :: "failure_report list"
  pp_start :: "exn option"
  pp_cancel :: "string res"
  pp_during :: "failure_report list"
  pp_abort :: "string option"
  pp_wait :: "exn option"
  pp_diag_werr :: "exn option"
  pp_fail_werr :: "exn option"
  pp_wait_werr :: "exn option"
  pp_arrived :: "int \<Rightarrow> json_file \<times> node"
  pp_done_werr :: "exn option"

text \<open>\<^verbatim>\<open>abort\<close>: the first reason is latched; a running downlink is cancelled.\<close>

definition abort_runtime :: "string \<Rightarrow> exn option \<Rightarrow> string res \<Rightarrow> server_rt \<Rightarrow> server_rt" where
  "abort_runtime reason werr cancel s =
     (let s = (if sr_fatal s = None then s\<lparr>sr_fatal := Some (fl_error ''aborted'' reason)\<rparr> else s)
      in if sr_op s \<and> sr_publish_active s then cancel_downlink werr cancel s else s)"

definition publish_open :: "publish_plan \<Rightarrow> server_rt \<Rightarrow> unit res \<times> server_rt" where
  "publish_open p s = write_state (pp_open_werr p) Publishing []
     (s\<lparr>sr_round := Some (pp_round p), sr_downlink_done := False, sr_failure := None, sr_diag := [],
        sr_cancel_done := False, sr_consumed := False, sr_file := NoFile, sr_legacy := NoFile,
        sr_model := NoFile, sr_updates := \<lambda>_. (NoFile, Absent)\<rparr>)"

definition model_manifest :: "server_rt \<Rightarrow> nat \<Rightarrow> string \<Rightarrow> pydict" where
  "model_manifest s sz d =
     [(''schema_version'', PInt 1), (''artifact_type'', PStr ''model''), (''round_id'', PStr (rid s)),
      (''size_bytes'', PInt (int sz)), (''sha256'', PStr d),
      (''participant_node_ids'', PList (map PInt (sr_participants s)))]"

text \<open>Archive, manifest, installation and start, up to the operation being recorded.\<close>

definition publish_stage :: "digest \<Rightarrow> file_stat \<Rightarrow> publish_plan \<Rightarrow> server_rt \<Rightarrow> unit res \<times> server_rt" where
  "publish_stage dig st p s = (case pp_pointer_err p of
     Some _ \<Rightarrow>
       (case fail_round (pp_fail_werr p) ''state_persistence_failed'' ''cannot persist the pointer'' s of
          (Inl e, s') \<Rightarrow> (Inl e, s')
        | (Inr _, s') \<Rightarrow> (Inl (case sr_failure s' of Some e \<Rightarrow> e | None \<Rightarrow> TypeError ''raise None''), s'))
   | None \<Rightarrow> (case pp_archive_err p of
       Some e \<Rightarrow> (Inl e, s)
     | None \<Rightarrow> (case fst (archive_open_file dig st (pp_view p) None) of
         Inl e \<Rightarrow> (Inl e, s)
       | Inr (sz, d) \<Rightarrow> (case write_json_atomic (pp_manifest_err p) (PDict (model_manifest s sz d)) (sr_model s) of
           (Inl e, f) \<Rightarrow> (Inl e, s)
         | (Inr _, f) \<Rightarrow>
             (let s = s\<lparr>sr_model := f\<rparr> in
              case pp_install p of
                Some e \<Rightarrow> (Inl e, s)
              | None \<Rightarrow>
                  (let s = reports (pp_before p) s in
                   case pp_start p of
                     Some e \<Rightarrow> (Inl e, s)
                   | None \<Rightarrow> (Inr (), s\<lparr>sr_op := True\<rparr>)))))))"

text \<open>The wait for the downlink; the operation is forgotten at its end.\<close>

definition publish_wait :: "publish_plan \<Rightarrow> server_rt \<Rightarrow> unit res \<times> server_rt" where
  "publish_wait p s =
     (let s = (if sr_failure s \<noteq> None then cancel_downlink (pp_diag_werr p) (pp_cancel p) s else s);
          s = reports (pp_during p) s;
          s = (case pp_abort p of None \<Rightarrow> s
               | Some reason \<Rightarrow> abort_runtime reason (pp_diag_werr p) (pp_cancel p) s)
      in case pp_wait p of
           Some e \<Rightarrow> (Inl e, (record_natural_result (pp_diag_werr p) (Some e) s)\<lparr>sr_op := False\<rparr>)
         | None \<Rightarrow>
             (let s = (if dget (sr_diag s) ''cancel_result'' = PStr ''cancelled'' then s
                       else record_natural_result (pp_diag_werr p) None s)
              in (Inr (), s\<lparr>sr_op := False\<rparr>)))"

text \<open>The \<^verbatim>\<open>except\<close> clauses around both.\<close>

definition first_of :: "exn option \<Rightarrow> exn option \<Rightarrow> exn \<Rightarrow> exn" where
  "first_of a b e = (case a of Some x \<Rightarrow> x | None \<Rightarrow> (case b of Some x \<Rightarrow> x | None \<Rightarrow> e))"

definition publish_except :: "publish_plan \<Rightarrow> exn \<Rightarrow> server_rt \<Rightarrow> unit res \<times> server_rt" where
  "publish_except p e s =
     (let (code, msg) = (case e of FLRuntimeError c m _ _ \<Rightarrow> (c, m)
                         | _ \<Rightarrow> (''transport_failed'', ''downlink failed''))
      in case fail_round (pp_fail_werr p) code msg s of
           (Inl e', s') \<Rightarrow> (Inl e', s')
         | (Inr _, s') \<Rightarrow> (Inl (first_of (sr_fatal s') (sr_failure s') e), s'\<lparr>sr_consumed := True\<rparr>))"

definition publish_finish :: "digest \<Rightarrow> publish_plan \<Rightarrow> server_rt \<Rightarrow> unit res \<times> server_rt" where
  "publish_finish dig p s =
     (if sr_fatal s \<noteq> None \<or> sr_failure s \<noteq> None
      then (Inl (first_of (sr_fatal s) (sr_failure s) corrupted), s\<lparr>sr_consumed := True\<rparr>)
      else (case write_state (pp_wait_werr p) Waiting [] (s\<lparr>sr_downlink_done := True\<rparr>) of
          (Inl e, s') \<Rightarrow> (Inl e, s')
        | (Inr _, s') \<Rightarrow>
            (case complete_round_if_ready dig (pp_done_werr p) None (s'\<lparr>sr_updates := pp_arrived p\<rparr>) of
               (Inl e, s'') \<Rightarrow> (Inl e, s'')
             | (Inr _, s'') \<Rightarrow> (Inr (), s''))))"

definition publish_body :: "digest \<Rightarrow> publish_plan \<Rightarrow> server_rt \<Rightarrow> unit res \<times> server_rt" where
  "publish_body dig p s = (case preflight_artifact (pp_source p) None of
     Inl e \<Rightarrow> (Inl e, s)
   | Inr (b, st) \<Rightarrow> (case publish_open p s of
       (Inl e, s) \<Rightarrow> (Inl e, s)
     | (Inr _, s) \<Rightarrow> (case publish_stage dig st p s of
         (Inl e, s) \<Rightarrow> publish_except p e s
       | (Inr _, s) \<Rightarrow> (case publish_wait p s of
           (Inl e, s) \<Rightarrow> publish_except p e s
         | (Inr _, s) \<Rightarrow> publish_finish dig p s))))"

definition publish_model :: "digest \<Rightarrow> publish_plan \<Rightarrow> server_rt \<Rightarrow> unit res \<times> server_rt" where
  "publish_model dig p s = (case require_ready (pp_ready p) s of
     Inl e \<Rightarrow> (Inl e, s)
   | Inr _ \<Rightarrow>
       if sr_publish_active s then (Inl (fl_error ''operation_in_progress'' ''publishing''), s)
       else if sr_round s \<noteq> None \<and> sr_state s \<in> {Some Succeeded, Some Failed} \<and> \<not> sr_consumed s
       then (Inl (fl_error ''round_result_pending'' ''result not consumed''), s)
       else if sr_round s \<noteq> None \<and> sr_state s \<notin> {Some Succeeded, Some Failed}
       then (Inl (fl_error ''round_in_progress'' ''active round''), s)
       else (case publish_body dig p (s\<lparr>sr_publish_active := True\<rparr>) of
           (r, s') \<Rightarrow> (r, s'\<lparr>sr_publish_active := False\<rparr>)))"

section \<open>Waiting for updates\<close>

fun rebuild_each :: "digest \<Rightarrow> server_rt \<Rightarrow> pyval list \<Rightarrow> int list res" where
  "rebuild_each dig s [] = Inr []"
| "rebuild_each dig s (v # vs) = (case as_int v of
     None \<Rightarrow> Inl (FLRuntimeError ''round_artifacts_removed'' ''removed'' (sr_round s) None)
   | Some n \<Rightarrow>
       if \<not> has_update s n
       then Inl (FLRuntimeError ''round_artifacts_removed'' ''removed'' (sr_round s) None)
       else (case check_update dig (s\<lparr>sr_match := False\<rparr>) n of
           Inl e \<Rightarrow> Inl (FLRuntimeError ''round_artifacts_corrupted'' ''corrupted'' (sr_round s) (Some n))
         | Inr _ \<Rightarrow> bind_res (rebuild_each dig s vs) (\<lambda>ns. Inr (n # ns))))"

text \<open>It looks for \<^verbatim>\<open>state.json\<close>, which is not the name the state is written under.\<close>

definition rebuild_terminal_updates :: "digest \<Rightarrow> server_rt \<Rightarrow> int list res" where
  "rebuild_terminal_updates dig s =
     (if sr_legacy s = NoFile
      then Inl (FLRuntimeError ''round_artifacts_removed'' ''state file missing'' (sr_round s) None)
      else bind_res (read_json (sr_legacy s)) (\<lambda>v. case as_dict v of
          None \<Rightarrow> Inl (OtherException ''AttributeError'')
        | Some d \<Rightarrow> (case as_list (dget d ''committed_update_node_ids'') of
            None \<Rightarrow> Inl (FLRuntimeError ''round_state_corrupted'' ''committed set'' (sr_round s) None)
          | Some vs \<Rightarrow>
              if vs = [] then Inl (FLRuntimeError ''round_state_corrupted'' ''committed set'' (sr_round s) None)
              else rebuild_each dig s vs)))"

text \<open>One turn of the waiting loop: what other threads reported and which updates arrived before it,
  an abort, and whether the deadline has passed.\<close>

record poll =
  po_reports :: "failure_report list"
  po_abort :: "string option"
  po_cancel :: "string res"
  po_arrived :: "int \<Rightarrow> json_file \<times> node"
  po_late :: bool
  po_werr :: "exn option"
  po_fail_werr :: "exn option"

definition poll_start :: "poll \<Rightarrow> server_rt \<Rightarrow> server_rt" where
  "poll_start po s =
     (let s = reports (po_reports po) (s\<lparr>sr_updates := po_arrived po\<rparr>) in
      case po_abort po of None \<Rightarrow> s | Some reason \<Rightarrow> abort_runtime reason None (po_cancel po) s)"

text \<open>The answer is \<open>None\<close> while the loop goes on.\<close>

definition poll_turn ::
  "digest \<Rightarrow> nat option \<Rightarrow> poll \<Rightarrow> server_rt \<Rightarrow> int list res option \<times> server_rt" where
  "poll_turn dig min_updates po s0 =
     (let s = poll_start po s0;
          need = (case min_updates of None \<Rightarrow> length (sr_participants s) | Some m \<Rightarrow> m)
      in if sr_fatal s \<noteq> None \<or> sr_failure s \<noteq> None
         then (Some (Inl (first_of (sr_fatal s) (sr_failure s) corrupted)), s)
         else (case complete_round_if_ready dig (po_werr po) (Some need) s of
             (Inl e, s) \<Rightarrow> (Some (Inl e), s)
           | (Inr (Some ns), s) \<Rightarrow> (Some (Inr ns), s)
           | (Inr None, s) \<Rightarrow>
               if po_late po then
                 (case fail_round (po_fail_werr po) ''round_timeout'' ''quota not reached'' s of
                    (Inl e, s') \<Rightarrow> (Some (Inl e), s')
                  | (Inr _, s') \<Rightarrow> (Some (Inl (first_of (sr_failure s') None corrupted)), s'))
               else (None, s)))"

fun wait_loop ::
  "digest \<Rightarrow> nat option \<Rightarrow> poll list \<Rightarrow> server_rt \<Rightarrow> int list res option \<times> server_rt" where
  "wait_loop dig m [] s = (None, s)"
| "wait_loop dig m (po # ps) s = (case poll_turn dig m po s of
     (Some r, s') \<Rightarrow> (Some r, s')
   | (None, s') \<Rightarrow> wait_loop dig m ps s')"

definition fl_raised :: "'a res \<Rightarrow> bool" where
  "fl_raised r = (case r of Inl (FLRuntimeError _ _ _ _) \<Rightarrow> True | _ \<Rightarrow> False)"

text \<open>\<open>None\<close>: still waiting when the polls of the run end.\<close>

definition wait_for_updates ::
  "digest \<Rightarrow> bool \<Rightarrow> nat option \<Rightarrow> poll list \<Rightarrow> server_rt \<Rightarrow> int list res option \<times> server_rt" where
  "wait_for_updates dig ready m ps s = (case require_ready ready s of
     Inl e \<Rightarrow> (Some (Inl e), s)
   | Inr _ \<Rightarrow>
       if sr_wait_active s then (Some (Inl (fl_error ''operation_in_progress'' ''waiting'')), s)
       else if sr_round s = None then (Some (Inl (fl_error ''no_active_round'' ''no round'')), s)
       else
         (case (if sr_state s = Some Succeeded then (Some (rebuild_terminal_updates dig s), s)
                else wait_loop dig m ps (s\<lparr>sr_wait_active := True\<rparr>)) of
            (None, s') \<Rightarrow> (None, s')
          | (Some r, s') \<Rightarrow>
              (Some r, s'\<lparr>sr_wait_active := False,
                         sr_consumed := (sr_consumed s' \<or> is_ok r \<or> fl_raised r)\<rparr>)))"

section \<open>The invariant\<close>

definition exn_ok :: "exn \<Rightarrow> bool" where
  "exn_ok e \<longleftrightarrow> (case e of FLRuntimeError c _ _ n \<Rightarrow> c \<noteq> [] \<and> (\<forall>i. n = Some i \<longrightarrow> 0 < i) | _ \<Rightarrow> True)"

definition fl_failure :: "exn \<Rightarrow> bool" where
  "fl_failure e \<longleftrightarrow> (case e of FLRuntimeError c _ _ n \<Rightarrow> c \<noteq> [] \<and> (\<forall>i. n = Some i \<longrightarrow> 0 < i) | _ \<Rightarrow> False)"

definition diag_good :: "server_rt \<Rightarrow> bool" where
  "diag_good s \<longleftrightarrow>
     (sr_diag s = [] \<or> diagnostics_ok (PDict (sr_diag s)) ServerRole) \<and>
     (\<not> sr_cancel_done s \<longrightarrow> \<not> has_key (sr_diag s) ''cancel_result'' \<and> \<not> has_key (sr_diag s) ''cancel_error'')"

definition file_good :: "server_rt \<Rightarrow> bool" where
  "file_good s \<longleftrightarrow> sr_file s = NoFile \<or>
     (\<exists>d. sr_file s = Json (PDict d) \<and> round_state_ok (PDict d) (rid s) ServerRole \<and> tidy_state d)"

definition file_agrees :: "server_rt \<Rightarrow> bool" where
  "file_agrees s \<longleftrightarrow>
     (sr_state s = None \<longrightarrow> sr_file s = NoFile) \<and>
     (\<forall>st. sr_state s = Some st \<longrightarrow>
        (\<exists>d. sr_file s = Json (PDict d) \<and> dget d ''state'' = PStr (status_name st)))"

definition rt_inv :: "server_rt \<Rightarrow> bool" where
  "rt_inv s \<longleftrightarrow>
     sr_participants s \<noteq> [] \<and> sorted (sr_participants s) \<and> distinct (sr_participants s) \<and>
     (\<forall>n \<in> set (sr_participants s). 0 < n) \<and> sr_legacy s = NoFile \<and>
     (\<forall>e. sr_failure s = Some e \<longrightarrow> fl_failure e) \<and> diag_good s \<and> file_good s \<and>
     (sr_fatal s = None \<longrightarrow> file_agrees s \<and> (sr_state s = Some Failed \<longleftrightarrow> sr_failure s \<noteq> None))"

lemma rt_inv_upd [simp]:
  "rt_inv (s\<lparr>sr_consumed := b\<rparr>) = rt_inv s" "rt_inv (s\<lparr>sr_publish_active := b\<rparr>) = rt_inv s"
  "rt_inv (s\<lparr>sr_op := b\<rparr>) = rt_inv s" "rt_inv (s\<lparr>sr_wait_active := b\<rparr>) = rt_inv s"
  "rt_inv (s\<lparr>sr_downlink_done := b\<rparr>) = rt_inv s" "rt_inv (s\<lparr>sr_updates := u\<rparr>) = rt_inv s"
  "rt_inv (s\<lparr>sr_model := f\<rparr>) = rt_inv s"
  by (simp_all add: rt_inv_def diag_good_def file_good_def file_agrees_def rid_def)

lemma status_name_inj [simp]: "status_name a = status_name b \<longleftrightarrow> a = b"
  by (cases a; cases b) simp_all

lemma status_names: "status_name st \<in> set (active_states ServerRole @ terminal_states)"
  by (cases st) (simp_all add: active_states_def terminal_states_def)

text \<open>A state that may be written: its extra fields pass the check that recovery will make.\<close>

definition extra_ok :: "round_status \<Rightarrow> pydict \<Rightarrow> bool" where
  "extra_ok st extra \<longleftrightarrow>
     (st = Succeeded \<longrightarrow> success_ok extra) \<and>
     (has_key extra ''downlink_diagnostics'' \<longrightarrow> st = Failed) \<and>
     (st = Failed \<longrightarrow> failure_ok extra ServerRole) \<and>
     (st \<noteq> Failed \<longrightarrow> dget extra ''node_id'' = PNone)"

lemma state_value_dget:
  "k \<notin> {''schema_version'', ''round_id'', ''role'', ''state''} \<Longrightarrow> dget (state_value s st extra) k = dget extra k"
  "k \<notin> {''schema_version'', ''round_id'', ''role'', ''state''} \<Longrightarrow>
   has_key (state_value s st extra) k = has_key extra k"
  by (auto simp: state_value_def dget_def has_key_def)

lemma state_value_ok:
  "extra_ok st extra \<Longrightarrow> round_state_ok (PDict (state_value s st extra)) (rid s) ServerRole"
proof -
  assume "extra_ok st extra"
  moreover have "state_of (state_value s st' extra) = status_name st'" for st'
    by (simp add: state_of_def state_value_def dget_def)
  moreover have "dget (state_value s st extra) ''schema_version'' = PInt 1"
    "dget (state_value s st extra) ''round_id'' = PStr (rid s)"
    "dget (state_value s st extra) ''role'' = PStr ''server''"
    "dget (state_value s st extra) ''state'' = PStr (status_name st)"
    by (simp_all add: state_value_def dget_def)
  moreover have "status_name st = ''succeeded'' \<longleftrightarrow> st = Succeeded" "status_name st = ''failed'' \<longleftrightarrow> st = Failed"
    by (cases st; simp)+
  moreover note status_names [of st]
  ultimately show ?thesis
    by (simp add: round_state_ok_def role_name_def is_str_def extra_ok_def success_ok_def failure_ok_def
        state_value_dget)
qed

lemma state_value_tidy: "extra_ok st extra \<Longrightarrow> tidy_state (state_value s st extra)"
proof -
  have "state_of (state_value s st extra) = status_name st"
    by (simp add: state_of_def state_value_def dget_def)
  then show "extra_ok st extra \<Longrightarrow> tidy_state (state_value s st extra)"
    by (cases st) (simp_all add: tidy_state_def is_terminal_def terminal_states_def extra_ok_def state_value_dget)
qed

lemma write_state_inv:
  assumes w: "write_state werr st extra s = (r, s')" and ok: "extra_ok st extra"
    and base: "sr_participants s \<noteq> [] \<and> sorted (sr_participants s) \<and> distinct (sr_participants s) \<and>
      (\<forall>n \<in> set (sr_participants s). 0 < n) \<and> sr_legacy s = NoFile \<and>
      (\<forall>e. sr_failure s = Some e \<longrightarrow> fl_failure e) \<and> diag_good s \<and> file_good s"
    and fl: "sr_fatal s = None \<Longrightarrow> st = Failed \<longleftrightarrow> sr_failure s \<noteq> None"
  shows "rt_inv s'"
proof (cases werr)
  case None
  with w have s': "s' = s\<lparr>sr_file := Json (PDict (state_value s st extra)), sr_state := Some st\<rparr>"
    by (simp add: write_state_def write_json_atomic_def)
  have "rid s' = rid s" by (simp add: s' rid_def)
  with state_value_ok [OF ok, of s] state_value_tidy [OF ok, of s] have "file_good s'" by (simp add: s' file_good_def)
  moreover have "file_agrees s'" by (simp add: s' file_agrees_def state_value_def dget_def)
  ultimately show ?thesis using base fl
    by (simp add: rt_inv_def s' diag_good_def)
next
  case (Some e)
  with w have "s' = s\<lparr>sr_fatal := Some (persistence_failed s)\<rparr>"
    by (simp add: write_state_def write_json_atomic_def)
  with base show ?thesis by (simp add: rt_inv_def diag_good_def file_good_def rid_def)
qed

lemma failure_extra_ok:
  assumes "code \<noteq> []" and "diag_good s"
  shows "extra_ok Failed (failure_extra code msg (sr_diag s))"
  using assms
  by (auto simp: extra_ok_def failure_ok_def failure_extra_def dget_def has_key_def nonempty_str_def
      is_str_def diag_good_def)

lemma fail_round_inv:
  assumes f: "fail_round werr code msg s = (r, s')" and inv: "rt_inv s" and code: "code \<noteq> []"
  shows "rt_inv s'"
proof (cases "sr_round s = None \<or> sr_failure s \<noteq> None \<or> sr_state s = Some Succeeded")
  case True
  with f inv show ?thesis by (simp add: fail_round_def)
next
  case False
  let ?s = "s\<lparr>sr_failure := Some (FLRuntimeError code msg (sr_round s) None)\<rparr>"
  from False f have w: "write_state werr Failed (failure_extra code msg (sr_diag s)) ?s = (r, s')"
    by (auto simp: fail_round_def)
  show ?thesis
    by (rule write_state_inv [OF w])
      (use inv code failure_extra_ok [OF code, of s msg] in
        \<open>auto simp: rt_inv_def fl_failure_def diag_good_def file_good_def rid_def\<close>)
qed

lemma failed_record_ok:
  assumes inv: "rt_inv s" and fail: "sr_failure s = Some e" and diag: "sr_diag s \<noteq> []"
  shows "round_state_ok (PDict (failed_record s)) (rid s) ServerRole \<and>
    tidy_state (failed_record s) \<and> dget (failed_record s) ''state'' = PStr ''failed''"
proof -
  from inv fail obtain c m r n where e: "e = FLRuntimeError c m r n" "c \<noteq> []" "\<forall>i. n = Some i \<longrightarrow> 0 < i"
    by (auto simp: rt_inv_def fl_failure_def split: exn.splits)
  let ?x = "[(''error_code'', PStr c), (''error_message'', PStr m), (''downlink_diagnostics'', PDict (sr_diag s))] @
    (case n of None \<Rightarrow> [] | Some i \<Rightarrow> [(''node_id'', PInt i)])"
  have fr: "failed_record s = state_value s Failed ?x" by (simp add: failed_record_def fail e)
  from inv diag have "diagnostics_ok (PDict (sr_diag s)) ServerRole"
    by (simp add: rt_inv_def diag_good_def)
  with e have "extra_ok Failed ?x"
    by (cases n) (simp_all add: extra_ok_def failure_ok_def dget_def has_key_def nonempty_str_def is_str_def)
  from state_value_ok [OF this, of s] state_value_tidy [OF this, of s] show ?thesis
    by (simp add: fr) (simp add: state_value_def dget_def)
qed

lemma persist_inv:
  assumes inv: "rt_inv s" and diag: "sr_diag s \<noteq> []"
  shows "rt_inv (persist_diagnostics werr s)"
proof (cases "sr_state s \<noteq> Some Failed \<or> sr_failure s = None \<or> werr \<noteq> None")
  case True
  with inv show ?thesis
    by (auto simp: persist_diagnostics_def write_json_atomic_def)
next
  case False
  then obtain e where e: "sr_state s = Some Failed" "sr_failure s = Some e" "werr = None" by auto
  with failed_record_ok [OF inv e(2) diag] inv show ?thesis
    by (simp add: persist_diagnostics_def write_json_atomic_def rt_inv_def diag_good_def file_good_def
        file_agrees_def rid_def)
qed

section \<open>Every operation keeps the invariant\<close>

definition cancel_ok :: "string res \<Rightarrow> bool" where
  "cancel_ok r \<longleftrightarrow> (case r of Inr s \<Rightarrow> s \<in> {''cancelled'', ''already_completed''} | Inl e \<Rightarrow> True)"

definition report_ok :: "failure_report \<Rightarrow> bool" where
  "report_ok f \<longleftrightarrow> fr_code f \<noteq> [] \<and> cancel_ok (fr_cancel f)"

lemma exn_type_nonempty [simp]: "exn_type e \<noteq> []"
  by (cases e) simp_all

lemma natural_result_ok:
  "(case r of None \<Rightarrow> True | Some e \<Rightarrow> exn_ok e) \<Longrightarrow>
   natural_result_of r = PStr ''succeeded'' \<or>
   error_object ''error_code'' ''error_message'' (natural_result_of r)"
  by (auto simp: natural_result_of_def exn_ok_def error_object_def nonempty_str_def is_str_def dget_def
      split: option.splits exn.splits)

lemma diag_update_natural:
  assumes "diag_good s" and "case r of None \<Rightarrow> True | Some e \<Rightarrow> exn_ok e"
  shows "diag_good (s\<lparr>sr_diag := AList.update ''natural_result'' (natural_result_of r) (sr_diag s)\<rparr>)"
  using assms(1) natural_result_ok [OF assms(2)]
  by (auto simp: diag_good_def diagnostics_ok_def fst_set_update dget_def has_key_def)

lemma diag_update_cancel:
  assumes "diag_good s" and "\<not> sr_cancel_done s" and "cancel_ok r"
  shows "diag_good (s\<lparr>sr_diag := dict_update (sr_diag s) (cancel_diag r), sr_cancel_done := True\<rparr>)"
  using assms
  by (cases r) (auto simp: diag_good_def diagnostics_ok_def fst_set_update dget_def has_key_def
      cancel_diag_def cancel_ok_def error_object_def nonempty_str_def is_str_def)

lemma rt_inv_diag:
  "rt_inv s \<Longrightarrow> diag_good (s\<lparr>sr_diag := d, sr_cancel_done := b\<rparr>) \<Longrightarrow>
   rt_inv (s\<lparr>sr_diag := d, sr_cancel_done := b\<rparr>)"
  by (simp add: rt_inv_def diag_good_def file_good_def file_agrees_def rid_def)

lemma update_nonempty: "AList.update k v d \<noteq> []"
  by (cases d) auto

lemma record_natural_inv:
  assumes "rt_inv s" and "case r of None \<Rightarrow> True | Some e \<Rightarrow> exn_ok e"
  shows "rt_inv (record_natural_result werr r s)"
proof -
  let ?d = "AList.update ''natural_result'' (natural_result_of r) (sr_diag s)"
  have "rt_inv (s\<lparr>sr_diag := ?d, sr_cancel_done := sr_cancel_done s\<rparr>)"
    by (rule rt_inv_diag [OF assms(1)])
      (use diag_update_natural [of s r] assms in \<open>simp add: rt_inv_def diag_good_def\<close>)
  then show ?thesis unfolding record_natural_result_def
    by (intro persist_inv) (simp_all add: update_nonempty)
qed

lemma cancel_downlink_inv:
  assumes "rt_inv s" and "cancel_ok r"
  shows "rt_inv (cancel_downlink werr r s)"
proof (cases "sr_cancel_done s")
  case False
  have ne: "dict_update (sr_diag s) (cancel_diag r) \<noteq> []"
    by (cases r) (simp_all add: cancel_diag_def update_nonempty)
  have "rt_inv (s\<lparr>sr_diag := dict_update (sr_diag s) (cancel_diag r), sr_cancel_done := True\<rparr>)"
    by (rule rt_inv_diag [OF assms(1)])
      (use diag_update_cancel [OF _ False assms(2)] assms(1) in \<open>simp add: rt_inv_def\<close>)
  with False ne show ?thesis by (simp add: cancel_downlink_def persist_inv)
qed (use assms in \<open>simp add: cancel_downlink_def\<close>)

lemma report_inv:
  assumes r: "report_update_failure f s = (r, s')" and inv: "rt_inv s" and ok: "report_ok f"
  shows "rt_inv s'"
proof (cases "sr_round s \<noteq> Some (fr_round f) \<or> fr_node f \<notin> set (sr_participants s) \<or>
    sr_state s \<in> {Some Succeeded, Some Failed} \<or> sr_failure s \<noteq> None")
  case True
  then have "report_update_failure f s = (Inr (), s)" unfolding report_update_failure_def by (rule if_P)
  with r inv show ?thesis by simp
next
  case False
  let ?s = "s\<lparr>sr_failure := Some (FLRuntimeError (fr_code f) (fr_message f) (Some (fr_round f)) (Some (fr_node f)))\<rparr>"
  let ?x = "[(''error_code'', PStr (fr_code f)), (''error_message'', PStr (fr_message f)),
    (''node_id'', PInt (fr_node f))]"
  obtain r1 s1 where w: "write_state (fr_werr f) Failed ?x ?s = (r1, s1)" by fastforce
  from False inv have pos: "0 < fr_node f" by (auto simp: rt_inv_def)
  with ok have x: "extra_ok Failed ?x"
    by (simp add: extra_ok_def failure_ok_def dget_def has_key_def nonempty_str_def is_str_def report_ok_def)
  have "rt_inv s1"
    by (rule write_state_inv [OF w x])
      (use inv ok pos in \<open>auto simp: rt_inv_def fl_failure_def report_ok_def diag_good_def file_good_def rid_def\<close>)
  moreover from False r w
  have "s' = (if sr_op s1 \<and> sr_publish_active s1 then cancel_downlink (fr_werr2 f) (fr_cancel f) s1 else s1)"
    by (simp add: report_update_failure_def)
  ultimately show ?thesis using ok by (simp add: cancel_downlink_inv report_ok_def)
qed

lemma reports_inv: "rt_inv s \<Longrightarrow> list_all report_ok fs \<Longrightarrow> rt_inv (reports fs s)"
proof (induction fs arbitrary: s)
  case (Cons f fs)
  then show ?case using report_inv [of f s] by (cases "report_update_failure f s") simp
qed simp

lemma abort_inv: "rt_inv s \<Longrightarrow> cancel_ok c \<Longrightarrow> rt_inv (abort_runtime reason werr c s)"
proof -
  assume inv: "rt_inv s" and c: "cancel_ok c"
  have "rt_inv (s\<lparr>sr_fatal := Some e\<rparr>)" for e
    using inv by (simp add: rt_inv_def diag_good_def file_good_def rid_def)
  with inv c show ?thesis by (simp add: abort_runtime_def Let_def cancel_downlink_inv)
qed

lemma positive_ints_map: "positive_ints (map PInt is) = (if \<forall>i \<in> set is. 0 < i then Some is else None)"
  by (induction "is") (auto split: option.splits)

lemma node_id_list_ints:
  "sorted is \<Longrightarrow> distinct is \<Longrightarrow> \<forall>i \<in> set is. 0 < i \<Longrightarrow> node_id_list (PList (map PInt is)) = Some is"
  by (simp add: node_id_list_def positive_ints_map sorted_list_of_set_sort_remdups distinct_remdups_id
      sorted_sort_id)

lemma success_extra_ok:
  assumes "rt_inv s" and "set ns \<subseteq> set (sr_participants s)" and "ns \<noteq> []" and "distinct ns"
  shows "extra_ok Succeeded (committed_extra ns s)"
proof -
  have "node_id_list (PList (map PInt (sr_participants s))) = Some (sr_participants s)"
    by (rule node_id_list_ints) (use assms(1) in \<open>auto simp: rt_inv_def\<close>)
  moreover have "node_id_list (PList (map PInt (sort ns))) = Some (sort ns)"
    by (rule node_id_list_ints) (use assms in \<open>auto simp: rt_inv_def\<close>)
  moreover have "sort ns \<noteq> []" using assms(3) by (metis set_empty set_sort)
  ultimately show ?thesis using assms(2)
    by (simp add: extra_ok_def success_ok_def dget_def has_key_def committed_extra_def)
qed

text \<open>Committing: an error that is not the runtime's, one that fails the round, or success.\<close>

lemma commit_round_cases:
  assumes "commit_round dig werr ns s = (r, s')"
  obtains (refused) e where "r = Inl e" "s' = s"
  | (failed) code msg x n r' where "check_updates dig s ns = Inl (FLRuntimeError code msg x n)"
      "fail_round werr code msg s = (r', s')" "\<exists>e. r = Inl e"
  | (committed) r' where "check_updates dig s ns = Inr ()" "sr_failure s = None"
      "write_state werr Succeeded (committed_extra ns s) s = (r', s')"
      "r = (case r' of Inl e \<Rightarrow> Inl e | Inr _ \<Rightarrow> Inr (Some ns))"
proof (cases "check_updates dig s ns")
  case (Inl e)
  show ?thesis
  proof (cases "\<exists>code msg x n. e = FLRuntimeError code msg x n")
    case True
    then obtain code msg x n where e: "e = FLRuntimeError code msg x n" by blast
    obtain r' s1 where f: "fail_round werr code msg s = (r', s1)" by fastforce
    with Inl e assms show ?thesis
      by (cases r') (auto simp: commit_round_def intro: failed)
  next
    case False
    with Inl assms show ?thesis
      by (cases e) (auto simp: commit_round_def intro: refused)
  qed
next
  case (Inr u)
  show ?thesis
  proof (cases "sr_failure s")
    case None
    obtain r' s1 where w: "write_state werr Succeeded (committed_extra ns s) s = (r', s1)" by fastforce
    with Inr None assms show ?thesis
      by (cases r') (auto simp: commit_round_def intro: committed)
  next
    case (Some e)
    with Inr assms show ?thesis by (auto simp: commit_round_def intro: refused)
  qed
qed

lemma bind_res_Inl: "bind_res r f = Inl e \<Longrightarrow> r = Inl e \<or> (\<exists>x. f x = Inl e)"
  by (cases r) auto

text \<open>The errors of the checks have codes.\<close>

lemma coded [simp]:
  "exn_ok bad_manifest" "exn_ok integrity_failed" "exn_ok (KeyError k)" "exn_ok (TypeError t)"
  by (simp_all add: exn_ok_def bad_manifest_def integrity_failed_def)

lemma checks_coded:
  "read_json f = Inl e \<Longrightarrow> exn_ok e"
  "validate_exact_fields v ks = Inl e \<Longrightarrow> exn_ok e"
  "parse_round_id v = Inl e \<Longrightarrow> exn_ok e"
  "validate_sha256 v = Inl e \<Longrightarrow> exn_ok e"
  "validate_artifact dig n sz d mx = Inl e \<Longrightarrow> exn_ok e"
  by (auto simp: read_json_def validate_exact_fields_def parse_round_id_def validate_sha256_def
      validate_artifact_def open_artifact_def exn_ok_def
      bad_manifest_def integrity_failed_def
      split: json_file.splits option.splits if_splits sum.splits exn.splits node.splits)

lemma check_model_coded: "check_model_match s n d = Inl e \<Longrightarrow> 0 < n \<Longrightarrow> exn_ok e"
  by (auto simp: check_model_match_def update_mismatch_def bind_res_eq_Inl exn_ok_def
      split: if_splits option.splits dest!: checks_coded(1))

lemma manifest_coded: "validate_update_manifest mx v r n = Inl e \<Longrightarrow> exn_ok e"
  by (auto simp: validate_update_manifest_def bind_res_eq_Inl split: if_splits option.splits
      dest: checks_coded(2-4)) (simp add: exn_ok_def)

lemma check_update_coded: "check_update dig s n = Inl e \<Longrightarrow> 0 < n \<Longrightarrow> exn_ok e"
  by (auto simp: check_update_def Let_def bind_res_eq_Inl split: prod.splits
      dest: checks_coded(1,5) manifest_coded check_model_coded)

lemma check_updates_coded:
  "check_updates dig s ns = Inl e \<Longrightarrow> \<forall>n \<in> set ns. 0 < n \<Longrightarrow> exn_ok e"
  by (induction ns) (auto simp: bind_res_eq_Inl dest: check_update_coded)

lemma commit_round_inv:
  assumes c: "commit_round dig werr ns s = (r, s')" and inv: "rt_inv s" and ns: "ns \<noteq> []"
    and sub: "set ns \<subseteq> set (sr_participants s)" and dist: "distinct ns"
  shows "rt_inv s'"
  using c
proof (cases rule: commit_round_cases)
  case (refused e)
  with inv show ?thesis by simp
next
  case (failed code msg x n r')
  have "\<forall>n \<in> set ns. 0 < n" using inv sub by (auto simp: rt_inv_def)
  from check_updates_coded [OF failed(1) this] have "code \<noteq> []" by (simp add: exn_ok_def)
  from fail_round_inv [OF failed(2) inv this] show ?thesis .
next
  case (committed r')
  show ?thesis
    by (rule write_state_inv [OF committed(3) success_extra_ok [OF inv sub ns dist]])
      (use inv committed(2) in \<open>auto simp: rt_inv_def\<close>)
qed

lemma complete_inv:
  assumes c: "complete_round_if_ready dig werr m s = (r, s')" and inv: "rt_inv s" and m: "m \<noteq> Some 0"
  shows "rt_inv s'"
proof (cases "\<not> sr_downlink_done s \<or> length (available_updates s) < quota m s")
  case True
  with c inv show ?thesis by (simp add: complete_round_if_ready_def)
next
  case False
  with m inv have "available_updates s \<noteq> []" by (cases m) (auto simp: quota_def rt_inv_def)
  moreover from False c have "commit_round dig werr (available_updates s) s = (r, s')"
    by (simp add: complete_round_if_ready_def)
  ultimately show ?thesis
    by (intro commit_round_inv [OF _ inv]) (use inv in \<open>auto simp: available_updates_def rt_inv_def\<close>)
qed

section \<open>Publishing and waiting keep the invariant\<close>

definition opt_ok :: "exn option \<Rightarrow> bool" where
  "opt_ok e \<longleftrightarrow> (case e of None \<Rightarrow> True | Some x \<Rightarrow> exn_ok x)"

text \<open>What the transport promises: named errors, and only its two ways to say a cancellation worked.\<close>

definition plan_ok :: "publish_plan \<Rightarrow> bool" where
  "plan_ok p \<longleftrightarrow> list_all report_ok (pp_before p) \<and> list_all report_ok (pp_during p) \<and>
     cancel_ok (pp_cancel p) \<and> opt_ok (pp_archive_err p) \<and> opt_ok (pp_manifest_err p) \<and>
     opt_ok (pp_install p) \<and> opt_ok (pp_start p) \<and> opt_ok (pp_wait p)"

definition poll_ok :: "poll \<Rightarrow> bool" where
  "poll_ok po \<longleftrightarrow> list_all report_ok (po_reports po) \<and> cancel_ok (po_cancel po)"

lemma publish_open_inv:
  assumes "publish_open p s = (r, s')" and "rt_inv s"
  shows "rt_inv s'"
proof -
  have x: "extra_ok Publishing []" by (simp add: extra_ok_def has_key_def dget_def)
  from assms(1) show ?thesis unfolding publish_open_def
    by (rule write_state_inv [OF _ x])
      (use assms(2) in \<open>auto simp: rt_inv_def diag_good_def file_good_def has_key_def\<close>)
qed

lemma publish_open_op: "publish_open p s = (r, s') \<Longrightarrow> sr_op s' = sr_op s"
  by (auto simp: publish_open_def write_state_def write_json_atomic_def split: option.splits)

lemma archive_error_coded: "fst (archive_open_file dig st v m) = Inl e \<Longrightarrow> exn_ok e"
  by (auto simp: archive_open_file_def Let_def exn_ok_def split: sum.splits if_splits
      dest: copy_loop_error)

lemma write_state_result: "write_state werr st x s = (r, s') \<Longrightarrow> r = Inr () \<or> r = Inl (persistence_failed s)"
  by (auto simp: write_state_def write_json_atomic_def split: option.splits)

lemma fail_round_raises: "fail_round werr c m s = (Inl e, s') \<Longrightarrow> exn_ok e"
  by (auto simp: fail_round_def persistence_failed_def exn_ok_def split: if_splits
      dest!: write_state_result)

lemma fl_failure_ok: "fl_failure e \<Longrightarrow> exn_ok e"
  by (auto simp: fl_failure_def exn_ok_def split: exn.splits)

lemma publish_stage_inv:
  assumes st: "publish_stage dig fst0 p s = (r, s')" and inv: "rt_inv s" and ok: "plan_ok p"
  shows "rt_inv s' \<and> (\<forall>e. r = Inl e \<longrightarrow> exn_ok e)"
proof (cases "pp_pointer_err p")
  case (Some x)
  obtain r1 s1 where f: "fail_round (pp_fail_werr p) ''state_persistence_failed'' ''cannot persist the pointer'' s
      = (r1, s1)" by fastforce
  then have i1: "rt_inv s1" by (rule fail_round_inv) (use inv in auto)
  then have "sr_failure s1 = Some e \<Longrightarrow> exn_ok e" for e
    by (simp add: rt_inv_def fl_failure_ok)
  with Some st f i1 show ?thesis
    by (cases r1) (auto simp: publish_stage_def split: option.splits dest: fail_round_raises)
next
  case None
  have i0: "rt_inv (reports (pp_before p) (s\<lparr>sr_model := f\<rparr>))" for f
    using inv ok by (intro reports_inv) (simp_all add: plan_ok_def)
  from None st show ?thesis
    using inv i0 ok
    by (auto simp: publish_stage_def Let_def write_json_atomic_def plan_ok_def opt_ok_def
        split: option.splits sum.splits prod.splits dest: archive_error_coded)
qed

lemma publish_wait_inv:
  assumes w: "publish_wait p s = (r, s')" and inv: "rt_inv s" and ok: "plan_ok p"
  shows "rt_inv s' \<and> (\<forall>e. r = Inl e \<longrightarrow> exn_ok e)"
proof -
  define s1 where "s1 = (if sr_failure s \<noteq> None then cancel_downlink (pp_diag_werr p) (pp_cancel p) s else s)"
  define s2 where "s2 = reports (pp_during p) s1"
  define s3 where "s3 = (case pp_abort p of None \<Rightarrow> s2
      | Some reason \<Rightarrow> abort_runtime reason (pp_diag_werr p) (pp_cancel p) s2)"
  from ok have c: "cancel_ok (pp_cancel p)" and d: "list_all report_ok (pp_during p)"
    and w_ok: "opt_ok (pp_wait p)" by (simp_all add: plan_ok_def)
  from inv c have "rt_inv s1" by (simp add: s1_def cancel_downlink_inv)
  with d have "rt_inv s2" by (simp add: s2_def reports_inv)
  with c have i3: "rt_inv s3" by (simp add: s3_def abort_inv split: option.split)
  have "publish_wait p s = (case pp_wait p of
       Some e \<Rightarrow> (Inl e, (record_natural_result (pp_diag_werr p) (Some e) s3)\<lparr>sr_op := False\<rparr>)
     | None \<Rightarrow> (Inr (), (if dget (sr_diag s3) ''cancel_result'' = PStr ''cancelled'' then s3
                        else record_natural_result (pp_diag_werr p) None s3)\<lparr>sr_op := False\<rparr>))"
    by (simp add: publish_wait_def s1_def s2_def s3_def Let_def cong: option.case_cong)
  with w i3 w_ok show ?thesis
    by (auto simp: opt_ok_def record_natural_inv split: option.splits if_splits)
qed

lemma publish_except_inv:
  assumes x: "publish_except p e s = (r, s')" and inv: "rt_inv s" and e: "exn_ok e"
  shows "rt_inv s'"
proof -
  define cm where "cm = (case e of FLRuntimeError c m _ _ \<Rightarrow> (c, m) | _ \<Rightarrow> (''transport_failed'', ''downlink failed''))"
  from e have c: "fst cm \<noteq> []" by (auto simp: cm_def exn_ok_def split: exn.splits)
  obtain r1 s1 where f: "fail_round (pp_fail_werr p) (fst cm) (snd cm) s = (r1, s1)" by fastforce
  from fail_round_inv [OF f inv c] x f show ?thesis
    by (auto simp: publish_except_def cm_def [symmetric] case_prod_beta Let_def split: sum.splits)
qed

lemma publish_finish_inv:
  assumes f: "publish_finish dig p s = (r, s')" and inv: "rt_inv s"
  shows "rt_inv s'"
proof (cases "sr_fatal s \<noteq> None \<or> sr_failure s \<noteq> None")
  case True
  with f inv show ?thesis by (auto simp: publish_finish_def)
next
  case False
  obtain r1 s1 where w: "write_state (pp_wait_werr p) Waiting [] (s\<lparr>sr_downlink_done := True\<rparr>) = (r1, s1)"
    by fastforce
  have x: "extra_ok Waiting []" by (simp add: extra_ok_def has_key_def dget_def)
  have i1: "rt_inv s1"
    by (rule write_state_inv [OF w x]) (use inv False in \<open>auto simp: rt_inv_def diag_good_def file_good_def rid_def\<close>)
  obtain r2 s2 where c: "complete_round_if_ready dig (pp_done_werr p) None (s1\<lparr>sr_updates := pp_arrived p\<rparr>) = (r2, s2)"
    by fastforce
  have "rt_inv s2" by (rule complete_inv [OF c]) (use i1 in simp_all)
  with False f w c i1 show ?thesis
    by (auto simp: publish_finish_def split: sum.splits)
qed

lemma publish_body_inv:
  assumes b: "publish_body dig p s = (r, s')" and inv: "rt_inv s" and ok: "plan_ok p"
  shows "rt_inv s'"
proof (cases "preflight_artifact (pp_source p) None")
  case (Inl e)
  with b inv show ?thesis by (simp add: publish_body_def)
next
  case (Inr bs)
  obtain r1 s1 where o: "publish_open p s = (r1, s1)" by fastforce
  note i1 = publish_open_inv [OF o inv]
  obtain r2 s2 where st: "publish_stage dig (snd bs) p s1 = (r2, s2)" by fastforce
  note i2 = publish_stage_inv [OF st i1 ok]
  obtain r3 s3 where w: "publish_wait p s2 = (r3, s3)" by fastforce
  note i3 = publish_wait_inv [OF w conjunct1 [OF i2] ok]
  show ?thesis
  proof (cases r1)
    case (Inl e)
    with b Inr o i1 show ?thesis by (auto simp: publish_body_def split: prod.splits)
  next
    case r1: (Inr u)
    show ?thesis
    proof (cases r2)
      case (Inl e)
      with b Inr o r1 st have "publish_except p e s2 = (r, s')"
        by (auto simp: publish_body_def split: prod.splits)
      then show ?thesis by (rule publish_except_inv) (use i2 Inl in auto)
    next
      case r2: (Inr u2)
      show ?thesis
      proof (cases r3)
        case (Inl e)
        with b Inr o r1 st r2 w have "publish_except p e s3 = (r, s')"
          by (auto simp: publish_body_def split: prod.splits)
        then show ?thesis by (rule publish_except_inv) (use i3 Inl in auto)
      next
        case r3: (Inr u3)
        with b Inr o r1 st r2 w have "publish_finish dig p s3 = (r, s')"
          by (auto simp: publish_body_def split: prod.splits)
        then show ?thesis by (rule publish_finish_inv) (use i3 in simp)
      qed
    qed
  qed
qed

lemma publish_model_inv:
  assumes "publish_model dig p s = (r, s')" and "rt_inv s" and "plan_ok p"
  shows "rt_inv s'"
proof -
  obtain r1 s1 where b: "publish_body dig p (s\<lparr>sr_publish_active := True\<rparr>) = (r1, s1)" by fastforce
  have "rt_inv s1" by (rule publish_body_inv [OF b _ assms(3)]) (use assms(2) in simp)
  with assms(1,2) b show ?thesis
    by (auto simp: publish_model_def simp del: insert_iff split: sum.splits if_splits)
qed

lemma poll_start_inv:
  assumes "rt_inv s" and "poll_ok po"
  shows "rt_inv (poll_start po s)"
proof -
  have "rt_inv (reports (po_reports po) (s\<lparr>sr_updates := po_arrived po\<rparr>))"
    using assms by (intro reports_inv) (simp_all add: poll_ok_def)
  with assms(2) show ?thesis
    by (simp add: poll_start_def Let_def poll_ok_def abort_inv split: option.split)
qed

lemma poll_turn_inv:
  assumes t: "poll_turn dig m po s = (r, s')" and inv: "rt_inv s" and ok: "poll_ok po" and m: "m \<noteq> Some 0"
  shows "rt_inv s'"
proof -
  let ?s = "poll_start po s"
  note i = poll_start_inv [OF inv ok]
  obtain r1 s1 where c: "complete_round_if_ready dig (po_werr po) (Some (quota m ?s)) ?s = (r1, s1)"
    by fastforce
  have q: "quota m ?s \<noteq> 0" using m i by (cases m) (auto simp: quota_def rt_inv_def)
  have i1: "rt_inv s1" by (rule complete_inv [OF c i]) (use q in simp)
  obtain r2 s2 where f: "fail_round (po_fail_werr po) ''round_timeout'' ''quota not reached'' s1 = (r2, s2)"
    by fastforce
  have i2: "rt_inv s2" by (rule fail_round_inv [OF f i1]) simp
  from t i i1 i2 c f show ?thesis
    unfolding poll_turn_def quota_def Let_def
    by (auto split: if_splits sum.splits option.splits)
qed

lemma wait_loop_inv:
  "wait_loop dig m ps s = (r, s') \<Longrightarrow> rt_inv s \<Longrightarrow> list_all poll_ok ps \<Longrightarrow> m \<noteq> Some 0 \<Longrightarrow> rt_inv s'"
proof (induction ps arbitrary: s)
  case (Cons po ps)
  obtain r1 s1 where t: "poll_turn dig m po s = (r1, s1)" by fastforce
  have "rt_inv s1" by (rule poll_turn_inv [OF t]) (use Cons.prems in simp_all)
  with Cons t show ?case by (auto split: option.splits)
qed simp

lemma wait_for_updates_inv:
  assumes w: "wait_for_updates dig ready m ps s = (r, s')" and inv: "rt_inv s"
    and ok: "list_all poll_ok ps" and m: "m \<noteq> Some 0"
  shows "rt_inv s'"
proof -
  obtain r1 s1 where l: "wait_loop dig m ps (s\<lparr>sr_wait_active := True\<rparr>) = (r1, s1)" by fastforce
  have "rt_inv s1" by (rule wait_loop_inv [OF l]) (use inv ok m in simp_all)
  with w inv l show ?thesis
    by (auto simp: wait_for_updates_def split: sum.splits if_splits option.splits)
qed

section \<open>What the operations achieve\<close>

lemma check_update_Inr:
  assumes "check_update dig s n = Inr ()"
  shows "\<exists>d b st sz sha. fst (sr_updates s n) = Json (PDict d) \<and> snd (sr_updates s n) = Regular b st \<and>
    dget d ''round_id'' = PStr (rid s) \<and> dget d ''node_id'' = PInt n \<and>
    dget d ''size_bytes'' = PInt sz \<and> dget d ''sha256'' = PStr sha \<and>
    sz = int (length b) \<and> length b \<le> sr_max s \<and> dig b = sha"
proof -
  obtain f b where u: "sr_updates s n = (f, b)" by fastforce
  with assms obtain v where f: "f = Json v" and m: "validate_update_manifest (sr_max s) v (rid s) n = Inr ()"
    by (auto simp: check_update_def Let_def read_json_def split: json_file.splits)
  from m obtain d sz sha where d: "v = PDict d" "dget d ''round_id'' = PStr (rid s)" "dget d ''node_id'' = PInt n"
    "dget d ''size_bytes'' = PInt sz" "dget d ''sha256'' = PStr sha" "0 \<le> sz" "sz \<le> int (sr_max s)"
    by (auto simp: validate_update_manifest_def validate_exact_fields_def parse_round_id_def
        validate_sha256_def split: option.splits if_splits)
  with assms u f obtain bs st where "b = Regular bs st" "int (length bs) = sz" "dig bs = sha"
    by (auto simp: check_update_def Let_def read_json_def str_of_def validate_artifact_Inr)
  with d u f show ?thesis by auto
qed

lemma check_updates_Inr: "check_updates dig s ns = Inr () \<longleftrightarrow> (\<forall>n \<in> set ns. check_update dig s n = Inr ())"
  by (induction ns) auto

lemma complete_Some:
  assumes "complete_round_if_ready dig werr m s = (Inr (Some ns), s')"
  shows "ns = available_updates s \<and> quota m s \<le> length ns \<and>
    (\<forall>n \<in> set ns. check_update dig s n = Inr ()) \<and> sr_failure s = None \<and>
    sr_state s' = Some Succeeded \<and>
    sr_file s' = Json (PDict (state_value s Succeeded (committed_extra ns s)))"
proof -
  from assms have c: "commit_round dig werr (available_updates s) s = (Inr (Some ns), s')"
    and q: "quota m s \<le> length (available_updates s)"
    by (auto simp: complete_round_if_ready_def split: if_splits)
  from c show ?thesis
  proof (cases rule: commit_round_cases)
    case (committed r')
    with q show ?thesis
      by (auto simp: check_updates_Inr write_state_def write_json_atomic_def split: sum.splits option.splits)
  qed auto
qed

lemma settled_no_change:
  "sr_state s = Some Succeeded \<or> sr_failure s \<noteq> None \<Longrightarrow> fail_round werr code msg s = (Inr (), s)"
  "sr_state s = Some Succeeded \<or> sr_failure s \<noteq> None \<Longrightarrow> report_update_failure f s = (Inr (), s)"
  by (auto simp: fail_round_def report_update_failure_def)

lemma settled_reports: "sr_state s = Some Succeeded \<or> sr_failure s \<noteq> None \<Longrightarrow> reports fs s = s"
  by (induction fs) (simp_all add: settled_no_change(2))

lemma late_poll_answers:
  assumes "po_late po"
  shows "fst (poll_turn dig m po s) \<noteq> None"
  using assms by (auto simp: poll_turn_def Let_def split: prod.split sum.split option.split)

lemma wait_loop_answers:
  "\<exists>po \<in> set ps. po_late po \<Longrightarrow> fst (wait_loop dig m ps s) \<noteq> None"
proof (induction ps arbitrary: s)
  case (Cons po ps)
  then show ?case using late_poll_answers [of po dig m s]
    by (auto split: prod.split option.split)
qed simp

section \<open>Lifetimes of a runtime\<close>

datatype runtime_call =
    RtPublish publish_plan
  | RtWait bool "nat option" "poll list"
  | RtReport failure_report
  | RtAbort string "exn option" "string res"

fun rt_step :: "digest \<Rightarrow> runtime_call \<Rightarrow> server_rt \<Rightarrow> server_rt" where
  "rt_step dig (RtPublish p) s = snd (publish_model dig p s)"
| "rt_step dig (RtWait ready m ps) s = snd (wait_for_updates dig ready m ps s)"
| "rt_step dig (RtReport f) s = snd (report_update_failure f s)"
| "rt_step dig (RtAbort reason werr c) s = abort_runtime reason werr c s"

fun rt_call_ok :: "runtime_call \<Rightarrow> bool" where
  "rt_call_ok (RtPublish p) \<longleftrightarrow> plan_ok p"
| "rt_call_ok (RtWait ready m ps) \<longleftrightarrow> list_all poll_ok ps \<and> m \<noteq> Some 0"
| "rt_call_ok (RtReport f) \<longleftrightarrow> report_ok f"
| "rt_call_ok (RtAbort reason werr c) \<longleftrightarrow> cancel_ok c"

definition rt_run :: "digest \<Rightarrow> runtime_call list \<Rightarrow> server_rt \<Rightarrow> server_rt" where
  "rt_run dig cs s = fold (rt_step dig) cs s"

lemma rt_step_inv: "rt_inv s \<Longrightarrow> rt_call_ok c \<Longrightarrow> rt_inv (rt_step dig c s)"
  using publish_model_inv wait_for_updates_inv report_inv abort_inv
  by (cases c) (auto, (metis prod.collapse)+)

lemma rt_run_inv: "rt_inv s \<Longrightarrow> list_all rt_call_ok cs \<Longrightarrow> rt_inv (rt_run dig cs s)"
  unfolding rt_run_def by (induction cs arbitrary: s) (simp_all add: rt_step_inv)

lemma positive_ints_pos: "positive_ints vs = Some is \<Longrightarrow> \<forall>i \<in> set is. 0 < i"
  by (induction vs arbitrary: "is") (auto split: option.splits if_splits)

lemma rt_inv_init: "server_rt_init ps mx = Inr s \<Longrightarrow> rt_inv s"
proof -
  assume i: "server_rt_init ps mx = Inr s"
  then obtain js where "positive_ints ps = Some js" "js \<noteq> []" "distinct js" "sr_participants s = sort js"
    "sr_legacy s = NoFile" "sr_failure s = None" "sr_diag s = []" "sr_file s = NoFile" "sr_state s = None"
    by (auto simp: server_rt_init_def split: option.splits if_splits)
  with positive_ints_pos [of ps js] show ?thesis
    by (simp add: rt_inv_def diag_good_def file_good_def file_agrees_def has_key_def)
      (metis set_empty set_sort)
qed

text \<open>Restoring any terminal state recovery returns works.\<close>

lemma restore_good:
  assumes "round_state_ok (PDict d) name ServerRole" and "is_terminal d"
  shows "\<exists>s'. restore_terminal_state d g s = Inr s' \<and> sr_round s' = Some name \<and>
    sr_state s' = Some (if state_of d = ''succeeded'' then Succeeded else Failed)"
proof -
  from assms(1) have r: "dget d ''round_id'' = PStr name" by (simp add: round_state_ok_def)
  show ?thesis
  proof (cases "state_of d = ''succeeded''")
    case True
    with assms(1) r show ?thesis
      by (simp add: restore_terminal_state_def Let_def round_state_ok_def str_of_def)
  next
    case False
    with assms(2) have f: "state_of d = ''failed''" by (simp add: is_terminal_def terminal_states_def)
    with assms(1) have "failure_ok d ServerRole" by (simp add: round_state_ok_def)
    then have "is_str (dget d ''error_code'')" "is_str (dget d ''error_message'')"
      by (auto simp: failure_ok_def nonempty_str_def is_str_def split: option.splits)
    with f r show ?thesis by (simp add: restore_terminal_state_def Let_def str_of_def)
  qed
qed

lemma file_state_of:
  "rt_inv s \<Longrightarrow> sr_fatal s = None \<Longrightarrow> sr_state s = Some st \<Longrightarrow>
   \<exists>d. sr_file s = Json (PDict d) \<and> state_of d = status_name st"
  unfolding rt_inv_def file_agrees_def state_of_def by fastforce

lemma status_terminal:
  "status_name st \<in> set terminal_states \<longleftrightarrow> st = Succeeded \<or> st = Failed"
  "status_name st = ''succeeded'' \<longleftrightarrow> st = Succeeded"
  by (cases st; simp add: terminal_states_def)+

lemma left_state_ok:
  assumes "f = Json (PDict d)" and "round_state_ok (PDict d) name ServerRole" and "tidy_state d"
  shows "round_state_ok (PDict (left_state (Some f))) name ServerRole"
  using assms restarted_ok [of d name ServerRole] by (simp add: left_state_def)

section \<open>Committed rounds\<close>

definition update_checked :: "digest \<Rightarrow> server_rt \<Rightarrow> int \<Rightarrow> bool" where
  "update_checked dig s n \<longleftrightarrow> (case sr_updates s n of
     (Json (PDict d), Regular b st) \<Rightarrow>
       dget d ''round_id'' = PStr (rid s) \<and> dget d ''node_id'' = PInt n \<and>
       dget d ''size_bytes'' = PInt (int (length b)) \<and> dget d ''sha256'' = PStr (dig b) \<and>
       length b \<le> sr_max s
   | _ \<Rightarrow> False)"

lemma check_update_checked: "check_update dig s n = Inr () \<Longrightarrow> update_checked dig s n"
  by (drule check_update_Inr, cases "sr_updates s n") (auto simp: update_checked_def)

definition committed_well :: "digest \<Rightarrow> nat option \<Rightarrow> int list \<Rightarrow> server_rt \<Rightarrow> bool" where
  "committed_well dig m ns s \<longleftrightarrow>
     distinct ns \<and> set ns \<subseteq> set (sr_participants s) \<and> quota m s \<le> length ns \<and>
     list_all (update_checked dig s) ns \<and> sr_failure s = None \<and> sr_state s = Some Succeeded \<and>
     sr_file s = Json (PDict (state_value s Succeeded (committed_extra ns s)))"

lemma complete_well:
  assumes c: "complete_round_if_ready dig werr m s = (Inr (Some ns), s')" and "rt_inv s"
  shows "committed_well dig m ns s'"
proof -
  note f = complete_Some [OF c]
  from f c have "write_state werr Succeeded (committed_extra ns s) s = (Inr (), s')"
    by (auto simp: complete_round_if_ready_def commit_round_def check_updates_Inr
        split: if_splits sum.splits exn.splits prod.splits option.splits)
  then obtain y where s': "s' = s\<lparr>sr_file := y, sr_state := Some Succeeded\<rparr>"
    by (auto simp: write_state_def write_json_atomic_def split: option.splits)
  have eqs: "sr_updates s' = sr_updates s" "rid s' = rid s" "sr_max s' = sr_max s"
    "sr_participants s' = sr_participants s" "sr_failure s' = sr_failure s"
    by (simp_all add: s' rid_def)
  have "distinct ns" "set ns \<subseteq> set (sr_participants s)"
    using f assms(2) by (auto simp: available_updates_def rt_inv_def)
  moreover have "state_value s' Succeeded x = state_value s Succeeded x" "committed_extra ns s' = committed_extra ns s"
    "quota m s' = quota m s" "update_checked dig s' n = update_checked dig s n" for x n
    unfolding state_value_def committed_extra_def quota_def update_checked_def eqs by (rule refl)+
  ultimately show ?thesis
    using f by (auto simp: committed_well_def list_all_iff check_update_checked eqs)
qed

lemma poll_turn_well:
  assumes t: "poll_turn dig m po s = (Some (Inr ns), s')" and "rt_inv s" and "poll_ok po"
  shows "committed_well dig m ns s'"
proof -
  let ?s = "poll_start po s"
  obtain r1 s1 where c: "complete_round_if_ready dig (po_werr po) (Some (quota m ?s)) ?s = (r1, s1)"
    by fastforce
  with t have "r1 = Inr (Some ns)" "s' = s1"
    unfolding poll_turn_def quota_def Let_def
    by (auto split: if_splits sum.splits option.splits prod.splits)
  with complete_well [of dig "po_werr po" "Some (quota m ?s)" ?s ns s'] c poll_start_inv [OF assms(2,3)]
  have w: "committed_well dig (Some (quota m ?s)) ns s'" by simp
  have "sr_participants s' = sr_participants ?s"
    using c \<open>r1 = Inr (Some ns)\<close> \<open>s' = s1\<close>
    by (auto simp: complete_round_if_ready_def commit_round_def write_state_def write_json_atomic_def
        split: if_splits sum.splits exn.splits prod.splits option.splits)
  then have "quota m s' = quota (Some (quota m ?s)) s'" by (simp add: quota_def split: option.split)
  with w show ?thesis by (simp add: committed_well_def)
qed

lemma wait_loop_well:
  "wait_loop dig m ps s = (Some (Inr ns), s') \<Longrightarrow> rt_inv s \<Longrightarrow> list_all poll_ok ps \<Longrightarrow> m \<noteq> Some 0 \<Longrightarrow>
   committed_well dig m ns s'"
proof (induction ps arbitrary: s)
  case (Cons po ps)
  obtain r1 s1 where t: "poll_turn dig m po s = (r1, s1)" by fastforce
  show ?case
  proof (cases r1)
    case None
    have "rt_inv s1" by (rule poll_turn_inv [OF t]) (use Cons.prems in simp_all)
    with None t Cons show ?thesis by simp
  next
    case (Some r)
    with t Cons.prems have "poll_turn dig m po s = (Some (Inr ns), s')" by simp
    then show ?thesis by (rule poll_turn_well) (use Cons.prems in simp_all)
  qed
qed simp

lemma committed_well_upd:
  "committed_well dig m ns (s\<lparr>sr_wait_active := a, sr_consumed := b\<rparr>) = committed_well dig m ns s"
proof -
  let ?s = "s\<lparr>sr_wait_active := a, sr_consumed := b\<rparr>"
  have "sr_updates ?s = sr_updates s" "rid ?s = rid s" "sr_max ?s = sr_max s"
    "sr_participants ?s = sr_participants s" "sr_failure ?s = sr_failure s" "sr_state ?s = sr_state s"
    "sr_file ?s = sr_file s"
    by (simp_all add: rid_def)
  note eqs = this
  have "update_checked dig ?s = update_checked dig s"
    by (rule ext) (simp only: update_checked_def eqs)
  then show ?thesis
    by (simp only: committed_well_def quota_def state_value_def committed_extra_def eqs)
qed

section \<open>A sample round\<close>

definition zero_digest :: digest where
  "zero_digest b = replicate 64 (CHR ''0'')"

definition small_stat :: file_stat where
  "small_stat = \<lparr>st_dev = 1, st_ino = 7, st_size = 1, st_mtime_ns = 5\<rparr>"

definition sample_update :: "int \<Rightarrow> json_file \<times> node" where
  "sample_update n =
     (Json (PDict [(''schema_version'', PInt 1), (''artifact_type'', PStr ''update''),
        (''round_id'', PStr sample_round), (''node_id'', PInt n), (''size_bytes'', PInt 1),
        (''sha256'', PStr (zero_digest []))]), Regular [5] small_stat)"

definition sample_plan :: publish_plan where
  "sample_plan = \<lparr>pp_ready = True, pp_source = Regular [1] small_stat, pp_round = sample_round,
     pp_open_werr = None, pp_pointer_err = None, pp_view =
       \<lparr>view_first = [[1]], view_stat = small_stat, view_second = [[1]], view_stat2 = small_stat\<rparr>,
     pp_archive_err = None, pp_manifest_err = None, pp_install = None, pp_before = [],
     pp_start = None, pp_cancel = Inr ''cancelled'', pp_during = [], pp_abort = None, pp_wait = None,
     pp_diag_werr = None, pp_fail_werr = None, pp_wait_werr = None, pp_arrived = \<lambda>_. (NoFile, Absent),
     pp_done_werr = None\<rparr>"

definition sample_poll :: "bool \<Rightarrow> int list \<Rightarrow> poll" where
  "sample_poll late ns = \<lparr>po_reports = [], po_abort = None, po_cancel = Inr ''cancelled'',
     po_arrived = (\<lambda>n. if n \<in> set ns then sample_update n else (NoFile, Absent)), po_late = late,
     po_werr = None, po_fail_werr = None\<rparr>"

definition fresh_runtime :: server_rt where
  "fresh_runtime = (case server_rt_init [PInt 2, PInt 1] (PInt 100) of Inr s \<Rightarrow> s)"

definition waiting_runtime :: server_rt where
  "waiting_runtime = rt_run zero_digest [RtPublish sample_plan] fresh_runtime"

lemma fresh_runtime: "server_rt_init [PInt 2, PInt 1] (PInt 100) = Inr fresh_runtime"
proof -
  have "is_ok (server_rt_init [PInt 2, PInt 1] (PInt 100))" by code_simp
  then show ?thesis by (cases "server_rt_init [PInt 2, PInt 1] (PInt 100)") (simp_all add: fresh_runtime_def)
qed

lemma sample_calls_ok: "list_all rt_call_ok [RtPublish sample_plan]"
  by (simp add: sample_plan_def plan_ok_def opt_ok_def cancel_ok_def)

lemma waiting_inv: "rt_inv waiting_runtime"
  unfolding waiting_runtime_def by (rule rt_run_inv [OF rt_inv_init [OF fresh_runtime] sample_calls_ok])

lemma waiting_fields:
  "sr_state waiting_runtime = Some Waiting" "rid waiting_runtime = sample_round"
  "sr_file waiting_runtime \<noteq> NoFile" "sr_fatal waiting_runtime = None" "canonical_uuid sample_round"
  by code_simp+

section \<open>Guarantees\<close>



text \<open>C19: A committed round has its quorum of checked updates. If waiting returns a set of nodes, then they
  are distinct participants, at least as many as required; each has an update whose manifest names
  this round, the node, and the length and digest of the very file that is there, within the size
  limit; no failure had been latched; and exactly these nodes are recorded in the succeeded state.\<close>

theorem committed_quorum_checked:
  assumes "wait_for_updates dig ready m ps s = (Some (Inr ns), s')"
    and "rt_inv s" and "list_all poll_ok ps" and "m \<noteq> Some 0"
  shows "distinct ns \<and> set ns \<subseteq> set (sr_participants s') \<and> quota m s' \<le> length ns \<and>
    list_all (update_checked dig s') ns \<and> sr_failure s' = None \<and> sr_state s' = Some Succeeded \<and>
    sr_file s' = Json (PDict (state_value s' Succeeded (committed_extra ns s')))"
proof -
  have "rebuild_terminal_updates dig s = Inl (FLRuntimeError ''round_artifacts_removed'' ''state file missing'' (sr_round s) None)"
    using assms(2) by (simp add: rebuild_terminal_updates_def rt_inv_def)
  with assms(1) obtain s1 where l: "wait_loop dig m ps (s\<lparr>sr_wait_active := True\<rparr>) = (Some (Inr ns), s1)"
    "s' = s1\<lparr>sr_wait_active := False, sr_consumed := (sr_consumed s1 \<or> True)\<rparr>"
    by (auto simp: wait_for_updates_def split: sum.splits if_splits prod.splits option.splits)
  have "committed_well dig m ns s1"
    by (rule wait_loop_well [OF l(1)]) (use assms in simp_all)
  then have "committed_well dig m ns s'" by (simp add: l(2) committed_well_upd)
  then show ?thesis by (simp add: committed_well_def)
qed

theorem committed_quorum_checked_witness:
  "\<exists>s'. wait_for_updates zero_digest True (Some 1) [sample_poll False [], sample_poll False [2]] waiting_runtime
       = (Some (Inr [2]), s') \<and>
     update_checked zero_digest s' 2"
proof -
  let ?ps = "[sample_poll False [], sample_poll False [2]]"
  obtain r s' where w: "wait_for_updates zero_digest True (Some 1) ?ps waiting_runtime = (r, s')" by fastforce
  have "(case fst (wait_for_updates zero_digest True (Some 1) ?ps waiting_runtime) of
      Some (Inr ns) \<Rightarrow> ns = [2] | _ \<Rightarrow> False)"
    by code_simp
  with w have r: "r = Some (Inr [2])" by (simp split: option.splits sum.splits)
  have "list_all poll_ok ?ps" by (simp add: sample_poll_def poll_ok_def cancel_ok_def)
  from committed_quorum_checked [OF w [unfolded r] waiting_inv this] w r show ?thesis by simp
qed

text \<open>The first failure decides. Once a round has succeeded or a failure is latched, no later failure -
  a timeout, a failed check, or any number of reports from the transport - changes anything: not the
  outcome, not the state on disk, not the diagnostics.\<close>

theorem first_failure_decides:
  assumes "sr_state s = Some Succeeded \<or> sr_failure s \<noteq> None"
  shows "fail_round werr code msg s = (Inr (), s) \<and> report_update_failure f s = (Inr (), s) \<and>
    reports fs s = s"
  using settled_no_change [OF assms] settled_reports [OF assms] by simp

theorem first_failure_decides_witness:
  "fst (fail_round None ''round_timeout'' ''late'' (waiting_runtime\<lparr>sr_failure := Some integrity_failed\<rparr>)) = Inr ()"
  using first_failure_decides [of "waiting_runtime\<lparr>sr_failure := Some integrity_failed\<rparr>" None
      "''round_timeout''" "''late''"] by simp

text \<open>Waiting ends at the deadline. A wait one of whose turns comes after the deadline has an answer,
  whatever arrived, was reported or aborted and whatever the disk does.\<close>

theorem waiting_ends:
  assumes "\<exists>po \<in> set ps. po_late po"
  shows "fst (wait_for_updates dig ready m ps s) \<noteq> None"
  using wait_loop_answers [OF assms, of dig m "s\<lparr>sr_wait_active := True\<rparr>"]
  by (auto simp: wait_for_updates_def split: sum.split prod.split option.split)

theorem waiting_ends_witness:
  "fst (wait_for_updates zero_digest True None [sample_poll False [], sample_poll True []] waiting_runtime) \<noteq> None"
  by (rule waiting_ends) (simp add: sample_poll_def)

text \<open>A succeeded round cannot be waited for again. Any wait on a runtime whose round has succeeded -
  also when publishing itself found all updates there and committed the round - raises
  \<open>round_artifacts_removed\<close>, though the artifacts and the recorded state are all in place: the
  method looks for a state file under a name nothing ever writes.\<close>

theorem second_wait_fails:
  assumes "rt_inv s" and "sr_state s = Some Succeeded" and "sr_round s \<noteq> None"
    and "sr_fatal s = None" and "\<not> sr_wait_active s"
  shows "fst (wait_for_updates dig True m ps s) =
    Some (Inl (FLRuntimeError ''round_artifacts_removed'' ''state file missing'' (sr_round s) None))"
  using assms
  by (simp add: wait_for_updates_def require_ready_def rebuild_terminal_updates_def rt_inv_def)

theorem second_wait_fails_witness:
  "\<exists>s'. fst (wait_for_updates zero_digest True (Some 1) [sample_poll False [2]] waiting_runtime) = Some (Inr [2]) \<and>
     snd (wait_for_updates zero_digest True (Some 1) [sample_poll False [2]] waiting_runtime) = s' \<and>
     \<not> is_ok (the (fst (wait_for_updates zero_digest True (Some 1) [sample_poll False [2]] s')))"
proof -
  let ?w = "wait_for_updates zero_digest True (Some 1) [sample_poll False [2]]"
  have ok: "list_all poll_ok [sample_poll False [2]]" by (simp add: sample_poll_def poll_ok_def cancel_ok_def)
  have "(case fst (?w waiting_runtime) of Some (Inr ns) \<Rightarrow> ns = [2] | _ \<Rightarrow> False)" by code_simp
  then have r: "fst (?w waiting_runtime) = Some (Inr [2])" by (simp split: option.splits sum.splits)
  have "sr_state (snd (?w waiting_runtime)) = Some Succeeded" "sr_round (snd (?w waiting_runtime)) \<noteq> None"
    "sr_fatal (snd (?w waiting_runtime)) = None" "\<not> sr_wait_active (snd (?w waiting_runtime))"
    by code_simp+
  from second_wait_fails [OF wait_for_updates_inv [OF prod.collapse [symmetric] waiting_inv ok] this] r
  show ?thesis by simp
qed

end
