(* ===== verification/Job_Config.thy ===== *)
theory Job_Config
  imports Artifacts Radio_Params Control_Messages
begin

text \<open>
  \<open>JobConfig\<close> of \<^verbatim>\<open>wfb_ng/fl/coordinator.py\<close>: the validated description of a federated learning job.
  \<open>job_from_dict\<close> makes the checks of \<^verbatim>\<open>from_dict\<close> in their order, each with its error code;
  \<open>job_to_dict\<close> is \<^verbatim>\<open>to_dict\<close>. The identifier the code generates for a job without one is an argument.
  The rounding of \<^verbatim>\<open>float(int)\<close> is not modelled. The pair is an instance of the codec contract.
\<close>

datatype fl_mode = SyncMode | SemiAsyncMode | AsyncMode

fun mode_name :: "fl_mode \<Rightarrow> string" where
  "mode_name SyncMode = ''sync''"
| "mode_name SemiAsyncMode = ''semi_async''"
| "mode_name AsyncMode = ''async''"

definition mode_of :: "pyval \<Rightarrow> fl_mode option" where
  "mode_of v =
     (if v = PStr ''sync'' then Some SyncMode
      else if v = PStr ''semi_async'' then Some SemiAsyncMode
      else if v = PStr ''async'' then Some AsyncMode
      else None)"

record job_config =
  jc_job_id :: string
  jc_run_id :: string
  jc_mode :: fl_mode
  jc_target_nodes :: "int list"
  jc_model_path :: string
  jc_model_size :: int
  jc_rounds :: int
  jc_min_updates :: int
  jc_max_staleness :: int
  jc_round_timeout :: pyfloat
  jc_io_timeout :: int
  jc_live_observation :: bool
  jc_model_sha256 :: "string option"
  jc_radio_config :: "pydict option"

section \<open>The checks\<close>

definition check_job_id :: "string \<Rightarrow> pyval \<Rightarrow> string res" where
  "check_job_id fresh v = (if v = PNone then Inr fresh else validate_path_safe_identifier v ''job_id'')"

definition check_int :: "(int \<Rightarrow> bool) \<Rightarrow> string \<Rightarrow> pyval \<Rightarrow> int res" where
  "check_int p code v = (case as_int v of
     None \<Rightarrow> Inl (fl_error code ''not an acceptable integer'')
   | Some i \<Rightarrow> if p i then Inr i else Inl (fl_error code ''not an acceptable integer''))"

definition check_bool :: "string \<Rightarrow> pyval \<Rightarrow> bool res" where
  "check_bool code v = (case as_bool v of
     None \<Rightarrow> Inl (fl_error code ''not a boolean'') | Some b \<Rightarrow> Inr b)"

fun node_range :: "pyval list \<Rightarrow> int list option" where
  "node_range [] = Some []"
| "node_range (v # vs) = (case (as_int v, node_range vs) of
     (Some i, Some is) \<Rightarrow> if 1 \<le> i \<and> i \<le> 10 then Some (i # is) else None
   | _ \<Rightarrow> None)"

definition bad_nodes :: exn where
  "bad_nodes = fl_error ''preflight_target_nodes_invalid'' ''target_nodes''"

text \<open>The duplicate check builds a set first, so an unhashable entry is a \<^verbatim>\<open>TypeError\<close>.\<close>

definition check_target_nodes :: "pyval \<Rightarrow> int list res" where
  "check_target_nodes v = (case as_list v of
     None \<Rightarrow> Inl bad_nodes
   | Some vs \<Rightarrow>
       if vs = [] then Inl bad_nodes
       else if \<not> list_all hashable vs then Inl (TypeError ''unhashable type'')
       else if \<not> py_distinct vs then Inl bad_nodes
       else (case node_range vs of None \<Rightarrow> Inl bad_nodes | Some is \<Rightarrow> Inr is))"

definition check_mode :: "pyval \<Rightarrow> fl_mode res" where
  "check_mode v = (case mode_of v of
     None \<Rightarrow> Inl (fl_error ''invalid_fl_mode'' ''mode'') | Some m \<Rightarrow> Inr m)"

definition check_min_updates :: "fl_mode \<Rightarrow> int list \<Rightarrow> pyval \<Rightarrow> int res" where
  "check_min_updates m nodes v = (case m of
     SemiAsyncMode \<Rightarrow>
       check_int (\<lambda>i. 1 \<le> i \<and> i \<le> int (length nodes)) ''invalid_semi_async_config'' v
   | SyncMode \<Rightarrow> Inr (int (length nodes))
   | AsyncMode \<Rightarrow> Inr 1)"

definition check_model_path :: "pyval \<Rightarrow> string res" where
  "check_model_path v = (case as_str v of
     None \<Rightarrow> Inl (fl_error ''preflight_model_missing_path'' ''model_path'')
   | Some s \<Rightarrow> if s = [] then Inl (fl_error ''preflight_model_missing_path'' ''model_path'') else Inr s)"

text \<open>\<^verbatim>\<open>type(v) in (int, float)\<close> and not \<^verbatim>\<open>v <= 0\<close>; the comparison with NaN is false.\<close>

definition check_round_timeout :: "pyval \<Rightarrow> pyfloat res" where
  "check_round_timeout v =
     (let bad = Inl (fl_error ''invalid_round_timeout'' ''round_timeout_seconds'') in
      case v of
        PInt i \<Rightarrow> if i \<le> 0 then bad else Inr (Fin (of_int i))
      | PFloat f \<Rightarrow> if float_le f (Fin 0) then bad else Inr f
      | _ \<Rightarrow> bad)"

definition hex_digit_any :: "char \<Rightarrow> bool" where
  "hex_digit_any c \<longleftrightarrow> c \<in> set ''0123456789abcdefABCDEF''"

definition lower_hex :: "char \<Rightarrow> char" where
  "lower_hex c = (if c = CHR ''A'' then CHR ''a'' else if c = CHR ''B'' then CHR ''b''
     else if c = CHR ''C'' then CHR ''c'' else if c = CHR ''D'' then CHR ''d''
     else if c = CHR ''E'' then CHR ''e'' else if c = CHR ''F'' then CHR ''f'' else c)"

definition check_model_sha256 :: "pyval \<Rightarrow> string option res" where
  "check_model_sha256 v =
     (if v = PNone then Inr None
      else (case as_str v of
          None \<Rightarrow> Inl (fl_error ''invalid_model_sha256'' ''model_sha256'')
        | Some s \<Rightarrow>
            if length s = 64 \<and> list_all hex_digit_any s then Inr (Some (map lower_hex s))
            else Inl (fl_error ''invalid_model_sha256'' ''model_sha256'')))"

definition check_radio :: "pyval \<Rightarrow> pydict option res" where
  "check_radio v =
     (if v = PNone then Inr None
      else (case as_dict v of
          None \<Rightarrow> Inl (fl_error ''invalid_radio_configuration'' ''radio_config'')
        | Some d \<Rightarrow> bind_res (validate_radio_config v) (\<lambda>_. Inr (Some d))))"

definition job_from_dict :: "string \<Rightarrow> pyval \<Rightarrow> job_config res" where
  "job_from_dict fresh v = (case as_dict v of
     None \<Rightarrow> Inl (fl_error ''invalid_job_payload'' ''not an object'')
   | Some d \<Rightarrow>
       bind_res (validate_path_safe_identifier (dget d ''run_id'') ''run_id'') (\<lambda>run.
       bind_res (check_job_id fresh (dget d ''job_id'')) (\<lambda>job.
       bind_res (check_int (\<lambda>i. 0 < i) ''invalid_io_timeout'' (dget d ''io_timeout_seconds'')) (\<lambda>io.
       bind_res (check_bool ''invalid_live_observation'' (dget d ''live_observation'')) (\<lambda>live.
       bind_res (check_target_nodes (dget d ''target_nodes'')) (\<lambda>nodes.
       bind_res (check_mode (dget_default d ''mode'' (PStr ''sync''))) (\<lambda>mode.
       bind_res (check_min_updates mode nodes (dget d ''min_updates'')) (\<lambda>mu.
       bind_res (check_model_path (dget d ''model_path'')) (\<lambda>path.
       bind_res (check_int (\<lambda>i. 0 < i) ''preflight_model_missing_size'' (dget d ''model_size_bytes'')) (\<lambda>sz.
       bind_res (check_int (\<lambda>i. 0 < i) ''invalid_rounds'' (dget_default d ''rounds'' (PInt 1))) (\<lambda>rounds.
       bind_res (check_int (\<lambda>i. 0 \<le> i) ''invalid_max_staleness''
                   (dget_default d ''max_staleness'' (PInt 0))) (\<lambda>stale.
       bind_res (check_round_timeout
                   (dget_default d ''round_timeout_seconds'' (PFloat (Fin 120)))) (\<lambda>tmo.
       bind_res (check_model_sha256 (dget d ''model_sha256'')) (\<lambda>sha.
       bind_res (check_radio (dget d ''radio_config'')) (\<lambda>radio.
       Inr \<lparr>jc_job_id = job, jc_run_id = run, jc_mode = mode, jc_target_nodes = nodes,
            jc_model_path = path, jc_model_size = sz, jc_rounds = rounds, jc_min_updates = mu,
            jc_max_staleness = stale, jc_round_timeout = tmo, jc_io_timeout = io,
            jc_live_observation = live, jc_model_sha256 = sha, jc_radio_config = radio\<rparr>)))))))))))))))"

definition job_to_dict :: "job_config \<Rightarrow> pydict" where
  "job_to_dict j =
     [(''job_id'', PStr (jc_job_id j)), (''run_id'', PStr (jc_run_id j)),
      (''mode'', PStr (mode_name (jc_mode j))),
      (''target_nodes'', PList (map PInt (jc_target_nodes j))),
      (''model_path'', PStr (jc_model_path j)), (''model_size_bytes'', PInt (jc_model_size j)),
      (''rounds'', PInt (jc_rounds j)), (''min_updates'', PInt (jc_min_updates j)),
      (''max_staleness'', PInt (jc_max_staleness j)),
      (''round_timeout_seconds'', PFloat (jc_round_timeout j)),
      (''io_timeout_seconds'', PInt (jc_io_timeout j)),
      (''live_observation'', PBool (jc_live_observation j)),
      (''model_sha256'', (case jc_model_sha256 j of None \<Rightarrow> PNone | Some s \<Rightarrow> PStr s)),
      (''radio_config'', (case jc_radio_config j of None \<Rightarrow> PNone | Some d \<Rightarrow> PDict d))]"

section \<open>What a validated job satisfies\<close>

definition lower_hex_digit :: "char \<Rightarrow> bool" where
  "lower_hex_digit c \<longleftrightarrow> c \<in> set ''0123456789abcdef''"

definition jc_wf :: "job_config \<Rightarrow> bool" where
  "jc_wf j \<longleftrightarrow>
     jc_job_id j \<noteq> [] \<and> list_all path_safe_char (jc_job_id j) \<and>
     jc_run_id j \<noteq> [] \<and> list_all path_safe_char (jc_run_id j) \<and>
     jc_target_nodes j \<noteq> [] \<and> distinct (jc_target_nodes j) \<and>
     (\<forall>n \<in> set (jc_target_nodes j). 1 \<le> n \<and> n \<le> 10) \<and>
     jc_model_path j \<noteq> [] \<and> 0 < jc_model_size j \<and> 0 < jc_rounds j \<and>
     (case jc_mode j of
        SyncMode \<Rightarrow> jc_min_updates j = int (length (jc_target_nodes j))
      | SemiAsyncMode \<Rightarrow> 1 \<le> jc_min_updates j \<and> jc_min_updates j \<le> int (length (jc_target_nodes j))
      | AsyncMode \<Rightarrow> jc_min_updates j = 1) \<and>
     0 \<le> jc_max_staleness j \<and> \<not> float_le (jc_round_timeout j) (Fin 0) \<and> 0 < jc_io_timeout j \<and>
     (case jc_model_sha256 j of None \<Rightarrow> True | Some s \<Rightarrow> length s = 64 \<and> list_all lower_hex_digit s) \<and>
     (case jc_radio_config j of None \<Rightarrow> True | Some d \<Rightarrow> is_ok (validate_radio_config (PDict d)))"

lemma check_int_Inr [simp]: "check_int p code v = Inr i \<longleftrightarrow> v = PInt i \<and> p i"
  by (auto simp: check_int_def split: option.splits)

lemma check_bool_Inr [simp]: "check_bool code v = Inr b \<longleftrightarrow> v = PBool b"
  by (auto simp: check_bool_def split: option.splits)

lemma mode_name_inj [simp]: "mode_name m = mode_name n \<longleftrightarrow> m = n"
  by (cases m; cases n) simp_all

lemma mode_of_Some [simp]: "mode_of v = Some m \<longleftrightarrow> v = PStr (mode_name m)"
  by (cases m) (auto simp: mode_of_def)

lemma mode_of_None: "mode_of v = None \<Longrightarrow> v \<noteq> PStr (mode_name m)"
  by (metis mode_of_Some option.distinct(1))

lemma check_mode_Inr [simp]: "check_mode v = Inr m \<longleftrightarrow> v = PStr (mode_name m)"
  by (auto simp: check_mode_def split: option.splits dest: mode_of_None)

lemma node_range_Some: "node_range vs = Some is \<longleftrightarrow> vs = map PInt is \<and> (\<forall>i \<in> set is. 1 \<le> i \<and> i \<le> 10)"
  by (induction vs arbitrary: "is") (auto split: option.splits)

lemma node_range_ints: "node_range (map PInt is) = (if \<forall>i \<in> set is. 1 \<le> i \<and> i \<le> 10 then Some is else None)"
  by (induction "is") (auto split: option.splits)

lemma check_target_nodes_Inr [simp]:
  "check_target_nodes v = Inr is \<longleftrightarrow>
   v = PList (map PInt is) \<and> is \<noteq> [] \<and> distinct is \<and> (\<forall>i \<in> set is. 1 \<le> i \<and> i \<le> 10)" (is "?L \<longleftrightarrow> ?R")
proof
  assume ?L
  then show ?R
    by (auto simp: check_target_nodes_def node_range_Some split: option.splits if_splits)
next
  assume ?R
  then show ?L by (simp add: check_target_nodes_def node_range_ints)
qed

lemma lower_hex_props:
  "hex_digit_any c \<Longrightarrow> lower_hex_digit (lower_hex c)"
  "lower_hex_digit c \<Longrightarrow> hex_digit_any c \<and> lower_hex c = c"
  by (auto simp: hex_digit_any_def lower_hex_digit_def lower_hex_def)

lemma check_model_sha256_wf:
  "check_model_sha256 v = Inr (Some s) \<Longrightarrow> length s = 64 \<and> list_all lower_hex_digit s"
  by (auto simp: check_model_sha256_def list_all_iff lower_hex_props split: if_splits option.splits)

lemma check_model_sha256_idem:
  "length s = 64 \<Longrightarrow> list_all lower_hex_digit s \<Longrightarrow> check_model_sha256 (PStr s) = Inr (Some s)"
  by (auto simp: check_model_sha256_def list_all_iff lower_hex_props intro: map_idI)

lemma check_round_timeout_wf: "check_round_timeout v = Inr f \<Longrightarrow> \<not> float_le f (Fin 0)"
  by (auto simp: check_round_timeout_def Let_def split: pyval.splits if_splits)

lemma check_radio_wf: "check_radio v = Inr (Some d) \<Longrightarrow> is_ok (validate_radio_config (PDict d))"
  by (auto simp: check_radio_def split: if_splits option.splits)

lemma check_min_updates_wf:
  "check_min_updates m nodes v = Inr i \<longleftrightarrow>
   (case m of SyncMode \<Rightarrow> i = int (length nodes)
    | SemiAsyncMode \<Rightarrow> v = PInt i \<and> 1 \<le> i \<and> i \<le> int (length nodes) | AsyncMode \<Rightarrow> i = 1)"
  by (cases m) (auto simp: check_min_updates_def)

lemma job_from_dict_Inr:
  "job_from_dict fresh (PDict d) = Inr j \<Longrightarrow>
   validate_path_safe_identifier (dget d ''run_id'') ''run_id'' = Inr (jc_run_id j) \<and>
   check_job_id fresh (dget d ''job_id'') = Inr (jc_job_id j) \<and>
   check_int (\<lambda>i. 0 < i) ''invalid_io_timeout'' (dget d ''io_timeout_seconds'') = Inr (jc_io_timeout j) \<and>
   check_target_nodes (dget d ''target_nodes'') = Inr (jc_target_nodes j) \<and>
   check_mode (dget_default d ''mode'' (PStr ''sync'')) = Inr (jc_mode j) \<and>
   check_min_updates (jc_mode j) (jc_target_nodes j) (dget d ''min_updates'') = Inr (jc_min_updates j) \<and>
   check_model_path (dget d ''model_path'') = Inr (jc_model_path j) \<and>
   check_int (\<lambda>i. 0 < i) ''preflight_model_missing_size'' (dget d ''model_size_bytes'') = Inr (jc_model_size j) \<and>
   check_int (\<lambda>i. 0 < i) ''invalid_rounds'' (dget_default d ''rounds'' (PInt 1)) = Inr (jc_rounds j) \<and>
   check_int (\<lambda>i. 0 \<le> i) ''invalid_max_staleness'' (dget_default d ''max_staleness'' (PInt 0)) =
     Inr (jc_max_staleness j) \<and>
   check_round_timeout (dget_default d ''round_timeout_seconds'' (PFloat (Fin 120))) = Inr (jc_round_timeout j) \<and>
   check_model_sha256 (dget d ''model_sha256'') = Inr (jc_model_sha256 j) \<and>
   check_radio (dget d ''radio_config'') = Inr (jc_radio_config j)"
  by (simp add: job_from_dict_def del: check_mode_Inr check_target_nodes_Inr check_int_Inr check_bool_Inr)
    (elim exE conjE, hypsubst, simp del: check_mode_Inr check_target_nodes_Inr check_int_Inr check_bool_Inr)

lemma job_from_dict_wf:
  assumes "job_from_dict fresh v = Inr j" and fresh: "fresh \<noteq> []" "list_all path_safe_char fresh"
  shows "jc_wf j"
proof -
  from assms(1) obtain d where "v = PDict d" by (auto simp: job_from_dict_def split: option.splits)
  with assms(1) have d: "job_from_dict fresh (PDict d) = Inr j" by simp
  note c = job_from_dict_Inr [OF d]
  have "jc_job_id j \<noteq> [] \<and> list_all path_safe_char (jc_job_id j)"
    using c fresh by (auto simp: check_job_id_def path_safe_identifier_Inr split: if_splits)
  moreover have "jc_run_id j \<noteq> [] \<and> list_all path_safe_char (jc_run_id j)"
    using c by (simp add: path_safe_identifier_Inr)
  moreover have "jc_model_path j \<noteq> []"
    using c by (auto simp: check_model_path_def split: option.splits if_splits)
  moreover have "case jc_model_sha256 j of None \<Rightarrow> True | Some s \<Rightarrow> length s = 64 \<and> list_all lower_hex_digit s"
    using c check_model_sha256_wf by (cases "jc_model_sha256 j") auto
  moreover have "case jc_radio_config j of None \<Rightarrow> True | Some r \<Rightarrow> is_ok (validate_radio_config (PDict r))"
    using c check_radio_wf by (cases "jc_radio_config j") auto
  moreover have "\<not> float_le (jc_round_timeout j) (Fin 0)" using c check_round_timeout_wf by blast
  moreover have "case jc_mode j of
        SyncMode \<Rightarrow> jc_min_updates j = int (length (jc_target_nodes j))
      | SemiAsyncMode \<Rightarrow> 1 \<le> jc_min_updates j \<and> jc_min_updates j \<le> int (length (jc_target_nodes j))
      | AsyncMode \<Rightarrow> jc_min_updates j = 1"
    using c by (auto simp: check_min_updates_wf split: fl_mode.splits)
  moreover from c have "jc_target_nodes j \<noteq> [] \<and> distinct (jc_target_nodes j) \<and>
      (\<forall>n \<in> set (jc_target_nodes j). 1 \<le> n \<and> n \<le> 10) \<and> 0 < jc_model_size j \<and> 0 < jc_rounds j \<and>
      0 \<le> jc_max_staleness j \<and> 0 < jc_io_timeout j"
    by simp
  ultimately show ?thesis unfolding jc_wf_def by blast
qed

lemma job_roundtrip:
  assumes "jc_wf j"
  shows "job_from_dict fresh (PDict (job_to_dict j)) = Inr j"
proof -
  have sha: "check_model_sha256 (case jc_model_sha256 j of None \<Rightarrow> PNone | Some s \<Rightarrow> PStr s) = Inr (jc_model_sha256 j)"
    using assms by (cases "jc_model_sha256 j")
      (simp add: check_model_sha256_def, simp add: jc_wf_def check_model_sha256_idem)
  have radio: "check_radio (case jc_radio_config j of None \<Rightarrow> PNone | Some d \<Rightarrow> PDict d) = Inr (jc_radio_config j)"
    using assms by (cases "jc_radio_config j")
      (auto simp: jc_wf_def check_radio_def elim!: is_ok.elims)
  have tmo: "check_round_timeout (PFloat (jc_round_timeout j)) = Inr (jc_round_timeout j)"
    using assms by (simp add: jc_wf_def check_round_timeout_def)
  have mu: "check_min_updates (jc_mode j) (jc_target_nodes j) (PInt (jc_min_updates j)) = Inr (jc_min_updates j)"
    using assms by (auto simp: jc_wf_def check_min_updates_wf split: fl_mode.splits)
  have mode: "check_mode (PStr (mode_name (jc_mode j))) = Inr (jc_mode j)" by simp
  have nodes: "check_target_nodes (PList (map PInt (jc_target_nodes j))) = Inr (jc_target_nodes j)"
    using assms by (simp add: jc_wf_def)
  have ids: "validate_path_safe_identifier (PStr (jc_run_id j)) ''run_id'' = Inr (jc_run_id j)"
    "check_job_id fresh (PStr (jc_job_id j)) = Inr (jc_job_id j)"
    using assms by (simp_all add: jc_wf_def path_safe_identifier_Inr check_job_id_def)
  have path: "check_model_path (PStr (jc_model_path j)) = Inr (jc_model_path j)"
    using assms by (simp add: jc_wf_def check_model_path_def)
  have ints: "check_int (\<lambda>i. 0 < i) ''invalid_io_timeout'' (PInt (jc_io_timeout j)) = Inr (jc_io_timeout j)"
    "check_int (\<lambda>i. 0 < i) ''preflight_model_missing_size'' (PInt (jc_model_size j)) = Inr (jc_model_size j)"
    "check_int (\<lambda>i. 0 < i) ''invalid_rounds'' (PInt (jc_rounds j)) = Inr (jc_rounds j)"
    "check_int (\<lambda>i. 0 \<le> i) ''invalid_max_staleness'' (PInt (jc_max_staleness j)) = Inr (jc_max_staleness j)"
    using assms by (simp_all add: jc_wf_def)
  show ?thesis
    unfolding job_from_dict_def job_to_dict_def
    by (simp add: dget_default_def sha radio tmo mu mode nodes ids path ints
        del: check_mode_Inr check_target_nodes_Inr check_int_Inr)
qed

definition sample_job_id :: string where "sample_job_id = ''job_1''"

interpretation job_codec: wire_codec "\<lambda>j. PDict (job_to_dict j)" "job_from_dict sample_job_id" jc_wf
proof unfold_locales
  fix j show "jc_wf j \<Longrightarrow> job_from_dict sample_job_id (PDict (job_to_dict j)) = Inr j"
    by (rule job_roundtrip)
next
  fix v j assume "job_from_dict sample_job_id v = Inr j"
  then show "jc_wf j"
    by (rule job_from_dict_wf) (simp_all add: sample_job_id_def path_safe_char_def)
qed

section \<open>Guarantees\<close>

text \<open>C38: Job requests. Every accepted request is a well-formed job - distinct node identifiers from 1 to 10,
  a quota its mode allows, positive sizes, rounds and time-outs, path-safe identifiers, a legal radio
  configuration if one is given - and is accepted again, unchanged, from its own serialization.\<close>

theorem accepted_job_wf:
  assumes "job_from_dict fresh v = Inr j" and "fresh \<noteq> []" and "list_all path_safe_char fresh"
  shows "jc_wf j \<and> job_from_dict fresh' (PDict (job_to_dict j)) = Inr j"
  using job_from_dict_wf [OF assms] job_roundtrip by blast

definition sample_request :: pydict where
  "sample_request =
     [(''run_id'', PStr ''run_7''), (''io_timeout_seconds'', PInt 10),
      (''target_nodes'', PList [PInt 1, PInt 2]), (''model_path'', PStr ''m.bin''),
      (''model_size_bytes'', PInt 8), (''rounds'', PInt 3), (''live_observation'', PBool True)]"

definition sample_job :: job_config where
  "sample_job = (case job_from_dict sample_job_id (PDict sample_request) of Inr j \<Rightarrow> j)"

theorem accepted_job_wf_witness:
  "job_from_dict sample_job_id (PDict sample_request) = Inr sample_job \<and> jc_wf sample_job"
proof -
  have "is_ok (job_from_dict sample_job_id (PDict sample_request))" by code_simp
  then have j: "job_from_dict sample_job_id (PDict sample_request) = Inr sample_job"
    by (cases "job_from_dict sample_job_id (PDict sample_request)") (simp_all add: sample_job_def)
  have "sample_job_id \<noteq> []" "list_all path_safe_char sample_job_id" by code_simp+
  from accepted_job_wf [OF j this] j show ?thesis by blast
qed

end
