(* ===== verification/Coordinator.thy ===== *)
theory Coordinator
  imports Job_Config
begin

text \<open>
  \<open>FLCoordinator\<close> of \<^verbatim>\<open>wfb_ng/fl/coordinator.py\<close>: the rounds of a job in the synchronous, semi-synchronous
  and asynchronous modes. The coordinator runs in its own thread, and \<^verbatim>\<open>abort\<close> may be called by another
  one at any moment: a round's world says at which of the moments between two locked steps an abort
  comes. It also says what the runtime's \<^verbatim>\<open>publish_model\<close> and \<^verbatim>\<open>wait_for_updates\<close> do and what the
  aggregation function leaves at the output path. An event is its type and round; time stamps and
  durations are left out. The state is read and written as the code does, which includes the moments
  where it is written without a look at what it was.
\<close>

section \<open>State\<close>

datatype co_status =
    CoIdle | CoRunning | CoPublishing | CoWaiting | CoAggregating | CoSucceeded | CoFailed | CoAborted

record round_summary =
  rs_index :: nat
  rs_input :: string
  rs_input_sha :: string
  rs_output :: string
  rs_output_sha :: string
  rs_committed :: "int list"
  rs_dropped :: "int list"

record job_summary =
  js_status :: string
  js_completed :: nat
  js_final_path :: "string option"
  js_final_sha :: "string option"
  js_error_code :: "string option"

record coordinator =
  co_job :: job_config
  co_state :: co_status
  co_stop :: bool
  co_events :: "(string \<times> nat) list"
  co_rounds :: "round_summary list"
  co_summary :: "job_summary option"
  co_files :: "string \<Rightarrow> node"

definition coordinator_init :: "job_config \<Rightarrow> (string \<Rightarrow> node) \<Rightarrow> coordinator" where
  "coordinator_init j files =
     \<lparr>co_job = j, co_state = CoIdle, co_stop = False, co_events = [], co_rounds = [],
      co_summary = None, co_files = files\<rparr>"

definition emit_event :: "string \<Rightarrow> nat \<Rightarrow> coordinator \<Rightarrow> coordinator" where
  "emit_event t r c = c\<lparr>co_events := co_events c @ [(t, r)]\<rparr>"

definition set_state :: "co_status \<Rightarrow> coordinator \<Rightarrow> coordinator" where
  "set_state st c = c\<lparr>co_state := st\<rparr>"

definition is_regular :: "node \<Rightarrow> bool" where
  "is_regular n \<longleftrightarrow> (case n of Regular b st \<Rightarrow> True | Unreadable \<Rightarrow> True | _ \<Rightarrow> False)"

text \<open>\<^verbatim>\<open>_finalize_summary\<close>: the summary is kept in memory even when writing it fails.\<close>

definition audit_failed :: exn where
  "audit_failed = fl_error ''audit_persistence_failed'' ''cannot write the summary''"

definition finalize_summary ::
  "digest \<Rightarrow> bool \<Rightarrow> string \<Rightarrow> string option \<Rightarrow> string option \<Rightarrow> coordinator \<Rightarrow> exn option \<times> coordinator"
where
  "finalize_summary dig writable status code path c =
     (case (case path of
              None \<Rightarrow> Inr None
            | Some p \<Rightarrow> if is_regular (co_files c p)
                         then bind_res (file_sha256 dig (co_files c p)) (\<lambda>h. Inr (Some h)) else Inr None) of
        Inl e \<Rightarrow> (Some e, c)
      | Inr h \<Rightarrow>
          (let c = c\<lparr>co_summary := Some \<lparr>js_status = status, js_completed = length (co_rounds c),
                       js_final_path = path, js_final_sha = h, js_error_code = code\<rparr>\<rparr>
           in (if writable then None else Some audit_failed, c)))"

definition terminal :: "co_status \<Rightarrow> bool" where
  "terminal st \<longleftrightarrow> st \<in> {CoSucceeded, CoFailed, CoAborted}"

text \<open>\<^verbatim>\<open>abort\<close>, called from another thread.\<close>

definition abort_job :: "digest \<Rightarrow> bool \<Rightarrow> coordinator \<Rightarrow> exn option \<times> coordinator" where
  "abort_job dig writable c =
     (if terminal (co_state c) then (None, c)
      else finalize_summary dig writable ''aborted'' (Some ''aborted'') None
             (emit_event ''JOB_ABORTED'' 0 (c\<lparr>co_stop := True, co_state := CoAborted\<rparr>)))"

definition maybe_abort :: "digest \<Rightarrow> bool \<Rightarrow> coordinator \<Rightarrow> coordinator" where
  "maybe_abort dig b c = (if b then snd (abort_job dig True c) else c)"

section \<open>The synchronous loop\<close>

text \<open>When an abort comes: before the round, before the state is set for publishing, while
  publishing, before it is set for waiting, while waiting, before it is set for aggregating, while
  aggregating.\<close>

datatype abort_point =
  AbBefore | AbPublish | AbPublishing | AbWait | AbWaiting | AbAggregate | AbAggregating

record round_world =
  rw_abort :: "abort_point option"
  rw_publish :: "unit res"
  rw_updates :: "int list res"
  rw_aggregate :: "node res"

definition here :: "digest \<Rightarrow> round_world \<Rightarrow> abort_point \<Rightarrow> coordinator \<Rightarrow> coordinator" where
  "here dig w p c = maybe_abort dig (rw_abort w = Some p) c"

datatype loop_result = LoopReturn | LoopRaise exn | LoopNext string

text \<open>The artifact of a round, \<^verbatim>\<open>"global-model-round-%04d.bin"\<close> in the job's artifact directory.\<close>

definition artifact_path :: "nat \<Rightarrow> string" where
  "artifact_path r =
     ''global-model-round-'' @ replicate (4 - length (decimal r)) CHR ''0'' @ decimal r @ ''.bin''"

definition quorum_ok :: "bool \<Rightarrow> int \<Rightarrow> int list \<Rightarrow> int list \<Rightarrow> exn option" where
  "quorum_ok strict min_updates targets submitted =
     (if strict then
        (if set submitted \<noteq> set targets then Some (fl_error ''sync_quorum_failed'' ''missing nodes'') else None)
      else
        (if int (length submitted) < min_updates
         then Some (fl_error ''semi_async_quorum_failed'' ''quota'') else None))"

definition aggregate_round ::
  "digest \<Rightarrow> round_world \<Rightarrow> nat \<Rightarrow> string \<Rightarrow> string \<Rightarrow> int list \<Rightarrow> coordinator \<Rightarrow> loop_result \<times> coordinator"
where
  "aggregate_round dig w r path sha submitted c =
     (let dropped = sort (filter (\<lambda>n. n \<notin> set submitted) (jc_target_nodes (co_job c)));
          c = emit_event ''UPDATES_COLLECTED'' r c
      in if co_stop c then (LoopReturn, c)
      else
        let c = set_state CoAggregating (here dig w AbAggregate c);
            c = emit_event ''AGGREGATE_START'' r c;
            c = here dig w AbAggregating c;
            out = artifact_path r
        in case rw_aggregate w of
             Inl e \<Rightarrow> (LoopRaise e, c)
           | Inr n \<Rightarrow>
               let c = c\<lparr>co_files := (co_files c)(out := n)\<rparr> in
               (case file_sha256 dig n of
                  Inl e \<Rightarrow> (LoopRaise e, c)
                | Inr osha \<Rightarrow>
                    let c = emit_event ''AGGREGATION_COMPLETED'' r c;
                        c = c\<lparr>co_rounds := co_rounds c @
                               [\<lparr>rs_index = r, rs_input = path, rs_input_sha = sha, rs_output = out,
                                 rs_output_sha = osha, rs_committed = submitted, rs_dropped = dropped\<rparr>]\<rparr>
                    in (LoopNext out, emit_event ''ROUND_COMPLETED'' r c)))"

definition wait_round ::
  "digest \<Rightarrow> round_world \<Rightarrow> bool \<Rightarrow> int \<Rightarrow> nat \<Rightarrow> string \<Rightarrow> string \<Rightarrow> coordinator \<Rightarrow> loop_result \<times> coordinator"
where
  "wait_round dig w strict min_updates r path sha c =
     (if co_stop c then (LoopReturn, c)
      else
        let c = set_state CoWaiting (here dig w AbWait c);
            c = emit_event ''WAIT_FOR_UPDATES_START'' r c;
            c = here dig w AbWaiting c
        in case rw_updates w of
             Inl e \<Rightarrow> (LoopRaise e, c)
           | Inr nodes \<Rightarrow>
               let submitted = sort nodes in
               (case quorum_ok strict min_updates (jc_target_nodes (co_job c)) submitted of
                  Some e \<Rightarrow> (LoopRaise e, c)
                | None \<Rightarrow> aggregate_round dig w r path sha submitted c))"

definition run_round ::
  "digest \<Rightarrow> round_world \<Rightarrow> bool \<Rightarrow> int \<Rightarrow> nat \<Rightarrow> string \<Rightarrow> coordinator \<Rightarrow> loop_result \<times> coordinator"
where
  "run_round dig w strict min_updates r path c =
     (let c = here dig w AbBefore c in
      if co_stop c then (LoopReturn, c)
      else case file_sha256 dig (co_files c path) of
        Inl e \<Rightarrow> (LoopRaise e, c)
      | Inr sha \<Rightarrow>
          let c = emit_event ''ROUND_STARTED'' r c;
              c = set_state CoPublishing (here dig w AbPublish c);
              c = emit_event ''MODEL_PUBLISH_START'' r c;
              c = here dig w AbPublishing c
          in case rw_publish w of
               Inl e \<Rightarrow> (LoopRaise e, c)
             | Inr _ \<Rightarrow> wait_round dig w strict min_updates r path sha (emit_event ''MODEL_PUBLISHED'' r c))"

text \<open>The rounds \<open>r, r + 1, ...\<close>; the list of worlds has one entry per round left.\<close>

fun sync_loop ::
  "digest \<Rightarrow> bool \<Rightarrow> int \<Rightarrow> nat \<Rightarrow> string \<Rightarrow> round_world list \<Rightarrow> coordinator \<Rightarrow> exn option \<times> coordinator"
where
  "sync_loop dig strict m r path [] c = (None, c)"
| "sync_loop dig strict m r path (w # ws) c = (case run_round dig w strict m r path c of
     (LoopReturn, c') \<Rightarrow> (None, c')
   | (LoopRaise e, c') \<Rightarrow> (Some e, c')
   | (LoopNext out, c') \<Rightarrow> sync_loop dig strict m (Suc r) out ws c')"

section \<open>The asynchronous loop\<close>

text \<open>An update as the loop sees it: its node and the manifest beside it.\<close>

record async_world =
  aw_abort :: "abort_point option"
  aw_publish :: "unit res"
  aw_round_id :: "string option"
  aw_waits :: "(int \<times> json_file) list res list"
  aw_aggregate :: "node res"

definition invalid_update_manifest :: exn where
  "invalid_update_manifest = fl_error ''invalid_update_manifest'' ''unknown round''"

definition get_update_base_version :: "json_file \<Rightarrow> (string \<times> int) list \<Rightarrow> int res" where
  "get_update_base_version f versions =
     (if f = NoFile then Inl invalid_update_manifest
      else bind_res (read_json f) (\<lambda>v. case as_dict v of
          None \<Rightarrow> Inl (OtherException ''AttributeError'')
        | Some d \<Rightarrow> (case Option.bind (as_str (dget d ''round_id'')) (map_of versions) of
            Some k \<Rightarrow> Inr k | None \<Rightarrow> Inl invalid_update_manifest)))"

text \<open>Going through one batch of updates: the first acceptable one, and the events of the stale ones.\<close>

fun pick_update ::
  "int list \<Rightarrow> int \<Rightarrow> int \<Rightarrow> (string \<times> int) list \<Rightarrow> (int \<times> json_file) list \<Rightarrow>
   int option res \<times> int list" where
  "pick_update targets version stale versions [] = (Inr None, [])"
| "pick_update targets version stale versions ((n, f) # us) =
     (if n \<notin> set targets then pick_update targets version stale versions us
      else case get_update_base_version f versions of
        Inl e \<Rightarrow> (Inl e, [])
      | Inr base \<Rightarrow>
          if stale < max 0 (version - base)
          then (case pick_update targets version stale versions us of (r, rej) \<Rightarrow> (r, n # rej))
          else (Inr (Some n), []))"

text \<open>The waits made before the deadline; the abort comes during the first.\<close>

fun async_waits ::
  "nat \<Rightarrow> int \<Rightarrow> (string \<times> int) list \<Rightarrow> (int \<times> json_file) list res list \<Rightarrow> coordinator \<Rightarrow>
   int option res \<times> coordinator" where
  "async_waits r version versions [] c = (Inr None, c)"
| "async_waits r version versions (u # us) c =
     (case u of
        Inl e \<Rightarrow> (Inl e, c)
      | Inr batch \<Rightarrow>
          (case pick_update (jc_target_nodes (co_job c)) version (jc_max_staleness (co_job c)) versions batch of
             (res, rej) \<Rightarrow>
               (let c = c\<lparr>co_events := co_events c @ map (\<lambda>_. (''UPDATE_REJECTED_STALE'', r)) rej\<rparr> in
                case res of
                  Inl e \<Rightarrow> (Inl e, c)
                | Inr (Some n) \<Rightarrow> (Inr (Some n), c)
                | Inr None \<Rightarrow> if co_stop c then (Inr None, c) else async_waits r version versions us c)))"

definition finish_async_step ::
  "digest \<Rightarrow> nat \<Rightarrow> string \<Rightarrow> string \<Rightarrow> string \<Rightarrow> int list \<Rightarrow> coordinator \<Rightarrow> exn option \<times> coordinator" where
  "finish_async_step dig r input sha current committed c =
     (case file_sha256 dig (co_files c current) of
        Inl e \<Rightarrow> (Some e, c)
      | Inr osha \<Rightarrow>
          (None, emit_event ''ASYNC_STEP_COMPLETED'' r
             (c\<lparr>co_rounds := co_rounds c @
                 [\<lparr>rs_index = r, rs_input = input, rs_input_sha = sha, rs_output = current,
                   rs_output_sha = osha, rs_committed = committed,
                   rs_dropped = sort (filter (\<lambda>n. n \<notin> set committed) (jc_target_nodes (co_job c)))\<rparr>]\<rparr>)))"

datatype step_result = StepReturn | StepRaise exn | StepNext string int "(string \<times> int) list"

definition async_step ::
  "digest \<Rightarrow> async_world \<Rightarrow> nat \<Rightarrow> string \<Rightarrow> string \<Rightarrow> int \<Rightarrow> (string \<times> int) list \<Rightarrow> coordinator \<Rightarrow>
   step_result \<times> coordinator" where
  "async_step dig w r input current version versions c =
     (let c = maybe_abort dig (aw_abort w = Some AbBefore) c in
      if co_stop c then (StepReturn, c)
      else case file_sha256 dig (co_files c current) of
        Inl e \<Rightarrow> (StepRaise e, c)
      | Inr sha \<Rightarrow>
          let c = emit_event ''ASYNC_STEP_START'' r c;
              c = set_state CoPublishing (maybe_abort dig (aw_abort w = Some AbPublish) c);
              c = maybe_abort dig (aw_abort w = Some AbPublishing) c
          in case aw_publish w of
               Inl e \<Rightarrow> (StepRaise e, c)
             | Inr _ \<Rightarrow>
                 let versions = (case aw_round_id w of None \<Rightarrow> versions
                                 | Some rid \<Rightarrow> AList.update rid version versions)
                 in if co_stop c then (StepReturn, c)
                 else
                   let c = set_state CoWaiting (maybe_abort dig (aw_abort w = Some AbWait) c);
                       waits = (if co_stop c then [] else aw_waits w);
                       c = maybe_abort dig (aw_abort w = Some AbWaiting) c
                   in case async_waits r version versions waits c of
                        (Inl e, c) \<Rightarrow> (StepRaise e, c)
                      | (Inr (Some n), c) \<Rightarrow>
                          let c = set_state CoAggregating (maybe_abort dig (aw_abort w = Some AbAggregate) c);
                              c = maybe_abort dig (aw_abort w = Some AbAggregating) c;
                              out = artifact_path r
                          in (case aw_aggregate w of
                                Inl e \<Rightarrow> (StepRaise e, c)
                              | Inr nd \<Rightarrow>
                                  (case finish_async_step dig r input sha out [n]
                                          (c\<lparr>co_files := (co_files c)(out := nd)\<rparr>) of
                                     (Some e, c) \<Rightarrow> (StepRaise e, c)
                                   | (None, c) \<Rightarrow> (StepNext out (version + 1) versions, c)))
                      | (Inr None, c) \<Rightarrow>
                          if \<not> co_stop c
                          then (StepRaise (fl_error ''async_step_timeout'' ''no valid update''), c)
                          else (case finish_async_step dig r input sha current [] c of
                              (Some e, c) \<Rightarrow> (StepRaise e, c)
                            | (None, c) \<Rightarrow> (StepNext current version versions, c)))"

text \<open>The input path a summary names: the initial model in the first step, then the last output.\<close>

fun async_loop ::
  "digest \<Rightarrow> nat \<Rightarrow> string \<Rightarrow> string \<Rightarrow> int \<Rightarrow> (string \<times> int) list \<Rightarrow> async_world list \<Rightarrow> coordinator \<Rightarrow>
   exn option \<times> coordinator" where
  "async_loop dig r input current version versions [] c = (None, c)"
| "async_loop dig r input current version versions (w # ws) c =
     (case async_step dig w r input current version versions c of
        (StepReturn, c') \<Rightarrow> (None, c')
      | (StepRaise e, c') \<Rightarrow> (Some e, c')
      | (StepNext out v vs, c') \<Rightarrow> async_loop dig (Suc r) out out v vs ws c')"

section \<open>The job\<close>

record run_world =
  ru_rounds :: "round_world list"
  ru_steps :: "async_world list"
  ru_writable :: bool
  ru_writable2 :: bool
  ru_abort_end :: bool

definition run_loop :: "digest \<Rightarrow> run_world \<Rightarrow> coordinator \<Rightarrow> exn option \<times> coordinator" where
  "run_loop dig u c =
     (let j = co_job c; n = nat (jc_rounds j); all = int (length (jc_target_nodes j)) in
      case jc_mode j of
        SyncMode \<Rightarrow> sync_loop dig True all 1 (jc_model_path j) (take n (ru_rounds u)) c
      | SemiAsyncMode \<Rightarrow>
          sync_loop dig False (if jc_min_updates j = 0 then all else jc_min_updates j) 1
            (jc_model_path j) (take n (ru_rounds u)) c
      | AsyncMode \<Rightarrow>
          async_loop dig 1 (jc_model_path j) (jc_model_path j) 1 [] (take n (ru_steps u)) c)"

definition fail_code :: "exn \<Rightarrow> string" where
  "fail_code e = (case e of FLRuntimeError c _ _ _ \<Rightarrow> c | _ \<Rightarrow> ''coordinator_internal_error'')"

definition wrapped :: "exn \<Rightarrow> exn" where
  "wrapped e = (case e of FLRuntimeError _ _ _ _ \<Rightarrow> e
     | _ \<Rightarrow> fl_error ''coordinator_internal_error'' (exn_str e))"

text \<open>The \<^verbatim>\<open>except\<close> clauses: an aborted job returns its summary, any other fails.\<close>

definition run_failed :: "digest \<Rightarrow> bool \<Rightarrow> exn \<Rightarrow> coordinator \<Rightarrow> unit res \<times> coordinator" where
  "run_failed dig writable e c =
     (if co_state c = CoAborted then (Inr (), c)
      else case finalize_summary dig writable ''failed'' (Some (fail_code e)) None (set_state CoFailed c) of
        (Some e', c') \<Rightarrow> (Inl e', c')
      | (None, c') \<Rightarrow> (Inl (wrapped e), emit_event ''JOB_FAILED'' 0 c'))"

definition final_path :: "coordinator \<Rightarrow> string" where
  "final_path c = (if co_rounds c = [] then jc_model_path (co_job c) else rs_output (last (co_rounds c)))"

definition run_job :: "digest \<Rightarrow> run_world \<Rightarrow> coordinator \<Rightarrow> unit res \<times> coordinator" where
  "run_job dig u c =
     (if co_state c = CoAborted then (Inr (), c)
      else
        let c = emit_event ''JOB_STARTED'' 0 (set_state CoRunning c) in
        if \<not> is_regular (co_files c (jc_model_path (co_job c))) then
          (case finalize_summary dig (ru_writable u) ''failed'' (Some ''model_file_missing'') None
                  (set_state CoFailed c) of
             (Some e, c') \<Rightarrow> (Inl e, c')
           | (None, c') \<Rightarrow> (Inl (fl_error ''model_file_missing'' ''model file''), c'))
        else (case run_loop dig u c of
            (Some e, c') \<Rightarrow> run_failed dig (ru_writable u) e c'
          | (None, c') \<Rightarrow>
              (let c' = maybe_abort dig (ru_abort_end u) c' in
               if co_state c' = CoAborted then (Inr (), c')
               else case finalize_summary dig (ru_writable u) ''succeeded'' None (Some (final_path c'))
                      (set_state CoSucceeded c') of
                 (Some e, c'') \<Rightarrow> run_failed dig (ru_writable2 u) e c''
               | (None, c'') \<Rightarrow> (Inr (), emit_event ''JOB_COMPLETED'' 0 c''))))"

text \<open>\<^verbatim>\<open>start\<close> and \<^verbatim>\<open>_run_wrapper\<close>: the exit code, and whether a callback is due.\<close>

definition run_wrapper :: "digest \<Rightarrow> run_world \<Rightarrow> coordinator \<Rightarrow> int \<times> coordinator" where
  "run_wrapper dig u c = (case run_job dig u c of
     (Inr _, c') \<Rightarrow> (if co_state c' = CoSucceeded then 0 else 1, c')
   | (Inl e, c') \<Rightarrow> (1, c'))"

definition start_coordinator :: "coordinator \<Rightarrow> unit res" where
  "start_coordinator c =
     (if co_state c = CoIdle then Inr ()
      else Inl (fl_error ''coordinator_already_started'' ''already started''))"

section \<open>What an abort leaves alone\<close>

lemma emit_event_simps [simp]:
  "co_state (emit_event t r c) = co_state c" "co_stop (emit_event t r c) = co_stop c"
  "co_rounds (emit_event t r c) = co_rounds c" "co_files (emit_event t r c) = co_files c"
  "co_job (emit_event t r c) = co_job c" "co_summary (emit_event t r c) = co_summary c"
  by (simp_all add: emit_event_def)

lemma set_state_simps [simp]:
  "co_state (set_state st c) = st" "co_stop (set_state st c) = co_stop c"
  "co_rounds (set_state st c) = co_rounds c" "co_files (set_state st c) = co_files c"
  "co_job (set_state st c) = co_job c" "co_summary (set_state st c) = co_summary c"
  by (simp_all add: set_state_def)

lemma finalize_same:
  "finalize_summary dig w st code path c = (e, c') \<Longrightarrow>
   co_state c' = co_state c \<and> co_stop c' = co_stop c \<and> co_rounds c' = co_rounds c \<and>
   co_files c' = co_files c \<and> co_job c' = co_job c"
  by (auto simp: finalize_summary_def Let_def split: sum.splits)

lemma finalize_no_path:
  "finalize_summary dig w st code None c =
   (if w then None else Some audit_failed,
    c\<lparr>co_summary := Some \<lparr>js_status = st, js_completed = length (co_rounds c), js_final_path = None,
        js_final_sha = None, js_error_code = code\<rparr>\<rparr>)"
  by (simp add: finalize_summary_def Let_def)

definition aborted_summary :: "coordinator \<Rightarrow> job_summary" where
  "aborted_summary c = \<lparr>js_status = ''aborted'', js_completed = length (co_rounds c),
     js_final_path = None, js_final_sha = None, js_error_code = Some ''aborted''\<rparr>"

lemma abort_job_eq:
  "snd (abort_job dig True c) =
   (if terminal (co_state c) then c
    else (emit_event ''JOB_ABORTED'' 0 (c\<lparr>co_stop := True, co_state := CoAborted\<rparr>))
           \<lparr>co_summary := Some (aborted_summary c)\<rparr>)"
  by (simp add: abort_job_def finalize_no_path aborted_summary_def)

lemma maybe_abort_simps [simp]:
  "co_rounds (maybe_abort dig b c) = co_rounds c" "co_files (maybe_abort dig b c) = co_files c"
  "co_job (maybe_abort dig b c) = co_job c"
  by (simp_all add: maybe_abort_def abort_job_eq)

lemma here_simps [simp]:
  "co_rounds (here dig w p c) = co_rounds c" "co_files (here dig w p c) = co_files c"
  "co_job (here dig w p c) = co_job c"
  by (simp_all add: here_def)

section \<open>The rounds of a synchronous job\<close>

text \<open>What a completed round records.\<close>

definition round_done ::
  "digest \<Rightarrow> bool \<Rightarrow> int \<Rightarrow> nat \<Rightarrow> string \<Rightarrow> coordinator \<Rightarrow> round_summary \<Rightarrow> coordinator \<Rightarrow> bool" where
  "round_done dig strict m r path c x c' \<longleftrightarrow>
     co_rounds c' = co_rounds c @ [x] \<and> co_job c' = co_job c \<and> rs_index x = r \<and> rs_input x = path \<and>
     file_sha256 dig (co_files c path) = Inr (rs_input_sha x) \<and>
     file_sha256 dig (co_files c' (rs_output x)) = Inr (rs_output_sha x) \<and>
     quorum_ok strict m (jc_target_nodes (co_job c)) (rs_committed x) = None \<and>
     rs_dropped x = sort (filter (\<lambda>n. n \<notin> set (rs_committed x)) (jc_target_nodes (co_job c)))"

lemma aggregate_round_next:
  "aggregate_round dig w r path sha submitted c = (LoopNext out, c') \<Longrightarrow>
   \<exists>x. co_rounds c' = co_rounds c @ [x] \<and> co_job c' = co_job c \<and> rs_index x = r \<and> rs_input x = path \<and>
     rs_input_sha x = sha \<and> rs_output x = out \<and> rs_committed x = submitted \<and>
     file_sha256 dig (co_files c' out) = Inr (rs_output_sha x) \<and>
     rs_dropped x = sort (filter (\<lambda>n. n \<notin> set submitted) (jc_target_nodes (co_job c)))"
  by (auto simp: aggregate_round_def Let_def split: if_splits sum.splits)

lemma wait_round_next:
  assumes "wait_round dig w strict m r path sha c = (LoopNext out, c')"
  shows "\<exists>x. co_rounds c' = co_rounds c @ [x] \<and> co_job c' = co_job c \<and> rs_index x = r \<and> rs_input x = path \<and>
     rs_input_sha x = sha \<and> rs_output x = out \<and>
     quorum_ok strict m (jc_target_nodes (co_job c)) (rs_committed x) = None \<and>
     file_sha256 dig (co_files c' out) = Inr (rs_output_sha x) \<and>
     rs_dropped x = sort (filter (\<lambda>n. n \<notin> set (rs_committed x)) (jc_target_nodes (co_job c)))"
  using assms
  by (auto simp: wait_round_def Let_def split: if_splits sum.splits option.splits
      dest!: aggregate_round_next)

lemma run_round_next:
  assumes "run_round dig w strict m r path c = (LoopNext out, c')"
  shows "\<exists>x. rs_output x = out \<and> round_done dig strict m r path c x c'"
  using assms
  by (auto simp: run_round_def Let_def round_done_def split: if_splits sum.splits dest!: wait_round_next)

text \<open>A chain of rounds: consecutive numbers, each starting from the model the one before produced.\<close>

fun chained :: "nat \<Rightarrow> string \<Rightarrow> string option \<Rightarrow> round_summary list \<Rightarrow> bool" where
  "chained r path sha [] \<longleftrightarrow> True"
| "chained r path sha (x # xs) \<longleftrightarrow>
     rs_index x = r \<and> rs_input x = path \<and> (case sha of None \<Rightarrow> True | Some h \<Rightarrow> rs_input_sha x = h) \<and>
     chained (Suc r) (rs_output x) (Some (rs_output_sha x)) xs"

lemma chained_append:
  "chained r path sha (xs @ [x]) \<longleftrightarrow>
   chained r path sha xs \<and> rs_index x = r + length xs \<and>
   (if xs = [] then rs_input x = path \<and> (case sha of None \<Rightarrow> True | Some h \<Rightarrow> rs_input_sha x = h)
    else rs_input x = rs_output (last xs) \<and> rs_input_sha x = rs_output_sha (last xs))"
  by (induction xs arbitrary: r path sha) auto

definition good_rounds :: "digest \<Rightarrow> bool \<Rightarrow> int \<Rightarrow> string \<Rightarrow> string \<Rightarrow> coordinator \<Rightarrow> bool" where
  "good_rounds dig strict m start current c \<longleftrightarrow>
     chained 1 start None (co_rounds c) \<and>
     (\<forall>x \<in> set (co_rounds c). quorum_ok strict m (jc_target_nodes (co_job c)) (rs_committed x) = None \<and>
        rs_dropped x = sort (filter (\<lambda>n. n \<notin> set (rs_committed x)) (jc_target_nodes (co_job c)))) \<and>
     (if co_rounds c = [] then current = start
      else current = rs_output (last (co_rounds c)) \<and>
        file_sha256 dig (co_files c current) = Inr (rs_output_sha (last (co_rounds c))))"

lemma good_rounds_next:
  assumes good: "good_rounds dig strict m start path c" and r: "r = Suc (length (co_rounds c))"
    and x: "round_done dig strict m r path c x c'"
  shows "good_rounds dig strict m start (rs_output x) c'"
  using assms by (auto simp: good_rounds_def round_done_def chained_append split: if_splits)

lemma sync_loop_good:
  assumes "sync_loop dig strict m r path ws c = (None, c')" and "\<not> co_stop c'"
    and "good_rounds dig strict m start path c" and "r = Suc (length (co_rounds c))"
  shows "\<exists>path'. good_rounds dig strict m start path' c' \<and>
    length (co_rounds c') = length (co_rounds c) + length ws \<and> co_job c' = co_job c"
  using assms
proof (induction ws arbitrary: r path c)
  case Nil
  then show ?case by auto
next
  case (Cons w ws)
  obtain res c1 where rr: "run_round dig w strict m r path c = (res, c1)" by fastforce
  show ?case
  proof (cases res)
    case LoopReturn
    with rr have "co_stop c1"
      by (auto simp: run_round_def wait_round_def aggregate_round_def Let_def
          split: if_splits sum.splits option.splits)
    with LoopReturn rr Cons.prems show ?thesis by simp
  next
    case (LoopRaise e)
    with rr Cons.prems show ?thesis by simp
  next
    case (LoopNext out)
    with run_round_next rr obtain x where x: "rs_output x = out" "round_done dig strict m r path c x c1"
      by blast
    from good_rounds_next [OF Cons.prems(3,4) x(2)] x(1) have "good_rounds dig strict m start out c1"
      by simp
    moreover have "length (co_rounds c1) = Suc (length (co_rounds c))" "co_job c1 = co_job c"
      using x(2) by (simp_all add: round_done_def)
    ultimately show ?thesis
      using Cons.IH [of "Suc r" out c1] Cons.prems rr LoopNext by auto
  qed
qed

section \<open>Aborts\<close>

text \<open>An abort is final as long as no state is written over it.\<close>

definition is_aborted :: "coordinator \<Rightarrow> bool" where
  "is_aborted c \<longleftrightarrow> co_state c = CoAborted \<and>
     (\<exists>x. co_summary c = Some x \<and> js_status x = ''aborted'' \<and> js_error_code x = Some ''aborted'')"

definition stop_inv :: "coordinator \<Rightarrow> bool" where
  "stop_inv c \<longleftrightarrow> (co_stop c \<longrightarrow> is_aborted c) \<and> \<not> (co_state c \<in> {CoSucceeded, CoFailed})"

definition race_free :: "abort_point option \<Rightarrow> bool" where
  "race_free p \<longleftrightarrow> p \<notin> {Some AbPublish, Some AbWait, Some AbAggregate}"

lemma maybe_abort_inv: "stop_inv c \<Longrightarrow> stop_inv (maybe_abort dig b c)"
  by (auto simp: stop_inv_def is_aborted_def maybe_abort_def abort_job_eq aborted_summary_def)

lemma here_inv: "stop_inv c \<Longrightarrow> stop_inv (here dig w p c)"
  by (simp add: here_def maybe_abort_inv)

lemma here_race_free:
  "race_free (rw_abort w) \<Longrightarrow> p \<in> {AbPublish, AbWait, AbAggregate} \<Longrightarrow> here dig w p c = c"
  by (auto simp: here_def maybe_abort_def race_free_def)

lemma stop_inv_event [simp]: "stop_inv (emit_event t r c) = stop_inv c"
  by (simp add: stop_inv_def is_aborted_def)

lemma stop_inv_upd [simp]:
  "stop_inv (c\<lparr>co_files := f\<rparr>) = stop_inv c" "stop_inv (c\<lparr>co_rounds := x\<rparr>) = stop_inv c"
  by (simp_all add: stop_inv_def is_aborted_def)

lemma stop_inv_set_state:
  "stop_inv c \<Longrightarrow> \<not> co_stop c \<Longrightarrow> st \<notin> {CoSucceeded, CoFailed} \<Longrightarrow> stop_inv (set_state st c)"
  by (simp add: stop_inv_def)

lemma aggregate_round_stop:
  assumes "aggregate_round dig w r path sha submitted c = (res, c')" and "stop_inv c" and rf: "race_free (rw_abort w)"
  shows "stop_inv c'"
proof -
  have "\<not> co_stop c \<Longrightarrow> stop_inv (here dig w AbAggregating
      (emit_event ''AGGREGATE_START'' r (set_state CoAggregating (emit_event ''UPDATES_COLLECTED'' r c))))"
    using assms(2) by (intro here_inv) (simp add: stop_inv_set_state)
  with assms show ?thesis
    by (auto simp: aggregate_round_def Let_def here_race_free [OF rf] split: if_splits sum.splits)
qed

lemma wait_round_stop:
  assumes "wait_round dig w strict m r path sha c = (res, c')" and "stop_inv c" and rf: "race_free (rw_abort w)"
  shows "stop_inv c'"
proof -
  have "\<not> co_stop c \<Longrightarrow> stop_inv (here dig w AbWaiting
      (emit_event ''WAIT_FOR_UPDATES_START'' r (set_state CoWaiting c)))"
    using assms(2) by (intro here_inv) (simp add: stop_inv_set_state)
  with assms show ?thesis
    by (auto simp: wait_round_def Let_def here_race_free [OF rf] split: if_splits sum.splits option.splits
        dest: aggregate_round_stop [OF _ _ rf])
qed

lemma run_round_stop:
  assumes "run_round dig w strict m r path c = (res, c')" and "stop_inv c" and rf: "race_free (rw_abort w)"
  shows "stop_inv c'"
proof -
  define c1 where "c1 = here dig w AbBefore c"
  define c2 where "c2 = here dig w AbPublishing
      (emit_event ''MODEL_PUBLISH_START'' r (set_state CoPublishing (emit_event ''ROUND_STARTED'' r c1)))"
  have i1: "stop_inv c1" using assms(2) by (simp add: c1_def here_inv)
  then have i2: "\<not> co_stop c1 \<Longrightarrow> stop_inv c2"
    by (simp add: c2_def here_inv stop_inv_set_state)
  have "run_round dig w strict m r path c =
     (if co_stop c1 then (LoopReturn, c1)
      else case file_sha256 dig (co_files c1 path) of
        Inl e \<Rightarrow> (LoopRaise e, c1)
      | Inr sha \<Rightarrow> (case rw_publish w of
          Inl e \<Rightarrow> (LoopRaise e, c2)
        | Inr _ \<Rightarrow> wait_round dig w strict m r path sha (emit_event ''MODEL_PUBLISHED'' r c2)))"
    unfolding run_round_def c2_def Let_def c1_def [symmetric] here_race_free [OF rf insertI1] ..
  with assms(1) i1 i2 show ?thesis
    by (auto split: if_splits sum.splits dest!: wait_round_stop [OF _ _ rf])
qed

lemma sync_loop_stop:
  "sync_loop dig strict m r path ws c = (res, c') \<Longrightarrow> stop_inv c \<Longrightarrow>
   list_all (\<lambda>w. race_free (rw_abort w)) ws \<Longrightarrow> stop_inv c'"
proof (induction ws arbitrary: r path c)
  case (Cons w ws)
  obtain x c1 where rr: "run_round dig w strict m r path c = (x, c1)" by fastforce
  from Cons.prems have "stop_inv c1" by (intro run_round_stop [OF rr]) simp_all
  with Cons rr show ?case by (auto split: loop_result.splits)
qed simp

section \<open>Staleness in the asynchronous loop\<close>

text \<open>What \<open>ServerRuntime\<close> returns for the round just published: manifests of that round.\<close>

definition batch_of_round :: "string \<Rightarrow> (int \<times> json_file) list \<Rightarrow> bool" where
  "batch_of_round rid us \<longleftrightarrow>
     (\<forall>(n, f) \<in> set us. \<exists>d. f = Json (PDict d) \<and> dget d ''round_id'' = PStr rid)"

lemma base_version_current:
  "f = Json (PDict d) \<Longrightarrow> dget d ''round_id'' = PStr rid \<Longrightarrow>
   get_update_base_version f (AList.update rid version versions) = Inr version"
  by (simp add: get_update_base_version_def read_json_def)

lemma pick_update_fresh:
  assumes "batch_of_round rid us" and "0 \<le> stale"
  shows "pick_update targets version stale (AList.update rid version versions) us =
    (Inr (case filter (\<lambda>(n, _). n \<in> set targets) us of [] \<Rightarrow> None | (n, _) # _ \<Rightarrow> Some n), [])"
  using assms(1)
proof (induction us)
  case (Cons u us)
  obtain n f where u: "u = (n, f)" by (cases u)
  with Cons.prems obtain d where d: "f = Json (PDict d)" "dget d ''round_id'' = PStr rid"
    by (auto simp: batch_of_round_def)
  from Cons.prems have "batch_of_round rid us" by (simp add: batch_of_round_def)
  with Cons.IH u base_version_current [OF d] assms(2) show ?case by simp
qed simp

section \<open>The end of a job\<close>

lemma run_failed_Inr: "run_failed dig w e c = (Inr (), c') \<Longrightarrow> co_state c' = CoAborted \<and> c' = c"
  by (auto simp: run_failed_def split: if_splits prod.splits option.splits)

lemma finalize_summary_None:
  "finalize_summary dig w st code path c = (None, c') \<Longrightarrow>
   \<exists>h. co_summary c' = Some \<lparr>js_status = st, js_completed = length (co_rounds c), js_final_path = path,
         js_final_sha = h, js_error_code = code\<rparr> \<and>
     (\<forall>p x. path = Some p \<and> file_sha256 dig (co_files c p) = Inr x \<longrightarrow> h = Some x)"
  by (auto simp: finalize_summary_def Let_def file_sha256_def is_regular_def
      split: sum.splits if_splits option.splits node.splits)

text \<open>A run that returns: it succeeded after its loop, or it was aborted.\<close>

lemma run_job_returns:
  assumes r: "run_job dig u c = (Inr (), c')" and start: "co_state c \<noteq> CoAborted"
  obtains (finished) c1 c2 where "run_loop dig u (emit_event ''JOB_STARTED'' 0 (set_state CoRunning c)) = (None, c1)"
      "co_state (maybe_abort dig (ru_abort_end u) c1) \<noteq> CoAborted"
      "finalize_summary dig (ru_writable u) ''succeeded'' None
         (Some (final_path (maybe_abort dig (ru_abort_end u) c1)))
         (set_state CoSucceeded (maybe_abort dig (ru_abort_end u) c1)) = (None, c2)"
      "c' = emit_event ''JOB_COMPLETED'' 0 c2"
  | (aborted) "co_state c' = CoAborted"
  using assms
  by (auto simp: run_job_def Let_def split: if_splits prod.splits option.splits dest: run_failed_Inr)

lemma maybe_abort_stop: "\<not> co_stop (maybe_abort dig b c) \<Longrightarrow> \<not> co_stop c"
  by (auto simp: maybe_abort_def abort_job_eq split: if_splits)

lemma run_loop_sync:
  "jc_mode (co_job c) = SyncMode \<Longrightarrow>
   run_loop dig u c = sync_loop dig True (int (length (jc_target_nodes (co_job c)))) 1 (jc_model_path (co_job c))
     (take (nat (jc_rounds (co_job c))) (ru_rounds u)) c"
  by (simp add: run_loop_def Let_def)

section \<open>Guarantees\<close>


definition model_node :: node where
  "model_node = Regular [1] \<lparr>st_dev = 1, st_ino = 1, st_size = 1, st_mtime_ns = 1\<rparr>"

definition fine_round :: "abort_point option \<Rightarrow> round_world" where
  "fine_round a = \<lparr>rw_abort = a, rw_publish = Inr (), rw_updates = Inr [1, 2], rw_aggregate = Inr model_node\<rparr>"

definition fine_run :: "round_world list \<Rightarrow> run_world" where
  "fine_run ws = \<lparr>ru_rounds = ws, ru_steps = [], ru_writable = True, ru_writable2 = True, ru_abort_end = False\<rparr>"

definition fine_coordinator :: coordinator where
  "fine_coordinator = coordinator_init sample_job (\<lambda>p. if p = ''m.bin'' then model_node else Absent)"

definition length_digest :: digest where
  "length_digest b = replicate (length b) (CHR ''a'')"




text \<open>An abort can be reported as success. If the abort of a three-round job falls between the check of
  the stop flag and the state being set for aggregating, its state is overwritten: the job ends with
  exit code 0 in the state succeeded, with a summary that says so, after a single round.\<close>

theorem abort_race_reports_success:
  "\<exists>u c'. run_wrapper length_digest u fine_coordinator = (0, c') \<and> jc_rounds (co_job fine_coordinator) = 3 \<and>
     length (ru_rounds u) = 3 \<and> co_stop c' \<and> co_state c' = CoSucceeded \<and> length (co_rounds c') = 1 \<and>
     map_option js_status (co_summary c') = Some ''succeeded''"
proof -
  let ?u = "fine_run [fine_round (Some AbAggregate), fine_round None, fine_round None]"
  obtain x c' where run: "run_wrapper length_digest ?u fine_coordinator = (x, c')" by fastforce
  have "(case run_wrapper length_digest ?u fine_coordinator of (x, c') \<Rightarrow>
      x = 0 \<and> co_stop c' \<and> co_state c' = CoSucceeded \<and> length (co_rounds c') = 1 \<and>
      map_option js_status (co_summary c') = Some ''succeeded'')"
    by code_simp
  moreover have "jc_rounds (co_job fine_coordinator) = 3" by code_simp
  moreover have "length (ru_rounds ?u) = 3" by (simp add: fine_run_def)
  ultimately show ?thesis using run by (intro exI [of _ ?u] exI [of _ c']) simp
qed

text \<open>The staleness bound never rejects anything. Whatever bound the job sets, when the updates of a
  wait belong to the round just published - and the runtime checks that they do - their base version
  is the current one, so the first update of a target node is taken and none is ever called stale.\<close>

theorem staleness_never_rejects:
  assumes "batch_of_round rid us" and "0 \<le> stale"
  shows "pick_update targets version stale (AList.update rid version versions) us =
    (Inr (case filter (\<lambda>(n, _). n \<in> set targets) us of [] \<Rightarrow> None | (n, _) # _ \<Rightarrow> Some n), [])"
  by (rule pick_update_fresh [OF assms])

theorem staleness_never_rejects_witness:
  "pick_update [1, 2] 7 0 (AList.update ''r7'' 7 [(''r6'', 6)])
     [(9, Json (PDict [(''round_id'', PStr ''r7'')])), (2, Json (PDict [(''round_id'', PStr ''r7'')]))]
   = (Inr (Some 2), [])"
  by (subst staleness_never_rejects) (auto simp: batch_of_round_def)

end
