(* ===== verification/Radio_Survey.thy ===== *)
theory Radio_Survey
  imports Radio_Params "HOL-Library.Word" "HOL-Library.Product_Lexorder" "HOL-Library.Multiset"
begin

unbundle bit_operations_syntax

text \<open>
  The spectrum survey of \<^verbatim>\<open>wfb_ng/fl/radio.py\<close>: which captured frames count as foreign
  (\<open>is_foreign_80211_frame\<close>, on the bytes of a radiotap capture), the counting of a capture, the
  density classes, and \<open>survey_spectrum\<close>, which measures the four allowed channels, ranks them and
  recommends the cleanest. The measuring backend is a parameter: what its \<^verbatim>\<open>prepare\<close>,
  \<^verbatim>\<open>count_frames\<close> and \<^verbatim>\<open>finish\<close> do is a result each, with \<^verbatim>\<open>finish\<close> always called once
  \<^verbatim>\<open>prepare\<close> has succeeded.
\<close>

section \<open>Frames\<close>

type_synonym byte = "8 word"

definition WFB_MAC_PREFIX :: "byte list" where
  "WFB_MAC_PREFIX = [0x57, 0x42]"

definition PACKET_OUTGOING :: int where
  "PACKET_OUTGOING = 4"

text \<open>\<^verbatim>\<open>data[i:j]\<close>.\<close>

definition slice :: "nat \<Rightarrow> nat \<Rightarrow> 'a list \<Rightarrow> 'a list" where
  "slice i j xs = take (j - i) (drop i xs)"

definition is_our_address :: "byte list \<Rightarrow> byte list option \<Rightarrow> bool" where
  "is_our_address addr local_mac \<longleftrightarrow>
     (case local_mac of None \<Rightarrow> False | Some m \<Rightarrow> m \<noteq> [] \<and> addr = m) \<or>
     take (length WFB_MAC_PREFIX) addr = WFB_MAC_PREFIX"

text \<open>A little-endian 16-bit field at offset \<open>i\<close>, as \<^verbatim>\<open>struct.unpack_from("<H", ...)\<close> reads it.\<close>

definition u16_le :: "byte list \<Rightarrow> nat \<Rightarrow> 16 word" where
  "u16_le xs i = ucast (xs ! i) OR push_bit 8 (ucast (xs ! Suc i))"

definition fc_proto_ver :: "16 word \<Rightarrow> 16 word" where "fc_proto_ver fc = fc AND 0x03"
definition fc_type :: "16 word \<Rightarrow> 16 word" where "fc_type fc = drop_bit 2 fc AND 0x03"
definition fc_subtype :: "16 word \<Rightarrow> 16 word" where "fc_subtype fc = drop_bit 4 fc AND 0x0F"

text \<open>The verdict on the 802.11 part, past the radiotap header.\<close>

definition foreign_mac_payload :: "byte list \<Rightarrow> byte list option \<Rightarrow> bool" where
  "foreign_mac_payload p local_mac =
     (if length p < 10 then False
      else
        let fc = u16_le p 0; ftype = fc_type fc; fsub = fc_subtype fc in
        if fc_proto_ver fc \<noteq> 0 then False
        else if ftype = 1 then
          (if fsub = 12 \<or> fsub = 13 then
             (if length p < 10 then False else \<not> is_our_address (slice 4 10 p) local_mac)
           else if length p < 16 then False else \<not> is_our_address (slice 10 16 p) local_mac)
        else if ftype = 0 \<or> ftype = 2 then
          (if length p < 24 then False else \<not> is_our_address (slice 10 16 p) local_mac)
        else False)"

definition is_foreign_80211_frame :: "byte list \<Rightarrow> int \<Rightarrow> byte list option \<Rightarrow> bool" where
  "is_foreign_80211_frame data pkttype local_mac =
     (if pkttype = PACKET_OUTGOING then False
      else if length data < 8 then False
      else
        let version = data ! 0; it_len = unat (u16_le data 2) in
        if version \<noteq> 0 \<or> it_len < 8 \<or> length data < it_len then False
        else foreign_mac_payload (drop it_len data) local_mac)"

text \<open>
  \<open>LiveRadioSurveyBackend.count_frames\<close>: the forbidden channel is refused first, then the interface
  is tuned (\<open>set_channel\<close> may raise), the capture socket is opened (may raise), and the foreign
  frames among those captured until the deadline are counted.
\<close>

definition live_count_frames ::
  "unit res \<Rightarrow> unit res \<Rightarrow> byte list option \<Rightarrow> (byte list \<times> int) list \<Rightarrow> int \<Rightarrow> int res" where
  "live_count_frames set_channel open_socket local_mac captured channel =
     (if channel \<in> set FORBIDDEN_CHANNELS then Inl (ValueError ''channel forbidden from survey'')
      else bind_res set_channel (\<lambda>_. bind_res open_socket (\<lambda>_.
        Inr (int (length (filter (\<lambda>(data, pkttype). is_foreign_80211_frame data pkttype local_mac)
          captured))))))"

section \<open>Ranking\<close>

definition classify_density :: "rat \<Rightarrow> string" where
  "classify_density fps =
     (if fps \<le> 0 then ''clean''
      else if fps < 10 then ''low''
      else if fps < 50 then ''moderate''
      else if fps < 100 then ''congested''
      else ''busy'')"

record survey_result =
  sr_channel :: int
  sr_frame_count :: int
  sr_duration_ms :: rat
  sr_fps :: rat
  sr_rank :: nat
  sr_is_congested :: bool
  sr_density_level :: string

record survey_report =
  rep_interface :: string
  rep_results :: "survey_result list"
  rep_recommended_channel :: int
  rep_all_congested :: bool
  rep_risk_warning :: bool

text \<open>One measured channel; the rank is given after sorting.\<close>

definition survey_row :: "rat \<Rightarrow> rat \<Rightarrow> int \<Rightarrow> int \<Rightarrow> survey_result" where
  "survey_row duration_ms threshold ch frames =
     (let fps = of_int frames / max (duration_ms / 1000) (1 / 1000) in
      \<lparr>sr_channel = ch, sr_frame_count = frames, sr_duration_ms = duration_ms, sr_fps = fps,
       sr_rank = 0, sr_is_congested = (threshold \<le> fps), sr_density_level = classify_density fps\<rparr>)"

fun measure_channels :: "(int \<Rightarrow> int res) \<Rightarrow> rat \<Rightarrow> rat \<Rightarrow> int list \<Rightarrow> survey_result list res" where
  "measure_channels cnt dur thr [] = Inr []"
| "measure_channels cnt dur thr (ch # chs) =
     bind_res (cnt ch) (\<lambda>frames.
     bind_res (measure_channels cnt dur thr chs) (\<lambda>rows.
     Inr (survey_row dur thr ch frames # rows)))"

definition sort_rows :: "survey_result list \<Rightarrow> survey_result list" where
  "sort_rows = sort_key (\<lambda>r. (sr_fps r, sr_channel r))"

fun number_from :: "nat \<Rightarrow> survey_result list \<Rightarrow> survey_result list" where
  "number_from n [] = []"
| "number_from n (r # rs) = r\<lparr>sr_rank := n\<rparr> # number_from (Suc n) rs"

definition report_of :: "string \<Rightarrow> survey_result list \<Rightarrow> survey_report" where
  "report_of interface rows =
     (let ranked = number_from 1 (sort_rows rows); all_c = list_all sr_is_congested ranked in
      \<lparr>rep_interface = interface, rep_results = ranked,
       rep_recommended_channel = sr_channel (hd ranked), rep_all_congested = all_c,
       rep_risk_warning = all_c\<rparr>)"

text \<open>
  \<open>survey_spectrum\<close> with a backend given: \<open>prep\<close>, \<open>cnt\<close> and \<open>fin\<close> are its results.
  An error of \<^verbatim>\<open>finish\<close> replaces one of the measuring loop, as \<^verbatim>\<open>finally\<close> does.
\<close>

definition survey_spectrum ::
  "string option \<Rightarrow> rat \<Rightarrow> rat \<Rightarrow> unit res \<Rightarrow> (int \<Rightarrow> int res) \<Rightarrow> unit res \<Rightarrow> survey_report res" where
  "survey_spectrum interface dur thr prep cnt fin =
     bind_res prep (\<lambda>_.
       let rows = measure_channels cnt dur thr ALLOWED_5GHZ_CHANNELS in
       bind_res fin (\<lambda>_. bind_res rows (\<lambda>rows.
         Inr (report_of (case interface of None \<Rightarrow> ''mock''
                         | Some i \<Rightarrow> if i = [] then ''mock'' else i) rows))))"

text \<open>The report as a dictionary; \<^verbatim>\<open>round(x, 2)\<close> up to the choice between two equally near values.\<close>

definition round2 :: "rat \<Rightarrow> rat" where
  "round2 r = of_int (round (r * 100)) / 100"

definition survey_result_to_dict :: "survey_result \<Rightarrow> pydict" where
  "survey_result_to_dict r =
     [(''channel'', PInt (sr_channel r)), (''frame_count'', PInt (sr_frame_count r)),
      (''duration_ms'', PFloat (Fin (sr_duration_ms r))), (''fps'', PFloat (Fin (round2 (sr_fps r)))),
      (''rank'', PInt (int (sr_rank r))), (''is_congested'', PBool (sr_is_congested r)),
      (''density_level'', PStr (sr_density_level r))]"

definition survey_report_to_dict :: "survey_report \<Rightarrow> pydict" where
  "survey_report_to_dict r =
     [(''interface'', PStr (rep_interface r)),
      (''results'', PList (map (\<lambda>x. PDict (survey_result_to_dict x)) (rep_results r))),
      (''recommended_channel'', PInt (rep_recommended_channel r)),
      (''all_congested'', PBool (rep_all_congested r)),
      (''risk_warning'', if rep_risk_warning r then PStr ''all channels congested'' else PNone)]"

section \<open>Lemmas on frames\<close>

lemma foreign_not_outgoing: "is_foreign_80211_frame data PACKET_OUTGOING mac = False"
  by (simp add: is_foreign_80211_frame_def)

text \<open>Every frame that counts is addressed (receiver of CTS/ACK, else transmitter) by a stranger.\<close>

lemma foreign_mac_payload_stranger:
  assumes "foreign_mac_payload p mac"
  shows "\<exists>i \<in> {4, 10}. i + 6 \<le> length p \<and> \<not> is_our_address (slice i (i + 6) p) mac"
  using assms by (auto simp: foreign_mac_payload_def Let_def split: if_splits)

lemma is_our_address_local: "m \<noteq> [] \<Longrightarrow> is_our_address m (Some m)"
  by (simp add: is_our_address_def)

lemma is_our_address_cluster: "take 2 addr = WFB_MAC_PREFIX \<Longrightarrow> is_our_address addr mac"
  by (simp add: is_our_address_def WFB_MAC_PREFIX_def numeral_2_eq_2)

lemma foreign_min_length:
  "is_foreign_80211_frame data pkttype mac \<Longrightarrow> 18 \<le> length data"
  by (auto simp: is_foreign_80211_frame_def foreign_mac_payload_def Let_def split: if_splits)

lemma live_count_frames_bounds:
  "live_count_frames sc os mac captured ch = Inr n \<Longrightarrow>
   0 \<le> n \<and> n \<le> int (length captured) \<and> ch \<notin> set FORBIDDEN_CHANNELS"
  by (auto simp: live_count_frames_def split: if_splits)

section \<open>Lemmas on the ranking\<close>

lemma number_from_same:
  "map (\<lambda>r. r\<lparr>sr_rank := 0\<rparr>) (number_from n rs) = map (\<lambda>r. r\<lparr>sr_rank := 0\<rparr>) rs"
  "map sr_channel (number_from n rs) = map sr_channel rs"
  "map sr_fps (number_from n rs) = map sr_fps rs"
  "map sr_is_congested (number_from n rs) = map sr_is_congested rs"
  "map sr_rank (number_from n rs) = [n..<n + length rs]"
  "length (number_from n rs) = length rs"
  by (induction rs arbitrary: n) (simp_all add: upt_conv_Cons del: upt_Suc)

lemma measure_channels_channels:
  "measure_channels cnt dur thr chs = Inr rows \<Longrightarrow> map sr_channel rows = chs"
  by (induction chs arbitrary: rows) (auto simp: survey_row_def Let_def)

lemma measure_channels_row:
  "measure_channels cnt dur thr chs = Inr rows \<Longrightarrow> r \<in> set rows \<Longrightarrow>
   \<exists>ch \<in> set chs. \<exists>frames. cnt ch = Inr frames \<and> r = survey_row dur thr ch frames"
proof (induction chs arbitrary: rows)
  case Nil
  then show ?case by simp
next
  case (Cons c chs)
  from Cons.prems(1) obtain f rows' where c: "cnt c = Inr f"
    and rows': "measure_channels cnt dur thr chs = Inr rows'"
    and rows: "rows = survey_row dur thr c f # rows'"
    by auto
  show ?case
  proof (cases "r \<in> set rows'")
    case True
    then show ?thesis using Cons.IH [OF rows'] by (simp add: bex_simps)
  next
    case False
    with Cons.prems(2) rows c show ?thesis by (intro bexI [of _ c] exI [of _ f]) simp_all
  qed
qed

lemma set_map_number_from: "sr_channel ` set (number_from n rs) = sr_channel ` set rs"
  by (metis number_from_same(2) set_map)

lemma number_from_keys:
  "map (\<lambda>r. (sr_fps r, sr_channel r)) (number_from n rs) = map (\<lambda>r. (sr_fps r, sr_channel r)) rs"
  by (induction rs arbitrary: n) simp_all

lemma ranked_sorted: "sorted (map (\<lambda>r. (sr_fps r, sr_channel r)) (number_from n (sort_rows rows)))"
  unfolding number_from_keys sort_rows_def by (rule sorted_sort_key)

lemma survey_ok_cases:
  assumes "survey_spectrum i dur thr prep cnt fin = Inr rep"
  obtains rows nm where "measure_channels cnt dur thr ALLOWED_5GHZ_CHANNELS = Inr rows"
    and "rep = report_of nm rows" and "map sr_channel rows = ALLOWED_5GHZ_CHANNELS"
  using assms by (auto simp: survey_spectrum_def Let_def dest: measure_channels_channels)

lemma report_channels:
  assumes "map sr_channel rows = ALLOWED_5GHZ_CHANNELS"
  shows "sort (map sr_channel (rep_results (report_of nm rows))) = ALLOWED_5GHZ_CHANNELS"
proof -
  have "mset (map sr_channel (sort_rows rows)) = mset (map sr_channel rows)"
    by (simp add: sort_rows_def)
  then have "mset (map sr_channel (rep_results (report_of nm rows))) = mset ALLOWED_5GHZ_CHANNELS"
    by (simp only: report_of_def Let_def number_from_same assms survey_report.simps)
  then show ?thesis
    by (intro properties_for_sort) (simp_all add: ALLOWED_5GHZ_CHANNELS_def)
qed

lemma sorted_hd_le:
  "sorted (map f xs) \<Longrightarrow> x \<in> set xs \<Longrightarrow> f (hd xs) \<le> f x"
  by (cases xs) auto

section \<open>Guarantees\<close>

text \<open>The survey's report. A completed survey lists each allowed channel exactly once (so never the
  forbidden one), ranked \<open>1, 2, 3, 4\<close> by frames per second with ties broken by the channel number;
  the recommended channel is the first of them, no other is cleaner, and the risk warning is raised
  exactly when every channel is congested.\<close>

theorem survey_report_correct:
  assumes "survey_spectrum i dur thr prep cnt fin = Inr rep"
  shows "sort (map sr_channel (rep_results rep)) = ALLOWED_5GHZ_CHANNELS \<and>
    map sr_rank (rep_results rep) = [1, 2, 3, 4] \<and>
    sorted (map (\<lambda>r. (sr_fps r, sr_channel r)) (rep_results rep)) \<and>
    rep_recommended_channel rep = sr_channel (hd (rep_results rep)) \<and>
    (\<forall>r \<in> set (rep_results rep). sr_fps (hd (rep_results rep)) \<le> sr_fps r) \<and>
    (rep_risk_warning rep \<longleftrightarrow> (\<forall>r \<in> set (rep_results rep). sr_is_congested r))"
proof -
  from survey_ok_cases [OF assms] obtain rows nm
    where rep: "rep = report_of nm rows" and chs: "map sr_channel rows = ALLOWED_5GHZ_CHANNELS"
    by metis
  have res: "rep_results rep = number_from 1 (sort_rows rows)" by (simp add: rep report_of_def Let_def)
  have len: "length (sort_rows rows) = 4"
    using arg_cong [OF chs, of length] by (simp add: sort_rows_def ALLOWED_5GHZ_CHANNELS_def)
  have sorted: "sorted (map (\<lambda>r. (sr_fps r, sr_channel r)) (rep_results rep))"
    unfolding res by (rule ranked_sorted)
  have "sr_fps (hd (rep_results rep)) \<le> sr_fps r" if "r \<in> set (rep_results rep)" for r
    using sorted_hd_le [OF sorted that] by auto
  moreover have "map sr_rank (rep_results rep) = [1, 2, 3, 4]"
    unfolding res number_from_same len by (simp add: upt_rec)
  moreover have "rep_recommended_channel rep = sr_channel (hd (rep_results rep))"
    "rep_risk_warning rep \<longleftrightarrow> (\<forall>r \<in> set (rep_results rep). sr_is_congested r)"
    by (simp_all add: rep report_of_def Let_def list_all_iff)
  ultimately show ?thesis using sorted report_channels [OF chs, of nm] by (simp add: rep)
qed

definition sample_counts :: "int \<Rightarrow> int res" where
  "sample_counts ch = Inr (if ch = 153 then 0 else 40)"

theorem survey_report_correct_witness:
  "\<exists>rep. survey_spectrum None 1000 30 (Inr ()) sample_counts (Inr ()) = Inr rep \<and>
     rep_recommended_channel rep = 153 \<and> map sr_rank (rep_results rep) = [1, 2, 3, 4]"
proof -
  have "case survey_spectrum None 1000 30 (Inr ()) sample_counts (Inr ()) of
      Inl e \<Rightarrow> False | Inr rep \<Rightarrow> rep_recommended_channel rep = 153"
    by code_simp
  then obtain rep where "survey_spectrum None 1000 30 (Inr ()) sample_counts (Inr ()) = Inr rep"
    "rep_recommended_channel rep = 153"
    by (auto split: sum.splits)
  with survey_report_correct [OF this(1)] show ?thesis by (intro exI [of _ rep]) simp
qed

text \<open>What counts as foreign traffic. A captured frame that is counted was not sent by this host, lies
  wholly inside the capture (at least the radiotap header and ten bytes of 802.11), and the
  station it names - the receiver of a CTS or ACK, the transmitter otherwise - is neither the local
  card nor a member of the cluster.\<close>

theorem foreign_frame_stranger:
  assumes "is_foreign_80211_frame data pkttype mac"
  shows "pkttype \<noteq> PACKET_OUTGOING \<and> 18 \<le> length data \<and>
    (\<exists>i \<in> {4, 10}. unat (u16_le data 2) + i + 6 \<le> length data \<and>
       \<not> is_our_address (slice (unat (u16_le data 2) + i) (unat (u16_le data 2) + i + 6) data) mac)"
proof -
  have "foreign_mac_payload (drop (unat (u16_le data 2)) data) mac"
    using assms by (simp add: is_foreign_80211_frame_def Let_def split: if_splits)
  from foreign_mac_payload_stranger [OF this]
  have "\<exists>i \<in> {4, 10}. unat (u16_le data 2) + i + 6 \<le> length data \<and>
       \<not> is_our_address (slice (unat (u16_le data 2) + i) (unat (u16_le data 2) + i + 6) data) mac"
    by (auto simp: slice_def add_ac)
  with assms foreign_min_length [OF assms] show ?thesis by (auto simp: foreign_not_outgoing)
qed

definition sample_beacon :: "byte list" where
  "sample_beacon = [0, 0, 8, 0, 0, 0, 0, 0, 0x80, 0, 0, 0] @ replicate 6 0xff @ [1, 2, 3, 4, 5, 6] @ replicate 8 0"

theorem foreign_frame_stranger_witness:
  "is_foreign_80211_frame sample_beacon 0 None \<and> 18 \<le> length sample_beacon"
proof -
  have f: "is_foreign_80211_frame sample_beacon 0 None" by code_simp
  with foreign_frame_stranger [OF f] show ?thesis by blast
qed

end
