(* ===== verification/Client_Runtime.thy ===== *)
theory Client_Runtime
  imports Round_State
begin

text \<open>
  \<open>ClientRuntime\<close> of \<^verbatim>\<open>wfb_ng/fl/runtime.py\<close>: a vehicle waits for the model of a round, archives it,
  and submits its update. The record holds the runtime's fields and its work directory: the
  directories of the rounds in the order \<^verbatim>\<open>os.listdir\<close> gives, the pointer to the current one, and the
  codes of the deliveries put into quarantine. A delivery says what the candidate's directory holds
  and how each file operation on the way ends; a submission does so for an update. What is handed to
  the transport is part of the result. Texts of messages are short tags.
\<close>

section \<open>State\<close>

datatype client_status = ModelReceived | SubmittingUpdate | ClSucceeded | ClFailed

fun client_status_name :: "client_status \<Rightarrow> string" where
  "client_status_name ModelReceived = ''model_received''"
| "client_status_name SubmittingUpdate = ''submitting_update''"
| "client_status_name ClSucceeded = ''succeeded''"
| "client_status_name ClFailed = ''failed''"

record round_dir =
  rd_state :: json_file
  rd_manifest :: json_file
  rd_model :: node
  rd_update :: node
  rd_update_manifest :: json_file

definition empty_dir :: round_dir where
  "empty_dir = \<lparr>rd_state = NoFile, rd_manifest = NoFile, rd_model = Absent, rd_update = Absent,
     rd_update_manifest = NoFile\<rparr>"

record client_rt =
  cl_node :: int
  cl_max :: nat
  cl_fatal :: "exn option"
  cl_round :: "string option"
  cl_status :: "client_status option"
  cl_failure :: "exn option"
  cl_consumed :: bool
  cl_waiting :: bool
  cl_submitting :: bool
  cl_dirs :: "(string \<times> round_dir) list"
  cl_current :: json_file
  cl_rejected :: "string list"

definition dir_of :: "string \<Rightarrow> client_rt \<Rightarrow> round_dir" where
  "dir_of r s = (case map_of (cl_dirs s) r of None \<Rightarrow> empty_dir | Some d \<Rightarrow> d)"

definition put_dir :: "string \<Rightarrow> round_dir \<Rightarrow> client_rt \<Rightarrow> client_rt" where
  "put_dir r d s = s\<lparr>cl_dirs := AList.update r d (cl_dirs s)\<rparr>"

text \<open>\<^verbatim>\<open>os.makedirs(round_dir, exist_ok=True)\<close>.\<close>

definition make_dir :: "string \<Rightarrow> client_rt \<Rightarrow> client_rt" where
  "make_dir r s = put_dir r (dir_of r s) s"

definition cl_rid :: "client_rt \<Rightarrow> string" where
  "cl_rid s = (case cl_round s of None \<Rightarrow> [] | Some r \<Rightarrow> r)"

section \<open>Writing the state\<close>

definition cl_state_value :: "client_rt \<Rightarrow> client_status \<Rightarrow> pydict \<Rightarrow> pydict" where
  "cl_state_value s st extra =
     [(''schema_version'', PInt 1), (''round_id'', PStr (cl_rid s)), (''role'', PStr ''client''),
      (''state'', PStr (client_status_name st))] @ extra"

definition cl_error :: "client_rt \<Rightarrow> string \<Rightarrow> string \<Rightarrow> exn" where
  "cl_error s code msg = FLRuntimeError code msg (cl_round s) (Some (cl_node s))"

definition cl_write_state ::
  "exn option \<Rightarrow> client_status \<Rightarrow> pydict \<Rightarrow> client_rt \<Rightarrow> unit res \<times> client_rt" where
  "cl_write_state werr st extra s =
     (let rd = dir_of (cl_rid s) s in
      case write_json_atomic werr (PDict (cl_state_value s st extra)) (rd_state rd) of
        (Inl e, f) \<Rightarrow>
          (let x = cl_error s ''state_persistence_failed'' ''cannot persist the round state''
           in (Inl x, s\<lparr>cl_fatal := Some x\<rparr>))
      | (Inr _, f) \<Rightarrow>
          (Inr (), put_dir (cl_rid s) (rd\<lparr>rd_state := f\<rparr>) s\<lparr>cl_status := Some st\<rparr>))"

definition cl_failed_extra :: "client_rt \<Rightarrow> string \<Rightarrow> string \<Rightarrow> pydict" where
  "cl_failed_extra s code msg =
     [(''error_code'', PStr code), (''error_message'', PStr msg), (''node_id'', PInt (cl_node s))]"

definition cl_write_failed ::
  "exn option \<Rightarrow> string \<Rightarrow> string \<Rightarrow> client_rt \<Rightarrow> unit res \<times> client_rt" where
  "cl_write_failed werr code msg s = cl_write_state werr ClFailed (cl_failed_extra s code msg) s"

definition cl_write_current :: "exn option \<Rightarrow> string \<Rightarrow> client_rt \<Rightarrow> unit res \<times> client_rt" where
  "cl_write_current err r s =
     (case write_json_atomic err (PDict (current_pointer ClientRole r)) (cl_current s) of
        (res, f) \<Rightarrow> (res, s\<lparr>cl_current := f\<rparr>))"

section \<open>Construction\<close>

definition cl_restore :: "pydict \<Rightarrow> client_rt \<Rightarrow> client_rt" where
  "cl_restore d s =
     (let r = (case as_str (dget d ''round_id'') of None \<Rightarrow> [] | Some r \<Rightarrow> r);
          text_of = (\<lambda>k. case as_str (dget d k) of None \<Rightarrow> [] | Some t \<Rightarrow> t);
          s = (if state_of d = ''failed''
               then s\<lparr>cl_failure := Some (FLRuntimeError (text_of ''error_code'') (text_of ''error_message'')
                        (Some r) (as_int (dget d ''node_id'')))\<rparr>
               else s)
      in s\<lparr>cl_round := Some r,
           cl_status := Some (if state_of d = ''failed'' then ClFailed else ClSucceeded),
           cl_consumed := False\<rparr>)"

definition blank_client :: "int \<Rightarrow> nat \<Rightarrow> (string \<times> round_dir) list \<Rightarrow> json_file \<Rightarrow> string list \<Rightarrow> client_rt" where
  "blank_client node m dirs cur rejected =
     \<lparr>cl_node = node, cl_max = m, cl_fatal = None, cl_round = None, cl_status = None,
      cl_failure = None, cl_consumed = True, cl_waiting = False, cl_submitting = False,
      cl_dirs = dirs, cl_current = cur, cl_rejected = rejected\<rparr>"

definition client_work_dir :: "(string \<times> round_dir) list \<Rightarrow> json_file \<Rightarrow> work_dir" where
  "client_work_dir dirs cur =
     \<lparr>wd_rounds = map (\<lambda>(n, rd). (n, Some (rd_state rd))) dirs, wd_current = cur\<rparr>"

text \<open>The state files recovery leaves go back into the directories.\<close>

definition with_states :: "(string \<times> round_dir) list \<Rightarrow> work_dir \<Rightarrow> (string \<times> round_dir) list" where
  "with_states dirs w =
     map2 (\<lambda>(n, rd) (_, f). (n, rd\<lparr>rd_state := (case f of None \<Rightarrow> NoFile | Some g \<Rightarrow> g)\<rparr>)) dirs (wd_rounds w)"

definition bad_client_config :: exn where
  "bad_client_config = fl_error ''invalid_configuration'' ''node identifier''"

definition client_rt_init ::
  "pyval \<Rightarrow> pyval \<Rightarrow> (string \<Rightarrow> exn option) \<Rightarrow> (string \<times> round_dir) list \<Rightarrow> json_file \<Rightarrow> string list \<Rightarrow>
   client_rt res" where
  "client_rt_init node m werr dirs cur rejected = (case as_int node of
     None \<Rightarrow> Inl bad_client_config
   | Some i \<Rightarrow>
       if i \<le> 0 then Inl bad_client_config
       else bind_res (validate_max_update_size m) (\<lambda>_.
         (case recover_round_states ClientRole werr (client_work_dir dirs cur) of
            (Inl e, w) \<Rightarrow> Inl e
          | (Inr found, w) \<Rightarrow>
              (let s = blank_client i (nat (the (as_int m))) (with_states dirs w) (wd_current w) rejected
               in Inr (case found of None \<Rightarrow> s | Some d \<Rightarrow> cl_restore d s)))))"

text \<open>\<^verbatim>\<open>abort\<close>.\<close>

definition cl_abort :: "string \<Rightarrow> client_rt \<Rightarrow> client_rt" where
  "cl_abort reason s =
     (if cl_fatal s = None then s\<lparr>cl_fatal := Some (fl_error ''aborted'' reason)\<rparr> else s)"

definition cl_require_ready :: "bool \<Rightarrow> client_rt \<Rightarrow> unit res" where
  "cl_require_ready ready s = (case cl_fatal s of
     Some e \<Rightarrow> Inl e
   | None \<Rightarrow> if ready then Inr () else Inl (fl_error ''transport_not_ready'' ''transport''))"

section \<open>Receiving a model\<close>

definition model_fields :: "string list" where
  "model_fields =
     [''schema_version'', ''artifact_type'', ''round_id'', ''size_bytes'', ''sha256'', ''participant_node_ids'']"

definition validate_model_manifest :: "pyval \<Rightarrow> pydict res" where
  "validate_model_manifest v =
     bind_res (validate_exact_fields v model_fields) (\<lambda>d.
       if dget d ''schema_version'' \<noteq> PInt 1 \<or> dget d ''artifact_type'' \<noteq> PStr ''model''
       then Inl bad_manifest
       else bind_res (parse_round_id (dget d ''round_id'')) (\<lambda>_.
         case node_id_list (dget d ''participant_node_ids'') of
           None \<Rightarrow> Inl bad_manifest
         | Some ps \<Rightarrow>
             if ps = [] then Inl bad_manifest
             else (case as_int (dget d ''size_bytes'') of
                 None \<Rightarrow> Inl bad_manifest
               | Some sz \<Rightarrow>
                   if sz < 0 then Inl bad_manifest
                   else bind_res (validate_sha256 (dget d ''sha256'')) (\<lambda>_. Inr d))))"

text \<open>The fields of a manifest that has passed the check.\<close>

definition mf_round :: "pydict \<Rightarrow> string" where
  "mf_round d = (case as_str (dget d ''round_id'') of None \<Rightarrow> [] | Some r \<Rightarrow> r)"

definition mf_size :: "pydict \<Rightarrow> int" where
  "mf_size d = (case as_int (dget d ''size_bytes'') of None \<Rightarrow> 0 | Some i \<Rightarrow> i)"

definition mf_sha :: "pydict \<Rightarrow> string" where
  "mf_sha d = (case as_str (dget d ''sha256'') of None \<Rightarrow> [] | Some h \<Rightarrow> h)"

definition mf_nodes :: "pydict \<Rightarrow> int list" where
  "mf_nodes d = (case node_id_list (dget d ''participant_node_ids'') of None \<Rightarrow> [] | Some ps \<Rightarrow> ps)"

text \<open>
  A candidate: its manifest and model, the model as the archiving run sees it, and the errors of
  making a directory, copying, writing the manifest, the state, the pointer, the failed state and its
  pointer, and of the three steps of the quarantine.
\<close>

record delivery =
  dl_manifest :: json_file
  dl_model :: node
  dl_later :: node
  dl_view :: source_view
  dl_mkdir_err :: "exn option"
  dl_copy_err :: "exn option"
  dl_manifest_err :: "exn option"
  dl_state_err :: "exn option"
  dl_pointer_err :: "exn option"
  dl_fail_err :: "exn option"
  dl_fail_pointer_err :: "exn option"
  dl_quarantine_err :: "exn option"
  dl_move_err :: "exn option"
  dl_reject_err :: "exn option"

definition candidate_round_id :: "pyval option \<Rightarrow> string option" where
  "candidate_round_id m = (case Option.bind m as_dict of
     None \<Rightarrow> None
   | Some d \<Rightarrow> (case parse_round_id (dget d ''round_id'') of Inl e \<Rightarrow> None | Inr r \<Rightarrow> Some r))"

definition quarantine :: "delivery \<Rightarrow> string \<Rightarrow> client_rt \<Rightarrow> unit res \<times> client_rt" where
  "quarantine d code s = (case dl_quarantine_err d of
     Some e \<Rightarrow> (Inl e, s)
   | None \<Rightarrow> (case dl_move_err d of
       Some e \<Rightarrow>
         (Inl (FLRuntimeError ''model_quarantine_failed'' ''quarantine'' None (Some (cl_node s))), s)
     | None \<Rightarrow> (case dl_reject_err d of
         Some e \<Rightarrow> (Inl e, s)
       | None \<Rightarrow> (Inr (), s\<lparr>cl_rejected := cl_rejected s @ [code]\<rparr>))))"

text \<open>A terminal state already recorded stays as it is.\<close>

definition recorded_terminal :: "json_file \<Rightarrow> bool" where
  "recorded_terminal f \<longleftrightarrow> (case f of
     Json v \<Rightarrow> (case as_dict v of None \<Rightarrow> False | Some d \<Rightarrow> is_terminal d)
   | _ \<Rightarrow> False)"

definition fail_model_delivery ::
  "delivery \<Rightarrow> string \<Rightarrow> string \<Rightarrow> string \<Rightarrow> client_rt \<Rightarrow> unit res \<times> client_rt" where
  "fail_model_delivery d r code msg s =
     (if recorded_terminal (rd_state (dir_of r s)) then (Inr (), s)
      else case dl_mkdir_err d of
        Some e \<Rightarrow> (Inl e, s)
      | None \<Rightarrow>
          (let s = make_dir r s;
               s = s\<lparr>cl_round := Some r,
                     cl_failure := Some (FLRuntimeError code msg (Some r) (Some (cl_node s))),
                     cl_consumed := True\<rparr>
           in case cl_write_failed (dl_fail_err d) code msg s of
                (Inl e, s') \<Rightarrow> (Inl e, s')
              | (Inr _, s') \<Rightarrow> cl_write_current (dl_fail_pointer_err d) r s'))"

definition read_existing_manifest :: "string \<Rightarrow> client_rt \<Rightarrow> pydict option res" where
  "read_existing_manifest r s =
     (let f = rd_manifest (dir_of r s) in
      if f = NoFile then Inr None
      else case bind_res (read_json f) validate_model_manifest of
        Inr d \<Rightarrow> Inr (Some d)
      | Inl e \<Rightarrow>
          Inl (FLRuntimeError ''round_artifacts_corrupted'' ''existing model'' (Some r) (Some (cl_node s))))"

definition delivery_matches :: "digest \<Rightarrow> delivery \<Rightarrow> pydict \<Rightarrow> pydict \<Rightarrow> client_rt \<Rightarrow> bool" where
  "delivery_matches dig d m old s \<longleftrightarrow>
     py_eq (PDict m) (PDict old) \<and>
     is_ok (validate_artifact dig (dl_model d) (mf_size m) (mf_sha m) None) \<and>
     is_ok (validate_artifact dig (rd_model (dir_of (mf_round m) s)) (mf_size old) (mf_sha old) None)"

text \<open>The archived copy: a new regular file.\<close>

definition archived :: "bytes \<Rightarrow> node" where
  "archived b = Regular b \<lparr>st_dev = 0, st_ino = 0, st_size = length b, st_mtime_ns = 0\<rparr>"

definition store_model :: "delivery \<Rightarrow> pydict \<Rightarrow> nat \<Rightarrow> string \<Rightarrow> bytes option \<Rightarrow> client_rt \<Rightarrow> unit res \<times> client_rt" where
  "store_model d m sz h t s =
     (let r = mf_round m;
          s = (case t of None \<Rightarrow> s | Some b \<Rightarrow> put_dir r (dir_of r s\<lparr>rd_model := archived b\<rparr>) s)
      in if int sz \<noteq> mf_size m \<or> h \<noteq> mf_sha m then (Inl integrity_failed, s)
         else (case write_json_atomic (dl_manifest_err d) (PDict m) NoFile of
             (Inl e, f) \<Rightarrow> (Inl e, s)
           | (Inr _, f) \<Rightarrow> (Inr (), put_dir r (dir_of r s\<lparr>rd_manifest := f\<rparr>) s)))"

definition copy_model :: "digest \<Rightarrow> delivery \<Rightarrow> pydict \<Rightarrow> file_stat \<Rightarrow> client_rt \<Rightarrow> unit res \<times> client_rt" where
  "copy_model dig d m st s = (case dl_copy_err d of
     Some e \<Rightarrow> (Inl e, s)
   | None \<Rightarrow> (case archive_open_file dig st (dl_view d) None of
       (Inl e, _) \<Rightarrow> (Inl e, s)
     | (Inr (sz, h), t) \<Rightarrow> store_model d m sz h t s))"

definition archive_model :: "digest \<Rightarrow> delivery \<Rightarrow> pydict \<Rightarrow> client_rt \<Rightarrow> unit res \<times> client_rt" where
  "archive_model dig d m s = (case validate_artifact dig (dl_model d) (mf_size m) (mf_sha m) None of
     Inl e \<Rightarrow> (Inl e, s)
   | Inr _ \<Rightarrow> (case open_artifact (dl_later d) None of
       Inl e \<Rightarrow> (Inl e, s)
     | Inr (b, st) \<Rightarrow> (case dl_mkdir_err d of
         Some e \<Rightarrow> (Inl e, s)
       | None \<Rightarrow> copy_model dig d m st (make_dir (mf_round m) s))))"

text \<open>The \<^verbatim>\<open>except FLRuntimeError\<close> clause: fail the round, quarantine the candidate, raise.\<close>

definition reject_delivery ::
  "delivery \<Rightarrow> string option \<Rightarrow> exn \<Rightarrow> exn \<Rightarrow> client_rt \<Rightarrow> exn \<times> client_rt" where
  "reject_delivery d r e out s = (case e of
     FLRuntimeError code msg _ _ \<Rightarrow>
       (case (case r of None \<Rightarrow> (Inr (), s) | Some r \<Rightarrow> fail_model_delivery d r code msg s) of
          (Inl e', s') \<Rightarrow> (e', s')
        | (Inr _, s') \<Rightarrow> (case quarantine d code s' of
            (Inl e', s'') \<Rightarrow> (e', s'')
          | (Inr _, s'') \<Rightarrow> (out, s'')))
   | _ \<Rightarrow> (e, s))"

definition with_round :: "client_rt \<Rightarrow> string \<Rightarrow> exn \<Rightarrow> exn" where
  "with_round s r e = (case e of FLRuntimeError code msg _ _ \<Rightarrow> FLRuntimeError code msg (Some r) (Some (cl_node s))
     | _ \<Rightarrow> e)"

definition accept_model :: "delivery \<Rightarrow> string \<Rightarrow> client_rt \<Rightarrow> string res \<times> client_rt" where
  "accept_model d r s =
     (let s = s\<lparr>cl_round := Some r, cl_failure := None, cl_consumed := True\<rparr> in
      case cl_write_state (dl_state_err d) ModelReceived [] s of
        (Inl e, s') \<Rightarrow> (Inl e, s')
      | (Inr _, s') \<Rightarrow> (case cl_write_current (dl_pointer_err d) r s' of
          (Inr _, s'') \<Rightarrow> (Inr r, s'')
        | (Inl e, s'') \<Rightarrow>
            (case cl_write_failed (dl_fail_err d) ''state_persistence_failed'' ''pointer'' s'' of
               (Inl e', s3) \<Rightarrow> (Inl e', s3)
             | (Inr _, s3) \<Rightarrow> (Inl (cl_error s3 ''state_persistence_failed'' ''pointer''), s3))))"

text \<open>One turn of the loop for one candidate; \<open>None\<close> goes on to the next.\<close>

definition then_next :: "unit res \<times> client_rt \<Rightarrow> string res option \<times> client_rt" where
  "then_next p = (case p of (Inl e, s) \<Rightarrow> (Some (Inl e), s) | (Inr _, s) \<Rightarrow> (None, s))"

definition new_model :: "digest \<Rightarrow> delivery \<Rightarrow> pydict \<Rightarrow> client_rt \<Rightarrow> string res \<times> client_rt" where
  "new_model dig d m s = (case archive_model dig d m s of
     (Inl e, s') \<Rightarrow>
       (case reject_delivery d (Some (mf_round m)) e (with_round s (mf_round m) e) s' of
          (x, s'') \<Rightarrow> (Inl x, s''))
   | (Inr _, s') \<Rightarrow> accept_model d (mf_round m) s')"

definition known_model :: "digest \<Rightarrow> delivery \<Rightarrow> pydict \<Rightarrow> pydict \<Rightarrow> client_rt \<Rightarrow> string res option \<times> client_rt" where
  "known_model dig d m old s =
     (if delivery_matches dig d m old s then then_next (quarantine d ''duplicate_model_ignored'' s)
      else (case quarantine d ''round_id_content_conflict'' s of
          (Inl e, s') \<Rightarrow> (Some (Inl e), s')
        | (Inr _, s') \<Rightarrow>
            (Some (Inl (FLRuntimeError ''round_id_content_conflict'' ''conflict'' (Some (mf_round m))
                     (Some (cl_node s)))), s')))"

definition take_delivery :: "digest \<Rightarrow> delivery \<Rightarrow> client_rt \<Rightarrow> string res option \<times> client_rt" where
  "take_delivery dig d s = (case bind_res (read_json (dl_manifest d)) validate_model_manifest of
     Inl e \<Rightarrow>
       (let v = (case read_json (dl_manifest d) of Inl _ \<Rightarrow> None | Inr v \<Rightarrow> Some v)
        in case reject_delivery d (candidate_round_id v) e e s of (x, s') \<Rightarrow> (Some (Inl x), s'))
   | Inr m \<Rightarrow>
       if cl_node s \<notin> set (mf_nodes m) then then_next (quarantine d ''model_not_for_this_node'' s)
       else (case read_existing_manifest (mf_round m) s of
           Inl e \<Rightarrow> (Some (Inl e), s)
         | Inr (Some old) \<Rightarrow> known_model dig d m old s
         | Inr None \<Rightarrow> (case new_model dig d m s of (r, s') \<Rightarrow> (Some r, s'))))"

text \<open>The turns of the loop: an abort that comes while the transport is asked, and what
  \<^verbatim>\<open>wait_for_model_candidate\<close> returns. \<open>None\<close> when the turns of the run end first.\<close>

type_synonym model_turn = "string option \<times> delivery res"

fun model_loop :: "digest \<Rightarrow> model_turn list \<Rightarrow> client_rt \<Rightarrow> string res option \<times> client_rt" where
  "model_loop dig [] s = (None, s)"
| "model_loop dig ((a, x) # xs) s = (case cl_fatal s of
     Some e \<Rightarrow> (Some (Inl e), s)
   | None \<Rightarrow>
       (let s = (case a of None \<Rightarrow> s | Some reason \<Rightarrow> cl_abort reason s) in
        case x of
          Inl e \<Rightarrow> (Some (Inl e), s)
        | Inr d \<Rightarrow> (case take_delivery dig d s of
            (Some r, s') \<Rightarrow> (Some r, s')
          | (None, s') \<Rightarrow> model_loop dig xs s')))"

definition cl_terminal :: "client_rt \<Rightarrow> bool" where
  "cl_terminal s \<longleftrightarrow> cl_status s \<in> {Some ClSucceeded, Some ClFailed}"

definition wait_for_model ::
  "digest \<Rightarrow> bool \<Rightarrow> model_turn list \<Rightarrow> client_rt \<Rightarrow> string res option \<times> client_rt" where
  "wait_for_model dig ready xs s = (case cl_require_ready ready s of
     Inl e \<Rightarrow> (Some (Inl e), s)
   | Inr _ \<Rightarrow>
       if cl_waiting s then (Some (Inl (fl_error ''operation_in_progress'' ''waiting'')), s)
       else if cl_round s \<noteq> None \<and> cl_terminal s \<and> \<not> cl_consumed s
       then (Some (Inl (fl_error ''round_result_pending'' ''result not consumed'')), s)
       else if cl_round s \<noteq> None \<and> \<not> cl_terminal s
       then (Some (Inl (fl_error ''round_in_progress'' ''active round'')), s)
       else (case model_loop dig xs (s\<lparr>cl_waiting := True\<rparr>) of
           (None, s') \<Rightarrow> (None, s')
         | (Some r, s') \<Rightarrow> (Some r, s'\<lparr>cl_waiting := False\<rparr>)))"

section \<open>Submitting the update\<close>

record submission =
  su_source :: node
  su_view :: source_view
  su_open_err :: "exn option"
  su_copy_err :: "exn option"
  su_manifest_err :: "exn option"
  su_send_err :: "exn option"
  su_done_err :: "exn option"
  su_fail_err :: "exn option"

record sent =
  se_round :: string
  se_node :: int
  se_size :: nat
  se_sha :: string

definition update_manifest :: "client_rt \<Rightarrow> nat \<Rightarrow> string \<Rightarrow> pydict" where
  "update_manifest s sz h =
     [(''schema_version'', PInt 1), (''artifact_type'', PStr ''update''), (''round_id'', PStr (cl_rid s)),
      (''node_id'', PInt (cl_node s)), (''size_bytes'', PInt (int sz)), (''sha256'', PStr h)]"

text \<open>\<^verbatim>\<open>_submit_update\<close>: archive, write the manifest, hand over, record the success.\<close>

definition store_update :: "bytes option \<Rightarrow> client_rt \<Rightarrow> client_rt" where
  "store_update t s = (case t of None \<Rightarrow> s
     | Some b \<Rightarrow> put_dir (cl_rid s) (dir_of (cl_rid s) s\<lparr>rd_update := archived b\<rparr>) s)"

definition send_update ::
  "submission \<Rightarrow> nat \<Rightarrow> string \<Rightarrow> client_rt \<Rightarrow> unit res \<times> client_rt \<times> sent option" where
  "send_update u sz h s =
     (let r = cl_rid s in
      case write_json_atomic (su_manifest_err u) (PDict (update_manifest s sz h))
             (rd_update_manifest (dir_of r s)) of
        (Inl e, f) \<Rightarrow> (Inl e, s, None)
      | (Inr _, f) \<Rightarrow>
          (let s = put_dir r (dir_of r s\<lparr>rd_update_manifest := f\<rparr>) s;
               out = Some \<lparr>se_round = r, se_node = cl_node s, se_size = sz, se_sha = h\<rparr>
           in case su_send_err u of
                Some e \<Rightarrow> (Inl e, s, out)
              | None \<Rightarrow> (case cl_write_state (su_done_err u) ClSucceeded [] s of
                  (res, s') \<Rightarrow> (res, s', out))))"

definition submit_body ::
  "digest \<Rightarrow> file_stat \<Rightarrow> submission \<Rightarrow> client_rt \<Rightarrow> unit res \<times> client_rt \<times> sent option" where
  "submit_body dig st u s = (case su_copy_err u of
     Some e \<Rightarrow> (Inl e, s, None)
   | None \<Rightarrow> (case archive_open_file dig st (su_view u) (Some (cl_max s)) of
       (Inl e, _) \<Rightarrow> (Inl e, s, None)
     | (Inr (sz, h), t) \<Rightarrow> send_update u sz h (store_update t s)))"

text \<open>The \<^verbatim>\<open>except\<close> clauses of \<^verbatim>\<open>submit_update\<close>.\<close>

definition submit_except :: "submission \<Rightarrow> exn \<Rightarrow> client_rt \<Rightarrow> unit res \<times> client_rt" where
  "submit_except u e s = (case e of
     FLRuntimeError code msg _ _ \<Rightarrow>
       (if cl_status s = Some SubmittingUpdate then
          (case cl_write_failed (su_fail_err u) code msg (s\<lparr>cl_failure := Some (cl_error s code msg)\<rparr>) of
             (Inl e', s') \<Rightarrow> (Inl e', s')
           | (Inr _, s') \<Rightarrow> (Inl e, s'))
        else (Inl e, s))
   | _ \<Rightarrow>
       (let x = cl_error s ''update_submit_failed'' ''submission'' in
        case cl_write_failed (su_fail_err u) ''update_submit_failed'' ''submission'' (s\<lparr>cl_failure := Some x\<rparr>) of
          (Inl e', s') \<Rightarrow> (Inl e', s')
        | (Inr _, s') \<Rightarrow> (Inl x, s')))"

definition submit_active :: "digest \<Rightarrow> submission \<Rightarrow> client_rt \<Rightarrow> unit res \<times> client_rt \<times> sent option" where
  "submit_active dig u s = (case preflight_artifact (su_source u) (Some (cl_max s)) of
     Inl e \<Rightarrow> (case submit_except u e s of (r, s') \<Rightarrow> (r, s', None))
   | Inr (b, st) \<Rightarrow> (case cl_write_state (su_open_err u) SubmittingUpdate [] s of
       (Inl e, s') \<Rightarrow> (case submit_except u e s' of (r, s'') \<Rightarrow> (r, s'', None))
     | (Inr _, s') \<Rightarrow> (case submit_body dig st u s' of
         (Inl e, s'', out) \<Rightarrow> (case submit_except u e s'' of (r, s3) \<Rightarrow> (r, s3, out))
       | (Inr _, s'', out) \<Rightarrow> (Inr (), s'', out))))"

definition submit_update ::
  "digest \<Rightarrow> bool \<Rightarrow> submission \<Rightarrow> client_rt \<Rightarrow> unit res \<times> client_rt \<times> sent option" where
  "submit_update dig ready u s = (case cl_require_ready ready s of
     Inl e \<Rightarrow> (Inl e, s, None)
   | Inr _ \<Rightarrow>
       if cl_submitting s then (Inl (fl_error ''operation_in_progress'' ''submitting''), s, None)
       else if cl_round s = None then (Inl (fl_error ''no_active_round'' ''no round''), s, None)
       else if cl_status s = Some ClSucceeded then
         (if \<not> cl_consumed s then (Inr (), s\<lparr>cl_consumed := True\<rparr>, None)
          else (Inl (fl_error ''round_already_succeeded'' ''succeeded''), s, None))
       else if cl_status s = Some ClFailed then
         (if \<not> cl_consumed s
          then (Inl (case cl_failure s of Some e \<Rightarrow> e | None \<Rightarrow> TypeError ''raise None''),
                s\<lparr>cl_consumed := True\<rparr>, None)
          else (Inl (fl_error ''round_already_failed'' ''failed''), s, None))
       else if cl_status s \<noteq> Some ModelReceived
       then (Inl (fl_error ''round_in_progress'' ''submitting''), s, None)
       else (case submit_active dig u (s\<lparr>cl_submitting := True\<rparr>) of
           (r, s', out) \<Rightarrow> (r, s'\<lparr>cl_submitting := False\<rparr>, out)))"

section \<open>Directories\<close>

lemma dir_of_put [simp]: "dir_of r (put_dir q d s) = (if r = q then d else dir_of r s)"
  by (simp add: dir_of_def put_dir_def)

lemma dir_of_upd [simp]:
  "dir_of r (s\<lparr>cl_fatal := x1\<rparr>) = dir_of r s" "dir_of r (s\<lparr>cl_round := x2\<rparr>) = dir_of r s"
  "dir_of r (s\<lparr>cl_status := x3\<rparr>) = dir_of r s" "dir_of r (s\<lparr>cl_failure := x4\<rparr>) = dir_of r s"
  "dir_of r (s\<lparr>cl_consumed := x5\<rparr>) = dir_of r s" "dir_of r (s\<lparr>cl_waiting := x6\<rparr>) = dir_of r s"
  "dir_of r (s\<lparr>cl_submitting := x7\<rparr>) = dir_of r s" "dir_of r (s\<lparr>cl_current := x8\<rparr>) = dir_of r s"
  "dir_of r (s\<lparr>cl_rejected := x9\<rparr>) = dir_of r s"
  by (simp_all add: dir_of_def)

lemma put_dir_fields [simp, frame_simps]:
  "cl_node (put_dir q d s) = cl_node s" "cl_max (put_dir q d s) = cl_max s"
  "cl_fatal (put_dir q d s) = cl_fatal s" "cl_round (put_dir q d s) = cl_round s"
  "cl_status (put_dir q d s) = cl_status s" "cl_failure (put_dir q d s) = cl_failure s"
  "cl_consumed (put_dir q d s) = cl_consumed s" "cl_current (put_dir q d s) = cl_current s"
  "cl_rid (put_dir q d s) = cl_rid s" "cl_rejected (put_dir q d s) = cl_rejected s"
  by (simp_all add: put_dir_def cl_rid_def)

lemma put_dir_keys [simp]:
  "has_key (cl_dirs (put_dir q d s)) r \<longleftrightarrow> r = q \<or> has_key (cl_dirs s) r"
  "dict_wf (cl_dirs s) \<Longrightarrow> dict_wf (cl_dirs (put_dir q d s))"
  by (auto simp: put_dir_def has_key_def)

lemma make_dir_same [simp]: "dir_of r (make_dir q s) = dir_of r s"
  by (simp add: make_dir_def)

section \<open>The invariant\<close>

text \<open>A state file is absent or passes the check recovery makes; the pointer leads to a round with a
  state file; only the current round may be unfinished, and in a healthy runtime its file says what
  the runtime believes.\<close>

definition state_file_ok :: "string \<Rightarrow> json_file \<Rightarrow> bool" where
  "state_file_ok r f \<longleftrightarrow> f = NoFile \<or>
     (\<exists>d. f = Json (PDict d) \<and> round_state_ok (PDict d) r ClientRole \<and> tidy_state d)"

definition unfinished :: "json_file \<Rightarrow> bool" where
  "unfinished f \<longleftrightarrow> f \<noteq> NoFile \<and> \<not> recorded_terminal f"

definition cl_base :: "client_rt \<Rightarrow> bool" where
  "cl_base s \<longleftrightarrow> 0 < cl_node s \<and> 0 < cl_max s \<and> dict_wf (cl_dirs s) \<and>
     (\<forall>r. has_key (cl_dirs s) r \<longrightarrow> canonical_uuid r) \<and>
     (\<forall>r. state_file_ok r (rd_state (dir_of r s))) \<and>
     (cl_current s = NoFile \<or>
        (\<exists>r. cl_current s = Json (PDict (current_pointer ClientRole r)) \<and> rd_state (dir_of r s) \<noteq> NoFile))"

definition others_done :: "client_rt \<Rightarrow> bool" where
  "others_done s \<longleftrightarrow> (\<forall>r. unfinished (rd_state (dir_of r s)) \<longrightarrow> cl_round s = Some r)"

definition quiet :: "client_rt \<Rightarrow> bool" where
  "quiet s \<longleftrightarrow> (\<forall>r. \<not> unfinished (rd_state (dir_of r s)))"

definition cl_agrees :: "client_rt \<Rightarrow> bool" where
  "cl_agrees s \<longleftrightarrow> (\<forall>st. cl_status s = Some st \<longrightarrow>
     (\<exists>d. rd_state (dir_of (cl_rid s) s) = Json (PDict d) \<and> cl_round s \<noteq> None \<and>
        dget d ''state'' = PStr (client_status_name st)))"

definition client_inv :: "client_rt \<Rightarrow> bool" where
  "client_inv s \<longleftrightarrow> cl_base s \<and> others_done s \<and> (cl_fatal s = None \<longrightarrow> cl_agrees s)"

lemmas inv_defs = cl_base_def others_done_def quiet_def cl_agrees_def

lemma client_inv_upd [simp]:
  "client_inv (s\<lparr>cl_failure := x\<rparr>) = client_inv s" "client_inv (s\<lparr>cl_consumed := b\<rparr>) = client_inv s"
  "client_inv (s\<lparr>cl_waiting := b\<rparr>) = client_inv s" "client_inv (s\<lparr>cl_submitting := b\<rparr>) = client_inv s"
  "client_inv (s\<lparr>cl_rejected := l\<rparr>) = client_inv s"
  by (simp_all add: client_inv_def inv_defs cl_rid_def)

lemma quiet_upd [simp]:
  "quiet (s\<lparr>cl_failure := x\<rparr>) = quiet s" "quiet (s\<lparr>cl_consumed := b\<rparr>) = quiet s"
  "quiet (s\<lparr>cl_waiting := b\<rparr>) = quiet s" "quiet (s\<lparr>cl_rejected := l\<rparr>) = quiet s"
  "quiet (s\<lparr>cl_round := r\<rparr>) = quiet s" "quiet (s\<lparr>cl_fatal := e\<rparr>) = quiet s"
  by (simp_all add: quiet_def)

lemma client_status_inj [simp]: "client_status_name a = client_status_name b \<longleftrightarrow> a = b"
  by (cases a; cases b) simp_all

definition cl_extra_ok :: "client_status \<Rightarrow> pydict \<Rightarrow> bool" where
  "cl_extra_ok st extra \<longleftrightarrow>
     \<not> has_key extra ''downlink_diagnostics'' \<and> (st = ClFailed \<longrightarrow> failure_ok extra ClientRole) \<and>
     (st \<noteq> ClFailed \<longrightarrow> dget extra ''node_id'' = PNone)"

lemma cl_extra_simps [simp]:
  "st \<noteq> ClFailed \<Longrightarrow> cl_extra_ok st []"
  "0 < cl_node s \<Longrightarrow> code \<noteq> [] \<Longrightarrow> cl_extra_ok ClFailed (cl_failed_extra s code msg)"
  by (simp_all add: cl_extra_ok_def cl_failed_extra_def failure_ok_def has_key_def dget_def nonempty_str_def
      is_str_def)

lemma cl_state_value_get:
  "k \<notin> {''schema_version'', ''round_id'', ''role'', ''state''} \<Longrightarrow> dget (cl_state_value s st extra) k = dget extra k"
  "k \<notin> {''schema_version'', ''round_id'', ''role'', ''state''} \<Longrightarrow>
   has_key (cl_state_value s st extra) k = has_key extra k"
  "dget (cl_state_value s st extra) ''schema_version'' = PInt 1"
  "dget (cl_state_value s st extra) ''round_id'' = PStr (cl_rid s)"
  "dget (cl_state_value s st extra) ''role'' = PStr ''client''"
  "dget (cl_state_value s st extra) ''state'' = PStr (client_status_name st)"
  "state_of (cl_state_value s st extra) = client_status_name st"
  by (auto simp: cl_state_value_def dget_def has_key_def state_of_def)

lemma client_status_terminal:
  "client_status_name st \<in> set terminal_states \<longleftrightarrow> st = ClSucceeded \<or> st = ClFailed"
  "client_status_name st \<in> set (active_states ClientRole @ terminal_states)"
  "client_status_name st = ''failed'' \<longleftrightarrow> st = ClFailed"
  by (cases st; simp add: terminal_states_def active_states_def)+

lemma cl_state_value_ok:
  assumes "cl_extra_ok st extra"
  shows "state_file_ok (cl_rid s) (Json (PDict (cl_state_value s st extra)))"
proof -
  have "round_state_ok (PDict (cl_state_value s st extra)) (cl_rid s) ClientRole"
    using assms client_status_terminal [of st]
    by (simp add: round_state_ok_def cl_state_value_get role_name_def is_str_def cl_extra_ok_def failure_ok_def)
  moreover have "tidy_state (cl_state_value s st extra)"
    using assms client_status_terminal [of st]
    by (auto simp: tidy_state_def is_terminal_def cl_state_value_get cl_extra_ok_def)
  ultimately show ?thesis by (simp add: state_file_ok_def)
qed

lemma cl_write_state_cases:
  assumes "cl_write_state werr st extra s = (r, s')"
  obtains "werr = None" "r = Inr ()"
      "s' = (put_dir (cl_rid s) (dir_of (cl_rid s) s\<lparr>rd_state := Json (PDict (cl_state_value s st extra))\<rparr>) s)
             \<lparr>cl_status := Some st\<rparr>"
    | e x where "werr = Some e" "r = Inl x" "s' = s\<lparr>cl_fatal := Some x\<rparr>" "error_code x \<noteq> []"
        "\<exists>m a b. x = FLRuntimeError ''state_persistence_failed'' m a b"
  using assms
  by (cases werr) (auto simp: cl_write_state_def write_json_atomic_def Let_def cl_error_def)

text \<open>Writing the current round's state, when no other round is unfinished.\<close>

lemma cl_write_state_inv:
  assumes w: "cl_write_state werr st extra s = (res, s')" and "cl_base s" and "others_done s"
    and r: "cl_round s = Some r" and "canonical_uuid r" and ok: "cl_extra_ok st extra"
  shows "client_inv s'"
  using w
proof (cases rule: cl_write_state_cases)
  case 1
  have rid: "cl_rid s = r" by (simp add: cl_rid_def r)
  let ?f = "Json (PDict (cl_state_value s st extra))"
  have f: "state_file_ok r ?f" using cl_state_value_ok [OF ok, of s] rid by simp
  have "cl_base s'" using assms(2,5) f by (auto simp: cl_base_def 1(3) rid)
  moreover have "others_done s'" using assms(3) by (auto simp: others_done_def 1(3) rid r)
  moreover have "cl_agrees s'" by (simp add: cl_agrees_def 1(3) rid r cl_state_value_get cl_rid_def)
  ultimately show ?thesis by (simp add: client_inv_def)
next
  case 2
  with assms(2,3) show ?thesis by (simp add: client_inv_def inv_defs)
qed

lemma cl_write_current_inv:
  assumes "cl_write_current err r s = (res, s')" and "client_inv s" and "rd_state (dir_of r s) \<noteq> NoFile"
  shows "client_inv s'"
  using assms
  by (cases err) (auto simp: cl_write_current_def write_json_atomic_def client_inv_def inv_defs cl_rid_def)

lemma cl_abort_inv [simp]: "client_inv s \<Longrightarrow> client_inv (cl_abort reason s)"
  by (simp add: cl_abort_def client_inv_def inv_defs)

lemma cl_write_state_file:
  "cl_write_state werr st extra s = (Inr (), s') \<Longrightarrow> cl_round s = Some r \<Longrightarrow>
   rd_state (dir_of r s') \<noteq> NoFile \<and> cl_round s' = cl_round s \<and> cl_node s' = cl_node s"
  by (erule cl_write_state_cases) (simp_all add: cl_rid_def)

section \<open>Every operation keeps the invariant\<close>

definition code_ok :: "exn \<Rightarrow> bool" where
  "code_ok e \<longleftrightarrow> (case e of FLRuntimeError c _ _ _ \<Rightarrow> c \<noteq> [] | _ \<Rightarrow> True)"

definition err_ok :: "exn option \<Rightarrow> bool" where
  "err_ok x \<longleftrightarrow> (case x of None \<Rightarrow> True | Some e \<Rightarrow> code_ok e)"

definition delivery_ok :: "delivery \<Rightarrow> bool" where
  "delivery_ok d \<longleftrightarrow> err_ok (dl_mkdir_err d) \<and> err_ok (dl_copy_err d) \<and> err_ok (dl_manifest_err d)"

definition submission_ok :: "submission \<Rightarrow> bool" where
  "submission_ok u \<longleftrightarrow> err_ok (su_copy_err u) \<and> err_ok (su_manifest_err u) \<and> err_ok (su_send_err u)"

lemma canonical_of_parse: "parse_round_id v = Inr r \<Longrightarrow> canonical_uuid r"
  by (auto simp: parse_round_id_def uuid4_string_def split: option.splits)

lemma model_manifest_facts:
  "validate_model_manifest v = Inr m \<Longrightarrow>
   v = PDict m \<and> dget m ''round_id'' = PStr (mf_round m) \<and> uuid4_string (mf_round m) \<and>
   dget m ''size_bytes'' = PInt (mf_size m) \<and> dget m ''sha256'' = PStr (mf_sha m) \<and> mf_nodes m \<noteq> []"
  by (auto simp: validate_model_manifest_def validate_exact_fields_def parse_round_id_def validate_sha256_def
      mf_round_def mf_size_def mf_sha_def mf_nodes_def split: option.splits if_splits)

lemma validate_model_error: "validate_model_manifest v = Inl e \<Longrightarrow> e = bad_manifest"
  by (auto simp: validate_model_manifest_def validate_exact_fields_def parse_round_id_def validate_sha256_def
      bind_res_eq_Inl split: option.splits if_splits)

lemma manifest_error_ok: "bind_res (read_json f) validate_model_manifest = Inl e \<Longrightarrow> code_ok e"
  by (auto simp: bind_res_eq_Inl read_json_def code_ok_def bad_manifest_def
      dest!: validate_model_error split: json_file.splits)

lemma open_error_ok: "open_artifact n m = Inl e \<Longrightarrow> code_ok e"
  by (auto simp: open_artifact_def code_ok_def split: node.splits option.splits if_splits)

lemma validate_artifact_error_ok: "validate_artifact dig n sz h m = Inl e \<Longrightarrow> code_ok e"
  by (auto simp: validate_artifact_def code_ok_def integrity_failed_def dest: open_error_ok
      split: sum.splits exn.splits if_splits prod.splits)

lemma archive_error_ok: "archive_open_file dig st view m = (Inl e, t) \<Longrightarrow> code_ok e"
  by (auto simp: archive_open_file_def code_ok_def Let_def dest!: copy_loop_error
      split: sum.splits if_splits)

text \<open>Steps that touch no state file, and create at most one directory.\<close>

definition states_kept :: "string \<Rightarrow> client_rt \<Rightarrow> client_rt \<Rightarrow> bool" where
  "states_kept r s s' \<longleftrightarrow>
     (\<forall>q. rd_state (dir_of q s') = rd_state (dir_of q s)) \<and>
     cl_node s' = cl_node s \<and> cl_max s' = cl_max s \<and> cl_fatal s' = cl_fatal s \<and> cl_round s' = cl_round s \<and>
     cl_status s' = cl_status s \<and> cl_current s' = cl_current s \<and>
     (dict_wf (cl_dirs s) \<longrightarrow> dict_wf (cl_dirs s')) \<and>
     (\<forall>q. has_key (cl_dirs s') q \<longrightarrow> q = r \<or> has_key (cl_dirs s) q)"

lemma states_kept_refl [simp]: "states_kept r s s"
  by (simp add: states_kept_def)

lemma states_kept_put:
  "states_kept r s s' \<Longrightarrow> rd_state d = rd_state (dir_of r s') \<Longrightarrow> states_kept r s (put_dir r d s')"
  by (auto simp: states_kept_def)

lemma states_kept_make: "states_kept r s s' \<Longrightarrow> states_kept r s (make_dir r s')"
  by (simp add: make_dir_def states_kept_put)

lemma states_kept_inv:
  assumes "states_kept r s s'" and "canonical_uuid r"
  shows "client_inv s \<Longrightarrow> client_inv s'" and "quiet s \<Longrightarrow> quiet s'"
proof -
  have "cl_rid s' = cl_rid s" using assms(1) by (simp add: states_kept_def cl_rid_def)
  then show "client_inv s \<Longrightarrow> client_inv s'"
    using assms by (auto simp: states_kept_def client_inv_def inv_defs)
  show "quiet s \<Longrightarrow> quiet s'"
    using assms by (auto simp: states_kept_def quiet_def)
qed

lemma quarantine_cases:
  assumes "quarantine d code s = (res, s')"
  obtains "s' = s" "res \<noteq> Inr ()" | "s' = s\<lparr>cl_rejected := cl_rejected s @ [code]\<rparr>" "res = Inr ()"
  using assms by (auto simp: quarantine_def split: option.splits)

lemma quarantine_inv:
  assumes "quarantine d code s = (res, s')"
  shows "client_inv s' = client_inv s" and "quiet s' = quiet s" and "states_kept r s s'"
  using assms by (cases rule: quarantine_cases; simp add: states_kept_def)+

lemma fail_model_delivery_inv:
  assumes f: "fail_model_delivery d r code msg s = (res, s')" and inv: "client_inv s" and "quiet s"
    and r: "canonical_uuid r" and code: "code \<noteq> []"
  shows "client_inv s'"
proof (cases "recorded_terminal (rd_state (dir_of r s)) \<or> dl_mkdir_err d \<noteq> None")
  case True
  with f inv show ?thesis by (auto simp: fail_model_delivery_def split: if_splits)
next
  case False
  let ?s = "make_dir r s\<lparr>cl_round := Some r, cl_failure := Some (FLRuntimeError code msg (Some r) (Some (cl_node s))),
    cl_consumed := True\<rparr>"
  have n: "cl_node (make_dir r s) = cl_node s" by (simp add: make_dir_def)
  from False f obtain res1 s1 where w: "cl_write_failed (dl_fail_err d) code msg ?s = (res1, s1)"
    and out: "(case res1 of Inl e \<Rightarrow> (Inl e, s1) | Inr _ \<Rightarrow> cl_write_current (dl_fail_pointer_err d) r s1) = (res, s')"
    by (cases "cl_write_failed (dl_fail_err d) code msg ?s")
      (simp add: fail_model_delivery_def Let_def n split: sum.splits)
  have k: "client_inv (make_dir r s)" "quiet (make_dir r s)"
    using states_kept_inv [OF states_kept_make [OF states_kept_refl] r] inv \<open>quiet s\<close> by blast+
  have b: "cl_base ?s" using k(1) by (simp add: client_inv_def cl_base_def)
  have o: "others_done ?s" using k(2) by (simp add: others_done_def quiet_def)
  have node: "0 < cl_node ?s" using b by (simp add: cl_base_def)
  from w have w': "cl_write_state (dl_fail_err d) ClFailed (cl_failed_extra ?s code msg) ?s = (res1, s1)"
    by (simp add: cl_write_failed_def)
  have i1: "client_inv s1"
    by (rule cl_write_state_inv [OF w' b o _ r cl_extra_simps(2) [OF node code]]) simp
  show ?thesis
  proof (cases res1)
    case (Inl e)
    with out i1 show ?thesis by simp
  next
    case (Inr u)
    with out have "cl_write_current (dl_fail_pointer_err d) r s1 = (res, s')" by simp
    moreover have "rd_state (dir_of r s1) \<noteq> NoFile"
      using cl_write_state_file [of _ _ _ _ _ r] w' Inr by simp
    ultimately show ?thesis by (rule cl_write_current_inv [OF _ i1])
  qed
qed

lemma store_model_kept:
  assumes "store_model d m sz h t s1 = (res, s')" and "delivery_ok d" and "states_kept (mf_round m) s s1"
  shows "states_kept (mf_round m) s s' \<and> (\<forall>e. res = Inl e \<longrightarrow> code_ok e)"
proof -
  have "code_ok integrity_failed" by (simp add: code_ok_def integrity_failed_def)
  with assms show ?thesis
    by (cases t; cases "dl_manifest_err d")
      (auto simp: store_model_def Let_def write_json_atomic_def delivery_ok_def err_ok_def
        intro!: states_kept_put split: if_splits)
qed

lemma copy_model_kept:
  assumes "copy_model dig d m st s1 = (res, s')" and "delivery_ok d" and "states_kept (mf_round m) s s1"
  shows "states_kept (mf_round m) s s' \<and> (\<forall>e. res = Inl e \<longrightarrow> code_ok e)"
proof (cases "dl_copy_err d")
  case None
  obtain x t where a: "archive_open_file dig st (dl_view d) None = (x, t)" by fastforce
  show ?thesis
  proof (cases x)
    case (Inl e)
    with None a assms archive_error_ok [of dig st "dl_view d" None e t] show ?thesis
      by (auto simp: copy_model_def)
  next
    case (Inr p)
    with None a assms(1) obtain sz h where "store_model d m sz h t s1 = (res, s')"
      by (cases p) (simp add: copy_model_def)
    then show ?thesis using assms(2,3) by (rule store_model_kept)
  qed
next
  case (Some e)
  with assms show ?thesis by (auto simp: copy_model_def delivery_ok_def err_ok_def)
qed

lemma archive_model_cases:
  assumes "archive_model dig d m s = (res, s')"
  obtains e where "res = Inl e" "s' = s" "validate_artifact dig (dl_model d) (mf_size m) (mf_sha m) None = Inl e"
    | e where "res = Inl e" "s' = s" "open_artifact (dl_later d) None = Inl e"
    | e where "res = Inl e" "s' = s" "dl_mkdir_err d = Some e"
    | b st where "open_artifact (dl_later d) None = Inr (b, st)"
        "copy_model dig d m st (make_dir (mf_round m) s) = (res, s')"
proof (cases "validate_artifact dig (dl_model d) (mf_size m) (mf_sha m) None")
  case (Inl e)
  with assms have "res = Inl e" "s' = s" by (simp_all add: archive_model_def)
  with Inl show ?thesis using that(1) by simp
next
  case (Inr u)
  then show ?thesis using assms that(2-4)
    by (cases "open_artifact (dl_later d) None"; cases "dl_mkdir_err d") (auto simp: archive_model_def)
qed

lemma archive_model_kept:
  assumes a: "archive_model dig d m s = (res, s')" and ok: "delivery_ok d"
  shows "states_kept (mf_round m) s s' \<and> (\<forall>e. res = Inl e \<longrightarrow> code_ok e)"
  using a
proof (cases rule: archive_model_cases)
  case (1 e)
  then show ?thesis by (simp add: validate_artifact_error_ok)
next
  case (2 e)
  then show ?thesis by (simp add: open_error_ok)
next
  case (3 e)
  then show ?thesis using ok by (simp add: delivery_ok_def err_ok_def)
next
  case (4 b st)
  then show ?thesis using copy_model_kept [OF _ ok states_kept_make [OF states_kept_refl]] by blast
qed

lemma reject_delivery_inv:
  assumes j: "reject_delivery d r e out s = (x, s')" and inv: "client_inv s" and q: "quiet s"
    and r: "\<And>a. r = Some a \<Longrightarrow> canonical_uuid a" and ok: "code_ok e"
  shows "client_inv s'"
proof (cases e)
  case (FLRuntimeError code msg a b)
  with ok have code: "code \<noteq> []" by (simp add: code_ok_def)
  let ?f = "case r of None \<Rightarrow> (Inr (), s) | Some r \<Rightarrow> fail_model_delivery d r code msg s"
  obtain res1 s1 where f: "?f = (res1, s1)" by fastforce
  then have i1: "client_inv s1"
    using fail_model_delivery_inv [OF _ inv q r code] inv by (auto split: option.splits)
  obtain res2 s2 where g: "quarantine d code s1 = (res2, s2)" by fastforce
  from j f g FLRuntimeError have "s' = s1 \<or> s' = s2"
    by (auto simp: reject_delivery_def split: sum.splits)
  with i1 quarantine_inv(1) [OF g] show ?thesis by auto
qed (use j inv in \<open>auto simp: reject_delivery_def\<close>)

lemma accept_model_inv:
  assumes a: "accept_model d r s = (res, s')" and inv: "client_inv s" and q: "quiet s"
    and r: "canonical_uuid r"
  shows "client_inv s'"
proof -
  let ?s = "s\<lparr>cl_round := Some r, cl_failure := None, cl_consumed := True\<rparr>"
  have b: "cl_base ?s" using inv by (simp add: client_inv_def cl_base_def)
  have o: "others_done ?s" using q by (simp add: others_done_def quiet_def)
  obtain res1 s1 where w: "cl_write_state (dl_state_err d) ModelReceived [] ?s = (res1, s1)" by fastforce
  have i1: "client_inv s1" by (rule cl_write_state_inv [OF w b o _ r]) simp_all
  show ?thesis
  proof (cases res1)
    case (Inl e)
    with a w i1 show ?thesis by (simp add: accept_model_def Let_def)
  next
    case (Inr u)
    with w have f: "rd_state (dir_of r s1) \<noteq> NoFile" "cl_round s1 = Some r"
      using cl_write_state_file [of _ _ _ ?s s1 r] by simp_all
    obtain res2 s2 where c: "cl_write_current (dl_pointer_err d) r s1 = (res2, s2)" by fastforce
    have i2: "client_inv s2" by (rule cl_write_current_inv [OF c i1 f(1)])
    have s2: "cl_round s2 = Some r" using c f(2)
      by (auto simp: cl_write_current_def split: prod.splits)
    obtain res3 s3 where x: "cl_write_failed (dl_fail_err d) ''state_persistence_failed'' ''pointer'' s2 = (res3, s3)"
      by fastforce
    have "client_inv s3"
      by (rule cl_write_state_inv [OF x [unfolded cl_write_failed_def] _ _ s2 r])
        (use i2 in \<open>simp_all add: client_inv_def cl_base_def\<close>)
    moreover from a w Inr c x have "s' = s2 \<or> s' = s3"
      by (auto simp: accept_model_def Let_def split: sum.splits)
    ultimately show ?thesis using i2 by blast
  qed
qed

lemma uuid4_canonical: "uuid4_string r \<Longrightarrow> canonical_uuid r"
  by (simp add: uuid4_string_def)

lemma new_model_inv:
  assumes n: "new_model dig d m s = (res, s')" and inv: "client_inv s" and q: "quiet s"
    and r: "canonical_uuid (mf_round m)" and ok: "delivery_ok d"
  shows "client_inv s'"
proof -
  obtain x s1 where a: "archive_model dig d m s = (x, s1)" by fastforce
  note k = archive_model_kept [OF a ok]
  have i1: "client_inv s1" "quiet s1" using states_kept_inv [OF conjunct1 [OF k] r] inv q by blast+
  show ?thesis
  proof (cases x)
    case (Inl e)
    obtain y s2 where j: "reject_delivery d (Some (mf_round m)) e (with_round s (mf_round m) e) s1 = (y, s2)"
      by fastforce
    have "client_inv s2" by (rule reject_delivery_inv [OF j i1]) (use k r Inl in auto)
    with n a Inl j show ?thesis by (simp add: new_model_def)
  next
    case (Inr u)
    with n a have "accept_model d (mf_round m) s1 = (res, s')" by (simp add: new_model_def)
    then show ?thesis by (rule accept_model_inv [OF _ i1 r])
  qed
qed

lemma then_next_quarantine:
  assumes "then_next (quarantine d code s) = (res, s')" and "client_inv s" and "quiet s"
  shows "client_inv s' \<and> (res = None \<longrightarrow> quiet s' \<and> cl_fatal s' = cl_fatal s)"
proof -
  obtain r1 s1 where q: "quarantine d code s = (r1, s1)" by fastforce
  have "cl_fatal s1 = cl_fatal s" using quarantine_inv(3) [OF q, of "[]"] by (simp add: states_kept_def)
  with assms q quarantine_inv(1,2) [OF q] show ?thesis by (auto simp: then_next_def split: sum.splits)
qed

lemma candidate_canonical: "candidate_round_id v = Some r \<Longrightarrow> canonical_uuid r"
  by (auto simp: candidate_round_id_def split: option.splits sum.splits dest: canonical_of_parse)

lemma take_delivery_inv:
  assumes t: "take_delivery dig d s = (res, s')" and inv: "client_inv s" and q: "quiet s"
    and ok: "delivery_ok d"
  shows "client_inv s' \<and> (res = None \<longrightarrow> quiet s' \<and> cl_fatal s' = cl_fatal s)"
proof (cases "bind_res (read_json (dl_manifest d)) validate_model_manifest")
  case (Inl e)
  let ?v = "case read_json (dl_manifest d) of Inl _ \<Rightarrow> None | Inr v \<Rightarrow> Some v"
  obtain x s1 where j: "reject_delivery d (candidate_round_id ?v) e e s = (x, s1)" by fastforce
  have "client_inv s1"
    by (rule reject_delivery_inv [OF j inv q]) (auto intro: candidate_canonical manifest_error_ok [OF Inl])
  moreover from t j Inl have "res = Some (Inl x)" "s' = s1" by (simp_all add: take_delivery_def Let_def)
  ultimately show ?thesis by simp
next
  case (Inr m)
  then have r: "canonical_uuid (mf_round m)"
    using model_manifest_facts [of _ m] by (auto intro: uuid4_canonical)
  show ?thesis
  proof (cases "cl_node s \<in> set (mf_nodes m)")
    case False
    with t Inr have "then_next (quarantine d ''model_not_for_this_node'' s) = (res, s')"
      by (simp add: take_delivery_def)
    then show ?thesis by (rule then_next_quarantine [OF _ inv q])
  next
    case True
    show ?thesis
    proof (cases "read_existing_manifest (mf_round m) s")
      case (Inl e)
      with t Inr True inv show ?thesis by (auto simp: take_delivery_def)
    next
      case x: (Inr old)
      show ?thesis
      proof (cases old)
        case None
        obtain y s1 where n: "new_model dig d m s = (y, s1)" by fastforce
        with t Inr True x None have "res = Some y" "s' = s1" by (simp_all add: take_delivery_def)
        with new_model_inv [OF n inv q r ok] show ?thesis by simp
      next
        case (Some o')
        with t Inr True x have k: "known_model dig d m o' s = (res, s')" by (simp add: take_delivery_def)
        show ?thesis
        proof (cases "delivery_matches dig d m o' s")
          case True
          with k have "then_next (quarantine d ''duplicate_model_ignored'' s) = (res, s')"
            by (simp add: known_model_def)
          then show ?thesis by (rule then_next_quarantine [OF _ inv q])
        next
          case False
          obtain r1 s1 where g: "quarantine d ''round_id_content_conflict'' s = (r1, s1)" by fastforce
          with k False have "s' = s1" "res \<noteq> None" by (auto simp: known_model_def split: sum.splits)
          with quarantine_inv(1) [OF g] inv show ?thesis by auto
        qed
      qed
    qed
  qed
qed

definition turn_ok :: "model_turn \<Rightarrow> bool" where
  "turn_ok t \<longleftrightarrow> (case snd t of Inl e \<Rightarrow> True | Inr d \<Rightarrow> delivery_ok d)"

lemma model_loop_inv:
  "model_loop dig xs s = (res, s') \<Longrightarrow> client_inv s \<Longrightarrow> quiet s \<Longrightarrow>
   list_all turn_ok xs \<Longrightarrow> client_inv s'"
proof (induction dig xs s rule: model_loop.induct)
  case (2 dig a x xs s)
  let ?s = "case a of None \<Rightarrow> s | Some reason \<Rightarrow> cl_abort reason s"
  have i: "client_inv ?s" "quiet ?s" using 2(3,4)
    by (simp_all add: cl_abort_inv split: option.split) (simp add: cl_abort_def split: option.split)
  show ?case
  proof (cases "cl_fatal s")
    case None
    show ?thesis
    proof (cases x)
      case (Inl e)
      with 2(2) None i show ?thesis by (simp add: Let_def)
    next
      case (Inr d)
      obtain r1 s1 where t: "take_delivery dig d ?s = (r1, s1)" by fastforce
      have k: "client_inv s1 \<and> (r1 = None \<longrightarrow> quiet s1 \<and> cl_fatal s1 = cl_fatal ?s)"
        by (rule take_delivery_inv [OF t i]) (use 2(5) Inr in \<open>simp add: turn_ok_def\<close>)
      show ?thesis
      proof (cases r1)
        case None
        with 2(1) [OF \<open>cl_fatal s = None\<close> refl Inr t [symmetric] None] 2(2,5) k t Inr \<open>cl_fatal s = None\<close>
        show ?thesis by (simp add: Let_def)
      next
        case (Some r)
        with 2(2) k t Inr \<open>cl_fatal s = None\<close> show ?thesis by (simp add: Let_def)
      qed
    qed
  next
    case (Some e)
    with 2(2,3) show ?thesis by simp
  qed
qed simp

lemma idle_quiet:
  assumes "client_inv s" and "cl_fatal s = None" and "cl_round s = None \<or> cl_terminal s"
  shows "quiet s"
proof (cases "cl_round s")
  case None
  with assms(1) show ?thesis by (simp add: client_inv_def others_done_def quiet_def)
next
  case (Some r)
  with assms(3) obtain st where st: "cl_status s = Some st" "st = ClSucceeded \<or> st = ClFailed"
    by (auto simp: cl_terminal_def)
  with assms(1,2) obtain d where d: "rd_state (dir_of (cl_rid s) s) = Json (PDict d)"
    "dget d ''state'' = PStr (client_status_name st)"
    by (auto simp: client_inv_def cl_agrees_def)
  have "recorded_terminal (rd_state (dir_of r s))"
    using d st client_status_terminal [of st] Some
    by (simp add: cl_rid_def recorded_terminal_def is_terminal_def state_of_def)
  with assms(1) Some show ?thesis by (auto simp: client_inv_def others_done_def quiet_def unfinished_def)
qed

lemma wait_for_model_inv:
  assumes w: "wait_for_model dig ready xs s = (res, s')" and inv: "client_inv s" and ok: "list_all turn_ok xs"
  shows "client_inv s'"
proof -
  obtain r1 s1 where l: "model_loop dig xs (s\<lparr>cl_waiting := True\<rparr>) = (r1, s1)" by fastforce
  show ?thesis
  proof (cases "cl_fatal s = None \<and> (cl_round s = None \<or> cl_terminal s)")
    case True
    then have "quiet (s\<lparr>cl_waiting := True\<rparr>)" using idle_quiet [OF inv] by simp
    then have "client_inv s1" using model_loop_inv [OF l _ _ ok] inv by simp
    with w l inv show ?thesis
      by (auto simp: wait_for_model_def split: sum.splits if_splits option.splits)
  next
    case False
    with w inv show ?thesis
      by (auto simp: wait_for_model_def cl_require_ready_def split: sum.splits if_splits option.splits)
  qed
qed

lemma has_state_canonical:
  "client_inv s \<Longrightarrow> rd_state (dir_of r s) \<noteq> NoFile \<Longrightarrow> canonical_uuid r"
  by (auto simp: client_inv_def cl_base_def dir_of_def has_key_def empty_dir_def split: option.splits)

lemma cl_write_state_keep:
  assumes "cl_write_state werr st extra s = (res, s')" and "client_inv s" and "cl_round s = Some r"
    and "canonical_uuid r" and "cl_extra_ok st extra"
  shows "client_inv s' \<and> cl_round s' = Some r"
proof
  show "client_inv s'"
    by (rule cl_write_state_inv [OF assms(1) _ _ assms(3,4,5)]) (use assms(2) in \<open>simp_all add: client_inv_def\<close>)
  show "cl_round s' = Some r"
    using assms(1,3) by (auto elim: cl_write_state_cases)
qed

lemma submit_except_inv:
  assumes e: "submit_except u e s = (res, s')" and inv: "client_inv s" and r: "cl_round s = Some r"
    "canonical_uuid r" and ok: "code_ok e"
  shows "client_inv s'"
proof -
  have step: "client_inv s2" if "cl_write_failed w c m (s\<lparr>cl_failure := x\<rparr>) = (r2, s2)" "c \<noteq> []" for w c m x r2 s2
  proof -
    have "0 < cl_node (s\<lparr>cl_failure := x\<rparr>)" using inv by (simp add: client_inv_def cl_base_def)
    from cl_write_state_keep [OF that(1) [unfolded cl_write_failed_def] _ _ r(2) cl_extra_simps(2) [OF this that(2)]]
    show ?thesis using inv r(1) by simp
  qed
  show ?thesis
  proof (cases e)
    case (FLRuntimeError c m a b)
    with ok have "c \<noteq> []" by (simp add: code_ok_def)
    with FLRuntimeError e inv step show ?thesis
      by (auto simp: submit_except_def split: if_splits sum.splits prod.splits)
  qed (use e step in \<open>auto simp: submit_except_def Let_def split: sum.splits prod.splits\<close>)
qed

lemma store_update_kept: "cl_round s = Some r \<Longrightarrow> states_kept r s (store_update t s)"
  by (auto simp: store_update_def cl_rid_def intro: states_kept_put split: option.split)

lemma send_update_inv:
  assumes b: "send_update u sz h s = (res, s', out)" and inv: "client_inv s" and r: "cl_round s = Some r"
    "canonical_uuid r" and ok: "submission_ok u"
  shows "client_inv s' \<and> cl_round s' = Some r \<and> (\<forall>e. res = Inl e \<longrightarrow> code_ok e)"
proof (cases "su_manifest_err u")
  case None
  let ?s = "put_dir r (dir_of r s\<lparr>rd_update_manifest := Json (PDict (update_manifest s sz h))\<rparr>) s"
  have rid: "cl_rid s = r" by (simp add: cl_rid_def r(1))
  have "states_kept r s ?s" by (rule states_kept_put) simp_all
  with states_kept_inv(1) [OF this r(2) inv] r(1) have i: "client_inv ?s" "cl_round ?s = Some r" by simp_all
  obtain res1 s3 where w: "cl_write_state (su_done_err u) ClSucceeded [] ?s = (res1, s3)" by fastforce
  have i3: "client_inv s3 \<and> cl_round s3 = Some r" by (rule cl_write_state_keep [OF w i r(2)]) simp
  have "res1 = Inl e \<Longrightarrow> code_ok e" for e
    using w by (rule cl_write_state_cases) (auto simp: code_ok_def)
  with b None w i i3 ok show ?thesis
    by (cases "su_send_err u")
      (auto simp: send_update_def Let_def rid write_json_atomic_def submission_ok_def err_ok_def)
next
  case (Some e)
  with b inv r ok show ?thesis
    by (auto simp: send_update_def Let_def write_json_atomic_def submission_ok_def err_ok_def)
qed

lemma submit_body_inv:
  assumes b: "submit_body dig st u s = (res, s', out)" and inv: "client_inv s" and r: "cl_round s = Some r"
    "canonical_uuid r" and ok: "submission_ok u"
  shows "client_inv s' \<and> cl_round s' = Some r \<and> (\<forall>e. res = Inl e \<longrightarrow> code_ok e)"
proof -
  obtain x t where a: "archive_open_file dig st (su_view u) (Some (cl_max s)) = (x, t)" by fastforce
  show ?thesis
  proof (cases "su_copy_err u \<noteq> None \<or> \<not> is_ok x")
    case True
    with b a inv r ok archive_error_ok [of dig st "su_view u" "Some (cl_max s)" _ t] show ?thesis
      by (cases x; cases "su_copy_err u") (auto simp: submit_body_def submission_ok_def err_ok_def)
  next
    case False
    with a b obtain sz h where y: "send_update u sz h (store_update t s) = (res, s', out)"
      by (cases x) (auto simp: submit_body_def)
    note k = store_update_kept [OF r(1), of t]
    from states_kept_inv(1) [OF k r(2) inv] k r(1)
    show ?thesis by (intro send_update_inv [OF y _ _ r(2) ok]) (simp_all add: states_kept_def)
  qed
qed

lemma submit_active_inv:
  assumes a: "submit_active dig u s = (res, s', out)" and inv: "client_inv s" and r: "cl_round s = Some r"
    "canonical_uuid r" and ok: "submission_ok u"
  shows "client_inv s'"
proof (cases "preflight_artifact (su_source u) (Some (cl_max s))")
  case (Inl e)
  obtain r1 s1 where x: "submit_except u e s = (r1, s1)" by fastforce
  have "client_inv s1"
    by (rule submit_except_inv [OF x inv r]) (use Inl open_error_ok in \<open>auto simp: preflight_artifact_def\<close>)
  with a Inl x show ?thesis by (simp add: submit_active_def)
next
  case (Inr p)
  obtain b st where p: "p = (b, st)" by (cases p)
  obtain r1 s1 where w: "cl_write_state (su_open_err u) SubmittingUpdate [] s = (r1, s1)" by fastforce
  have i1: "client_inv s1 \<and> cl_round s1 = Some r" by (rule cl_write_state_keep [OF w inv r]) simp
  show ?thesis
  proof (cases r1)
    case (Inl e)
    obtain r2 s2 where x: "submit_except u e s1 = (r2, s2)" by fastforce
    have "code_ok e" using w Inl by (auto simp: code_ok_def elim: cl_write_state_cases)
    with i1 r(2) have "client_inv s2" by (auto intro: submit_except_inv [OF x])
    with a Inr p w Inl x show ?thesis by (simp add: submit_active_def)
  next
    case (Inr v)
    obtain r2 s2 o2 where y: "submit_body dig st u s1 = (r2, s2, o2)" by (metis prod_cases3)
    have k: "client_inv s2 \<and> cl_round s2 = Some r \<and> (\<forall>e. r2 = Inl e \<longrightarrow> code_ok e)"
      by (rule submit_body_inv [OF y _ _ r(2) ok]) (use i1 in simp_all)
    show ?thesis
    proof (cases r2)
      case (Inl e)
      obtain r3 s3 where x: "submit_except u e s2 = (r3, s3)" by fastforce
      have "client_inv s3" by (rule submit_except_inv [OF x _ _ r(2)]) (use k Inl in simp_all)
      with a \<open>preflight_artifact _ _ = _\<close> p w Inr y Inl x show ?thesis by (simp add: submit_active_def)
    next
      case v: (Inr v)
      with a \<open>preflight_artifact _ _ = _\<close> p w Inr y k show ?thesis by (simp add: submit_active_def)
    qed
  qed
qed

lemma received_round:
  assumes "client_inv s" and "cl_fatal s = None" and "cl_status s \<noteq> None"
  shows "\<exists>r. cl_round s = Some r \<and> canonical_uuid r"
proof -
  from assms obtain r where "cl_round s = Some r" "rd_state (dir_of r s) \<noteq> NoFile"
    by (fastforce simp: client_inv_def cl_agrees_def cl_rid_def)
  with has_state_canonical [OF assms(1)] show ?thesis by blast
qed

lemma submit_update_inv:
  assumes u: "submit_update dig ready u s = (res, s', out)" and inv: "client_inv s" and ok: "submission_ok u"
  shows "client_inv s'"
proof (cases "cl_fatal s = None \<and> cl_status s = Some ModelReceived")
  case True
  then obtain r where r: "cl_round s = Some r" "canonical_uuid r" using received_round [OF inv] by auto
  obtain r1 s1 o1 where a: "submit_active dig u (s\<lparr>cl_submitting := True\<rparr>) = (r1, s1, o1)" by (metis prod_cases3)
  have "client_inv s1" by (rule submit_active_inv [OF a _ _ r(2) ok]) (use inv r in simp_all)
  with u a inv show ?thesis by (auto simp: submit_update_def split: sum.splits if_splits)
next
  case False
  with u inv show ?thesis
    by (auto simp: submit_update_def cl_require_ready_def split: sum.splits if_splits option.splits)
qed

end
