(* ===== verification/Client_Rounds.thy ===== *)
theory Client_Rounds
  imports Client_Runtime
begin

text \<open>
  Runs of a client's runtime: any sequence of waiting, submitting, aborting and restarting. A process
  that ends between two writes leaves the files that a run leaves in which the later writes fail, so
  a failing write followed by a restart is also a crash. What the runs keep: a restart works exactly
  if every round's directory has got its state file; a round is submitted at most once; a model that
  has been delivered is never replaced.
\<close>

section \<open>Restarting\<close>

definition client_restart :: "client_rt \<Rightarrow> client_rt res" where
  "client_restart s =
     client_rt_init (PInt (cl_node s)) (PInt (int (cl_max s))) (\<lambda>_. None) (cl_dirs s) (cl_current s)
       (cl_rejected s)"

definition entries :: "client_rt \<Rightarrow> (string \<times> json_file option) list" where
  "entries s = map (\<lambda>(n, rd). (n, Some (rd_state rd))) (cl_dirs s)"

lemma entries_names [simp]: "map fst (entries s) = map fst (cl_dirs s)"
  by (simp add: entries_def comp_def case_prod_beta)

definition all_recorded :: "client_rt \<Rightarrow> bool" where
  "all_recorded s \<longleftrightarrow> list_all (\<lambda>(_, rd). rd_state rd \<noteq> NoFile) (cl_dirs s)"

lemma dir_of_mem: "dict_wf (cl_dirs s) \<Longrightarrow> (r, rd) \<in> set (cl_dirs s) \<Longrightarrow> dir_of r s = rd"
  by (simp add: dir_of_def map_of_dict_wf)

lemma entry_of_dir:
  assumes "client_inv s" and "(r, rd) \<in> set (cl_dirs s)" and "rd_state rd \<noteq> NoFile"
  shows "entry_good ClientRole (r, Some (rd_state rd))" and "tidy_entry (Some (rd_state rd))"
proof -
  from assms have d: "dir_of r s = rd" by (auto simp: client_inv_def cl_base_def intro: dir_of_mem)
  with assms(1) have "state_file_ok r (rd_state rd)" by (auto simp: client_inv_def cl_base_def)
  then obtain x where x: "rd_state rd = Json (PDict x)" "round_state_ok (PDict x) r ClientRole" "tidy_state x"
    using assms(3) by (auto simp: state_file_ok_def)
  moreover have "canonical_uuid r" using has_state_canonical [OF assms(1)] d assms(3) by blast
  ultimately show "entry_good ClientRole (r, Some (rd_state rd))" "tidy_entry (Some (rd_state rd))"
    by (simp_all add: entry_good_def tidy_entry_def)
qed

lemma entries_good:
  assumes "client_inv s" and "all_recorded s"
  shows "list_all (entry_good ClientRole) (entries s)"
    and "list_all (\<lambda>(_, f). tidy_entry f) (entries s)"
  using entry_of_dir [OF assms(1)] assms(2)
  by (auto simp: entries_def all_recorded_def list_all_iff)

text \<open>A scan restarts exactly the unfinished entries.\<close>

definition is_open :: "string \<times> json_file option \<Rightarrow> bool" where
  "is_open p \<longleftrightarrow> (case snd p of Some (Json (PDict d)) \<Rightarrow> \<not> is_terminal d | _ \<Rightarrow> False)"

lemma scan_restarts:
  "scan_rounds r werr es = (Inr (ts, rs), es') \<Longrightarrow> length rs = length (filter is_open es)"
proof (induction es arbitrary: ts rs es')
  case (Cons p es)
  obtain name f where p: "p = (name, f)" by (cases p)
  from Cons.prems p obtain d again ts1 rs1 es1 where
    e: "scan_entry r name f = Inr (d, again)" "scan_rounds r werr es = (Inr (ts1, rs1), es1)"
    "rs = (if again then d # rs1 else rs1)"
    by (auto split: sum.splits prod.splits option.splits)
  from e(1) have "again = is_open p" by (auto simp: scan_entry_Inr is_open_def p)
  with e(3) Cons.IH [OF e(2)] show ?case by simp
qed simp

lemma open_current:
  assumes "client_inv s" and "p \<in> set (entries s)" and "is_open p"
  shows "cl_round s = Some (fst p)"
proof -
  from assms(2) obtain r rd where rd: "(r, rd) \<in> set (cl_dirs s)" "p = (r, Some (rd_state rd))"
    by (auto simp: entries_def)
  with assms(1) have "dir_of r s = rd" by (auto simp: client_inv_def cl_base_def intro: dir_of_mem)
  moreover have "unfinished (rd_state rd)"
    using assms(3) rd by (auto simp: is_open_def unfinished_def recorded_terminal_def
        split: json_file.splits pyval.splits)
  ultimately show ?thesis using assms(1) rd by (auto simp: client_inv_def others_done_def)
qed

lemma few_open:
  assumes "client_inv s"
  shows "length (filter is_open (entries s)) \<le> 1"
proof -
  let ?o = "map fst (filter is_open (entries s))"
  have "distinct (map fst (entries s))" using assms by (simp add: client_inv_def cl_base_def dict_wf_def)
  then have d: "distinct ?o" by (rule distinct_map_filter)
  have "set ?o \<subseteq> {the (cl_round s)}" using open_current [OF assms] by force
  then have "card (set ?o) \<le> 1" using card_mono [of "{the (cl_round s)}" "set ?o"] by simp
  with distinct_card [OF d] show ?thesis by simp
qed

lemma recover_all_recorded:
  assumes inv: "client_inv s" and rec: "all_recorded s"
  shows "\<exists>d w'. recover_round_states ClientRole (\<lambda>_. None) (client_work_dir (cl_dirs s) (cl_current s)) = (Inr d, w')"
proof -
  let ?w = "client_work_dir (cl_dirs s) (cl_current s)"
  have es: "wd_rounds ?w = entries s" by (simp add: client_work_dir_def entries_def)
  note good = entries_good(1) [OF inv rec]
  show ?thesis
  proof (cases "cl_current s = NoFile")
    case True
    from scan_rounds_good [OF good] obtain ts rs es' where
      sc: "scan_rounds ClientRole (\<lambda>_. None) (entries s) = (Inr (ts, rs), es')" by blast
    from scan_restarts [OF sc] few_open [OF inv] have "length rs \<le> 1" by simp
    then consider "rs = []" | x where "rs = [x]" by (cases rs; cases "tl rs") auto
    moreover have "wd_current ?w = NoFile" by (simp add: client_work_dir_def True)
    ultimately show ?thesis
      by cases (simp_all add: recover_round_states_def es sc Let_def)
  next
    case False
    with inv obtain r where r: "cl_current s = Json (PDict (current_pointer ClientRole r))"
      "rd_state (dir_of r s) \<noteq> NoFile"
      by (auto simp: client_inv_def cl_base_def)
    then have "map_of (cl_dirs s) r \<noteq> None" by (auto simp: dir_of_def empty_dir_def split: option.splits)
    then obtain rd where "(r, rd) \<in> set (cl_dirs s)" by (auto dest: map_of_SomeD)
    then have m: "(r, Some (rd_state rd)) \<in> set (wd_rounds ?w)" by (force simp: es entries_def)
    have "distinct (map fst (wd_rounds ?w))" using inv by (simp add: es client_inv_def cl_base_def dict_wf_def)
    from recover_good [OF _ m this, of ClientRole] good r(1) show ?thesis
      by (auto simp: client_work_dir_def entries_def)
  qed
qed

text \<open>The directories after a restart: only state files have changed.\<close>

lemma with_states_dir:
  assumes "map fst (wd_rounds w) = map fst dirs" and "dict_wf dirs"
  shows "map fst (with_states dirs w) = map fst dirs"
    and "map_of (with_states dirs w) r = (case map_of dirs r of None \<Rightarrow> None
      | Some rd \<Rightarrow> Some (rd\<lparr>rd_state := (case map_of (wd_rounds w) r of Some (Some g) \<Rightarrow> g | _ \<Rightarrow> NoFile)\<rparr>))"
proof -
  have "map fst fs = map fst ds \<Longrightarrow> dict_wf ds \<Longrightarrow>
      map fst (map2 (\<lambda>(n, rd) (_, f). (n, rd\<lparr>rd_state := (case f of None \<Rightarrow> NoFile | Some g \<Rightarrow> g)\<rparr>)) ds fs) = map fst ds \<and>
      map_of (map2 (\<lambda>(n, rd) (_, f). (n, rd\<lparr>rd_state := (case f of None \<Rightarrow> NoFile | Some g \<Rightarrow> g)\<rparr>)) ds fs) r =
        (case map_of ds r of None \<Rightarrow> None
         | Some rd \<Rightarrow> Some (rd\<lparr>rd_state := (case map_of fs r of Some (Some g) \<Rightarrow> g | _ \<Rightarrow> NoFile)\<rparr>))" for ds and fs :: "(string \<times> json_file option) list"
  proof (induction ds arbitrary: fs)
    case (Cons d ds)
    then obtain f fs' where fs: "fs = f # fs'" by (cases fs) auto
    obtain n rd where d: "d = (n, rd)" by (cases d)
    obtain n' g where f: "f = (n', g)" by (cases f)
    from Cons.prems fs d f have "n' = n" "map fst fs' = map fst ds" "dict_wf ds" by (simp_all add: dict_wf_def)
    with Cons.IH [of fs'] show ?case by (simp add: fs d f split: option.split)
  qed simp
  from this [OF assms]
  show "map fst (with_states dirs w) = map fst dirs"
    and "map_of (with_states dirs w) r = (case map_of dirs r of None \<Rightarrow> None
      | Some rd \<Rightarrow> Some (rd\<lparr>rd_state := (case map_of (wd_rounds w) r of Some (Some g) \<Rightarrow> g | _ \<Rightarrow> NoFile)\<rparr>))"
    by (simp_all add: with_states_def)
qed

lemma scan_members:
  "scan_rounds r werr es = (Inr (ts, rs), es') \<Longrightarrow>
   ((n, d) \<in> set ts \<longrightarrow> (\<exists>f again. (n, f) \<in> set es \<and> scan_entry r n f = Inr (d, again))) \<and>
   (x \<in> set rs \<longrightarrow> x \<in> snd ` set ts)"
proof (induction es arbitrary: ts rs es')
  case (Cons p es)
  obtain name f where p: "p = (name, f)" by (cases p)
  from Cons.prems p obtain d1 again ts1 rs1 es1 where
    e: "scan_entry r name f = Inr (d1, again)" "scan_rounds r werr es = (Inr (ts1, rs1), es1)"
    "rs = (if again then d1 # rs1 else rs1)" "ts = (name, d1) # ts1"
    by (auto split: sum.splits prod.splits option.splits)
  from Cons.IH [OF e(2)] e(1,3,4) p show ?case by auto
qed simp

lemma entries_tidy: "client_inv s \<Longrightarrow> list_all (\<lambda>(_, f). tidy_entry f) (entries s)"
proof -
  assume inv: "client_inv s"
  have "tidy_entry (Some (rd_state rd))" if "(r, rd) \<in> set (cl_dirs s)" for r rd
    using entry_of_dir(2) [OF inv that] by (cases "rd_state rd") (simp_all add: tidy_entry_def)
  then show ?thesis by (auto simp: entries_def list_all_iff)
qed

text \<open>What a successful recovery leaves of the work directory.\<close>

lemma recovered_work_dir:
  assumes inv: "client_inv s"
    and rec: "recover_round_states ClientRole werr (client_work_dir (cl_dirs s) (cl_current s)) = (Inr found, w)"
  obtains ts where "wd_rounds w = map (\<lambda>(n, d). (n, Some (Json (PDict d)))) ts"
    and "map fst ts = map fst (cl_dirs s)" and "wd_current w = cl_current s"
    and "\<And>n d. (n, d) \<in> set ts \<Longrightarrow>
          round_state_ok (PDict d) n ClientRole \<and> canonical_uuid n \<and> is_terminal d \<and>
          (\<exists>d0. rd_state (dir_of n s) = Json (PDict d0) \<and>
             d = (if is_terminal d0 then d0 else restarted_state d0))"
    and "\<And>x. found = Some x \<Longrightarrow> \<exists>n. (n, x) \<in> set ts"
proof -
  let ?w = "client_work_dir (cl_dirs s) (cl_current s)"
  have es: "wd_rounds ?w = entries s" by (simp add: client_work_dir_def entries_def)
  from recover_cases [OF rec] obtain ts rs
    where scan: "scan_rounds ClientRole werr (entries s) = (Inr (ts, rs), wd_rounds w)"
    and cur: "wd_current w = wd_current ?w"
    and out: "wd_current ?w = NoFile \<and> (rs = [] \<and> found = None \<or> (\<exists>x. rs = [x] \<and> found = Some x)) \<or>
      wd_current ?w \<noteq> NoFile \<and>
      (\<exists>n x. read_current ClientRole (wd_current ?w) = Inr n \<and> map_of ts n = Some x \<and> found = Some x)"
    by (metis es)
  note again = scan_rounds_again [OF scan entries_tidy [OF inv]]
  have m: "(n, d) \<in> set ts \<Longrightarrow> round_state_ok (PDict d) n ClientRole \<and> canonical_uuid n \<and> is_terminal d \<and>
          (\<exists>d0. rd_state (dir_of n s) = Json (PDict d0) \<and> d = (if is_terminal d0 then d0 else restarted_state d0))" for n d
  proof -
    assume nd: "(n, d) \<in> set ts"
    with scan_members [OF scan] obtain f a where f: "(n, f) \<in> set (entries s)" "scan_entry ClientRole n f = Inr (d, a)"
      by blast
    then obtain d0 where d0: "f = Some (Json (PDict d0))" "canonical_uuid n" "round_state_ok (PDict d0) n ClientRole"
      "d = (if is_terminal d0 then d0 else restarted_state d0)" by (auto simp: scan_entry_Inr)
    moreover have "tidy_state d0" using entries_tidy [OF inv] f(1) d0(1) by (auto simp: list_all_iff tidy_entry_def)
    moreover have "rd_state (dir_of n s) = Json (PDict d0)"
      using f(1) d0(1) inv dir_of_mem [of s n] by (auto simp: entries_def client_inv_def cl_base_def)
    ultimately show ?thesis using restarted_ok [of d0 n ClientRole] by auto
  qed
  have fd: "found = Some x \<Longrightarrow> \<exists>n. (n, x) \<in> set ts" for x
    using out scan_members [OF scan, of _ _ x] by (fastforce dest: map_of_SomeD)
  from that [of ts] again m fd cur show thesis by (simp add: client_work_dir_def)
qed

lemma client_restart_cases:
  assumes "client_restart s = Inr s'" and "client_inv s"
  obtains found w where
    "recover_round_states ClientRole (\<lambda>_. None) (client_work_dir (cl_dirs s) (cl_current s)) = (Inr found, w)"
    "s' = (let b = blank_client (cl_node s) (cl_max s) (with_states (cl_dirs s) w) (wd_current w) (cl_rejected s)
           in case found of None \<Rightarrow> b | Some d \<Rightarrow> cl_restore d b)"
proof -
  obtain r w where rec: "recover_round_states ClientRole (\<lambda>_. None) (client_work_dir (cl_dirs s) (cl_current s)) = (r, w)"
    by fastforce
  have "0 < cl_node s" "0 < cl_max s" using assms(2) by (simp_all add: client_inv_def cl_base_def)
  with assms(1) rec that show thesis
    by (cases r) (auto simp: client_restart_def client_rt_init_def validate_max_update_size_def Let_def)
qed

lemma cl_restore_simps [simp]:
  "cl_dirs (cl_restore d s) = cl_dirs s" "cl_current (cl_restore d s) = cl_current s"
  "cl_node (cl_restore d s) = cl_node s" "cl_max (cl_restore d s) = cl_max s"
  "cl_fatal (cl_restore d s) = cl_fatal s" "dir_of r (cl_restore d s) = dir_of r s"
  by (simp_all add: cl_restore_def Let_def dir_of_def)

lemma blank_simps [simp]:
  "cl_dirs (blank_client i m ds c l) = ds" "cl_current (blank_client i m ds c l) = c"
  "cl_node (blank_client i m ds c l) = i" "cl_max (blank_client i m ds c l) = m"
  "cl_fatal (blank_client i m ds c l) = None" "cl_status (blank_client i m ds c l) = None"
  "cl_round (blank_client i m ds c l) = None"
  by (simp_all add: blank_client_def)

text \<open>The state a restart begins in.\<close>

lemma client_restart_state:
  assumes res: "client_restart s = Inr s'" and inv: "client_inv s"
  shows "client_inv s' \<and> quiet s' \<and> cl_fatal s' = None \<and> cl_status s' \<noteq> Some ModelReceived \<and>
    cl_status s' \<noteq> Some SubmittingUpdate \<and> all_recorded s' \<and>
    (\<forall>r. dir_of r s' = dir_of r s\<lparr>rd_state := rd_state (dir_of r s')\<rparr> \<and>
       (\<forall>d0. rd_state (dir_of r s) = Json (PDict d0) \<longrightarrow>
          rd_state (dir_of r s') = Json (PDict (if is_terminal d0 then d0 else restarted_state d0))))"
  using res inv
proof (cases rule: client_restart_cases)
  case (1 found w)
  from recovered_work_dir [OF inv 1(1)] obtain ts where
    w: "wd_rounds w = map (\<lambda>(n, d). (n, Some (Json (PDict d)))) ts" "map fst ts = map fst (cl_dirs s)"
      "wd_current w = cl_current s"
    and ts: "\<And>n d. (n, d) \<in> set ts \<Longrightarrow> round_state_ok (PDict d) n ClientRole \<and> canonical_uuid n \<and> is_terminal d \<and>
          (\<exists>d0. rd_state (dir_of n s) = Json (PDict d0) \<and> d = (if is_terminal d0 then d0 else restarted_state d0))"
    and fd: "\<And>x. found = Some x \<Longrightarrow> \<exists>n. (n, x) \<in> set ts" by blast
  have wf: "dict_wf (cl_dirs s)" using inv by (simp add: client_inv_def cl_base_def)
  then have dist: "distinct (map fst ts)" by (simp add: w(2) dict_wf_def)
  have names: "map fst (wd_rounds w) = map fst (cl_dirs s)" by (simp add: w(1) w(2) [symmetric] comp_def case_prod_beta)
  let ?ds = "with_states (cl_dirs s) w"
  have dirs: "cl_dirs s' = ?ds" "cl_current s' = cl_current s" "cl_node s' = cl_node s" "cl_max s' = cl_max s"
    "cl_fatal s' = None"
    using 1(2) w(3) by (simp_all add: Let_def split: option.split)
  note ws = with_states_dir [OF names wf]
  have map_w: "map_of (wd_rounds w) r = (case map_of ts r of None \<Rightarrow> None | Some d \<Rightarrow> Some (Some (Json (PDict d))))" for r
    by (simp add: w(1) map_of_map option.map_comp comp_def case_prod_beta split: option.split)
  have keys: "map_of ts r = None \<longleftrightarrow> map_of (cl_dirs s) r = None" for r
    unfolding map_of_eq_None_iff set_map [symmetric] w(2) by (rule refl)
  have dir: "dir_of r s' = (case map_of ts r of None \<Rightarrow> empty_dir
      | Some d \<Rightarrow> dir_of r s\<lparr>rd_state := Json (PDict d)\<rparr>)" for r
    using keys [of r] by (auto simp: dir_of_def dirs ws(2) map_w split: option.splits)
  have ended: "map_of ts r = Some d \<Longrightarrow> round_state_ok (PDict d) r ClientRole \<and> canonical_uuid r \<and> is_terminal d" for r d
    using ts map_of_SomeD by fast
  have quiet: "quiet s'"
    by (auto simp: quiet_def dir unfinished_def recorded_terminal_def empty_dir_def dest: ended split: option.split)
  have base: "cl_base s'"
  proof -
    have "dict_wf (cl_dirs s')" using wf ws(1) by (simp add: dirs dict_wf_def)
    moreover have "has_key (cl_dirs s') r \<Longrightarrow> canonical_uuid r" for r
      using keys [of r] by (auto simp: has_key_def dirs ws(2) dest: ended split: option.splits)
    moreover have "state_file_ok r (rd_state (dir_of r s'))" for r
      by (auto simp: dir state_file_ok_def empty_dir_def tidy_state_def dest: ended split: option.split)
    moreover have "cl_current s' = NoFile \<or>
      (\<exists>r. cl_current s' = Json (PDict (current_pointer ClientRole r)) \<and> rd_state (dir_of r s') \<noteq> NoFile)"
    proof -
      have "rd_state (dir_of r s) \<noteq> NoFile \<Longrightarrow> map_of ts r \<noteq> None" for r
        using keys [of r] by (auto simp: dir_of_def empty_dir_def split: option.splits)
      moreover have "map_of ts r = Some d \<Longrightarrow> rd_state (dir_of r s') \<noteq> NoFile" for r d by (simp add: dir)
      ultimately show ?thesis using inv by (fastforce simp: dirs client_inv_def cl_base_def)
    qed
    ultimately show ?thesis using inv by (simp add: cl_base_def dirs client_inv_def)
  qed
  have agrees: "cl_agrees s' \<and> cl_status s' \<notin> {Some ModelReceived, Some SubmittingUpdate}"
  proof (cases found)
    case None
    with 1(2) show ?thesis by (simp add: cl_agrees_def)
  next
    case (Some d)
    then obtain n where n: "(n, d) \<in> set ts" using fd by blast
    with dist have mn: "map_of ts n = Some d" by simp
    from ended [OF mn] have d: "dget d ''round_id'' = PStr n" "is_str (dget d ''state'')" "is_terminal d"
      by (auto simp: round_state_ok_def)
    then have "cl_round s' = Some n" "cl_status s' = Some (if state_of d = ''failed'' then ClFailed else ClSucceeded)"
      using 1(2) Some by (simp_all add: cl_restore_def Let_def)
    moreover have "dget d ''state'' = PStr (state_of d)" using d(2) by (auto simp: is_str_def state_of_def)
    moreover have "state_of d = ''failed'' \<or> state_of d = ''succeeded''"
      using d(3) by (auto simp: is_terminal_def terminal_states_def)
    moreover have "rd_state (dir_of n s') = Json (PDict d)" by (simp add: dir mn)
    ultimately show ?thesis by (auto simp: cl_agrees_def cl_rid_def)
  qed
  have recd: "all_recorded s'"
  proof -
    have "rd_state rd \<noteq> NoFile" if m: "(r, rd) \<in> set (cl_dirs s')" for r rd
    proof -
      have "dir_of r s' = rd" using dir_of_mem [OF _ m] base by (simp add: cl_base_def)
      moreover have "r \<in> set (map fst (cl_dirs s'))" using m by force
      then have "map_of (cl_dirs s) r \<noteq> None"
        unfolding map_of_eq_None_iff set_map [symmetric] dirs(1) ws(1) by simp
      then obtain d where "map_of ts r = Some d" using keys [of r] by auto
      ultimately show ?thesis using dir [of r] by auto
    qed
    then show ?thesis by (auto simp: all_recorded_def list_all_iff)
  qed
  have "dir_of r s' = dir_of r s\<lparr>rd_state := rd_state (dir_of r s')\<rparr>" for r
  proof (cases "map_of ts r")
    case None
    then have "dir_of r s = empty_dir" using keys [of r] by (simp add: dir_of_def)
    with None dir [of r] show ?thesis by (simp add: empty_dir_def)
  qed (use dir [of r] in simp)
  moreover have "rd_state (dir_of r s) = Json (PDict d0) \<Longrightarrow>
      rd_state (dir_of r s') = Json (PDict (if is_terminal d0 then d0 else restarted_state d0))" for r d0
  proof -
    assume f: "rd_state (dir_of r s) = Json (PDict d0)"
    then have "map_of (cl_dirs s) r \<noteq> None" by (auto simp: dir_of_def empty_dir_def split: option.splits)
    then obtain d where d: "map_of ts r = Some d" using keys [of r] by auto
    from ts [OF map_of_SomeD [OF d]] f d show ?thesis by (auto simp: dir)
  qed
  ultimately show ?thesis
    using base quiet agrees recd dirs(5) by (simp add: client_inv_def others_done_def quiet_def)
qed

section \<open>What operations leave alone\<close>

definition models_kept :: "client_rt \<Rightarrow> client_rt \<Rightarrow> bool" where
  "models_kept s s' \<longleftrightarrow> (\<forall>r. rd_manifest (dir_of r s) \<noteq> NoFile \<longrightarrow>
     rd_manifest (dir_of r s') = rd_manifest (dir_of r s) \<and> rd_model (dir_of r s') = rd_model (dir_of r s))"

definition same_models :: "client_rt \<Rightarrow> client_rt \<Rightarrow> bool" where
  "same_models s s' \<longleftrightarrow> (\<forall>r. rd_manifest (dir_of r s') = rd_manifest (dir_of r s) \<and>
     rd_model (dir_of r s') = rd_model (dir_of r s))"

lemma same_models_kept: "same_models s s' \<Longrightarrow> models_kept s s'"
  by (simp add: models_kept_def same_models_def)

lemma models_kept_refl [simp]: "models_kept s s" "same_models s s"
  by (simp_all add: models_kept_def same_models_def)

lemma models_kept_trans: "models_kept s t \<Longrightarrow> models_kept t u \<Longrightarrow> models_kept s u"
  by (simp add: models_kept_def)

lemma same_models_trans: "same_models s t \<Longrightarrow> same_models t u \<Longrightarrow> same_models s u"
  by (simp add: same_models_def)

lemma models_kept_NoFile: "models_kept s t \<Longrightarrow> rd_manifest (dir_of r t) = NoFile \<Longrightarrow> rd_manifest (dir_of r s) = NoFile"
  by (metis models_kept_def)

lemma write_state_models: "cl_write_state werr st extra s = (res, s') \<Longrightarrow> same_models s s'"
  by (erule cl_write_state_cases) (auto simp: same_models_def)

lemma write_current_models:
  "cl_write_current err r s = (res, s') \<Longrightarrow>
   same_models s s' \<and> cl_status s' = cl_status s \<and> cl_round s' = cl_round s \<and> cl_fatal s' = cl_fatal s"
  by (auto simp: cl_write_current_def same_models_def split: prod.splits)

lemma quarantine_models:
  "quarantine d code s = (res, s') \<Longrightarrow>
   same_models s s' \<and> cl_status s' = cl_status s \<and> cl_round s' = cl_round s"
  by (erule quarantine_cases) (auto simp: same_models_def)

lemma make_dir_models: "same_models s (make_dir r s)" "cl_status (make_dir r s) = cl_status s"
  by (simp_all add: same_models_def make_dir_def)

lemma fail_model_delivery_models:
  assumes f: "fail_model_delivery d r code msg s = (res, s')"
  shows "same_models s s' \<and> cl_status s' \<in> {cl_status s, Some ClFailed}"
proof (cases "recorded_terminal (rd_state (dir_of r s)) \<or> dl_mkdir_err d \<noteq> None")
  case True
  with f show ?thesis by (auto simp: fail_model_delivery_def split: if_splits)
next
  case False
  let ?s = "make_dir r s\<lparr>cl_round := Some r, cl_failure := Some (FLRuntimeError code msg (Some r) (Some (cl_node s))),
    cl_consumed := True\<rparr>"
  have n: "cl_node (make_dir r s) = cl_node s" by (simp add: make_dir_def)
  obtain res1 s1 where w: "cl_write_failed (dl_fail_err d) code msg ?s = (res1, s1)" by fastforce
  obtain res2 s2 where c: "cl_write_current (dl_fail_pointer_err d) r s1 = (res2, s2)" by fastforce
  have "same_models s ?s" using make_dir_models(1) [of s r] by (simp add: same_models_def)
  moreover have "same_models ?s s1" using w unfolding cl_write_failed_def by (rule write_state_models)
  moreover have "cl_status s1 \<in> {cl_status s, Some ClFailed}"
    using w unfolding cl_write_failed_def
    by (rule cl_write_state_cases) (simp_all add: make_dir_models(2))
  moreover from False f w c have "s' = s1 \<or> s' = s2"
    by (auto simp: fail_model_delivery_def Let_def n split: sum.splits)
  moreover note write_current_models [OF c]
  ultimately show ?thesis by (auto intro: same_models_trans)
qed

lemma reject_delivery_models:
  assumes "reject_delivery d r e out s = (x, s')"
  shows "same_models s s' \<and> cl_status s' \<in> {cl_status s, Some ClFailed}"
proof (cases e)
  case (FLRuntimeError code msg a b)
  let ?f = "case r of None \<Rightarrow> (Inr (), s) | Some r \<Rightarrow> fail_model_delivery d r code msg s"
  obtain res1 s1 where f: "?f = (res1, s1)" by fastforce
  then have k: "same_models s s1 \<and> cl_status s1 \<in> {cl_status s, Some ClFailed}"
    using fail_model_delivery_models by (cases r) auto
  obtain res2 s2 where g: "quarantine d code s1 = (res2, s2)" by fastforce
  from assms f g FLRuntimeError have "s' = s1 \<or> s' = s2"
    by (auto simp: reject_delivery_def split: sum.splits)
  with k quarantine_models [OF g] show ?thesis by (auto intro: same_models_trans)
qed (use assms in \<open>auto simp: reject_delivery_def\<close>)

text \<open>A model is stored only where there was no manifest, and then as the manifest says.\<close>

definition stored :: "digest \<Rightarrow> client_rt \<Rightarrow> pydict \<Rightarrow> bool" where
  "stored dig s m \<longleftrightarrow> rd_manifest (dir_of (mf_round m) s) = Json (PDict m) \<and>
     (\<exists>b st. rd_model (dir_of (mf_round m) s) = Regular b st \<and> st_size st = length b \<and>
        int (length b) = mf_size m \<and> dig b = mf_sha m)"

lemma store_model_effect:
  assumes "store_model d m (length b) (dig b) (Some b) s = (res, s')"
  shows "(\<forall>q. q \<noteq> mf_round m \<longrightarrow> dir_of q s' = dir_of q s) \<and> cl_status s' = cl_status s \<and> cl_node s' = cl_node s \<and>
    (res = Inr () \<longrightarrow> stored dig s' m)"
  using assms
  by (cases "dl_manifest_err d")
    (auto simp: store_model_def Let_def write_json_atomic_def stored_def archived_def split: if_splits)

lemma copy_model_effect:
  assumes "copy_model dig d m st s = (res, s')"
  shows "(\<forall>q. q \<noteq> mf_round m \<longrightarrow> dir_of q s' = dir_of q s) \<and> cl_status s' = cl_status s \<and> cl_node s' = cl_node s \<and>
    (res = Inr () \<longrightarrow> stored dig s' m)"
proof (cases "dl_copy_err d")
  case None
  obtain x t where a: "archive_open_file dig st (dl_view d) None = (x, t)" by fastforce
  show ?thesis
  proof (cases x)
    case (Inl e)
    with None a assms show ?thesis by (auto simp: copy_model_def)
  next
    case (Inr p)
    with archive_open_file_cases [OF a] obtain b where "t = Some b" "p = (length b, dig b)"
      by (cases p) auto
    with None a Inr assms store_model_effect [of d m b dig s res s'] show ?thesis
      by (simp add: copy_model_def)
  qed
next
  case (Some e)
  with assms show ?thesis by (auto simp: copy_model_def)
qed

lemma archive_model_effect:
  assumes "archive_model dig d m s = (res, s')"
  shows "(\<forall>q. q \<noteq> mf_round m \<longrightarrow> dir_of q s' = dir_of q s) \<and> cl_status s' = cl_status s \<and> cl_node s' = cl_node s \<and>
    (res = Inr () \<longrightarrow> stored dig s' m)"
  using assms
proof (cases rule: archive_model_cases)
  case (4 b st)
  from copy_model_effect [OF 4(2)] show ?thesis by (simp add: make_dir_def)
qed auto

lemma accept_model_effect:
  assumes a: "accept_model d r s = (res, s')"
  shows "same_models s s' \<and> cl_round s' = Some r \<and>
    (\<forall>q. res = Inr q \<longrightarrow> q = r \<and> cl_status s' = Some ModelReceived \<and> cl_failure s' = None \<and>
       cl_current s' = Json (PDict (current_pointer ClientRole r)) \<and> cl_node s' = cl_node s)"
proof -
  let ?s = "s\<lparr>cl_round := Some r, cl_failure := None, cl_consumed := True\<rparr>"
  obtain res1 s1 where w: "cl_write_state (dl_state_err d) ModelReceived [] ?s = (res1, s1)" by fastforce
  obtain res2 s2 where c: "cl_write_current (dl_pointer_err d) r s1 = (res2, s2)" by fastforce
  obtain res3 s3 where x: "cl_write_failed (dl_fail_err d) ''state_persistence_failed'' ''pointer'' s2 = (res3, s3)"
    by fastforce
  from w have k1: "same_models s s1 \<and> cl_round s1 = Some r \<and> cl_failure s1 = None \<and> cl_node s1 = cl_node s \<and>
      (res1 = Inr () \<longrightarrow> cl_status s1 = Some ModelReceived)"
    by (rule cl_write_state_cases) (simp_all add: same_models_def)
  have k2: "same_models s1 s2 \<and> cl_round s2 = cl_round s1 \<and> cl_status s2 = cl_status s1 \<and>
      (res2 = Inr () \<longrightarrow> cl_failure s2 = cl_failure s1 \<and> cl_node s2 = cl_node s1 \<and>
         cl_current s2 = Json (PDict (current_pointer ClientRole r)))"
    using write_current_models [OF c] c
    by (cases "dl_pointer_err d") (auto simp: cl_write_current_def write_json_atomic_def)
  have k3: "same_models s2 s3 \<and> cl_round s3 = cl_round s2"
    using x write_state_models unfolding cl_write_failed_def by (auto elim: cl_write_state_cases)
  from a w c x consider "s' = s1" "\<exists>e. res1 = Inl e \<and> res = Inl e"
    | "s' = s2" "res1 = Inr ()" "res2 = Inr ()" "res = Inr r" | "s' = s3" "\<exists>e. res = Inl e"
    by (auto simp: accept_model_def Let_def split: sum.splits)
  then show ?thesis using k1 k2 k3 by cases (auto intro: same_models_trans)
qed

lemma new_model_effect:
  assumes n: "new_model dig d m s = (res, s')" and fresh: "rd_manifest (dir_of (mf_round m) s) = NoFile"
    and st: "cl_status s \<noteq> Some ModelReceived"
  shows "models_kept s s' \<and>
    (cl_status s' = Some ModelReceived \<longrightarrow>
       cl_round s' = Some (mf_round m) \<and> rd_manifest (dir_of (mf_round m) s') \<noteq> NoFile) \<and>
    (\<forall>r. res = Inr r \<longrightarrow> r = mf_round m \<and> stored dig s' m \<and> cl_round s' = Some r \<and>
       cl_status s' = Some ModelReceived \<and> cl_failure s' = None \<and> cl_node s' = cl_node s \<and>
       cl_current s' = Json (PDict (current_pointer ClientRole r)))"
proof -
  obtain x s1 where a: "archive_model dig d m s = (x, s1)" by fastforce
  note e = archive_model_effect [OF a]
  have k1: "models_kept s s1" unfolding models_kept_def using e fresh by metis
  show ?thesis
  proof (cases x)
    case (Inl y)
    obtain z s2 where j: "reject_delivery d (Some (mf_round m)) y (with_round s (mf_round m) y) s1 = (z, s2)"
      by fastforce
    with n a Inl have "res = Inl z" "s' = s2" by (simp_all add: new_model_def)
    moreover have "same_models s1 s2" "cl_status s2 \<noteq> Some ModelReceived"
      using reject_delivery_models [OF j] e st by auto
    ultimately show ?thesis using models_kept_trans [OF k1 same_models_kept] by simp
  next
    case (Inr u)
    with n a have acc: "accept_model d (mf_round m) s1 = (res, s')" by (simp add: new_model_def)
    note f = accept_model_effect [OF acc]
    have "stored dig s' m" using e f Inr by (simp add: stored_def same_models_def)
    moreover from this have "rd_manifest (dir_of (mf_round m) s') \<noteq> NoFile" by (simp add: stored_def)
    ultimately show ?thesis using e f models_kept_trans [OF k1 same_models_kept] by auto
  qed
qed

definition delivered :: "digest \<Rightarrow> client_rt \<Rightarrow> string \<Rightarrow> bool" where
  "delivered dig s r \<longleftrightarrow> (\<exists>m. mf_round m = r \<and> stored dig s m \<and> cl_node s \<in> set (mf_nodes m)) \<and>
     cl_round s = Some r \<and> cl_status s = Some ModelReceived \<and> cl_failure s = None \<and>
     cl_current s = Json (PDict (current_pointer ClientRole r))"

definition arms :: "client_rt \<Rightarrow> client_rt \<Rightarrow> bool" where
  "arms s s' \<longleftrightarrow> (cl_status s' = Some ModelReceived \<longrightarrow>
     (\<exists>q. cl_round s' = Some q \<and> rd_manifest (dir_of q s) = NoFile \<and> rd_manifest (dir_of q s') \<noteq> NoFile))"

lemma take_delivery_effect:
  assumes t: "take_delivery dig d s = (res, s')" and st: "cl_status s \<noteq> Some ModelReceived"
  shows "models_kept s s' \<and> (res = None \<longrightarrow> cl_status s' = cl_status s) \<and> arms s s' \<and>
    (\<forall>r. res = Some (Inr r) \<longrightarrow> delivered dig s' r \<and> rd_manifest (dir_of r s) = NoFile)"
proof (cases "bind_res (read_json (dl_manifest d)) validate_model_manifest")
  case (Inl e)
  let ?v = "case read_json (dl_manifest d) of Inl _ \<Rightarrow> None | Inr v \<Rightarrow> Some v"
  obtain x s1 where j: "reject_delivery d (candidate_round_id ?v) e e s = (x, s1)" by fastforce
  from t j Inl have "res = Some (Inl x)" "s' = s1" by (simp_all add: take_delivery_def Let_def)
  with reject_delivery_models [OF j] st show ?thesis by (auto simp: arms_def intro: same_models_kept)
next
  case (Inr m)
  have onward: "models_kept s s2 \<and> cl_status s2 = cl_status s \<and> arms s s2 \<and> (\<forall>r. x2 \<noteq> Some (Inr r))"
    if "then_next (quarantine d c s) = (x2, s2)" for c x2 s2
    using that quarantine_models [of d c s] st
    by (cases "quarantine d c s") (auto simp: then_next_def arms_def intro: same_models_kept split: sum.splits)
  show ?thesis
  proof (cases "cl_node s \<in> set (mf_nodes m)")
    case False
    with t Inr onward [of "''model_not_for_this_node''" res s'] show ?thesis by (auto simp: take_delivery_def)
  next
    case True
    show ?thesis
    proof (cases "read_existing_manifest (mf_round m) s")
      case (Inl e)
      with t Inr True st show ?thesis by (auto simp: take_delivery_def arms_def)
    next
      case x: (Inr old)
      show ?thesis
      proof (cases old)
        case None
        then have fresh: "rd_manifest (dir_of (mf_round m) s) = NoFile"
          using x by (auto simp: read_existing_manifest_def Let_def split: if_splits sum.splits)
        obtain y s1 where n: "new_model dig d m s = (y, s1)" by fastforce
        with t Inr True x None have "res = Some y" "s' = s1" by (simp_all add: take_delivery_def)
        with new_model_effect [OF n fresh st] fresh True show ?thesis by (auto simp: arms_def delivered_def)
      next
        case (Some o')
        with t Inr True x have k: "known_model dig d m o' s = (res, s')" by (simp add: take_delivery_def)
        obtain r1 s1 where g: "quarantine d ''round_id_content_conflict'' s = (r1, s1)" by fastforce
        from k g onward [of "''duplicate_model_ignored''" res s'] quarantine_models [OF g] st show ?thesis
          by (auto simp: known_model_def arms_def intro: same_models_kept split: if_splits sum.splits)
      qed
    qed
  qed
qed

lemma abort_effect: "same_models s (cl_abort reason s)" "cl_status (cl_abort reason s) = cl_status s"
  "cl_node (cl_abort reason s) = cl_node s"
  by (simp_all add: cl_abort_def same_models_def)

lemma model_loop_effect:
  "model_loop dig xs s = (res, s') \<Longrightarrow> cl_status s \<noteq> Some ModelReceived \<Longrightarrow>
   models_kept s s' \<and> arms s s' \<and>
   (\<forall>r. res = Some (Inr r) \<longrightarrow> delivered dig s' r \<and> rd_manifest (dir_of r s) = NoFile)"
proof (induction dig xs s rule: model_loop.induct)
  case (2 dig a x xs s)
  let ?s = "case a of None \<Rightarrow> s | Some reason \<Rightarrow> cl_abort reason s"
  have i: "same_models s ?s" "cl_status ?s = cl_status s" by (simp_all add: abort_effect split: option.split)
  show ?case
  proof (cases "cl_fatal s")
    case None
    show ?thesis
    proof (cases x)
      case (Inl e)
      with 2(2,3) None i show ?thesis by (auto simp: Let_def arms_def intro: same_models_kept)
    next
      case (Inr d)
      obtain r1 s1 where t: "take_delivery dig d ?s = (r1, s1)" by fastforce
      from take_delivery_effect [OF t] i(2) 2(3)
      have k: "models_kept ?s s1 \<and> (r1 = None \<longrightarrow> cl_status s1 = cl_status ?s) \<and> arms ?s s1 \<and>
        (\<forall>r. r1 = Some (Inr r) \<longrightarrow> delivered dig s1 r \<and> rd_manifest (dir_of r ?s) = NoFile)" by simp
      have ks: "models_kept s s1" using k models_kept_trans [OF same_models_kept [OF i(1)]] by blast
      show ?thesis
      proof (cases r1)
        case None
        with 2(2) t Inr \<open>cl_fatal s = None\<close> have l: "model_loop dig xs s1 = (res, s')" by (simp add: Let_def)
        have "cl_status s1 \<noteq> Some ModelReceived" using k None i(2) 2(3) by simp
        from 2(1) [OF \<open>cl_fatal s = None\<close> refl Inr t [symmetric] None l this]
        show ?thesis using ks models_kept_trans [OF ks] models_kept_NoFile [OF ks]
          by (auto simp: arms_def)
      next
        case (Some r)
        with 2(2) t Inr \<open>cl_fatal s = None\<close> have "res = r1" "s' = s1" by (simp_all add: Let_def)
        with k ks i(1) show ?thesis by (auto simp: arms_def same_models_def)
      qed
    qed
  next
    case (Some e)
    with 2(2,3) show ?thesis by (auto simp: arms_def)
  qed
qed (simp add: arms_def)

lemma idle_status:
  "client_inv s \<Longrightarrow> cl_fatal s = None \<Longrightarrow> cl_round s = None \<or> cl_terminal s \<Longrightarrow> cl_status s \<noteq> Some ModelReceived"
  by (auto simp: client_inv_def cl_agrees_def cl_terminal_def)

lemma waiting_flag [simp]:
  "same_models s (t\<lparr>cl_waiting := b\<rparr>) = same_models s t" "models_kept s (t\<lparr>cl_waiting := b\<rparr>) = models_kept s t"
  "models_kept (s\<lparr>cl_waiting := b\<rparr>) t = models_kept s t" "arms s (t\<lparr>cl_waiting := b\<rparr>) = arms s t"
  "arms (s\<lparr>cl_waiting := b\<rparr>) t = arms s t" "delivered dig (t\<lparr>cl_waiting := b\<rparr>) r = delivered dig t r"
  by (simp_all add: same_models_def models_kept_def arms_def delivered_def stored_def)

lemma wait_for_model_effect:
  assumes w: "wait_for_model dig ready xs s = (res, s')" and inv: "client_inv s"
  shows "models_kept s s' \<and> (s' = s \<or> arms s s') \<and>
    (\<forall>r. res = Some (Inr r) \<longrightarrow> delivered dig s' r \<and> rd_manifest (dir_of r s) = NoFile)"
proof -
  obtain r1 s1 where l: "model_loop dig xs (s\<lparr>cl_waiting := True\<rparr>) = (r1, s1)" by fastforce
  show ?thesis
  proof (cases "cl_fatal s = None \<and> (cl_round s = None \<or> cl_terminal s)")
    case True
    then have st: "cl_status (s\<lparr>cl_waiting := True\<rparr>) \<noteq> Some ModelReceived" using idle_status [OF inv] by simp
    note m = model_loop_effect [OF l st]
    with w l show ?thesis
      by (auto simp: wait_for_model_def split: sum.splits if_splits option.splits)
  next
    case False
    with w show ?thesis
      by (auto simp: wait_for_model_def cl_require_ready_def split: sum.splits if_splits option.splits)
  qed
qed

section \<open>What a submission does\<close>

lemma submit_except_effect:
  assumes "submit_except u e s = (res, s')"
  shows "same_models s s' \<and> cl_round s' = cl_round s \<and> cl_node s' = cl_node s \<and>
    cl_status s' \<in> {cl_status s, Some ClFailed} \<and> (\<exists>x. res = Inl x)"
proof -
  have step: "same_models s s2 \<and> cl_round s2 = cl_round s \<and> cl_node s2 = cl_node s \<and>
      cl_status s2 \<in> {cl_status s, Some ClFailed}"
    if "cl_write_failed w c m (s\<lparr>cl_failure := x\<rparr>) = (r2, s2)" for w c m x r2 s2
    using that unfolding cl_write_failed_def
    by (rule cl_write_state_cases) (simp_all add: same_models_def)
  show ?thesis
    using assms step by (cases e) (auto simp: submit_except_def Let_def split: if_splits sum.splits prod.splits)
qed

definition handed_over :: "digest \<Rightarrow> client_rt \<Rightarrow> sent \<Rightarrow> bool" where
  "handed_over dig s x \<longleftrightarrow>
     (\<exists>b st. rd_update (dir_of (se_round x) s) = Regular b st \<and> se_size x = length b \<and> se_sha x = dig b \<and>
        length b \<le> cl_max s) \<and>
     rd_update_manifest (dir_of (se_round x) s) = Json (PDict (update_manifest s (se_size x) (se_sha x)))"

lemma send_update_effect:
  assumes b: "send_update u sz h s = (res, s', out)"
  shows "same_models s s' \<and> cl_round s' = cl_round s \<and> cl_node s' = cl_node s \<and> cl_max s' = cl_max s \<and>
    cl_status s' \<in> {cl_status s, Some ClSucceeded} \<and>
    (res = Inr () \<longrightarrow> out \<noteq> None \<and> cl_status s' = Some ClSucceeded) \<and>
    (\<forall>x. out = Some x \<longrightarrow> x = \<lparr>se_round = cl_rid s, se_node = cl_node s, se_size = sz, se_sha = h\<rparr> \<and>
       rd_update (dir_of (cl_rid s) s') = rd_update (dir_of (cl_rid s) s) \<and>
       rd_update_manifest (dir_of (cl_rid s) s') = Json (PDict (update_manifest s sz h)))"
proof (cases "su_manifest_err u")
  case None
  let ?s = "put_dir (cl_rid s) (dir_of (cl_rid s) s\<lparr>rd_update_manifest := Json (PDict (update_manifest s sz h))\<rparr>) s"
  obtain res1 s3 where w: "cl_write_state (su_done_err u) ClSucceeded [] ?s = (res1, s3)" by fastforce
  then have "same_models s s3 \<and> cl_round s3 = cl_round s \<and> cl_node s3 = cl_node s \<and> cl_max s3 = cl_max s \<and>
      cl_status s3 \<in> {cl_status s, Some ClSucceeded} \<and> (res1 = Inr () \<longrightarrow> cl_status s3 = Some ClSucceeded) \<and>
      rd_update (dir_of (cl_rid s) s3) = rd_update (dir_of (cl_rid s) s) \<and>
      rd_update_manifest (dir_of (cl_rid s) s3) = Json (PDict (update_manifest s sz h))"
    by (rule cl_write_state_cases) (auto simp: same_models_def)
  then show ?thesis using b None w
    by (cases "su_send_err u") (auto simp: send_update_def Let_def write_json_atomic_def same_models_def)
next
  case (Some e)
  with b show ?thesis by (auto simp: send_update_def Let_def write_json_atomic_def)
qed

lemma submit_body_effect:
  assumes b: "submit_body dig st u s = (res, s', out)"
  shows "same_models s s' \<and> cl_round s' = cl_round s \<and> cl_node s' = cl_node s \<and> cl_max s' = cl_max s \<and>
    cl_status s' \<in> {cl_status s, Some ClSucceeded} \<and>
    (res = Inr () \<longrightarrow> out \<noteq> None \<and> cl_status s' = Some ClSucceeded) \<and>
    (\<forall>x. out = Some x \<longrightarrow> se_round x = cl_rid s \<and> se_node x = cl_node s \<and> handed_over dig s' x)"
proof -
  obtain x t where a: "archive_open_file dig st (su_view u) (Some (cl_max s)) = (x, t)" by fastforce
  show ?thesis
  proof (cases "su_copy_err u \<noteq> None \<or> \<not> is_ok x")
    case True
    with a b have "s' = s \<and> out = None \<and> (\<exists>e. res = Inl e)"
      by (cases x; cases "su_copy_err u") (auto simp: submit_body_def)
    then show ?thesis by auto
  next
    case False
    then obtain sz h where x: "x = Inr (sz, h)" by (cases x) auto
    with archive_open_file_cases [OF a] obtain d where d: "t = Some d" "sz = length d" "h = dig d" "length d \<le> cl_max s"
      by auto
    with a b False x have y: "send_update u sz h (store_update t s) = (res, s', out)"
      by (auto simp: submit_body_def)
    have s1: "same_models s (store_update t s)" "cl_round (store_update t s) = cl_round s"
      "cl_node (store_update t s) = cl_node s" "cl_max (store_update t s) = cl_max s"
      "cl_status (store_update t s) = cl_status s" "cl_rid (store_update t s) = cl_rid s"
      "rd_update (dir_of (cl_rid s) (store_update t s)) = archived d"
      by (simp_all add: store_update_def d same_models_def)
    have um: "cl_node v = cl_node w \<Longrightarrow> cl_rid v = cl_rid w \<Longrightarrow> update_manifest v sz h = update_manifest w sz h" for v w
      by (simp add: update_manifest_def)
    have "cl_round s' = cl_round s" "cl_node s' = cl_node s" using send_update_effect [OF y] s1 by simp_all
    then have "cl_rid s' = cl_rid s" by (simp add: cl_rid_def)
    then have m: "update_manifest s' sz h = update_manifest (store_update t s) sz h"
      using \<open>cl_node s' = cl_node s\<close> s1 by (intro um) simp_all
    have out: "se_round x = cl_rid s \<and> se_node x = cl_node s \<and> handed_over dig s' x" if "out = Some x" for x
    proof -
      from that send_update_effect [OF y] s1
      have "x = \<lparr>se_round = cl_rid s, se_node = cl_node s, se_size = sz, se_sha = h\<rparr>"
        "rd_update (dir_of (cl_rid s) s') = archived d"
        "rd_update_manifest (dir_of (cl_rid s) s') = Json (PDict (update_manifest s' sz h))" "cl_max s' = cl_max s"
        by (simp_all add: m)
      with d show ?thesis by (simp add: handed_over_def archived_def)
    qed
    have "same_models s s'" using send_update_effect [OF y] s1(1) by (blast intro: same_models_trans)
    with send_update_effect [OF y] s1 out show ?thesis by simp
  qed
qed

lemma submit_active_effect:
  assumes a: "submit_active dig u s = (res, s', out)"
  shows "same_models s s' \<and> cl_round s' = cl_round s \<and> cl_node s' = cl_node s \<and>
    (\<forall>x. out = Some x \<longrightarrow> se_round x = cl_rid s \<and> se_node x = cl_node s \<and> cl_status s' \<noteq> Some ModelReceived) \<and>
    (res = Inr () \<longrightarrow> cl_status s' = Some ClSucceeded \<and> (\<exists>x. out = Some x \<and> handed_over dig s' x))"
proof (cases "preflight_artifact (su_source u) (Some (cl_max s))")
  case (Inl e)
  obtain r1 s1 where x: "submit_except u e s = (r1, s1)" by fastforce
  with a Inl submit_except_effect [OF x] show ?thesis by (auto simp: submit_active_def)
next
  case p: (Inr p)
  obtain b st where bst: "p = (b, st)" by (cases p)
  obtain r1 s1 where w: "cl_write_state (su_open_err u) SubmittingUpdate [] s = (r1, s1)" by fastforce
  then have k1: "same_models s s1 \<and> cl_round s1 = cl_round s \<and> cl_node s1 = cl_node s \<and> cl_rid s1 = cl_rid s \<and>
      (r1 = Inr () \<longrightarrow> cl_status s1 = Some SubmittingUpdate)"
    by (rule cl_write_state_cases) (simp_all add: same_models_def cl_rid_def)
  show ?thesis
  proof (cases r1)
    case (Inl e)
    obtain r2 s2 where x: "submit_except u e s1 = (r2, s2)" by fastforce
    with a p bst w Inl submit_except_effect [OF x] k1 show ?thesis
      by (auto simp: submit_active_def intro: same_models_trans)
  next
    case v: (Inr v)
    obtain r2 s2 o2 where y: "submit_body dig st u s1 = (r2, s2, o2)" by (metis prod_cases3)
    note e2 = submit_body_effect [OF y]
    show ?thesis
    proof (cases r2)
      case (Inl e)
      obtain r3 s3 where x: "submit_except u e s2 = (r3, s3)" by fastforce
      from a p bst w v y Inl x have "res = r3" "s' = s3" "out = o2" by (simp_all add: submit_active_def)
      moreover have "same_models s s3"
        using k1 e2 submit_except_effect [OF x] by (blast intro: same_models_trans)
      ultimately show ?thesis using submit_except_effect [OF x] e2 k1 v by auto
    next
      case (Inr z)
      from a p bst w v y Inr have "res = r2" "s' = s2" "out = o2" by (simp_all add: submit_active_def)
      moreover have "same_models s s2" using k1 e2 by (blast intro: same_models_trans)
      ultimately show ?thesis using e2 k1 v Inr by auto
    qed
  qed
qed

lemma submit_flag [simp]:
  "same_models s (t\<lparr>cl_submitting := b\<rparr>) = same_models s t" "same_models (s\<lparr>cl_submitting := b\<rparr>) t = same_models s t"
  "cl_rid (s\<lparr>cl_submitting := b\<rparr>) = cl_rid s" "handed_over dig (s\<lparr>cl_submitting := b\<rparr>) x = handed_over dig s x"
  by (simp_all add: same_models_def cl_rid_def handed_over_def update_manifest_def)

lemma submit_update_effect:
  assumes u: "submit_update dig ready u s = (res, s', out)"
  shows "same_models s s' \<and> cl_round s' = cl_round s \<and> cl_node s' = cl_node s \<and>
    (cl_status s' = Some ModelReceived \<longrightarrow> cl_status s = Some ModelReceived) \<and>
    (\<forall>x. out = Some x \<longrightarrow> cl_round s = Some (se_round x) \<and> se_node x = cl_node s \<and>
       cl_status s = Some ModelReceived \<and> cl_status s' \<noteq> Some ModelReceived) \<and>
    (res = Inr () \<and> cl_status s = Some ModelReceived \<longrightarrow>
       cl_status s' = Some ClSucceeded \<and> (\<exists>x. out = Some x \<and> handed_over dig s' x))"
proof (cases "cl_fatal s = None \<and> ready \<and> \<not> cl_submitting s \<and> cl_round s \<noteq> None \<and> cl_status s = Some ModelReceived")
  case True
  obtain r1 s1 o1 where a: "submit_active dig u (s\<lparr>cl_submitting := True\<rparr>) = (r1, s1, o1)" by (metis prod_cases3)
  from u True a have "res = r1" "s' = s1\<lparr>cl_submitting := False\<rparr>" "out = o1"
    by (simp_all add: submit_update_def cl_require_ready_def)
  with submit_active_effect [OF a] True show ?thesis by (auto simp: cl_rid_def)
next
  case False
  then have "(s' = s \<or> s' = s\<lparr>cl_consumed := True\<rparr>) \<and> out = None \<and>
      (res = Inr () \<longrightarrow> cl_status s \<noteq> Some ModelReceived)"
    using u by (auto simp: submit_update_def cl_require_ready_def split: sum.splits if_splits option.splits)
  then show ?thesis by (auto simp: same_models_def)
qed

section \<open>Runs\<close>

datatype client_call =
    ClWait bool "model_turn list"
  | ClSubmit bool submission
  | ClAbort string
  | ClRestart

text \<open>A restart that fails ends the run.\<close>

fun client_call_step :: "digest \<Rightarrow> client_call \<Rightarrow> client_rt \<Rightarrow> client_rt option \<times> sent list" where
  "client_call_step dig (ClWait ready xs) s = (Some (snd (wait_for_model dig ready xs s)), [])"
| "client_call_step dig (ClSubmit ready u) s = (case submit_update dig ready u s of
     (res, s', out) \<Rightarrow> (Some s', (case out of None \<Rightarrow> [] | Some x \<Rightarrow> [x])))"
| "client_call_step dig (ClAbort reason) s = (Some (cl_abort reason s), [])"
| "client_call_step dig ClRestart s =
     (case client_restart s of Inl e \<Rightarrow> (None, []) | Inr s' \<Rightarrow> (Some s', []))"

fun client_calls :: "digest \<Rightarrow> client_call list \<Rightarrow> client_rt \<Rightarrow> client_rt option \<times> sent list" where
  "client_calls dig [] s = (Some s, [])"
| "client_calls dig (c # cs) s = (case client_call_step dig c s of
     (None, xs) \<Rightarrow> (None, xs)
   | (Some s', xs) \<Rightarrow> (case client_calls dig cs s' of (r, ys) \<Rightarrow> (r, xs @ ys)))"

fun client_call_ok :: "client_call \<Rightarrow> bool" where
  "client_call_ok (ClWait ready xs) = list_all turn_ok xs"
| "client_call_ok (ClSubmit ready u) = submission_ok u"
| "client_call_ok c = True"

definition once_inv :: "client_rt \<Rightarrow> string list \<Rightarrow> bool" where
  "once_inv s hist \<longleftrightarrow> distinct hist \<and>
     (\<forall>r \<in> set hist. rd_manifest (dir_of r s) \<noteq> NoFile \<and>
        \<not> (cl_round s = Some r \<and> cl_status s = Some ModelReceived)) \<and>
     (\<forall>r. cl_round s = Some r \<and> cl_status s = Some ModelReceived \<longrightarrow> rd_manifest (dir_of r s) \<noteq> NoFile)"

lemma client_call_step_inv:
  assumes st: "client_call_step dig c s = (Some s', xs)" and inv: "client_inv s" and ok: "client_call_ok c"
    and once: "once_inv s hist"
  shows "client_inv s' \<and> models_kept s s' \<and> once_inv s' (hist @ map se_round xs)"
proof (cases c)
  case (ClWait ready ts)
  obtain r1 s1 where w: "wait_for_model dig ready ts s = (r1, s1)" by fastforce
  with st ClWait have s': "s' = s1" "xs = []" by simp_all
  have "client_inv s1" using wait_for_model_inv [OF w inv] ok ClWait by simp
  moreover note e = wait_for_model_effect [OF w inv]
  moreover have "once_inv s1 hist"
  proof (cases "s1 = s")
    case False
    with e have a: "arms s s1" by blast
    show ?thesis using once e a unfolding once_inv_def arms_def models_kept_def by (metis option.inject)
  qed (use once in simp)
  ultimately show ?thesis using s' by simp
next
  case (ClSubmit ready u)
  obtain r1 s1 o1 where w: "submit_update dig ready u s = (r1, s1, o1)" by (metis prod_cases3)
  with st ClSubmit have s': "s' = s1" "xs = (case o1 of None \<Rightarrow> [] | Some x \<Rightarrow> [x])" by simp_all
  have "client_inv s1" using submit_update_inv [OF w inv] ok ClSubmit by simp
  moreover note e = submit_update_effect [OF w]
  moreover have "once_inv s1 (hist @ map se_round xs)"
    using once e unfolding once_inv_def same_models_def s' by (cases o1) auto
  ultimately show ?thesis using s' same_models_kept by simp
next
  case (ClAbort reason)
  with st have "s' = cl_abort reason s" "xs = []" by simp_all
  moreover have "once_inv (cl_abort reason s) hist" using once by (simp add: once_inv_def cl_abort_def)
  ultimately show ?thesis using inv abort_effect(1) by (simp add: same_models_kept)
next
  case ClRestart
  with st have r: "client_restart s = Inr s'" "xs = []" by (auto split: sum.splits)
  note e = client_restart_state [OF r(1) inv]
  have d: "dir_of q s' = dir_of q s\<lparr>rd_state := rd_state (dir_of q s')\<rparr>" for q using e by blast
  have "rd_manifest (dir_of q s') = rd_manifest (dir_of q s)" "rd_model (dir_of q s') = rd_model (dir_of q s)" for q
    by (subst d, simp)+
  then have "same_models s s'" by (simp add: same_models_def)
  moreover have "once_inv s' hist" using once e \<open>same_models s s'\<close> by (auto simp: once_inv_def same_models_def)
  ultimately show ?thesis using e r(2) same_models_kept by simp
qed

lemma client_calls_inv:
  "client_calls dig cs s = (res, xs) \<Longrightarrow> client_inv s \<Longrightarrow> list_all client_call_ok cs \<Longrightarrow> once_inv s hist \<Longrightarrow>
   distinct (hist @ map se_round xs) \<and>
   (\<forall>s'. res = Some s' \<longrightarrow> client_inv s' \<and> models_kept s s' \<and> once_inv s' (hist @ map se_round xs))"
proof (induction cs arbitrary: s xs hist)
  case Nil
  then show ?case by (auto simp: once_inv_def)
next
  case (Cons c cs)
  obtain o1 xs1 where st: "client_call_step dig c s = (o1, xs1)" by fastforce
  show ?case
  proof (cases o1)
    case None
    then have "xs1 = []" using st by (cases c) (auto split: sum.splits prod.splits)
    with None st Cons.prems show ?thesis by (auto simp: once_inv_def)
  next
    case (Some s1)
    obtain r2 ys where c: "client_calls dig cs s1 = (r2, ys)" by fastforce
    have k: "client_inv s1 \<and> models_kept s s1 \<and> once_inv s1 (hist @ map se_round xs1)"
      by (rule client_call_step_inv [OF st [unfolded Some]]) (use Cons.prems in simp_all)
    from Cons.prems(1) st Some c have "client_calls dig cs s1 = (res, ys)" "xs = xs1 @ ys" by simp_all
    with Cons.IH [of s1 ys "hist @ map se_round xs1"] k Cons.prems(3) show ?thesis
      by (auto intro: models_kept_trans)
  qed
qed

lemma fresh_client:
  assumes "client_rt_init node m werr [] NoFile [] = Inr s0"
  shows "client_inv s0 \<and> once_inv s0 []"
proof -
  have rec: "recover_round_states ClientRole werr (client_work_dir [] NoFile) = (Inr None, client_work_dir [] NoFile)"
    by (simp add: recover_round_states_def client_work_dir_def)
  have ws: "with_states [] w = []" for w by (simp add: with_states_def)
  have cur: "wd_current (client_work_dir [] NoFile) = NoFile" by (simp add: client_work_dir_def)
  from assms obtain i k where "0 < i" "0 < k" "s0 = blank_client i (nat k) [] NoFile []"
    by (auto simp: client_rt_init_def rec validate_max_update_size_def ws cur Let_def not_le
        split: option.splits if_splits)
  then show ?thesis
    by (simp add: client_inv_def inv_defs once_inv_def dict_wf_def has_key_def state_file_ok_def dir_of_def
        empty_dir_def unfinished_def)
qed

section \<open>A sample round\<close>

definition zeros_digest :: digest where
  "zeros_digest b = replicate 64 (CHR ''0'')"

definition sample_manifest :: pydict where
  "sample_manifest =
     [(''schema_version'', PInt 1), (''artifact_type'', PStr ''model''), (''round_id'', PStr sample_round),
      (''size_bytes'', PInt 3), (''sha256'', PStr (zeros_digest [])),
      (''participant_node_ids'', PList [PInt 1, PInt 2])]"

definition three_stat :: file_stat where
  "three_stat = \<lparr>st_dev = 1, st_ino = 7, st_size = 3, st_mtime_ns = 5\<rparr>"

definition three_view :: source_view where
  "three_view = \<lparr>view_first = [[1, 2, 3]], view_stat = three_stat, view_second = [[1, 2, 3]], view_stat2 = three_stat\<rparr>"

definition sample_delivery :: delivery where
  "sample_delivery = \<lparr>dl_manifest = Json (PDict sample_manifest), dl_model = Regular [1, 2, 3] three_stat,
     dl_later = Regular [1, 2, 3] three_stat, dl_view = three_view, dl_mkdir_err = None, dl_copy_err = None,
     dl_manifest_err = None, dl_state_err = None, dl_pointer_err = None, dl_fail_err = None,
     dl_fail_pointer_err = None, dl_quarantine_err = None, dl_move_err = None, dl_reject_err = None\<rparr>"

definition sample_submission :: submission where
  "sample_submission = \<lparr>su_source = Regular [1, 2, 3] three_stat, su_view = three_view, su_open_err = None,
     su_copy_err = None, su_manifest_err = None, su_send_err = None, su_done_err = None, su_fail_err = None\<rparr>"

definition client_1 :: client_rt where
  "client_1 = blank_client 1 100 [] NoFile []"

lemma client_1_init: "client_rt_init (PInt 1) (PInt 100) (\<lambda>_. None) [] NoFile [] = Inr client_1"
  by (simp add: client_rt_init_def validate_max_update_size_def recover_round_states_def client_work_dir_def
      with_states_def client_1_def)

definition receiving_1 :: client_rt where
  "receiving_1 = snd (wait_for_model zeros_digest True [(None, Inr sample_delivery)] client_1)"

lemma receiving_1: "wait_for_model zeros_digest True [(None, Inr sample_delivery)] client_1 = (Some (Inr sample_round), receiving_1)"
proof -
  have "(case fst (wait_for_model zeros_digest True [(None, Inr sample_delivery)] client_1) of
      Some (Inr r) \<Rightarrow> r = sample_round | _ \<Rightarrow> False)"
    by code_simp
  then have "fst (wait_for_model zeros_digest True [(None, Inr sample_delivery)] client_1) = Some (Inr sample_round)"
    by (simp split: option.splits sum.splits)
  then show ?thesis by (metis prod.collapse receiving_1_def)
qed

lemma sample_client_calls:
  "list_all client_call_ok [ClWait True [(None, Inr sample_delivery)], ClSubmit True sample_submission]"
  by (simp add: turn_ok_def delivery_ok_def submission_ok_def err_ok_def sample_delivery_def sample_submission_def)

section \<open>Guarantees\<close>

text \<open>C16: A round is submitted at most once. In any run of a client that started in an empty directory -
  models delivered again, submissions that fail half-way and are tried again, aborts, restarts, writes
  that fail - the updates handed to the transport belong to pairwise different rounds.\<close>

theorem submitted_once:
  assumes "client_rt_init node m werr [] NoFile [] = Inr s0" and "list_all client_call_ok cs"
    and "client_calls dig cs s0 = (res, xs)"
  shows "distinct (map se_round xs)"
proof -
  from fresh_client [OF assms(1)] have "client_inv s0" "once_inv s0 []" by blast+
  from client_calls_inv [OF assms(3) this(1) assms(2) this(2)] show ?thesis by simp
qed

theorem submitted_once_witness:
  "\<exists>r x. client_calls zeros_digest [ClWait True [(None, Inr sample_delivery)], ClSubmit True sample_submission,
       ClRestart, ClSubmit True sample_submission, ClWait True [(None, Inr sample_delivery)],
       ClSubmit True sample_submission] client_1 = (r, [x]) \<and> se_round x = sample_round \<and> distinct [se_round x]"
proof -
  let ?cs = "[ClWait True [(None, Inr sample_delivery)], ClSubmit True sample_submission,
       ClRestart, ClSubmit True sample_submission, ClWait True [(None, Inr sample_delivery)],
       ClSubmit True sample_submission]"
  have ok: "list_all client_call_ok ?cs" using sample_client_calls by simp
  have "(case snd (client_calls zeros_digest ?cs client_1) of [x] \<Rightarrow> se_round x = sample_round | _ \<Rightarrow> False)"
    by code_simp
  then obtain x where "snd (client_calls zeros_digest ?cs client_1) = [x]" "se_round x = sample_round"
    by (simp split: list.splits)
  then obtain r where r: "client_calls zeros_digest ?cs client_1 = (r, [x])" "se_round x = sample_round"
    by (metis prod.collapse)
  with submitted_once [OF client_1_init ok r(1)] show ?thesis by auto
qed

text \<open>C35: A delivered model is what its manifest says, now and later. When waiting returns a round, the
  round is new, its manifest names this node, and the archived model has the length and digest the
  manifest gives; the round is recorded as received and current. Whatever happens after - other
  deliveries for the same round included, and restarts - manifest and model stay the same.\<close>

theorem delivered_model_sound:
  assumes "client_rt_init node m werr [] NoFile [] = Inr s0" and "list_all client_call_ok cs"
    and "client_calls dig cs s0 = (Some s, xs)"
    and w: "wait_for_model dig ready ts s = (Some (Inr r), s')" and "list_all turn_ok ts"
    and later: "client_calls dig cs' s' = (Some s'', ys)" and "list_all client_call_ok cs'"
  shows "rd_manifest (dir_of r s) = NoFile \<and> cl_round s' = Some r \<and> cl_status s' = Some ModelReceived \<and>
    cl_current s' = Json (PDict (current_pointer ClientRole r)) \<and>
    (\<exists>d b st. rd_manifest (dir_of r s') = Json (PDict d) \<and> mf_round d = r \<and> cl_node s' \<in> set (mf_nodes d) \<and>
       rd_model (dir_of r s') = Regular b st \<and> int (length b) = mf_size d \<and> dig b = mf_sha d) \<and>
    rd_manifest (dir_of r s'') = rd_manifest (dir_of r s') \<and> rd_model (dir_of r s'') = rd_model (dir_of r s')"
proof -
  from fresh_client [OF assms(1)] have "client_inv s0" "once_inv s0 []" by blast+
  from client_calls_inv [OF assms(3) this(1) assms(2) this(2)]
  have inv: "client_inv s" and once: "once_inv s (map se_round xs)" by simp_all
  from wait_for_model_effect [OF w inv] have d: "delivered dig s' r" "rd_manifest (dir_of r s) = NoFile" by blast+
  have st: "client_call_step dig (ClWait ready ts) s = (Some s', [])" by (simp add: w)
  from client_call_step_inv [OF st inv _ once] assms(5)
  have "client_inv s'" "once_inv s' (map se_round xs)" by simp_all
  from client_calls_inv [OF later this(1) assms(7) this(2)] have "models_kept s' s''" by blast
  moreover from d(1) have "rd_manifest (dir_of r s') \<noteq> NoFile" by (auto simp: delivered_def stored_def)
  ultimately show ?thesis using d by (auto simp: delivered_def stored_def models_kept_def)
qed

theorem delivered_model_sound_witness:
  "\<exists>s''. client_calls zeros_digest [ClSubmit True sample_submission, ClRestart] receiving_1 = (Some s'', [\<lparr>se_round = sample_round,
       se_node = 1, se_size = 3, se_sha = zeros_digest []\<rparr>]) \<and>
     rd_manifest (dir_of sample_round s'') = rd_manifest (dir_of sample_round receiving_1)"
proof -
  let ?cs = "[ClSubmit True sample_submission, ClRestart]"
  have "(case client_calls zeros_digest ?cs receiving_1 of (Some s, [x]) \<Rightarrow>
      x = \<lparr>se_round = sample_round, se_node = 1, se_size = 3, se_sha = zeros_digest []\<rparr> | _ \<Rightarrow> False)"
    by code_simp
  then obtain s'' where r: "client_calls zeros_digest ?cs receiving_1 = (Some s'', [\<lparr>se_round = sample_round,
       se_node = 1, se_size = 3, se_sha = zeros_digest []\<rparr>])"
    by (auto split: prod.splits option.splits list.splits)
  have ok: "list_all turn_ok [(None, Inr sample_delivery)]" "list_all client_call_ok ?cs"
    using sample_client_calls by simp_all
  have "client_calls zeros_digest [] client_1 = (Some client_1, [])" by simp
  from delivered_model_sound [OF client_1_init _ this receiving_1 ok(1) r ok(2)] r show ?thesis by simp
qed

text \<open>C36: When a client can start again. After any run a restart succeeds exactly if every round's
  directory has got its state file - a write that failed between the directory and the state leaves one
  that blocks every start. A restart that succeeds ends the unfinished round as failed, leaves the ended
  ones as they were, and touches nothing but state files.\<close>

theorem client_restart_exactly:
  assumes "client_rt_init node m werr [] NoFile [] = Inr s0" and "list_all client_call_ok cs"
    and "client_calls dig cs s0 = (Some s, xs)"
  shows "(is_ok (client_restart s) \<longleftrightarrow> list_all (\<lambda>(_, rd). rd_state rd \<noteq> NoFile) (cl_dirs s)) \<and>
    (\<forall>s'. client_restart s = Inr s' \<longrightarrow>
       (\<forall>r. \<not> unfinished (rd_state (dir_of r s')) \<and>
          dir_of r s' = dir_of r s\<lparr>rd_state := rd_state (dir_of r s')\<rparr> \<and>
          (\<forall>d. rd_state (dir_of r s) = Json (PDict d) \<longrightarrow>
             rd_state (dir_of r s') = Json (PDict (if is_terminal d then d else restarted_state d)))))"
proof -
  from fresh_client [OF assms(1)] have "client_inv s0" "once_inv s0 []" by blast+
  from client_calls_inv [OF assms(3) this(1) assms(2) this(2)] have inv: "client_inv s" by simp
  have "all_recorded s" if "client_restart s = Inr s'" for s'
    using that inv
  proof (cases rule: client_restart_cases)
    case (1 found w)
    from recovered_work_dir [OF inv 1(1)] obtain ts :: "(string \<times> pydict) list"
      where ts: "map fst ts = map fst (cl_dirs s)"
      and f: "\<And>n d. (n, d) \<in> set ts \<Longrightarrow> \<exists>d0. rd_state (dir_of n s) = Json (PDict d0)" by metis
    have "rd_state rd \<noteq> NoFile" if "(n, rd) \<in> set (cl_dirs s)" for n rd
    proof -
      from that have "n \<in> set (map fst ts)" unfolding ts by force
      then obtain d where "(n, d) \<in> set ts" by auto
      moreover have "dir_of n s = rd" using that inv by (auto simp: client_inv_def cl_base_def intro: dir_of_mem)
      ultimately show ?thesis using f by fastforce
    qed
    then show ?thesis by (auto simp: all_recorded_def list_all_iff)
  qed
  moreover have "is_ok (client_restart s)" if rec: "all_recorded s"
    using recover_all_recorded [OF inv rec] inv
    by (auto simp: client_restart_def client_rt_init_def validate_max_update_size_def Let_def client_inv_def cl_base_def)
  ultimately have "is_ok (client_restart s) \<longleftrightarrow> all_recorded s" by (cases "client_restart s") auto
  with client_restart_state [OF _ inv] show ?thesis by (auto simp: all_recorded_def quiet_def)
qed

theorem client_restart_exactly_witness:
  "is_ok (client_restart receiving_1) \<and>
   \<not> is_ok (client_restart (snd (wait_for_model zeros_digest True
       [(None, Inr (sample_delivery\<lparr>dl_copy_err := Some (OSError ''no space'')\<rparr>))] client_1)))"
proof -
  let ?d = "sample_delivery\<lparr>dl_copy_err := Some (OSError ''no space'')\<rparr>"
  let ?s = "snd (wait_for_model zeros_digest True [(None, Inr ?d)] client_1)"
  have a: "list_all (\<lambda>(_, rd). rd_state rd \<noteq> NoFile) (cl_dirs receiving_1)"
    "\<not> list_all (\<lambda>(_, rd). rd_state rd \<noteq> NoFile) (cl_dirs ?s)"
    by code_simp+
  have ok: "list_all client_call_ok [ClWait True [(None, Inr sample_delivery)]]"
    "list_all client_call_ok [ClWait True [(None, Inr ?d)]]"
    using sample_client_calls
    by (simp_all add: turn_ok_def delivery_ok_def err_ok_def code_ok_def sample_delivery_def)
  have "client_calls zeros_digest [ClWait True [(None, Inr sample_delivery)]] client_1 = (Some receiving_1, [])"
    "client_calls zeros_digest [ClWait True [(None, Inr ?d)]] client_1 = (Some ?s, [])"
    by (simp_all add: receiving_1)
  from client_restart_exactly [OF client_1_init ok(1) this(1)] client_restart_exactly [OF client_1_init ok(2) this(2)] a
  show ?thesis by blast
qed

end
