(* ===== verification/Wire_Text.thy ===== *)
theory Wire_Text
  imports Artifacts
begin

text \<open>
  Texts on the wire, as \<^verbatim>\<open>wfb_ng/fl/transport.py\<close> reads and writes them: base64 and the
  \<^verbatim>\<open>Content-Digest\<close> header, hexadecimal digests, the header lists of HTTP, Python's \<^verbatim>\<open>int()\<close> on text, the
  responses a client reads line by line, and the status file of \<^verbatim>\<open>uftp\<close>. A character is a byte read
  as ISO 8859-1. The strict base64 of Python 3.11 and later is modelled: padding is required and
  nothing may follow it.
\<close>

section \<open>Base64\<close>

definition b64_alphabet :: string where
  "b64_alphabet = ''ABCDEFGHIJKLMNOPQRSTUVWXYZabcdefghijklmnopqrstuvwxyz0123456789+/''"

definition b64_char :: "nat \<Rightarrow> char" where
  "b64_char n = b64_alphabet ! n"

fun index_of :: "char \<Rightarrow> string \<Rightarrow> nat option" where
  "index_of c [] = None"
| "index_of c (d # ds) = (if c = d then Some 0 else map_option Suc (index_of c ds))"

definition b64_val :: "char \<Rightarrow> nat option" where
  "b64_val c = index_of c b64_alphabet"

definition byte :: "nat \<Rightarrow> 8 word" where
  "byte n = of_nat n"

fun b64_encode :: "bytes \<Rightarrow> string" where
  "b64_encode [] = []"
| "b64_encode [a] =
     [b64_char (unat a div 4), b64_char (unat a mod 4 * 16), CHR ''='', CHR ''='']"
| "b64_encode [a, b] =
     [b64_char (unat a div 4), b64_char (unat a mod 4 * 16 + unat b div 16),
      b64_char (unat b mod 16 * 4), CHR ''='']"
| "b64_encode (a # b # c # rest) =
     b64_char (unat a div 4) # b64_char (unat a mod 4 * 16 + unat b div 16) #
     b64_char (unat b mod 16 * 4 + unat c div 64) # b64_char (unat c mod 64) # b64_encode rest"

definition b64_quad :: "nat \<Rightarrow> nat \<Rightarrow> nat \<Rightarrow> nat \<Rightarrow> bytes" where
  "b64_quad p q r s = [byte (p * 4 + q div 16), byte (q mod 16 * 16 + r div 4), byte (r mod 4 * 64 + s)]"

fun b64_decode :: "string \<Rightarrow> bytes option" where
  "b64_decode [] = Some []"
| "b64_decode (w # x # y # z # rest) =
     (if z = CHR ''='' then
        (if rest \<noteq> [] then None
         else if y = CHR ''='' then
           (case (b64_val w, b64_val x) of
              (Some p, Some q) \<Rightarrow> Some (take 1 (b64_quad p q 0 0)) | _ \<Rightarrow> None)
         else (case (b64_val w, b64_val x, b64_val y) of
              (Some p, Some q, Some r) \<Rightarrow> Some (take 2 (b64_quad p q r 0)) | _ \<Rightarrow> None))
      else (case (b64_val w, b64_val x, b64_val y, b64_val z, b64_decode rest) of
              (Some p, Some q, Some r, Some s, Some bs) \<Rightarrow> Some (b64_quad p q r s @ bs)
            | _ \<Rightarrow> None))"
| "b64_decode _ = None"

lemma b64_val_char [simp]: "n < 64 \<Longrightarrow> b64_val (b64_char n) = Some n"
proof -
  have "list_all (\<lambda>n. b64_val (b64_char n) = Some n) [0..<64]" by code_simp
  then show "n < 64 \<Longrightarrow> b64_val (b64_char n) = Some n" by (simp add: list_all_iff)
qed

lemma b64_char_pad [simp]: "n < 64 \<Longrightarrow> b64_char n \<noteq> CHR ''=''"
proof -
  have "list_all (\<lambda>n. b64_char n \<noteq> CHR ''='') [0..<64]" by code_simp
  then show "n < 64 \<Longrightarrow> b64_char n \<noteq> CHR ''=''" by (simp add: list_all_iff)
qed

lemma unat_byte_bound [simp]: "unat (a :: 8 word) < 256"
  using unsigned_less [of a] by simp

lemma byte_parts [simp]:
  "unat (a :: 8 word) div 4 < 64" "unat a div 16 < 16" "unat a div 64 < 4"
  using unat_byte_bound [of a] by (simp_all add: div_less_iff_less_mult)

lemma split_16: "y < 16 \<Longrightarrow> (k * 16 + y) div 16 = k" "y < 16 \<Longrightarrow> (k * 16 + y) mod 16 = (y :: nat)"
  by simp_all

lemma split_4: "y < 4 \<Longrightarrow> (k * 4 + y) div 4 = k" "y < 4 \<Longrightarrow> (k * 4 + y) mod 4 = (y :: nat)"
  by simp_all

lemma sextet_bounds [simp]:
  "unat a mod 4 * 16 + unat (b :: 8 word) div 16 < 64" "unat a mod 4 * 16 < 64" "unat b mod 16 * 4 < 64"
  "unat b mod 16 * 4 + unat (c :: 8 word) div 64 < 64"
proof -
  have "unat a mod 4 < 4" "unat b div 16 < 16" "unat b mod 16 < 16" "unat c div 64 < 4" by simp_all
  then show "unat a mod 4 * 16 + unat b div 16 < 64" "unat a mod 4 * 16 < 64" "unat b mod 16 * 4 < 64"
    "unat b mod 16 * 4 + unat c div 64 < 64"
    by linarith+
qed

lemma byte_unat [simp]: "byte (unat a) = a"
  by (simp add: byte_def)

lemma b64_quad_bytes:
  "b64_quad (unat a div 4) (unat a mod 4 * 16 + unat b div 16) (unat b mod 16 * 4 + unat c div 64) (unat c mod 64)
   = [a, b, c]"
  by (simp add: b64_quad_def split_16 split_4 div_mult_mod_eq)

lemma b64_quad_short:
  "take (Suc 0) (b64_quad (unat a div 4) (unat a mod 4 * 16) 0 0) = [a]"
  "take 2 (b64_quad (unat a div 4) (unat a mod 4 * 16 + unat b div 16) (unat b mod 16 * 4) 0) = [a, b]"
  by (simp_all add: b64_quad_def split_16 div_mult_mod_eq numeral_2_eq_2)

lemma b64_roundtrip [simp]: "b64_decode (b64_encode bs) = Some bs"
  by (induction bs rule: b64_encode.induct)
    (simp_all add: b64_quad_short b64_quad_bytes)

section \<open>Hexadecimal digests\<close>

definition hex_char :: "nat \<Rightarrow> char" where
  "hex_char n = ''0123456789abcdef'' ! n"

text \<open>\<^verbatim>\<open>bytes.hex()\<close>.\<close>

fun hex_of :: "bytes \<Rightarrow> string" where
  "hex_of [] = []"
| "hex_of (b # bs) = hex_char (unat b div 16) # hex_char (unat b mod 16) # hex_of bs"

definition hex_val :: "char \<Rightarrow> nat option" where
  "hex_val c = (case index_of c ''0123456789abcdef'' of
     Some n \<Rightarrow> Some n
   | None \<Rightarrow> map_option (\<lambda>n. n + 10) (index_of c ''ABCDEF''))"

text \<open>\<^verbatim>\<open>bytes.fromhex\<close> of a text without spaces.\<close>

fun of_hex :: "string \<Rightarrow> bytes option" where
  "of_hex [] = Some []"
| "of_hex [c] = None"
| "of_hex (c # d # cs) = (case (hex_val c, hex_val d, of_hex cs) of
     (Some p, Some q, Some bs) \<Rightarrow> Some (byte (p * 16 + q) # bs) | _ \<Rightarrow> None)"

lemma hex_val_char [simp]: "n < 16 \<Longrightarrow> hex_val (hex_char n) = Some n"
proof -
  have "list_all (\<lambda>n. hex_val (hex_char n) = Some n) [0..<16]" by code_simp
  then show "n < 16 \<Longrightarrow> hex_val (hex_char n) = Some n" by (simp add: list_all_iff)
qed

lemma hex_roundtrip [simp]: "of_hex (hex_of bs) = Some bs"
  by (induction bs) simp_all

lemma hex_of_inj: "hex_of a = hex_of b \<Longrightarrow> a = b"
  by (metis hex_roundtrip option.inject)

lemma length_hex_of [simp]: "length (hex_of bs) = 2 * length bs"
  by (induction bs) simp_all

text \<open>A lower-case text of an even number of digits is the digest it decodes to.\<close>

lemma hex_char_val:
  "hex_val c = Some n \<Longrightarrow> c \<in> set ''0123456789abcdef'' \<Longrightarrow> hex_char n = c \<and> n < 16"
proof -
  have "list_all (\<lambda>c. case hex_val c of None \<Rightarrow> False | Some n \<Rightarrow> hex_char n = c \<and> n < 16) ''0123456789abcdef''"
    by code_simp
  then show "hex_val c = Some n \<Longrightarrow> c \<in> set ''0123456789abcdef'' \<Longrightarrow> hex_char n = c \<and> n < 16"
    unfolding list_all_iff by (drule_tac bspec) auto
qed

lemma hex_val_total: "c \<in> set ''0123456789abcdef'' \<Longrightarrow> hex_val c \<noteq> None"
proof -
  have "list_all (\<lambda>c. hex_val c \<noteq> None) ''0123456789abcdef''" by code_simp
  then show "c \<in> set ''0123456789abcdef'' \<Longrightarrow> hex_val c \<noteq> None" unfolding list_all_iff by (drule_tac bspec)
qed

lemma unat_byte: "n < 256 \<Longrightarrow> unat (byte n) = n"
  by (simp add: byte_def unat_of_nat)

lemma of_hex_total:
  "list_all (\<lambda>c. c \<in> set ''0123456789abcdef'') s \<Longrightarrow> even (length s) \<Longrightarrow>
   \<exists>bs. of_hex s = Some bs \<and> hex_of bs = s"
proof (induction s rule: of_hex.induct)
  case (3 c d cs)
  then obtain bs where bs: "of_hex cs = Some bs" "hex_of bs = cs" by auto
  from 3(2) obtain p q where p: "hex_val c = Some p" "hex_val d = Some q"
    using hex_val_total [of c] hex_val_total [of d] by auto
  with 3(2) have c: "hex_char p = c" "p < 16" "hex_char q = d" "q < 16"
    using hex_char_val [of c p] hex_char_val [of d q] by simp_all
  then have "unat (byte (p * 16 + q)) = p * 16 + q" by (intro unat_byte) simp
  with bs p c show ?case by (simp del: set_simps)
qed simp_all

section \<open>The digest header\<close>

definition digest_prefix :: string where "digest_prefix = ''sha-256=:''"

definition content_digest :: "bytes \<Rightarrow> string" where
  "content_digest d = digest_prefix @ b64_encode d @ '':''"

definition starts_with :: "string \<Rightarrow> string \<Rightarrow> bool" where
  "starts_with p s \<longleftrightarrow> take (length p) s = p"

definition parse_content_digest :: "string \<Rightarrow> bytes option" where
  "parse_content_digest v =
     (if v = [] \<or> \<not> starts_with digest_prefix v \<or> last v \<noteq> CHR '':'' then None
      else (case b64_decode (butlast (drop (length digest_prefix) v)) of
          None \<Rightarrow> None
        | Some d \<Rightarrow> if length d = 32 then Some d else None))"

lemma parse_content_digest_encode:
  "parse_content_digest (content_digest d) = (if length d = 32 then Some d else None)"
  by (simp add: parse_content_digest_def content_digest_def starts_with_def digest_prefix_def)

section \<open>Python's text functions\<close>

definition code_of :: "char \<Rightarrow> nat" where
  "code_of c = of_char c"

text \<open>\<^verbatim>\<open>str.lower\<close> on ISO 8859-1.\<close>

definition lower_char :: "char \<Rightarrow> char" where
  "lower_char c = (let n = code_of c in
     if 65 \<le> n \<and> n \<le> 90 \<or> 192 \<le> n \<and> n \<le> 222 \<and> n \<noteq> 215 then char_of (n + 32) else c)"

definition lower :: "string \<Rightarrow> string" where
  "lower s = map lower_char s"

text \<open>\<^verbatim>\<open>str.strip\<close>: the white space of ISO 8859-1.\<close>

definition py_space :: "char \<Rightarrow> bool" where
  "py_space c \<longleftrightarrow> (let n = code_of c in 9 \<le> n \<and> n \<le> 13 \<or> 28 \<le> n \<and> n \<le> 32 \<or> n = 133 \<or> n = 160)"

definition rstrip_set :: "(char \<Rightarrow> bool) \<Rightarrow> string \<Rightarrow> string" where
  "rstrip_set p s = rev (dropWhile p (rev s))"

definition strip :: "string \<Rightarrow> string" where
  "strip s = rstrip_set py_space (dropWhile py_space s)"

definition line_end :: "char \<Rightarrow> bool" where
  "line_end c \<longleftrightarrow> code_of c = 13 \<or> code_of c = 10"

text \<open>\<^verbatim>\<open>s.split(c, n)\<close>: at most \<open>n\<close> splits.\<close>

fun split_at :: "char \<Rightarrow> nat \<Rightarrow> string \<Rightarrow> string list" where
  "split_at c n [] = [[]]"
| "split_at c n (d # s) =
     (if d = c \<and> 0 < n then [] # split_at c (n - 1) s
      else (case split_at c n s of [] \<Rightarrow> [[d]] | w # ws \<Rightarrow> (d # w) # ws))"

definition split_all :: "char \<Rightarrow> string \<Rightarrow> string list" where
  "split_all c s = split_at c (length s) s"

text \<open>\<^verbatim>\<open>int(s)\<close> and \<^verbatim>\<open>int(s, 16)\<close>: white space around, a sign, single underscores between digits, and
  for base 16 a prefix; a decimal number of more than 4300 digits is refused.\<close>

definition digit_val :: "nat \<Rightarrow> char \<Rightarrow> nat option" where
  "digit_val b c = (case hex_val c of None \<Rightarrow> None | Some n \<Rightarrow> if n < b then Some n else None)"

fun scan_digits :: "nat \<Rightarrow> string \<Rightarrow> int \<Rightarrow> bool \<Rightarrow> int option" where
  "scan_digits b [] acc after = (if after then Some acc else None)"
| "scan_digits b (c # cs) acc after =
     (if c = CHR ''_'' then (if after then scan_digits b cs acc False else None)
      else (case digit_val b c of
          None \<Rightarrow> None
        | Some d \<Rightarrow> scan_digits b cs (acc * int b + int d) True))"

definition unsigned_text :: "nat \<Rightarrow> string \<Rightarrow> int option" where
  "unsigned_text b s =
     (if b = 16 \<and> (starts_with ''0x'' s \<or> starts_with ''0X'' s) then
        (let t = drop 2 s in scan_digits b (if starts_with ''_'' t then tl t else t) 0 False)
      else if b = 10 \<and> 4300 < length (filter (\<lambda>c. c \<noteq> CHR ''_'') s) then None
      else scan_digits b s 0 False)"

definition int_of_text :: "nat \<Rightarrow> string \<Rightarrow> int option" where
  "int_of_text b s = (case strip s of
     [] \<Rightarrow> None
   | c # cs \<Rightarrow>
       if c = CHR ''-'' then map_option uminus (unsigned_text b cs)
       else if c = CHR ''+'' then unsigned_text b cs
       else unsigned_text b (c # cs))"

definition text_of_int :: "int \<Rightarrow> string" where
  "text_of_int i = (if i < 0 then CHR ''-'' # decimal (nat (- i)) else decimal (nat i))"

lemma scan_append:
  "scan_digits b s acc after = Some v \<Longrightarrow> c \<noteq> CHR ''_'' \<Longrightarrow> digit_val b c = Some d \<Longrightarrow>
   scan_digits b (s @ [c]) acc after = Some (v * int b + int d)"
proof (induction s arbitrary: acc after)
  case Nil
  then show ?case by (simp split: if_splits)
next
  case (Cons a s)
  then show ?case by (auto split: if_splits option.splits)
qed

lemma decimal_digit:
  "n < 10 \<Longrightarrow> digit_val 10 (''0123456789'' ! n) = Some n \<and> ''0123456789'' ! n \<noteq> CHR ''_'' \<and>
   ''0123456789'' ! n \<in> set ''0123456789''"
proof -
  have "list_all (\<lambda>n. digit_val 10 (''0123456789'' ! n) = Some n \<and> ''0123456789'' ! n \<noteq> CHR ''_'' \<and>
    ''0123456789'' ! n \<in> set ''0123456789'') [0..<10]" by code_simp
  then show "n < 10 \<Longrightarrow> ?thesis" by (simp add: list_all_iff)
qed

lemma scan_decimal: "scan_digits 10 (decimal n) 0 False = Some (int n)"
proof (induction n rule: decimal.induct)
  case (1 n)
  show ?case
  proof (cases "n < 10")
    case True
    with decimal_digit [OF True] show ?thesis by (simp add: decimal.simps [of n])
  next
    case False
    have "n mod 10 < 10" by simp
    note d = decimal_digit [OF this]
    have "int (n div 10) * int 10 + int (n mod 10) = int n" by presburger
    with scan_append [OF 1 [OF False], of "''0123456789'' ! (n mod 10)" "n mod 10"] d show ?thesis
      by (simp add: decimal.simps [of n] False)
  qed
qed

lemma decimal_chars: "set (decimal n) \<subseteq> set ''0123456789'' \<and> decimal n \<noteq> []"
proof (induction n rule: decimal.induct)
  case (1 n)
  show ?case
  proof (cases "n < 10")
    case True
    with decimal_digit [OF True] have "decimal n = [''0123456789'' ! n]" by (simp add: decimal.simps [of n])
    with decimal_digit [OF True] show ?thesis by simp
  next
    case False
    have "n mod 10 < 10" by simp
    note d = decimal_digit [OF this]
    have "decimal n = decimal (n div 10) @ [''0123456789'' ! (n mod 10)]"
      using False by (simp add: decimal.simps [of n])
    with d 1 [OF False] show ?thesis by simp
  qed
qed

lemma strip_id:
  assumes "s \<noteq> []" and "\<not> py_space (hd s)" and "\<not> py_space (last s)"
  shows "strip s = s"
proof -
  have "dropWhile py_space s = s" using assms(1,2) by (cases s) simp_all
  moreover have "dropWhile py_space (rev s) = rev s"
    using assms(1,3) by (cases "rev s") (simp_all add: hd_rev [symmetric])
  ultimately show ?thesis by (simp add: strip_def rstrip_set_def)
qed

lemma digits_plain:
  "c \<in> set ''0123456789'' \<Longrightarrow> \<not> py_space c \<and> c \<noteq> CHR ''-'' \<and> c \<noteq> CHR ''+'' \<and> c \<noteq> CHR ''_''"
proof -
  have "list_all (\<lambda>c. \<not> py_space c \<and> c \<noteq> CHR ''-'' \<and> c \<noteq> CHR ''+'' \<and> c \<noteq> CHR ''_'') ''0123456789''"
    by code_simp
  then show "c \<in> set ''0123456789'' \<Longrightarrow> ?thesis" unfolding list_all_iff by (drule_tac bspec)
qed

text \<open>\<^verbatim>\<open>int(str(n)) == n\<close>.\<close>

lemma int_of_decimal:
  assumes "length (decimal n) \<le> 4300"
  shows "int_of_text 10 (decimal n) = Some (int n)"
proof -
  obtain c cs where t: "decimal n = c # cs" using decimal_chars [of n] by (cases "decimal n") auto
  have in_set: "x \<in> set (decimal n) \<Longrightarrow> x \<in> set ''0123456789''" for x using decimal_chars [of n] by blast
  have c: "\<not> py_space c \<and> c \<noteq> CHR ''-'' \<and> c \<noteq> CHR ''+''" using digits_plain in_set [of c] t by simp
  have "last (decimal n) \<in> set (decimal n)" using t by simp
  then have "strip (decimal n) = decimal n"
    using digits_plain [OF in_set [of "last (decimal n)"]] c t by (intro strip_id) simp_all
  moreover have "length (filter (\<lambda>x. x \<noteq> CHR ''_'') (decimal n)) \<le> 4300"
    using assms length_filter_le [of "\<lambda>x. x \<noteq> CHR ''_''" "decimal n"] by linarith
  ultimately show ?thesis
    using scan_decimal [of n] c t by (simp add: int_of_text_def unsigned_text_def)
qed

section \<open>Headers and responses\<close>

type_synonym headers = "(string \<times> string) list"

text \<open>\<^verbatim>\<open>headers.get_all(name, [])\<close>: names compare without regard to case.\<close>

definition header_values :: "headers \<Rightarrow> string \<Rightarrow> string list" where
  "header_values hs name = map snd (filter (\<lambda>(k, v). lower k = lower name) hs)"

text \<open>A stream that is read line by line: the lines, and how reading ends after them (\<open>None\<close>: at the
  end of the stream).\<close>

record line_stream =
  ls_lines :: "string list"
  ls_end :: "exn option"

definition read_line :: "line_stream \<Rightarrow> string res \<times> line_stream" where
  "read_line f = (case ls_lines f of
     [] \<Rightarrow> (case ls_end f of None \<Rightarrow> (Inr [], f) | Some e \<Rightarrow> (Inl e, f))
   | l # ls \<Rightarrow> (Inr l, f\<lparr>ls_lines := ls\<rparr>))"

definition bad_response :: exn where
  "bad_response = fl_error ''invalid_http_response'' ''invalid response''"

type_synonym header_map = "(string \<times> string list) list"

definition add_header :: "string \<Rightarrow> string \<Rightarrow> header_map \<Rightarrow> header_map" where
  "add_header k v hs = AList.update k ((case map_of hs k of None \<Rightarrow> [] | Some vs \<Rightarrow> vs) @ [v]) hs"

definition is_blank :: "string \<Rightarrow> bool" where
  "is_blank l \<longleftrightarrow> l = [char_of (13 :: nat), char_of (10 :: nat)] \<or> l = [char_of (10 :: nat)]"

fun read_headers :: "string list \<Rightarrow> exn option \<Rightarrow> header_map \<Rightarrow> header_map res \<times> string list" where
  "read_headers [] fin hs = (Inl (case fin of None \<Rightarrow> bad_response | Some e \<Rightarrow> e), [])"
| "read_headers (l # ls) fin hs =
     (if is_blank l then (Inr hs, ls)
      else if l = [] then (Inl bad_response, ls)
      else (case split_at CHR '':'' 1 l of
          [k, v] \<Rightarrow> read_headers ls fin (add_header (lower (strip k)) (strip v) hs)
        | _ \<Rightarrow> (Inl bad_response, ls)))"

definition read_http_response :: "line_stream \<Rightarrow> (int \<times> header_map) res \<times> line_stream" where
  "read_http_response f = (case read_line f of
     (Inl e, f) \<Rightarrow> (Inl e, f)
   | (Inr l, f) \<Rightarrow>
       (case split_at CHR '' '' 2 (rstrip_set line_end l) of
          v # code # _ \<Rightarrow>
            (if \<not> starts_with ''HTTP/'' v then (Inl bad_response, f)
             else (case read_headers (ls_lines f) (ls_end f) [] of
                 (Inl e, ls) \<Rightarrow> (Inl e, f\<lparr>ls_lines := ls\<rparr>)
               | (Inr hs, ls) \<Rightarrow>
                   ((case int_of_text 10 code of None \<Rightarrow> Inl bad_response | Some n \<Rightarrow> Inr (n, hs)),
                    f\<lparr>ls_lines := ls\<rparr>)))
        | _ \<Rightarrow> (Inl bad_response, f)))"

text \<open>\<^verbatim>\<open>_read_http_error\<close>: the error the server names, or a default one. The body as JSON is an argument
  (\<open>None\<close> where it does not parse).\<close>

definition content_lengths :: "header_map \<Rightarrow> string list" where
  "content_lengths hs = (case map_of hs ''content-length'' of None \<Rightarrow> [] | Some vs \<Rightarrow> vs)"

definition read_http_error ::
  "pyval option res \<Rightarrow> header_map \<Rightarrow> string \<Rightarrow> string \<Rightarrow> string \<Rightarrow> int \<Rightarrow> exn res" where
  "read_http_error body hs code msg r n =
     (let default = FLRuntimeError code msg (Some r) (Some n);
          len = (case content_lengths hs of
                   [t] \<Rightarrow> (case int_of_text 10 t of None \<Rightarrow> -1 | Some k \<Rightarrow> k) | _ \<Rightarrow> -1)
      in if len < 0 \<or> 16384 < len then Inr default
         else (case body of
             Inl e \<Rightarrow> Inl e
           | Inr v \<Rightarrow> (case Option.bind v as_dict of
               None \<Rightarrow> Inr default
             | Some d \<Rightarrow> (case (as_str (dget d ''error_code''), as_str (dget d ''error_message'')) of
                 (Some c, Some m) \<Rightarrow> Inr (if c = [] then default else FLRuntimeError c m (Some r) (Some n))
               | _ \<Rightarrow> Inr default))))"

section \<open>The status file of uftp\<close>

definition same_items :: "'a list \<Rightarrow> 'a list \<Rightarrow> bool" where
  "same_items xs ys \<longleftrightarrow> length xs = length ys \<and> (\<forall>x \<in> set xs. count_list xs x = count_list ys x)"

type_synonym uftp_records = "(string \<times> int) list \<times> (int \<times> string \<times> string) list"

fun parse_status :: "string list \<Rightarrow> uftp_records option" where
  "parse_status [] = Some ([], [])"
| "parse_status (l # ls) =
     (let f = split_all CHR '';'' (rstrip_set (\<lambda>c. code_of c = 10) l) in
      if hd f = ''CONNECT'' then
        (if length f \<noteq> 3 then None
         else (case (int_of_text 16 (f ! 2), parse_status ls) of
             (Some u, Some (cs, rs)) \<Rightarrow> Some ((f ! 1, u) # cs, rs) | _ \<Rightarrow> None))
      else if hd f = ''RESULT'' then
        (if length f \<noteq> 6 then None
         else (case (int_of_text 16 (f ! 1), parse_status ls) of
             (Some u, Some (cs, rs)) \<Rightarrow> Some (cs, (u, f ! 2, f ! 4) # rs) | _ \<Rightarrow> None))
      else parse_status ls)"

definition transport_failed :: exn where
  "transport_failed = fl_error ''transport_failed'' ''uftp''"

text \<open>\<open>None\<close>: the file cannot be read.\<close>

definition validate_uftp_status :: "string list option \<Rightarrow> int list \<Rightarrow> string list \<Rightarrow> unit res" where
  "validate_uftp_status content uids files = (case Option.bind content parse_status of
     None \<Rightarrow> Inl transport_failed
   | Some (cs, rs) \<Rightarrow>
       if \<not> same_items cs (map (\<lambda>u. (''success'', u)) uids) then Inl transport_failed
       else if \<not> same_items rs (concat (map (\<lambda>u. map (\<lambda>f. (u, f, ''copy'')) files) uids))
       then Inl transport_failed
       else Inr ())"

end
