(* ===== verification/Client_Transport.thy ===== *)
theory Client_Transport
  imports Wire_Text "HOL-Library.List_Lexorder" "HOL-Library.Char_ord"
begin

text \<open>
  \<^verbatim>\<open>ClientTransport\<close> of \<^verbatim>\<open>wfb_ng/fl/transport.py\<close>: its start and end, the models that \<^verbatim>\<open>uftpd\<close> has
  delivered into the inbox, and the upload of an update as one HTTP exchange. What the socket, the
  processes and the file system answer is an argument: \<open>exn option\<close> says whether a call raises. The
  observation log of an upload is modelled by its phases, outcomes and error codes.
\<close>

section \<open>Life cycle\<close>

datatype transport_state = TsNew | TsStarting | TsReady | TsFailed | TsStopping | TsClosed

record client_transport =
  ct_ready :: bool
  ct_state :: transport_state
  ct_active :: bool
  ct_process :: bool
  ct_delivered :: "string set"

definition client_transport_init :: client_transport where
  "client_transport_init =
     \<lparr>ct_ready = False, ct_state = TsNew, ct_active = False, ct_process = False, ct_delivered = {}\<rparr>"

text \<open>\<^verbatim>\<open>close\<close>: it waits until no upload is active, which its shutdown of the socket brings about.\<close>

definition ct_close :: "client_transport \<Rightarrow> client_transport" where
  "ct_close c =
     (if ct_state c = TsClosed then c
      else c\<lparr>ct_ready := False, ct_state := TsClosed, ct_active := False, ct_process := False\<rparr>)"

text \<open>One look of the start's waiting loop: the clock is past the deadline, or the process has ended,
  or it listens, or neither yet.\<close>

datatype start_look = LookLate | LookExited | LookListens | LookNothing

definition start_failed :: exn where
  "start_failed = fl_error ''transport_start_failed'' ''uftpd''"

definition ct_give_up :: "client_transport \<Rightarrow> client_transport" where
  "ct_give_up c = (ct_close c)\<lparr>ct_state := TsFailed\<rparr>"

fun start_wait :: "start_look list \<Rightarrow> client_transport \<Rightarrow> unit res option \<times> client_transport" where
  "start_wait [] c = (None, c)"
| "start_wait (l # ls) c = (case l of
     LookLate \<Rightarrow> (Some (Inl start_failed), ct_give_up c)
   | LookExited \<Rightarrow> (Some (Inl start_failed), ct_give_up c)
   | LookListens \<Rightarrow> (Some (Inr ()), c\<lparr>ct_ready := True, ct_state := TsReady\<rparr>)
   | LookNothing \<Rightarrow> start_wait ls c)"

definition ct_start ::
  "bool \<Rightarrow> exn option \<Rightarrow> start_look list \<Rightarrow> client_transport \<Rightarrow> unit res option \<times> client_transport" where
  "ct_start executable launch_err looks c =
     (if ct_state c \<noteq> TsNew then (Some (Inl (fl_error ''transport_already_started'' ''started'')), c)
      else if \<not> executable
      then (Some (Inl (fl_error ''transport_unavailable'' ''no uftpd'')), c\<lparr>ct_state := TsFailed\<rparr>)
      else (case launch_err of
          Some e \<Rightarrow> (Some (Inl start_failed), ct_give_up (c\<lparr>ct_state := TsStarting\<rparr>))
        | None \<Rightarrow> start_wait looks (c\<lparr>ct_state := TsStarting, ct_process := True\<rparr>)))"

text \<open>\<^verbatim>\<open>poll_failure\<close>: \<open>exited\<close> says whether the process has ended.\<close>

definition ct_poll_failure :: "bool \<Rightarrow> client_transport \<Rightarrow> exn option \<times> client_transport" where
  "ct_poll_failure exited c =
     (if ct_ready c \<and> ct_process c \<and> exited
      then (Some (fl_error ''transport_failed'' ''uftpd exited''), c\<lparr>ct_ready := False, ct_state := TsFailed\<rparr>)
      else (None, c))"

section \<open>Delivered models\<close>

text \<open>One look into the inbox: the names in it and whether each holds a manifest, whether the process
  has ended by then, and whether the transport is closed during the pause.\<close>

record inbox_look =
  il_names :: "string list"
  il_complete :: "string \<Rightarrow> bool"
  il_exited :: bool
  il_closed :: bool

fun first_candidate :: "(string \<Rightarrow> bool) \<Rightarrow> string set \<Rightarrow> string list \<Rightarrow> string option" where
  "first_candidate ok seen [] = None"
| "first_candidate ok seen (n # ns) =
     (if n \<in> seen then first_candidate ok seen ns
      else if ok n then Some n
      else first_candidate ok seen ns)"

text \<open>\<open>None\<close>: still waiting when the looks of the run end.\<close>

fun wait_for_candidate ::
  "inbox_look list \<Rightarrow> client_transport \<Rightarrow> string res option \<times> client_transport" where
  "wait_for_candidate ls c =
     (if \<not> ct_ready c then (Some (Inl (fl_error ''transport_not_ready'' ''not ready'')), c)
      else (case ls of
          [] \<Rightarrow> (None, c)
        | l # ls \<Rightarrow> (case first_candidate (il_complete l) (ct_delivered c) (sort (il_names l)) of
            Some n \<Rightarrow> (Some (Inr n), c\<lparr>ct_delivered := insert n (ct_delivered c)\<rparr>)
          | None \<Rightarrow>
              if il_exited l then (Some (Inl (fl_error ''transport_failed'' ''uftpd exited'')), c)
              else wait_for_candidate ls (if il_closed l then c\<lparr>ct_ready := False, ct_state := TsStopping\<rparr> else c))))"

section \<open>The request\<close>

definition crlf :: string where
  "crlf = [char_of (13 :: nat), char_of (10 :: nat)]"

definition update_path :: "string \<Rightarrow> int \<Rightarrow> string" where
  "update_path r n = ''/v1/rounds/'' @ r @ ''/updates/'' @ text_of_int n"

definition request_lines :: "string \<Rightarrow> int \<Rightarrow> string \<Rightarrow> int \<Rightarrow> nat \<Rightarrow> bytes \<Rightarrow> string list" where
  "request_lines host port r n sz d =
     [''PUT '' @ update_path r n @ '' HTTP/1.1'',
      ''Host: '' @ host @ '':'' @ text_of_int port,
      ''Content-Length: '' @ text_of_int (int sz),
      ''Content-Digest: '' @ content_digest d,
      ''Content-Type: application/octet-stream'',
      ''Expect: 100-continue'',
      ''Connection: close'',
      '''']"

definition request_text :: "string \<Rightarrow> int \<Rightarrow> string \<Rightarrow> int \<Rightarrow> nat \<Rightarrow> bytes \<Rightarrow> string" where
  "request_text host port r n sz d = concat (map (\<lambda>l. l @ crlf) (request_lines host port r n sz d))"

section \<open>The exchange\<close>

type_synonym upload_log = "(string \<times> string \<times> string option) list"

text \<open>What the socket and the update file answer during one upload. \<open>lk_error_body\<close> is the body of a
  refusal, read as JSON.\<close>

record upload_link =
  lk_connect :: "exn option"
  lk_stopping :: bool
  lk_send :: "exn option"
  lk_stream :: line_stream
  lk_body :: "exn option"
  lk_error_body :: "pyval option res"

fun is_os_error :: "exn \<Rightarrow> bool" where
  "is_os_error (OSError m) = True"
| "is_os_error (TimeoutError m) = True"
| "is_os_error _ = False"

fun is_timeout :: "exn \<Rightarrow> bool" where
  "is_timeout (TimeoutError m) = True"
| "is_timeout _ = False"

definition submit_failed :: "string \<Rightarrow> int \<Rightarrow> string \<Rightarrow> exn" where
  "submit_failed r n phase = FLRuntimeError ''update_submit_failed'' phase (Some r) (Some n)"

text \<open>A failed operation on the socket: the log entry and the error of its phase.\<close>

definition io_failure :: "string \<Rightarrow> int \<Rightarrow> string \<Rightarrow> exn \<Rightarrow> exn \<times> upload_log" where
  "io_failure r n phase e =
     (if is_os_error e
      then (submit_failed r n phase, [(phase, if is_timeout e then ''timeout'' else ''failed'', None)])
      else (e, []))"

definition code_of_exn :: "exn \<Rightarrow> string option" where
  "code_of_exn e = (case e of FLRuntimeError c _ _ _ \<Rightarrow> Some c | _ \<Rightarrow> None)"

definition read_upload_response ::
  "string \<Rightarrow> int \<Rightarrow> string \<Rightarrow> line_stream \<Rightarrow> (exn \<times> upload_log) + (int \<times> header_map) \<times> line_stream" where
  "read_upload_response r n phase f = (case read_http_response f of
     (Inr x, f') \<Rightarrow> Inr (x, f')
   | (Inl e, f') \<Rightarrow>
       (case e of
          FLRuntimeError c _ _ _ \<Rightarrow> Inl (e, [(phase, ''failed'', Some c)])
        | _ \<Rightarrow> Inl (io_failure r n phase e)))"

text \<open>A refusal: the error it carries, logged and raised.\<close>

definition refused_upload ::
  "string \<Rightarrow> int \<Rightarrow> string \<Rightarrow> string \<Rightarrow> string \<Rightarrow> pyval option res \<Rightarrow> header_map \<Rightarrow> exn \<times> upload_log" where
  "refused_upload r n phase code msg body hs = (case read_http_error body hs code msg r n of
     Inl e \<Rightarrow> io_failure r n phase e
   | Inr e \<Rightarrow> (e, [(phase, ''rejected'', code_of_exn e)]))"

definition final_phase :: "string \<Rightarrow> int \<Rightarrow> upload_link \<Rightarrow> line_stream \<Rightarrow> unit res \<times> upload_log" where
  "final_phase r n lk f = (case read_upload_response r n ''final_response'' f of
     Inl (e, l) \<Rightarrow> (Inl e, l)
   | Inr ((status, hs), f') \<Rightarrow>
       if status \<noteq> 201 then
         (case refused_upload r n ''final_response'' ''update_submit_failed'' ''refused'' (lk_error_body lk) hs of
            (e, l) \<Rightarrow> (Inl e, l))
       else if content_lengths hs \<noteq> [''0''] then
         (Inl (submit_failed r n ''not an empty 201''),
          [(''final_response'', ''invalid_response'', Some ''update_submit_failed'')])
       else (Inr (), [(''final_response'', ''created'', None)]))"

definition body_phase :: "string \<Rightarrow> int \<Rightarrow> upload_link \<Rightarrow> line_stream \<Rightarrow> unit res \<times> upload_log" where
  "body_phase r n lk f = (case lk_body lk of
     Some e \<Rightarrow> (case io_failure r n ''body'' e of (e', l) \<Rightarrow> (Inl e', l))
   | None \<Rightarrow> (case final_phase r n lk f of (x, l) \<Rightarrow> (x, (''body'', ''sent'', None) # l)))"

definition continue_phase :: "string \<Rightarrow> int \<Rightarrow> upload_link \<Rightarrow> unit res \<times> upload_log" where
  "continue_phase r n lk = (case lk_send lk of
     Some e \<Rightarrow> (case io_failure r n ''continue'' e of (e', l) \<Rightarrow> (Inl e', l))
   | None \<Rightarrow> (case read_upload_response r n ''continue'' (lk_stream lk) of
       Inl (e, l) \<Rightarrow> (Inl e, l)
     | Inr ((status, hs), f) \<Rightarrow>
         if status \<noteq> 100 then
           (case refused_upload r n ''continue'' ''update_rejected'' ''refused'' (lk_error_body lk) hs of
              (e, l) \<Rightarrow> (Inl e, l))
         else (case body_phase r n lk f of (x, l) \<Rightarrow> (x, (''continue'', ''continued'', None) # l))))"

text \<open>The result, the log, and the request that was written, if it came to that.\<close>

definition put_exchange ::
  "string \<Rightarrow> int \<Rightarrow> string \<Rightarrow> int \<Rightarrow> nat \<Rightarrow> string \<Rightarrow> upload_link \<Rightarrow> unit res \<times> upload_log \<times> string option" where
  "put_exchange host port r n sz digest_hex lk = (case lk_connect lk of
     Some e \<Rightarrow> (case io_failure r n ''connect'' e of (e', l) \<Rightarrow> (Inl e', l, None))
   | None \<Rightarrow>
       let l0 = (''connect'', ''connected'', None) in
       if lk_stopping lk
       then (Inl (FLRuntimeError ''transport_not_ready'' ''not ready'' (Some r) (Some n)), [l0], None)
       else (case of_hex digest_hex of
           None \<Rightarrow> (Inl (ValueError ''non-hexadecimal number found''), [l0], None)
         | Some d \<Rightarrow> (case continue_phase r n lk of
             (x, l) \<Rightarrow> (x, l0 # l, Some (request_text host port r n sz d)))))"

text \<open>One upload at a time.\<close>

definition submit_put ::
  "string \<Rightarrow> int \<Rightarrow> string \<Rightarrow> int \<Rightarrow> nat \<Rightarrow> string \<Rightarrow> upload_link \<Rightarrow> client_transport \<Rightarrow>
   unit res \<times> upload_log \<times> client_transport" where
  "submit_put host port r n sz digest_hex lk c =
     (if ct_active c then (Inl (RuntimeError ''an upload is active''), [], c)
      else (case put_exchange host port r n sz digest_hex lk of
          (x, l, _) \<Rightarrow> (x, l, c\<lparr>ct_active := False\<rparr>)))"

end
