(* ===== verification/Upload_Server.thy ===== *)
theory Upload_Server
  imports Wire_Text
begin

text \<open>
  The receiving half of \<^verbatim>\<open>wfb_ng/fl/transport.py\<close>: \<^verbatim>\<open>ServerTransport\<close> and its update listener. A request
  is first reserved under the lock (\<open>reserve_upload\<close>), then its handler thread writes
  \<^verbatim>\<open>100 Continue\<close>, receives the body, puts it in place, commits the manifest, answers and releases the
  reservation. The threads of different requests interleave: \<open>task\<close> says how far a handler has come,
  \<open>task_turn\<close> is its next turn, and a run is a list of actions of the server's callers, its clients and
  its handlers. What the operating system does in a turn is an \<open>upload_io\<close>; the digest function
  \<^verbatim>\<open>hashlib.sha256\<close> is the argument \<open>sha\<close>. Observation events and time stamps are left out.
\<close>

section \<open>State\<close>

record round_context =
  rx_round :: string
  rx_nodes :: "int list"
  rx_dir :: string
  rx_max :: int

record upload_ctx =
  uc_round :: round_context
  uc_node :: int
  uc_length :: nat
  uc_digest :: bytes

record http_request =
  rq_method :: string
  rq_path :: string
  rq_headers :: headers

text \<open>The files of an update, \<^verbatim>\<open>update.bin\<close> and \<^verbatim>\<open>update.manifest.json\<close>, by round directory and node.\<close>

type_synonym update_files = "string \<times> int \<Rightarrow> bytes option \<times> json_file"

record upload_server =
  us_context :: "round_context option"
  us_active :: "(string \<times> int) set"
  us_used :: "(string \<times> int) set"
  us_files :: update_files
  us_event :: bool

text \<open>The HTTP status and the error code of an answer.\<close>

type_synonym reply = "nat \<times> string"

definition install_round :: "round_context \<Rightarrow> upload_server \<Rightarrow> upload_server" where
  "install_round c s = s\<lparr>us_context := Some (c\<lparr>rx_nodes := sort (rx_nodes c)\<rparr>), us_event := False\<rparr>"

definition wait_for_update :: "upload_server \<Rightarrow> upload_server" where
  "wait_for_update s = s\<lparr>us_event := False\<rparr>"

section \<open>Reserving an upload\<close>

definition upload_prefix :: "string \<Rightarrow> string" where
  "upload_prefix r = ''/v1/rounds/'' @ r @ ''/updates/''"

definition invalid_node_id :: reply where "invalid_node_id = (400, ''invalid_node_id'')"
definition invalid_headers :: reply where "invalid_headers = (400, ''invalid_request_headers'')"

definition path_node :: "string \<Rightarrow> string \<Rightarrow> reply + int" where
  "path_node r path =
     (if \<not> starts_with (upload_prefix r) path then Inl (404, ''round_not_found'')
      else (let t = drop (length (upload_prefix r)) path in
        if t = [] \<or> \<not> list_all (\<lambda>c. c \<in> set ''0123456789'') t then Inl invalid_node_id
        else (case int_of_text 10 t of
            None \<Rightarrow> Inl invalid_node_id
          | Some n \<Rightarrow> if text_of_int n \<noteq> t \<or> n \<le> 0 then Inl invalid_node_id else Inr n)))"

definition upload_key :: "upload_ctx \<Rightarrow> string \<times> int" where
  "upload_key u = (rx_round (uc_round u), uc_node u)"

definition file_key :: "upload_ctx \<Rightarrow> string \<times> int" where
  "file_key u = (rx_dir (uc_round u), uc_node u)"

definition check_free :: "round_context \<Rightarrow> int \<Rightarrow> upload_server \<Rightarrow> reply + unit" where
  "check_free c n s =
     (if n \<notin> set (rx_nodes c) then Inl (404, ''node_not_participant'')
      else if snd (us_files s (rx_dir c, n)) \<noteq> NoFile then Inl (409, ''update_already_submitted'')
      else if (rx_round c, n) \<in> us_active s then Inl (409, ''upload_in_progress'')
      else if (rx_round c, n) \<in> us_used s then Inl (409, ''update_submission_used'')
      else Inr ())"

text \<open>The headers: the declared length and the digest.\<close>

definition check_length :: "int \<Rightarrow> string list \<Rightarrow> reply + nat" where
  "check_length mx ls = (case ls of
     [] \<Rightarrow> Inl (411, ''length_required'')
   | l # _ \<Rightarrow> (case int_of_text 10 l of
       None \<Rightarrow> Inl (400, ''invalid_content_length'')
     | Some n \<Rightarrow>
         if n < 0 then Inl (400, ''invalid_content_length'')
         else if mx < n then Inl (413, ''update_too_large'')
         else Inr (nat n)))"

definition check_headers :: "int \<Rightarrow> headers \<Rightarrow> reply + nat \<times> bytes" where
  "check_headers mx hs =
     (let lengths = header_values hs ''Content-Length'';
          digests = header_values hs ''Content-Digest'';
          types = header_values hs ''Content-Type''
      in if header_values hs ''Transfer-Encoding'' \<noteq> [] then Inl invalid_headers
         else if header_values hs ''Expect'' \<noteq> [''100-continue''] then Inl invalid_headers
         else if header_values hs ''Connection'' \<noteq> [''close''] then Inl (400, ''connection_close_required'')
         else if 1 < length lengths \<or> length digests \<noteq> 1 \<or> length types \<noteq> 1 then Inl invalid_headers
         else (case check_length mx lengths of
             Inl e \<Rightarrow> Inl e
           | Inr n \<Rightarrow>
               if hd types \<noteq> ''application/octet-stream'' then Inl (415, ''unsupported_media_type'')
               else (case parse_content_digest (hd digests) of
                   None \<Rightarrow> Inl (400, ''invalid_content_digest'')
                 | Some d \<Rightarrow> Inr (n, d))))"

text \<open>All checks in the order of the code; \<open>storage\<close> says whether the directory takes a file.\<close>

definition judge_upload :: "bool \<Rightarrow> http_request \<Rightarrow> upload_server \<Rightarrow> reply + upload_ctx" where
  "judge_upload storage rq s = (case us_context s of
     None \<Rightarrow> Inl (404, ''round_not_found'')
   | Some c \<Rightarrow>
       if rq_method rq \<noteq> ''PUT'' then Inl (400, ''method_not_allowed'')
       else (case path_node (rx_round c) (rq_path rq) of
           Inl e \<Rightarrow> Inl e
         | Inr n \<Rightarrow> (case check_free c n s of
             Inl e \<Rightarrow> Inl e
           | Inr _ \<Rightarrow> (case check_headers (rx_max c) (rq_headers rq) of
               Inl e \<Rightarrow> Inl e
             | Inr (len, d) \<Rightarrow>
                 if \<not> storage then Inl (507, ''storage_unavailable'')
                 else Inr \<lparr>uc_round = c, uc_node = n, uc_length = len, uc_digest = d\<rparr>))))"

definition book_upload :: "upload_ctx \<Rightarrow> upload_server \<Rightarrow> upload_server" where
  "book_upload u s =
     s\<lparr>us_active := insert (upload_key u) (us_active s), us_used := insert (upload_key u) (us_used s)\<rparr>"

definition reserve_upload ::
  "bool \<Rightarrow> http_request \<Rightarrow> upload_server \<Rightarrow> (reply + upload_ctx) \<times> upload_server" where
  "reserve_upload storage rq s = (case judge_upload storage rq s of
     Inl e \<Rightarrow> (Inl e, s) | Inr u \<Rightarrow> (Inr u, book_upload u s))"

definition release_upload :: "upload_ctx \<Rightarrow> upload_server \<Rightarrow> upload_server" where
  "release_upload u s = s\<lparr>us_active := us_active s - {upload_key u}\<rparr>"

text \<open>The dispatch of \<^verbatim>\<open>BaseHTTPRequestHandler\<close>: \<^verbatim>\<open>handle_expect_100\<close> runs when the request asks for it in
  HTTP/1.1; without a reservation \<^verbatim>\<open>do_PUT\<close> and the other methods refuse.\<close>

definition wants_continue :: "http_request \<Rightarrow> bool" where
  "wants_continue rq \<longleftrightarrow> (case header_values (rq_headers rq) ''Expect'' of
     [] \<Rightarrow> False | v # _ \<Rightarrow> lower v = ''100-continue'')"

definition open_request ::
  "bool \<Rightarrow> bool \<Rightarrow> http_request \<Rightarrow> upload_server \<Rightarrow> (reply + upload_ctx) \<times> upload_server" where
  "open_request http11 storage rq s =
     (if http11 \<and> wants_continue rq then reserve_upload storage rq s
      else if rq_method rq = ''PUT'' then (Inl (400, ''expect_required''), s)
      else (Inl (400, ''method_not_allowed''), s))"

section \<open>Receiving the body\<close>

text \<open>What the operating system does for a handler: the bytes that arrive and how the stream ends
  (\<open>False\<close>: an error or a timeout instead of the end), the write that fails, and so on. \<open>io_callback\<close>
  says whether the failure callback raises.\<close>

record upload_io =
  io_continue_ok :: bool
  io_create_ok :: bool
  io_bytes :: bytes
  io_eof :: bool
  io_write_fails :: "nat option"
  io_flush_ok :: bool
  io_close_ok :: bool
  io_replace_ok :: bool
  io_manifest_err :: "exn option"
  io_callback_err :: "exn option"
  io_response_ok :: bool

definition storage_failed :: reply where "storage_failed = (507, ''storage_failed'')"
definition upload_incomplete :: reply where "upload_incomplete = (422, ''upload_incomplete'')"

text \<open>\<^verbatim>\<open>rfile.read(n)\<close> blocks until \<open>n\<close> bytes are there or the stream ends.\<close>

definition read_body :: "nat \<Rightarrow> bytes \<Rightarrow> bool \<Rightarrow> bytes option" where
  "read_body n st eof = (if n \<le> length st \<or> eof then Some (take n st) else None)"

function receive_loop :: "nat \<Rightarrow> bytes \<Rightarrow> bool \<Rightarrow> nat option \<Rightarrow> bytes \<Rightarrow> reply + bytes" where
  "receive_loop len st eof faults got =
     (if len \<le> length got then Inr got
      else (case read_body (min CHUNK_SIZE (len - length got)) st eof of
          None \<Rightarrow> Inl upload_incomplete
        | Some c \<Rightarrow>
            if c = [] then Inl upload_incomplete
            else if faults = Some 0 then Inl storage_failed
            else receive_loop len (drop (length c) st) eof (map_option (\<lambda>k. k - 1) faults) (got @ c)))"
  by pat_completeness auto

termination receive_loop
  by (relation "measure (\<lambda>(len, st, eof, faults, got). len - length got)") (auto intro!: diff_less_mono2)

declare receive_loop.simps [simp del]

text \<open>Up to the comparison of the digests. A close that fails is an \<^verbatim>\<open>OSError\<close> of the outer clause.\<close>

definition receive_body :: "(bytes \<Rightarrow> bytes) \<Rightarrow> upload_io \<Rightarrow> upload_ctx \<Rightarrow> reply + bytes" where
  "receive_body sha io u =
     (if \<not> io_create_ok io then Inl storage_failed
      else if \<not> io_close_ok io then Inl upload_incomplete
      else (case receive_loop (uc_length u) (io_bytes io) (io_eof io) (io_write_fails io) [] of
          Inl e \<Rightarrow> Inl e
        | Inr b \<Rightarrow>
            if \<not> io_flush_ok io then Inl storage_failed
            else if sha b \<noteq> uc_digest u then Inl (422, ''digest_mismatch'')
            else Inr b))"

definition commit_manifest :: "(bytes \<Rightarrow> bytes) \<Rightarrow> upload_ctx \<Rightarrow> bytes \<Rightarrow> pydict" where
  "commit_manifest sha u b =
     [(''schema_version'', PInt 1), (''artifact_type'', PStr ''update''),
      (''round_id'', PStr (rx_round (uc_round u))), (''node_id'', PInt (uc_node u)),
      (''size_bytes'', PInt (int (uc_length u))), (''sha256'', PStr (hex_of (sha b)))]"

section \<open>The handler's turns\<close>

text \<open>How far a handler has come: reserved, entered \<^verbatim>\<open>do_PUT\<close>, data in place, committed and about to
  answer, and on its way out, with or without data to remove.\<close>

datatype task =
    Reserved upload_ctx
  | Receiving upload_ctx
  | DataPlaced upload_ctx bytes
  | Answering upload_ctx
  | Leaving upload_ctx bool

datatype upload_event =
    Accepted upload_ctx
  | Answered reply
  | Reported upload_ctx string
  | Committed upload_ctx bytes

text \<open>\<^verbatim>\<open>_reject_accepted_upload\<close>: report the failure, then answer; the answer changes when the callback
  raises.\<close>

definition reject_accepted :: "upload_io \<Rightarrow> upload_ctx \<Rightarrow> reply \<Rightarrow> upload_event list" where
  "reject_accepted io u e =
     Reported u (snd e) #
     (let answer = (case io_callback_err io of None \<Rightarrow> e | Some _ \<Rightarrow> (500, ''runtime_result_failed''))
      in if io_response_ok io then [Answered answer] else [])"

definition set_data :: "string \<times> int \<Rightarrow> bytes option \<Rightarrow> upload_server \<Rightarrow> upload_server" where
  "set_data k b s = s\<lparr>us_files := (us_files s)(k := (b, snd (us_files s k)))\<rparr>"

definition set_manifest :: "string \<times> int \<Rightarrow> json_file \<Rightarrow> upload_server \<Rightarrow> upload_server" where
  "set_manifest k f s = s\<lparr>us_files := (us_files s)(k := (fst (us_files s k), f))\<rparr>"

text \<open>\<^verbatim>\<open>handle_expect_100\<close> after the reservation.\<close>

definition continue_turn :: "upload_io \<Rightarrow> upload_ctx \<Rightarrow> task \<times> upload_event list" where
  "continue_turn io u =
     (if io_continue_ok io then (Receiving u, [Answered (100, [])])
      else (Leaving u False, [Reported u ''continue_write_failed'']))"

definition receive_turn ::
  "(bytes \<Rightarrow> bytes) \<Rightarrow> upload_io \<Rightarrow> upload_ctx \<Rightarrow> upload_server \<Rightarrow> task \<times> upload_server \<times> upload_event list" where
  "receive_turn sha io u s = (case receive_body sha io u of
     Inl e \<Rightarrow> (Leaving u False, s, reject_accepted io u e)
   | Inr b \<Rightarrow>
       if \<not> io_replace_ok io then (Leaving u False, s, reject_accepted io u storage_failed)
       else (DataPlaced u b, set_data (file_key u) (Some b) s, []))"

definition commit_turn ::
  "(bytes \<Rightarrow> bytes) \<Rightarrow> upload_io \<Rightarrow> upload_ctx \<Rightarrow> bytes \<Rightarrow> upload_server \<Rightarrow>
   task \<times> upload_server \<times> upload_event list" where
  "commit_turn sha io u b s =
     (case write_json_atomic (io_manifest_err io) (PDict (commit_manifest sha u b))
             (snd (us_files s (file_key u))) of
        (Inl _, f) \<Rightarrow> (Leaving u True, s, reject_accepted io u (500, ''manifest_commit_failed''))
      | (Inr _, f) \<Rightarrow>
          (Answering u, (set_manifest (file_key u) f s)\<lparr>us_event := True\<rparr>, [Committed u b]))"

text \<open>The answer \<^verbatim>\<open>201\<close>; when its write fails the update stays committed.\<close>

definition answer_turn :: "upload_io \<Rightarrow> upload_ctx \<Rightarrow> task \<times> upload_event list" where
  "answer_turn io u = (Leaving u False, if io_response_ok io then [Answered (201, [])] else [])"

definition leave_turn :: "upload_ctx \<Rightarrow> bool \<Rightarrow> upload_server \<Rightarrow> upload_server" where
  "leave_turn u undo s = release_upload u (if undo then set_data (file_key u) None s else s)"

fun task_turn ::
  "(bytes \<Rightarrow> bytes) \<Rightarrow> upload_io \<Rightarrow> task \<Rightarrow> upload_server \<Rightarrow>
   task option \<times> upload_server \<times> upload_event list" where
  "task_turn sha io (Reserved u) s = (case continue_turn io u of (k, es) \<Rightarrow> (Some k, s, es))"
| "task_turn sha io (Receiving u) s = (case receive_turn sha io u s of (k, s', es) \<Rightarrow> (Some k, s', es))"
| "task_turn sha io (DataPlaced u b) s = (case commit_turn sha io u b s of (k, s', es) \<Rightarrow> (Some k, s', es))"
| "task_turn sha io (Answering u) s = (case answer_turn io u of (k, es) \<Rightarrow> (Some k, s, es))"
| "task_turn sha io (Leaving u undo) s = (None, leave_turn u undo s, [])"

section \<open>Runs\<close>

record upload_world =
  uw_server :: upload_server
  uw_tasks :: "nat \<Rightarrow> task option"

text \<open>What happens next: a round is installed, a request arrives on a thread, a handler takes a turn, or
  the runtime waits for an update.\<close>

datatype upload_action =
    Install round_context
  | Request nat bool bool http_request
  | Turn nat upload_io
  | Poll

fun upload_do ::
  "(bytes \<Rightarrow> bytes) \<Rightarrow> upload_action \<Rightarrow> upload_world \<Rightarrow> upload_world \<times> upload_event list" where
  "upload_do sha (Install c) w = (w\<lparr>uw_server := install_round c (uw_server w)\<rparr>, [])"
| "upload_do sha (Request t http11 storage rq) w =
     (if uw_tasks w t \<noteq> None then (w, [])
      else (case open_request http11 storage rq (uw_server w) of
          (Inl e, s) \<Rightarrow> (w\<lparr>uw_server := s\<rparr>, [Answered e])
        | (Inr u, s) \<Rightarrow> (w\<lparr>uw_server := s, uw_tasks := (uw_tasks w)(t := Some (Reserved u))\<rparr>, [Accepted u])))"
| "upload_do sha (Turn t io) w = (case uw_tasks w t of
     None \<Rightarrow> (w, [])
   | Some k \<Rightarrow> (case task_turn sha io k (uw_server w) of
       (k', s, es) \<Rightarrow> (w\<lparr>uw_server := s, uw_tasks := (uw_tasks w)(t := k')\<rparr>, es)))"
| "upload_do sha Poll w = (w\<lparr>uw_server := wait_for_update (uw_server w)\<rparr>, [])"

fun upload_run ::
  "(bytes \<Rightarrow> bytes) \<Rightarrow> upload_action list \<Rightarrow> upload_world \<Rightarrow> upload_world \<times> upload_event list" where
  "upload_run sha [] w = (w, [])"
| "upload_run sha (a # as) w = (case upload_do sha a w of
     (w', es) \<Rightarrow> (case upload_run sha as w' of (w'', fs) \<Rightarrow> (w'', es @ fs)))"

definition fresh_uploads :: "update_files \<Rightarrow> upload_world" where
  "fresh_uploads f =
     \<lparr>uw_server = \<lparr>us_context = None, us_active = {}, us_used = {}, us_files = f, us_event = False\<rparr>,
      uw_tasks = (\<lambda>_. None)\<rparr>"

end
