(* ===== verification/Upload_Safety.thy ===== *)
theory Upload_Safety
  imports Upload_Server
begin

text \<open>
  What the update listener promises over any run, whatever its clients send, however its handlers
  interleave and whatever fails: an update slot is given out once, an accepted upload is settled once,
  and what is committed is what was declared.
\<close>

section \<open>Single operations\<close>

lemma path_node_Inr:
  "path_node r p = Inr n \<Longrightarrow> p = upload_prefix r @ text_of_int n \<and> 0 < n"
  by (auto simp: path_node_def Let_def starts_with_def split: if_splits option.splits)
    (metis append_take_drop_id)

lemma check_headers_Inr:
  "check_headers mx hs = Inr (n, d) \<Longrightarrow> int n \<le> mx \<and> length d = 32"
  by (auto simp: check_headers_def check_length_def Let_def parse_content_digest_def
      split: if_splits sum.splits list.splits option.splits)

lemma judge_upload_Inr:
  assumes "judge_upload st rq s = Inr u"
  shows "us_context s = Some (uc_round u)" "uc_node u \<in> set (rx_nodes (uc_round u))" "0 < uc_node u"
    "snd (us_files s (file_key u)) = NoFile" "upload_key u \<notin> us_active s" "upload_key u \<notin> us_used s"
    "int (uc_length u) \<le> rx_max (uc_round u)" "length (uc_digest u) = 32" "rq_method rq = ''PUT''" "st"
    "rq_path rq = upload_prefix (rx_round (uc_round u)) @ text_of_int (uc_node u)"
    "check_headers (rx_max (uc_round u)) (rq_headers rq) = Inr (uc_length u, uc_digest u)"
proof -
  from assms obtain c n d m where c: "us_context s = Some c" "rq_method rq = ''PUT''"
    "path_node (rx_round c) (rq_path rq) = Inr n" "check_free c n s = Inr ()"
    "check_headers (rx_max c) (rq_headers rq) = Inr (m, d)" "st"
    "u = \<lparr>uc_round = c, uc_node = n, uc_length = m, uc_digest = d\<rparr>"
    by (auto simp: judge_upload_def split: option.splits if_splits sum.splits prod.splits)
  with path_node_Inr [OF c(3)] check_headers_Inr [OF c(5)] show
    "us_context s = Some (uc_round u)" "uc_node u \<in> set (rx_nodes (uc_round u))" "0 < uc_node u"
    "snd (us_files s (file_key u)) = NoFile" "upload_key u \<notin> us_active s" "upload_key u \<notin> us_used s"
    "int (uc_length u) \<le> rx_max (uc_round u)" "length (uc_digest u) = 32" "rq_method rq = ''PUT''" "st"
    "rq_path rq = upload_prefix (rx_round (uc_round u)) @ text_of_int (uc_node u)"
    "check_headers (rx_max (uc_round u)) (rq_headers rq) = Inr (uc_length u, uc_digest u)"
    by (simp_all add: check_free_def upload_key_def file_key_def split: if_splits)
qed

lemma judge_upload_InrI:
  assumes "us_context s = Some c" "rq_method rq = ''PUT''" "path_node (rx_round c) (rq_path rq) = Inr n"
    "n \<in> set (rx_nodes c)" "snd (us_files s (rx_dir c, n)) = NoFile" "(rx_round c, n) \<notin> us_active s"
    "(rx_round c, n) \<notin> us_used s" "check_headers (rx_max c) (rq_headers rq) = Inr (m, d)" "st"
  shows "judge_upload st rq s = Inr \<lparr>uc_round = c, uc_node = n, uc_length = m, uc_digest = d\<rparr>"
  using assms by (simp add: judge_upload_def check_free_def)

lemma open_request_cases:
  assumes "open_request h st rq s = (r, s')"
  obtains (refused) e where "r = Inl e" "s' = s"
  | (reserved) u where "r = Inr u" "judge_upload st rq s = Inr u" "s' = book_upload u s"
proof (cases "h \<and> wants_continue rq")
  case True
  with assms have "reserve_upload st rq s = (r, s')" by (simp add: open_request_def)
  show ?thesis
  proof (cases "judge_upload st rq s")
    case (Inl e)
    with \<open>reserve_upload st rq s = (r, s')\<close> show ?thesis by (intro refused [of e]) (auto simp: reserve_upload_def)
  next
    case (Inr u)
    with \<open>reserve_upload st rq s = (r, s')\<close> show ?thesis by (intro reserved [of u]) (auto simp: reserve_upload_def)
  qed
next
  case False
  with assms show ?thesis by (auto simp: open_request_def split: if_splits intro: refused)
qed

lemma read_body_Some: "read_body n st eof = Some c \<Longrightarrow> c = take n st"
  by (simp add: read_body_def split: if_splits)

lemma receive_loop_Inr:
  "receive_loop len st eof f got = Inr b \<Longrightarrow> length got \<le> len \<Longrightarrow>
   length b = len \<and> b = got @ take (len - length got) st"
proof (induction len st eof f got rule: receive_loop.induct)
  case (1 len st eof f got)
  show ?case
  proof (cases "len \<le> length got")
    case True
    with 1(2,3) show ?thesis by (simp add: receive_loop.simps)
  next
    case False
    let ?n = "min CHUNK_SIZE (len - length got)"
    from 1(2) False obtain c where c: "read_body ?n st eof = Some c"
      by (auto simp: receive_loop.simps [of len] split: option.splits)
    with 1(2) False have r: "c \<noteq> []" "f \<noteq> Some 0"
      "receive_loop len (drop (length c) st) eof (map_option (\<lambda>k. k - 1) f) (got @ c) = Inr b"
      by (auto simp: receive_loop.simps [of len _ _ f] split: if_splits)
    from read_body_Some [OF c] have t: "c = take ?n st" .
    then have "length (got @ c) \<le> len" using False by simp
    from 1(1) [OF False c r(1,2,3) this]
    have b: "length b = len" "b = (got @ c) @ take (len - length (got @ c)) (drop (length c) st)" by blast+
    have "take (length (take n st)) st = take n st" for n by (simp add: min_def)
    with t have "take (length c) st = c" by metis
    then have "c @ take (len - length (got @ c)) (drop (length c) st) =
        take (length c + (len - length (got @ c))) st"
      by (simp add: take_add)
    moreover have "length c + (len - length (got @ c)) = len - length got"
      using \<open>length (got @ c) \<le> len\<close> by simp
    ultimately have "b = got @ take (len - length got) st" using b(2) by simp
    with b(1) show ?thesis by blast
  qed
qed

lemma receive_loop_complete:
  "length got \<le> len \<Longrightarrow> len - length got \<le> length st \<Longrightarrow>
   receive_loop len st eof None got = Inr (got @ take (len - length got) st)"
proof (induction len st eof "None :: nat option" got rule: receive_loop.induct)
  case (1 len st eof got)
  show ?case
  proof (cases "len \<le> length got")
    case True
    with 1(2) show ?thesis by (simp add: receive_loop.simps)
  next
    case False
    let ?n = "min CHUNK_SIZE (len - length got)" and ?c = "take (min CHUNK_SIZE (len - length got)) st"
    have n: "?n \<le> length st" "0 < ?n" using 1(3) False by (simp_all add: CHUNK_SIZE_def)
    then have c: "read_body ?n st eof = Some ?c" "?c \<noteq> []" by (auto simp: read_body_def)
    have l: "length ?c = ?n" using n by simp
    then have "length (got @ ?c) \<le> len" "len - length (got @ ?c) \<le> length (drop (length ?c) st)"
      using 1(3) False by simp_all
    from 1(1) [OF False c(1,2) _ _ this]
    have "receive_loop len st eof None got = Inr ((got @ ?c) @ take (len - length (got @ ?c)) (drop (length ?c) st))"
      using c False by (simp add: receive_loop.simps [of len st])
    moreover have "?c @ take (len - length (got @ ?c)) (drop (length ?c) st) = take (len - length got) st"
    proof -
      have "take ?n st @ take (len - length got - ?n) (drop ?n st) = take (?n + (len - length got - ?n)) st"
        by (simp only: take_add)
      moreover have "?n + (len - length got - ?n) = len - length got" by simp
      ultimately show ?thesis using l by (simp only: length_append diff_diff_left [symmetric])
    qed
    ultimately show ?thesis by simp
  qed
qed

text \<open>A body is good for its reservation.\<close>

definition body_ok :: "(bytes \<Rightarrow> bytes) \<Rightarrow> upload_ctx \<Rightarrow> bytes \<Rightarrow> bool" where
  "body_ok sha u b \<longleftrightarrow> length b = uc_length u \<and> sha b = uc_digest u"

lemma receive_body_Inr:
  "receive_body sha io u = Inr b \<Longrightarrow> body_ok sha u b \<and> b = take (uc_length u) (io_bytes io)"
  by (auto simp: receive_body_def body_ok_def split: if_splits sum.splits dest: receive_loop_Inr)

section \<open>Events\<close>

fun accepted :: "upload_event list \<Rightarrow> upload_ctx list" where
  "accepted [] = []"
| "accepted (Accepted u # es) = u # accepted es"
| "accepted (_ # es) = accepted es"

fun settled :: "upload_event list \<Rightarrow> upload_ctx list" where
  "settled [] = []"
| "settled (Reported u c # es) = u # settled es"
| "settled (Committed u b # es) = u # settled es"
| "settled (_ # es) = settled es"

lemma accepted_append [simp]: "accepted (es @ fs) = accepted es @ accepted fs"
  by (induction es rule: accepted.induct) simp_all

lemma settled_append [simp]: "settled (es @ fs) = settled es @ settled fs"
  by (induction es rule: settled.induct) simp_all

lemma committed_settled: "Committed u b \<in> set es \<Longrightarrow> u \<in> set (settled es)"
  by (induction es rule: settled.induct) auto

lemma settled_iff: "u \<in> set (settled es) \<longleftrightarrow> (\<exists>c. Reported u c \<in> set es) \<or> (\<exists>b. Committed u b \<in> set es)"
  by (induction es rule: settled.induct) auto

fun task_ctx :: "task \<Rightarrow> upload_ctx" where
  "task_ctx (Reserved u) = u"
| "task_ctx (Receiving u) = u"
| "task_ctx (DataPlaced u b) = u"
| "task_ctx (Answering u) = u"
| "task_ctx (Leaving u undo) = u"

text \<open>Tasks that have not settled their upload yet.\<close>

fun open_task :: "task \<Rightarrow> bool" where
  "open_task (Answering u) = False"
| "open_task (Leaving u undo) = False"
| "open_task _ = True"

lemma reject_accepted_events [simp]:
  "accepted (reject_accepted io u e) = []" "settled (reject_accepted io u e) = [u]"
  "Committed v b \<notin> set (reject_accepted io u e)"
  by (auto simp: reject_accepted_def Let_def)

lemma task_turn_cases:
  assumes "task_turn sha io k s = (k', s', es)"
  obtains (moved) u where "k = Reserved u" "k' = Some (Receiving u)" "s' = s"
      "es = [Answered (100, [])]"
  | (reported) u undo where "task_ctx k = u" "open_task k" "k' = Some (Leaving u undo)" "s' = s"
      "accepted es = []" "settled es = [u]" "\<And>v b. Committed v b \<notin> set es"
  | (placed) u b where "k = Receiving u" "k' = Some (DataPlaced u b)" "body_ok sha u b"
      "s' = set_data (file_key u) (Some b) s" "es = []"
  | (committed) u b where "k = DataPlaced u b" "k' = Some (Answering u)" "es = [Committed u b]"
      "s' = (set_manifest (file_key u) (Json (PDict (commit_manifest sha u b))) s)\<lparr>us_event := True\<rparr>"
  | (answered) u where "k = Answering u" "k' = Some (Leaving u False)" "s' = s" "accepted es = []"
      "settled es = []" "\<And>v b. Committed v b \<notin> set es"
  | (left) u undo where "k = Leaving u undo" "k' = None" "s' = leave_turn u undo s" "es = []"
proof (cases k)
  case (Reserved u)
  with assms that(1,2) show ?thesis by (auto simp: continue_turn_def split: if_splits)
next
  case (Receiving u)
  show ?thesis
  proof (cases "\<exists>b. receive_body sha io u = Inr b \<and> io_replace_ok io")
    case True
    then obtain b where "receive_body sha io u = Inr b" "io_replace_ok io" by blast
    with Receiving assms receive_body_Inr [of sha io u b] show ?thesis
      by (intro placed [of u b]) (auto simp: receive_turn_def)
  next
    case False
    with Receiving assms show ?thesis
      by (intro reported [of u False]) (auto simp: receive_turn_def split: sum.splits if_splits)
  qed
next
  case (DataPlaced u b)
  with assms that(2,4) show ?thesis
    by (auto simp: commit_turn_def write_json_atomic_def split: option.splits)
next
  case (Answering u)
  with assms that(5) show ?thesis by (auto simp: answer_turn_def split: if_splits)
next
  case (Leaving u undo)
  with assms that(6) show ?thesis by auto
qed

lemma upload_do_cases:
  assumes "upload_do sha a w = (w', es)"
  obtains (quiet) "uw_tasks w' = uw_tasks w" "us_active (uw_server w') = us_active (uw_server w)"
      "us_used (uw_server w') = us_used (uw_server w)" "us_files (uw_server w') = us_files (uw_server w)"
      "us_context (uw_server w') = us_context (uw_server w) \<or>
        (\<exists>c. a = Install c \<and> us_context (uw_server w') = Some (c\<lparr>rx_nodes := sort (rx_nodes c)\<rparr>))"
      "accepted es = []" "settled es = []" "\<And>v b. Committed v b \<notin> set es"
  | (reserve) t st rq u where "uw_tasks w t = None" "judge_upload st rq (uw_server w) = Inr u"
      "w' = \<lparr>uw_server = book_upload u (uw_server w), uw_tasks = (uw_tasks w)(t := Some (Reserved u))\<rparr>"
      "es = [Accepted u]"
  | (turn) t io k k' s' where "uw_tasks w t = Some k" "task_turn sha io k (uw_server w) = (k', s', es)"
      "w' = \<lparr>uw_server = s', uw_tasks = (uw_tasks w)(t := k')\<rparr>"
proof (cases a)
  case (Install c)
  with assms quiet show ?thesis by (auto simp: install_round_def)
next
  case (Request t h st rq)
  show ?thesis
  proof (cases "uw_tasks w t = None")
    case True
    obtain r s' where o: "open_request h st rq (uw_server w) = (r, s')" by fastforce
    then show ?thesis
    proof (cases rule: open_request_cases)
      case (refused e)
      with assms Request True o show ?thesis by (intro quiet) auto
    next
      case (reserved u)
      with assms Request True o show ?thesis by (intro reserve [of t st rq u]) auto
    qed
  next
    case False
    with assms Request show ?thesis by (intro quiet) auto
  qed
next
  case (Turn t io)
  show ?thesis
  proof (cases "uw_tasks w t")
    case None
    with assms Turn show ?thesis by (intro quiet) auto
  next
    case (Some k)
    obtain k' s' fs where "task_turn sha io k (uw_server w) = (k', s', fs)" by (metis prod_cases3)
    with assms Turn Some show ?thesis by (intro turn [of t k io k' s']) auto
  qed
next
  case Poll
  with assms quiet show ?thesis by (auto simp: wait_for_update_def)
qed

section \<open>The invariant\<close>

definition round_home :: "string \<Rightarrow> string \<Rightarrow> string" where
  "round_home work r = work @ ''/rounds/'' @ r"

text \<open>The runtime installs a round with the round's own directory.\<close>

fun installs_home :: "string \<Rightarrow> upload_action \<Rightarrow> bool" where
  "installs_home work (Install c) = (rx_dir c = round_home work (rx_round c))"
| "installs_home work _ = True"

text \<open>Reservations: a slot is used once, and the active ones are those of the handlers.\<close>

definition booked :: "string \<Rightarrow> upload_world \<Rightarrow> upload_event list \<Rightarrow> bool" where
  "booked work w es \<longleftrightarrow>
     (\<forall>c. us_context (uw_server w) = Some c \<longrightarrow> rx_dir c = round_home work (rx_round c)) \<and>
     us_used (uw_server w) = upload_key ` set (accepted es) \<and>
     distinct (map upload_key (accepted es)) \<and>
     (\<forall>u \<in> set (accepted es). rx_dir (uc_round u) = round_home work (rx_round (uc_round u)) \<and>
        uc_node u \<in> set (rx_nodes (uc_round u)) \<and> int (uc_length u) \<le> rx_max (uc_round u))"

definition task_ctxs :: "upload_world \<Rightarrow> nat \<Rightarrow> upload_ctx option" where
  "task_ctxs w = map_option task_ctx \<circ> uw_tasks w"

definition threads_ok :: "upload_world \<Rightarrow> upload_event list \<Rightarrow> bool" where
  "threads_ok w es \<longleftrightarrow>
     ran (task_ctxs w) \<subseteq> set (accepted es) \<and> inj_on (task_ctxs w) (dom (task_ctxs w)) \<and>
     us_active (uw_server w) = upload_key ` ran (task_ctxs w)"

text \<open>An accepted upload is pending while its handler is open, and settled exactly once afterwards.\<close>

definition open_ctx :: "task option \<Rightarrow> upload_ctx option" where
  "open_ctx k = (case k of None \<Rightarrow> None | Some j \<Rightarrow> if open_task j then Some (task_ctx j) else None)"

definition pending :: "upload_world \<Rightarrow> upload_ctx \<Rightarrow> bool" where
  "pending w u \<longleftrightarrow> (\<exists>t. open_ctx (uw_tasks w t) = Some u)"

definition settled_once :: "upload_world \<Rightarrow> upload_event list \<Rightarrow> bool" where
  "settled_once w es \<longleftrightarrow>
     (\<forall>u. count_list (settled es) u = (if u \<in> set (accepted es) \<and> \<not> pending w u then 1 else 0))"

definition files_ok :: "(bytes \<Rightarrow> bytes) \<Rightarrow> upload_world \<Rightarrow> upload_event list \<Rightarrow> bool" where
  "files_ok sha w es \<longleftrightarrow>
     (\<forall>t u b. uw_tasks w t = Some (DataPlaced u b) \<longrightarrow>
        body_ok sha u b \<and> fst (us_files (uw_server w) (file_key u)) = Some b) \<and>
     (\<forall>t u b. uw_tasks w t = Some (Leaving u True) \<longrightarrow> Committed u b \<notin> set es) \<and>
     (\<forall>u b. Committed u b \<in> set es \<longrightarrow> body_ok sha u b \<and>
        us_files (uw_server w) (file_key u) = (Some b, Json (PDict (commit_manifest sha u b))))"

definition upload_inv :: "(bytes \<Rightarrow> bytes) \<Rightarrow> string \<Rightarrow> upload_world \<Rightarrow> upload_event list \<Rightarrow> bool" where
  "upload_inv sha work w es \<longleftrightarrow> booked work w es \<and> threads_ok w es \<and> settled_once w es \<and> files_ok sha w es"

lemma upload_inv_fresh: "upload_inv sha work (fresh_uploads f) []"
  by (simp add: upload_inv_def booked_def threads_ok_def settled_once_def files_ok_def fresh_uploads_def
      pending_def open_ctx_def task_ctxs_def comp_def)

lemma file_key_home:
  assumes "booked work w es" and "u \<in> set (accepted es)" and "v \<in> set (accepted es)"
    and "file_key u = file_key v"
  shows "u = v"
proof -
  from assms have "upload_key u = upload_key v"
    by (auto simp: booked_def file_key_def upload_key_def round_home_def)
  with assms show ?thesis by (auto simp: booked_def distinct_map inj_on_def)
qed

lemma set_data_fields [simp]:
  "us_context (set_data k b s) = us_context s" "us_used (set_data k b s) = us_used s"
  "us_active (set_data k b s) = us_active s"
  "us_files (set_data k b s) = (us_files s)(k := (b, snd (us_files s k)))"
  by (simp_all add: set_data_def)

lemma set_manifest_fields [simp]:
  "us_context (set_manifest k f s) = us_context s" "us_used (set_manifest k f s) = us_used s"
  "us_active (set_manifest k f s) = us_active s"
  "us_files (set_manifest k f s) = (us_files s)(k := (fst (us_files s k), f))"
  by (simp_all add: set_manifest_def)

lemma leave_fields [simp]:
  "us_context (leave_turn u p s) = us_context s" "us_used (leave_turn u p s) = us_used s"
  "us_active (leave_turn u p s) = us_active s - {upload_key u}"
  "us_files (leave_turn u p s) = (if p then (us_files s)(file_key u := (None, snd (us_files s (file_key u)))) else us_files s)"
  by (simp_all add: leave_turn_def release_upload_def)

lemma book_fields [simp]:
  "us_context (book_upload u s) = us_context s" "us_used (book_upload u s) = insert (upload_key u) (us_used s)"
  "us_active (book_upload u s) = insert (upload_key u) (us_active s)" "us_files (book_upload u s) = us_files s"
  by (simp_all add: book_upload_def)

lemma task_turn_books:
  assumes "task_turn sha io k s = (k', s', fs)"
  shows "accepted fs = [] \<and> us_context s' = us_context s \<and> us_used s' = us_used s \<and>
    us_active s' = (if k' = None then us_active s - {upload_key (task_ctx k)} else us_active s) \<and>
    (\<forall>k2. k' = Some k2 \<longrightarrow> task_ctx k2 = task_ctx k)"
  using assms by (cases rule: task_turn_cases) auto

lemma booked_step:
  assumes "upload_do sha a w = (w', fs)" and "installs_home work a" and "booked work w es"
  shows "booked work w' (es @ fs)"
  using assms(1)
proof (cases rule: upload_do_cases)
  case quiet
  with assms(2,3) show ?thesis by (auto simp: booked_def)
next
  case (reserve t st rq u)
  from judge_upload_Inr [OF reserve(2)] assms(3) show ?thesis
    unfolding reserve booked_def by auto
next
  case (turn t io k k' s')
  from task_turn_books [OF turn(2)] assms(3) show ?thesis unfolding turn booked_def by auto
qed

lemma key_ctx:
  "booked work w es \<Longrightarrow> u \<in> set (accepted es) \<Longrightarrow> v \<in> set (accepted es) \<Longrightarrow>
   upload_key u = upload_key v \<longleftrightarrow> u = v"
  by (auto simp: booked_def distinct_map inj_on_def)

lemma ran_removed:
  assumes "inj_on m (dom m)" and "m t = Some v"
  shows "ran (m(t := None)) = ran m - {v}"
proof -
  have "x = t" if "m x = Some v" for x using assms that by (simp add: inj_on_def dom_def)
  with assms(2) have "(\<exists>x. (m(t := None)) x = Some y) \<longleftrightarrow> (\<exists>x. m x = Some y) \<and> y \<noteq> v" for y
    by (metis fun_upd_apply option.distinct(1) option.inject)
  then show ?thesis unfolding ran_def by blast
qed

lemma inj_removed: "inj_on m (dom m) \<Longrightarrow> inj_on (m(t := None)) (dom (m(t := None)))"
  by (auto simp: inj_on_def dom_def)

lemma inj_added:
  assumes "inj_on m (dom m)" and "m t = None" and "v \<notin> ran m"
  shows "inj_on (m(t := Some v)) (dom (m(t := Some v)))"
  using assms by (auto simp: inj_on_def dom_def ran_def)

lemma task_ctxs_upd:
  "task_ctxs \<lparr>uw_server = s, uw_tasks = (uw_tasks w)(t := k)\<rparr> = (task_ctxs w)(t := map_option task_ctx k)"
  by (auto simp: task_ctxs_def)

lemma threads_step:
  assumes "upload_do sha a w = (w', fs)" and "booked work w es" and "threads_ok w es"
  shows "threads_ok w' (es @ fs)"
  using assms(1)
proof (cases rule: upload_do_cases)
  case quiet
  with assms(3) show ?thesis by (simp add: threads_ok_def task_ctxs_def)
next
  case (reserve t st rq u)
  from judge_upload_Inr(6) [OF reserve(2)] assms(2) have "u \<notin> set (accepted es)" by (auto simp: booked_def)
  with assms(3) have "u \<notin> ran (task_ctxs w)" by (auto simp: threads_ok_def)
  moreover have t: "task_ctxs w t = None" using reserve(1) by (simp add: task_ctxs_def)
  ultimately show ?thesis
    using assms(3) inj_added [of "task_ctxs w" t u] unfolding reserve threads_ok_def task_ctxs_upd
    by (auto simp: ran_map_upd [where m = "task_ctxs w" and a = t, OF t])
next
  case (turn t io k k' s')
  note b = task_turn_books [OF turn(2)]
  have t: "task_ctxs w t = Some (task_ctx k)" using turn(1) by (simp add: task_ctxs_def)
  show ?thesis
  proof (cases k')
    case None
    have i: "inj_on upload_key (set (accepted es))" using assms(2) by (simp add: booked_def distinct_map)
    have r: "ran ((task_ctxs w)(t := None)) = ran (task_ctxs w) - {task_ctx k}"
      using ran_removed [of "task_ctxs w" t "task_ctx k"] assms(3) t by (simp add: threads_ok_def)
    have k: "{task_ctx k} \<subseteq> ran (task_ctxs w)" "ran (task_ctxs w) \<subseteq> set (accepted es)"
      using t assms(3) by (auto simp: threads_ok_def ran_def)
    have d: "upload_key ` (ran (task_ctxs w) - {task_ctx k}) =
        upload_key ` ran (task_ctxs w) - upload_key ` {task_ctx k}"
      using k by (intro inj_on_image_set_diff [OF i]) auto
    have a: "us_active s' = upload_key ` (ran (task_ctxs w) - {task_ctx k})" "accepted fs = []"
      using b None d assms(3) by (simp_all add: threads_ok_def)
    have i': "inj_on ((task_ctxs w)(t := None)) (dom ((task_ctxs w)(t := None)))"
      using assms(3) by (intro inj_removed) (simp add: threads_ok_def)
    show ?thesis using k a r i' unfolding turn(3) None threads_ok_def task_ctxs_upd
      by (simp add: subset_eq)
  next
    case (Some k2)
    with b t have "(task_ctxs w)(t := map_option task_ctx k') = task_ctxs w" by (simp add: fun_upd_idem)
    with Some b assms(3) show ?thesis unfolding turn threads_ok_def task_ctxs_upd by simp
  qed
qed

text \<open>Whether an upload is pending after a turn of a handler.\<close>

lemma pending_turn:
  assumes "threads_ok w es" and "uw_tasks w t = Some k"
  shows "pending \<lparr>uw_server = s, uw_tasks = (uw_tasks w)(t := k')\<rparr> u \<longleftrightarrow>
    open_ctx k' = Some u \<or> pending w u \<and> u \<noteq> task_ctx k"
proof -
  have same: "t' = t" if "open_ctx (uw_tasks w t') = Some (task_ctx k)" for t'
  proof -
    from that have "task_ctxs w t' = task_ctxs w t" "t' \<in> dom (task_ctxs w)"
      using assms(2) by (auto simp: task_ctxs_def open_ctx_def split: option.splits if_splits)
    moreover have "t \<in> dom (task_ctxs w)" using assms(2) by (simp add: task_ctxs_def dom_def)
    ultimately show ?thesis using assms(1) by (auto simp: threads_ok_def inj_on_def)
  qed
  have other: "u = task_ctx k" if "open_ctx (Some k) = Some u" using that by (auto simp: open_ctx_def split: if_splits)
  show ?thesis
  proof (cases "u = task_ctx k")
    case True
    with same show ?thesis by (auto simp: pending_def)
  next
    case False
    with other have "open_ctx (Some k) \<noteq> Some u" by blast
    with assms(2) have "t' \<noteq> t" if "open_ctx (uw_tasks w t') = Some u" for t' using that by auto
    with False show ?thesis by (auto simp: pending_def)
  qed
qed

lemma pending_task:
  assumes "threads_ok w es" and "uw_tasks w t = Some k"
  shows "pending w (task_ctx k) = open_task k"
proof -
  have "(uw_tasks w)(t := Some k) = uw_tasks w" using assms(2) by auto
  with pending_turn [OF assms, of "uw_server w" "Some k" "task_ctx k"] show ?thesis
    by (simp add: pending_def open_ctx_def)
qed

lemma ex_upd: "(\<exists>t. P ((f(x := y)) t)) \<longleftrightarrow> P y \<or> (\<exists>t. t \<noteq> x \<and> P (f t))"
  by (auto simp: fun_upd_def)

lemma settled_step:
  assumes "upload_do sha a w = (w', fs)" and "booked work w es" and t: "threads_ok w es"
    and "settled_once w es"
  shows "settled_once w' (es @ fs)"
  using assms(1)
proof (cases rule: upload_do_cases)
  case quiet
  with assms(4) show ?thesis by (simp add: settled_once_def pending_def)
next
  case (reserve x st rq u)
  from judge_upload_Inr(6) [OF reserve(2)] assms(2) have u: "u \<notin> set (accepted es)"
    by (auto simp: booked_def)
  with assms(4) have z: "count_list (settled es) u = 0" by (simp add: settled_once_def)
  have none: "open_ctx (uw_tasks w x) = None" using reserve(1) by (simp add: open_ctx_def)
  have "pending w' v = (v = u \<or> pending w v)" for v
  proof -
    have "pending w' v \<longleftrightarrow> (\<exists>t. open_ctx (((uw_tasks w)(x := Some (Reserved u))) t) = Some v)"
      unfolding reserve pending_def by simp
    also have "\<dots> \<longleftrightarrow> open_ctx (Some (Reserved u)) = Some v \<or> (\<exists>t. t \<noteq> x \<and> open_ctx (uw_tasks w t) = Some v)"
      by (rule ex_upd)
    also have "(\<exists>t. t \<noteq> x \<and> open_ctx (uw_tasks w t) = Some v) \<longleftrightarrow> pending w v"
      using none unfolding pending_def by (metis option.distinct(1))
    finally show ?thesis by (auto simp: open_ctx_def)
  qed
  with u z assms(4) show ?thesis by (auto simp: settled_once_def reserve(4))
next
  case (turn x io k k' s')
  have acc: "task_ctx k \<in> set (accepted es)"
    using t turn(1) by (auto simp: threads_ok_def task_ctxs_def ran_def)
  note p = pending_turn [OF t turn(1)] and o = pending_task [OF t turn(1)]
  from turn(2) show ?thesis
    by (cases rule: task_turn_cases)
      (use acc o p assms(4) in \<open>auto simp: turn(3) settled_once_def open_ctx_def\<close>)
qed

lemma task_accepted: "threads_ok w es \<Longrightarrow> uw_tasks w t = Some k \<Longrightarrow> task_ctx k \<in> set (accepted es)"
  by (auto simp: threads_ok_def task_ctxs_def ran_def)

lemma other_task:
  assumes "booked work w es" and "threads_ok w es" and "uw_tasks w t = Some k" and "uw_tasks w t' = Some k'"
    and "t \<noteq> t'"
  shows "file_key (task_ctx k) \<noteq> file_key (task_ctx k')"
proof
  assume "file_key (task_ctx k) = file_key (task_ctx k')"
  with file_key_home [OF assms(1) task_accepted [OF assms(2,3)] task_accepted [OF assms(2,4)]]
  have "task_ctxs w t = task_ctxs w t'" using assms(3,4) by (simp add: task_ctxs_def)
  moreover have "t \<in> dom (task_ctxs w)" "t' \<in> dom (task_ctxs w)" using assms(3,4) by (auto simp: task_ctxs_def)
  moreover have "inj_on (task_ctxs w) (dom (task_ctxs w))" using assms(2) by (simp add: threads_ok_def)
  ultimately show False using assms(5) by (auto dest: inj_onD)
qed

lemma pending_uncommitted:
  assumes "settled_once w es" and "pending w u"
  shows "Committed u b \<notin> set es"
proof -
  have "count_list (settled es) u = 0" using assms by (simp add: settled_once_def)
  with committed_settled [of u b es] show ?thesis by (auto simp: count_list_0_iff)
qed

lemma committed_accepted:
  assumes "settled_once w es" and "Committed u b \<in> set es"
  shows "u \<in> set (accepted es)"
proof -
  have "count_list (settled es) u \<noteq> 0" using committed_settled [OF assms(2)] by (simp add: count_list_0_iff)
  with assms(1) show ?thesis by (auto simp: settled_once_def split: if_splits)
qed

lemma files_step:
  assumes "upload_do sha a w = (w', fs)" and b: "booked work w es" and t: "threads_ok w es"
    and s: "settled_once w es" and f: "files_ok sha w es"
  shows "files_ok sha w' (es @ fs)"
  using assms(1)
proof (cases rule: upload_do_cases)
  case quiet
  with f show ?thesis by (auto simp: files_ok_def)
next
  case (reserve x st rq u)
  from f show ?thesis unfolding reserve files_ok_def by auto
next
  case (turn x io k k' s')
  have differ: "file_key (task_ctx k) \<noteq> file_key (task_ctx j)" if "uw_tasks w y = Some j" "y \<noteq> x" for y j
    using other_task [OF b t turn(1) that(1)] that(2) by blast
  have unc: "file_key v \<noteq> file_key (task_ctx k)" if "Committed v c \<in> set es" "Committed (task_ctx k) c \<notin> set es" for v c
    using file_key_home [OF b committed_accepted [OF s that(1)] task_accepted [OF t turn(1)]] that by auto
  have new: "Committed (task_ctx k) c \<notin> set es" if "open_task k" for c
    using pending_uncommitted [OF s] pending_task [OF t turn(1)] that by blast
  from turn(2) show ?thesis
  proof (cases rule: task_turn_cases)
    case (moved u)
    with f show ?thesis unfolding turn(3) files_ok_def by auto
  next
    case (reported u undo)
    with f new show ?thesis unfolding turn(3) files_ok_def by auto
  next
    case (placed u c)
    have old: "us_files s' (file_key v) = us_files (uw_server w) (file_key v)" if "file_key v \<noteq> file_key u" for v
      using that placed by simp
    show ?thesis
      unfolding files_ok_def
    proof (intro conjI allI impI)
      fix y v d assume "uw_tasks w' y = Some (DataPlaced v d)"
      then show "body_ok sha v d" "fst (us_files (uw_server w') (file_key v)) = Some d"
        using placed f differ [of y "DataPlaced v d"] by (auto simp: turn(3) files_ok_def split: if_splits)
    next
      fix y v d assume "uw_tasks w' y = Some (Leaving v True)"
      then show "Committed v d \<notin> set (es @ fs)"
        using placed f by (auto simp: turn(3) files_ok_def split: if_splits)
    next
      fix v d assume "Committed v d \<in> set (es @ fs)"
      then show "body_ok sha v d"
        "us_files (uw_server w') (file_key v) = (Some d, Json (PDict (commit_manifest sha v d)))"
        using placed f unc [of v d] new [of d] old [of v] by (auto simp: turn(3) files_ok_def)
    qed
  next
    case (committed u c)
    have mine: "fst (us_files (uw_server w) (file_key u)) = Some c" "body_ok sha u c"
      using f turn(1) committed by (auto simp: files_ok_def)
    show ?thesis
      unfolding files_ok_def
    proof (intro conjI allI impI)
      fix y v d assume "uw_tasks w' y = Some (DataPlaced v d)"
      then show "body_ok sha v d" "fst (us_files (uw_server w') (file_key v)) = Some d"
        using committed f mine differ [of y "DataPlaced v d"] by (auto simp: turn(3) files_ok_def split: if_splits)
    next
      fix y v d assume y: "uw_tasks w' y = Some (Leaving v True)"
      then have "uw_tasks w y = Some (Leaving v True)" "y \<noteq> x"
        using committed by (auto simp: turn(3) split: if_splits)
      with differ [of y "Leaving v True"] have "v \<noteq> u" using committed by auto
      then show "Committed v d \<notin> set (es @ fs)"
        using \<open>uw_tasks w y = Some (Leaving v True)\<close> committed f by (auto simp: files_ok_def)
    next
      fix v d assume "Committed v d \<in> set (es @ fs)"
      then show "body_ok sha v d"
        "us_files (uw_server w') (file_key v) = (Some d, Json (PDict (commit_manifest sha v d)))"
        using committed f mine unc [of v d] new [of d] by (auto simp: turn(3) files_ok_def)
    qed
  next
    case (answered u)
    with f show ?thesis unfolding turn(3) files_ok_def by auto
  next
    case (left u undo)
    have none: "Committed u d \<notin> set es" if undo for d
      using that f turn(1) left by (auto simp: files_ok_def)
    show ?thesis
      unfolding files_ok_def
    proof (intro conjI allI impI)
      fix y v d assume "uw_tasks w' y = Some (DataPlaced v d)"
      then show "body_ok sha v d" "fst (us_files (uw_server w') (file_key v)) = Some d"
        using left f differ [of y "DataPlaced v d"] by (auto simp: turn(3) files_ok_def split: if_splits)
    next
      fix y v d assume "uw_tasks w' y = Some (Leaving v True)"
      then show "Committed v d \<notin> set (es @ fs)"
        using left f by (auto simp: turn(3) files_ok_def split: if_splits)
    next
      fix v d assume "Committed v d \<in> set (es @ fs)"
      then show "body_ok sha v d"
        "us_files (uw_server w') (file_key v) = (Some d, Json (PDict (commit_manifest sha v d)))"
        using left f unc [of v d] none [of d] by (auto simp: turn(3) files_ok_def)
    qed
  qed
qed

lemma upload_step_inv:
  assumes "upload_do sha a w = (w', fs)" and "installs_home work a" and "upload_inv sha work w es"
  shows "upload_inv sha work w' (es @ fs)"
  using assms booked_step threads_step settled_step files_step unfolding upload_inv_def by metis

lemma upload_run_inv:
  "upload_run sha as w = (w', fs) \<Longrightarrow> list_all (installs_home work) as \<Longrightarrow> upload_inv sha work w es \<Longrightarrow>
   upload_inv sha work w' (es @ fs)"
proof (induction as arbitrary: w es fs)
  case (Cons a as)
  obtain w1 es1 where a: "upload_do sha a w = (w1, es1)" by fastforce
  obtain w2 es2 where r: "upload_run sha as w1 = (w2, es2)" by fastforce
  from Cons.prems a r have e: "w' = w2" "fs = es1 @ es2" "list_all (installs_home work) as" "installs_home work a"
    by auto
  from upload_step_inv [OF a e(4) Cons.prems(3)] have "upload_inv sha work w1 (es @ es1)" .
  with Cons.IH [of w1 es2 "es @ es1"] r e show ?case by simp
qed simp

section \<open>The end of a handler\<close>

fun task_rank :: "task \<Rightarrow> nat" where
  "task_rank (Reserved u) = 5"
| "task_rank (Receiving u) = 4"
| "task_rank (DataPlaced u b) = 3"
| "task_rank (Answering u) = 2"
| "task_rank (Leaving u undo) = 1"

definition rank_of :: "task option \<Rightarrow> nat" where
  "rank_of k = (case k of None \<Rightarrow> 0 | Some j \<Rightarrow> task_rank j)"

lemma task_turn_rank:
  assumes "task_turn sha io k s = (k', s', es)"
  shows "rank_of k' < task_rank k"
  using assms
proof (cases rule: task_turn_cases)
  case (reported u undo)
  then show ?thesis by (cases k) (auto simp: rank_of_def)
qed (auto simp: rank_of_def)

lemma turns_end:
  "upload_run sha (map (Turn t) ios) w = (w', fs) \<Longrightarrow> rank_of (uw_tasks w t) \<le> length ios \<Longrightarrow>
   uw_tasks w' t = None"
proof (induction ios arbitrary: w fs)
  case Nil
  then have "rank_of (uw_tasks w t) = 0" by simp
  with Nil(1) show ?case by (cases "uw_tasks w t") (auto simp: rank_of_def elim: task_rank.elims)
next
  case (Cons io ios)
  obtain w1 es1 where a: "upload_do sha (Turn t io) w = (w1, es1)" by fastforce
  obtain w2 es2 where r: "upload_run sha (map (Turn t) ios) w1 = (w2, es2)" by fastforce
  from Cons.prems a r have e: "w' = w2" by simp
  have "rank_of (uw_tasks w1 t) \<le> length ios"
  proof (cases "uw_tasks w t")
    case None
    with a have "w1 = w" by simp
    with None show ?thesis by (simp add: rank_of_def)
  next
    case (Some k)
    obtain k' s' es where t: "task_turn sha io k (uw_server w) = (k', s', es)" by (metis prod_cases3)
    with a Some have "uw_tasks w1 t = k'" by auto
    with task_turn_rank [OF t] Cons.prems(2) Some show ?thesis by (simp add: rank_of_def)
  qed
  with Cons.IH [of w1 es2] r e show ?case by simp
qed

lemma turns_elsewhere:
  "upload_run sha (map (Turn t) ios) w = (w', fs) \<Longrightarrow> t' \<noteq> t \<Longrightarrow> uw_tasks w' t' = uw_tasks w t'"
proof (induction ios arbitrary: w fs)
  case (Cons io ios)
  obtain w1 es1 where a: "upload_do sha (Turn t io) w = (w1, es1)" by fastforce
  obtain w2 es2 where r: "upload_run sha (map (Turn t) ios) w1 = (w2, es2)" by fastforce
  from a Cons.prems(2) have "uw_tasks w1 t' = uw_tasks w t'" by (auto split: option.splits prod.splits)
  with Cons.IH [of w1 es2] Cons.prems a r show ?case by auto
qed simp

section \<open>Samples\<close>

definition zero_sha :: "bytes \<Rightarrow> bytes" where
  "zero_sha b = replicate 32 (of_nat (length b))"

definition sample_context :: round_context where
  "sample_context = \<lparr>rx_round = ''12345678-1234-4123-8123-123456789abc'', rx_nodes = [2, 1], rx_dir = ''/w/rounds/12345678-1234-4123-8123-123456789abc'', rx_max = 10\<rparr>"

definition sample_request :: http_request where
  "sample_request = \<lparr>rq_method = ''PUT'', rq_path = ''/v1/rounds/12345678-1234-4123-8123-123456789abc/updates/2'', rq_headers =
     [(''Content-Length'', ''3''), (''Content-Digest'', content_digest (zero_sha [1, 2, 3])),
      (''Content-Type'', ''application/octet-stream''), (''Expect'', ''100-continue''), (''Connection'', ''close'')]\<rparr>"

definition fine_io :: upload_io where
  "fine_io = \<lparr>io_continue_ok = True, io_create_ok = True, io_bytes = [1, 2, 3], io_eof = True,
     io_write_fails = None, io_flush_ok = True, io_close_ok = True, io_replace_ok = True,
     io_manifest_err = None, io_callback_err = None, io_response_ok = True\<rparr>"

definition sample_upload :: upload_ctx where
  "sample_upload = \<lparr>uc_round = sample_context\<lparr>rx_nodes := [1, 2]\<rparr>, uc_node = 2, uc_length = 3,
     uc_digest = zero_sha [1, 2, 3]\<rparr>"

definition no_files :: update_files where
  "no_files = (\<lambda>_. (None, NoFile))"

definition sample_actions :: "upload_action list" where
  "sample_actions = [Install sample_context, Request 7 True True sample_request, Request 8 True True sample_request,
     Turn 7 fine_io, Turn 7 fine_io, Turn 7 fine_io]"

lemma sample_header_checks:
  "check_headers 10 (rq_headers sample_request) = Inr (3, zero_sha [1, 2, 3])"
proof -
  have v: "header_values (rq_headers sample_request) ''Transfer-Encoding'' = []"
    "header_values (rq_headers sample_request) ''Expect'' = [''100-continue'']"
    "header_values (rq_headers sample_request) ''Connection'' = [''close'']"
    "header_values (rq_headers sample_request) ''Content-Type'' = [''application/octet-stream'']"
    "header_values (rq_headers sample_request) ''Content-Length'' = [''3'']"
    "header_values (rq_headers sample_request) ''Content-Digest'' = [content_digest (zero_sha [1, 2, 3])]"
    by code_simp+
  have "int_of_text 10 ''3'' = Some 3" by code_simp
  then show ?thesis
    by (simp add: check_headers_def Let_def v check_length_def parse_content_digest_encode zero_sha_def)
qed

lemma sample_reserved:
  "open_request True True sample_request (install_round sample_context (uw_server (fresh_uploads no_files))) =
   (Inr sample_upload,
    book_upload sample_upload (install_round sample_context (uw_server (fresh_uploads no_files))))"
proof -
  have "wants_continue sample_request" "path_node ''12345678-1234-4123-8123-123456789abc'' (rq_path sample_request) = Inr 2"
    "sort [2, 1 :: int] = [1, 2]" by code_simp+
  then show ?thesis using sample_header_checks
    by (simp add: open_request_def reserve_upload_def judge_upload_def install_round_def sample_context_def
        check_free_def fresh_uploads_def no_files_def sample_upload_def)
      (simp add: sample_request_def)
qed

lemma sample_body: "receive_body zero_sha fine_io sample_upload = Inr [1, 2, 3]"
  using receive_loop_complete [of "[]" 3 "[1, 2, 3]" True]
  by (simp add: receive_body_def fine_io_def sample_upload_def)

lemma sample_again:
  "open_request True True sample_request (book_upload sample_upload (install_round sample_context (uw_server (fresh_uploads no_files)))) =
   (Inl (409, ''upload_in_progress''),
    book_upload sample_upload (install_round sample_context (uw_server (fresh_uploads no_files))))"
proof -
  have "wants_continue sample_request" "path_node ''12345678-1234-4123-8123-123456789abc'' (rq_path sample_request) = Inr 2"
    "sort [2, 1 :: int] = [1, 2]" by code_simp+
  then show ?thesis
    by (simp add: open_request_def reserve_upload_def judge_upload_def install_round_def sample_context_def
        check_free_def fresh_uploads_def no_files_def sample_upload_def book_upload_def upload_key_def)
      (simp add: sample_request_def)
qed

lemma sample_run:
  "\<exists>w. upload_run zero_sha sample_actions (fresh_uploads no_files) =
     (w, [Accepted sample_upload, Answered (409, ''upload_in_progress''), Answered (100, []), Committed sample_upload [1, 2, 3]]) \<and>
   uw_tasks w 7 = Some (Answering sample_upload)"
proof -
  have i: "io_continue_ok fine_io" "io_replace_ok fine_io" "io_manifest_err fine_io = None"
    by (simp_all add: fine_io_def)
  have t: "uw_tasks (fresh_uploads no_files) = (\<lambda>_. None)" by (simp add: fresh_uploads_def)
  show ?thesis
    by (simp add: sample_actions_def t sample_reserved sample_again continue_turn_def receive_turn_def commit_turn_def
        write_json_atomic_def sample_body i)
qed

lemma sample_installs: "list_all (installs_home ''/w'') sample_actions"
  by (simp add: sample_actions_def sample_context_def round_home_def)

lemma path_node_iff:
  "path_node r p = Inr n \<longleftrightarrow>
   p = upload_prefix r @ text_of_int n \<and> 0 < n \<and> length (text_of_int n) \<le> 4300"
proof
  assume a: "path_node r p = Inr n"
  note p = path_node_Inr [OF a]
  let ?t = "text_of_int n"
  have d: "drop (length (upload_prefix r)) p = ?t" using p by simp
  from a d have t: "list_all (\<lambda>c. c \<in> set ''0123456789'') ?t" "int_of_text 10 ?t \<noteq> None" "?t \<noteq> []"
    by (auto simp: path_node_def Let_def split: if_splits option.splits)
  then obtain c cs where c: "?t = c # cs" by (cases ?t) auto
  have digits: "x \<in> set ''0123456789''" if "x \<in> set ?t" for x using t(1) that by (simp only: list_all_iff)
  have "filter (\<lambda>x. x \<noteq> CHR ''_'') ?t = ?t" using digits digits_plain by (intro filter_True) blast
  moreover have "strip ?t = ?t"
    using digits_plain [OF digits [of "last ?t"]] digits_plain [OF digits [of c]] c t(3)
    by (intro strip_id) simp_all
  moreover have "c \<noteq> CHR ''-'' \<and> c \<noteq> CHR ''+''" using digits_plain [OF digits [of c]] c by simp
  ultimately have "length ?t \<le> 4300"
    using t(2) c by (auto simp: int_of_text_def unsigned_text_def split: if_splits)
  with p show "p = upload_prefix r @ text_of_int n \<and> 0 < n \<and> length (text_of_int n) \<le> 4300" by simp
next
  assume a: "p = upload_prefix r @ text_of_int n \<and> 0 < n \<and> length (text_of_int n) \<le> 4300"
  then have t: "text_of_int n = decimal (nat n)" by (simp add: text_of_int_def)
  have "list_all (\<lambda>c. c \<in> set ''0123456789'') (decimal (nat n))"
    using decimal_chars [of "nat n"] unfolding list_all_iff by blast
  with a t int_of_decimal [of "nat n"] decimal_chars [of "nat n"] show "path_node r p = Inr n"
    by (simp add: path_node_def starts_with_def)
qed

lemma check_headers_iff:
  "check_headers mx hs = Inr (n, dg) \<longleftrightarrow>
     header_values hs ''Transfer-Encoding'' = [] \<and> header_values hs ''Expect'' = [''100-continue''] \<and>
     header_values hs ''Connection'' = [''close''] \<and>
     header_values hs ''Content-Type'' = [''application/octet-stream''] \<and>
     (\<exists>l. header_values hs ''Content-Length'' = [l] \<and> int_of_text 10 l = Some (int n)) \<and> int n \<le> mx \<and>
     (\<exists>d. header_values hs ''Content-Digest'' = [d] \<and> parse_content_digest d = Some dg)"
proof
  assume a: "check_headers mx hs = Inr (n, dg)"
  then obtain l where l: "header_values hs ''Content-Length'' = [l]" "int_of_text 10 l = Some (int n)"
    by (cases "header_values hs ''Content-Length''")
      (auto simp: check_headers_def check_length_def Let_def split: if_splits option.splits)
  with a check_headers_Inr [OF a] show "header_values hs ''Transfer-Encoding'' = [] \<and>
     header_values hs ''Expect'' = [''100-continue''] \<and>
     header_values hs ''Connection'' = [''close''] \<and>
     header_values hs ''Content-Type'' = [''application/octet-stream''] \<and>
     (\<exists>l. header_values hs ''Content-Length'' = [l] \<and> int_of_text 10 l = Some (int n)) \<and> int n \<le> mx \<and>
     (\<exists>d. header_values hs ''Content-Digest'' = [d] \<and> parse_content_digest d = Some dg)"
    by (auto simp: check_headers_def check_length_def Let_def length_Suc_conv split: if_splits option.splits)
qed (auto simp: check_headers_def check_length_def)

section \<open>Guarantees\<close>

text \<open>C37: The listener accepts exactly the requests its contract names: a PUT on the current round's path of a
  participant in canonical decimal, whose update is neither committed nor in progress nor tried before,
  with one \<^verbatim>\<open>Expect\<close>, one \<^verbatim>\<open>Connection: close\<close>, no transfer encoding, one admissible length, the one media
  type and one well-formed digest - on a directory that takes a file. Everything else is refused.\<close>

theorem upload_accepted_iff:
  "judge_upload storage rq s = Inr u \<longleftrightarrow>
     us_context s = Some (uc_round u) \<and> rq_method rq = ''PUT'' \<and> storage \<and>
     rq_path rq = upload_prefix (rx_round (uc_round u)) @ text_of_int (uc_node u) \<and> 0 < uc_node u \<and>
     length (text_of_int (uc_node u)) \<le> 4300 \<and> uc_node u \<in> set (rx_nodes (uc_round u)) \<and>
     snd (us_files s (file_key u)) = NoFile \<and> upload_key u \<notin> us_active s \<and> upload_key u \<notin> us_used s \<and>
     header_values (rq_headers rq) ''Transfer-Encoding'' = [] \<and>
     header_values (rq_headers rq) ''Expect'' = [''100-continue''] \<and>
     header_values (rq_headers rq) ''Connection'' = [''close''] \<and>
     header_values (rq_headers rq) ''Content-Type'' = [''application/octet-stream''] \<and>
     (\<exists>l. header_values (rq_headers rq) ''Content-Length'' = [l] \<and> int_of_text 10 l = Some (int (uc_length u))) \<and>
     int (uc_length u) \<le> rx_max (uc_round u) \<and>
     (\<exists>d. header_values (rq_headers rq) ''Content-Digest'' = [d] \<and> parse_content_digest d = Some (uc_digest u))"
    (is "_ = ?r")
proof
  assume "judge_upload storage rq s = Inr u"
  note j = judge_upload_Inr [OF this]
  have "path_node (rx_round (uc_round u)) (rq_path rq) = Inr (uc_node u)"
    using \<open>judge_upload storage rq s = Inr u\<close>
    by (auto simp: judge_upload_def split: option.splits if_splits sum.splits prod.splits)
  with j j(12) [unfolded check_headers_iff] show ?r unfolding path_node_iff by blast
next
  assume r: ?r
  then have "path_node (rx_round (uc_round u)) (rq_path rq) = Inr (uc_node u)" by (simp add: path_node_iff)
  moreover have "check_headers (rx_max (uc_round u)) (rq_headers rq) = Inr (uc_length u, uc_digest u)"
    unfolding check_headers_iff using r by blast
  ultimately show "judge_upload storage rq s = Inr u"
    using r judge_upload_InrI [of s "uc_round u" rq "uc_node u" "uc_length u" "uc_digest u" storage]
    by (simp add: file_key_def upload_key_def)
qed

text \<open>C15: Every accepted upload is settled exactly once. In any run of the listener - requests repeated,
  handlers interleaved, rounds replaced, any operation failing - each update slot of a round is given
  out at most once, and an upload whose handler takes five more turns is over by then: it has been
  either committed or reported to the runtime as failed, one of the two and once.\<close>

theorem upload_settles_once:
  assumes "upload_run sha as (fresh_uploads f) = (w, es)" and "list_all (installs_home work) as"
    and "uw_tasks w t = Some k" and "length ios = 5"
    and "upload_run sha (map (Turn t) ios) w = (w', fs)"
  shows "distinct (map upload_key (accepted (es @ fs))) \<and> task_ctx k \<in> set (accepted es) \<and>
    uw_tasks w' t = None \<and> count_list (settled (es @ fs)) (task_ctx k) = 1"
proof -
  have i: "upload_inv sha work w es" using upload_run_inv [OF assms(1,2) upload_inv_fresh] by simp
  have l: "list_all (installs_home work) (map (Turn t) ios)" by (simp add: list_all_iff)
  have i': "upload_inv sha work w' (es @ fs)" by (rule upload_run_inv [OF assms(5) l i])
  have acc: "task_ctx k \<in> set (accepted es)"
    using i task_accepted [OF _ assms(3)] by (simp add: upload_inv_def)
  have gone: "uw_tasks w' t = None"
    using turns_end [OF assms(5)] assms(3,4) by (cases k) (auto simp: rank_of_def)
  have "\<not> pending w' (task_ctx k)"
  proof
    assume "pending w' (task_ctx k)"
    then obtain t' j where j: "uw_tasks w' t' = Some j" "task_ctx j = task_ctx k"
      by (auto simp: pending_def open_ctx_def split: option.splits if_splits)
    with gone have "t' \<noteq> t" by auto
    with turns_elsewhere [OF assms(5), of t'] j have "uw_tasks w t' = Some j" by simp
    with j i assms(3) \<open>t' \<noteq> t\<close> other_task [of work w es t k t' j] show False by (auto simp: upload_inv_def)
  qed
  with i' acc gone show ?thesis by (auto simp: upload_inv_def booked_def settled_once_def)
qed

theorem upload_settles_once_witness:
  "\<exists>w. uw_tasks w 7 = None \<and> (\<exists>w1 es fs. upload_run zero_sha sample_actions (fresh_uploads no_files) = (w1, es) \<and>
     upload_run zero_sha (map (Turn 7) (replicate 5 fine_io)) w1 = (w, fs) \<and>
     count_list (settled (es @ fs)) sample_upload = 1)"
proof -
  obtain w1 where w1: "upload_run zero_sha sample_actions (fresh_uploads no_files) =
     (w1, [Accepted sample_upload, Answered (409, ''upload_in_progress''), Answered (100, []), Committed sample_upload [1, 2, 3]])"
     "uw_tasks w1 7 = Some (Answering sample_upload)" using sample_run by blast
  obtain w fs where "upload_run zero_sha (map (Turn 7) (replicate 5 fine_io)) w1 = (w, fs)" by fastforce
  with upload_settles_once [OF w1(1) sample_installs w1(2) _ this] w1(1) show ?thesis by auto
qed

text \<open>C34: What is committed is what was declared, and it stays. At the end of any run of the listener the
  files of every committed update are the body that was received and the manifest that describes it:
  of the declared length, within the limit of its round, with the declared digest, of a node of the round.
  No later request, failure or round touches them.\<close>

theorem committed_upload_exact:
  assumes "upload_run sha as (fresh_uploads f) = (w, es)" and "list_all (installs_home work) as"
    and "Committed u b \<in> set es"
  shows "us_files (uw_server w) (file_key u) = (Some b, Json (PDict (commit_manifest sha u b))) \<and>
    length b = uc_length u \<and> int (length b) \<le> rx_max (uc_round u) \<and> sha b = uc_digest u \<and>
    uc_node u \<in> set (rx_nodes (uc_round u))"
proof -
  have i: "upload_inv sha work w es" using upload_run_inv [OF assms(1,2) upload_inv_fresh] by simp
  then have "u \<in> set (accepted es)" using committed_accepted [of w es, OF _ assms(3)] by (simp add: upload_inv_def)
  with i assms(3) show ?thesis by (auto simp: upload_inv_def booked_def files_ok_def body_ok_def)
qed

theorem committed_upload_exact_witness:
  "\<exists>w es. upload_run zero_sha sample_actions (fresh_uploads no_files) = (w, es) \<and>
     Committed sample_upload [1, 2, 3] \<in> set es \<and>
     fst (us_files (uw_server w) (''/w/rounds/12345678-1234-4123-8123-123456789abc'', 2)) = Some [1, 2, 3]"
proof -
  obtain w where w: "upload_run zero_sha sample_actions (fresh_uploads no_files) =
     (w, [Accepted sample_upload, Answered (409, ''upload_in_progress''), Answered (100, []), Committed sample_upload [1, 2, 3]])"
    using sample_run by blast
  from committed_upload_exact [OF this sample_installs, of sample_upload "[1, 2, 3]"] w show ?thesis
    by (auto simp: file_key_def sample_upload_def sample_context_def)
qed

end
