(* ===== verification/Uplink.thy ===== *)
theory Uplink
  imports Client_Transport Upload_Safety Server_Runtime
begin

text \<open>
  The two ends of the uplink together: the request a client's transport writes is the one the
  listener's contract asks for, what the listener commits passes the checks of the server's runtime,
  and what the listener answers is what the client understands.
\<close>

section \<open>Reading a request\<close>

text \<open>\<^verbatim>\<open>BaseHTTPRequestHandler.parse_request\<close> on a request without folded header lines.\<close>

definition words_of :: "string \<Rightarrow> string list" where
  "words_of s = filter (\<lambda>w. w \<noteq> []) (split_all CHR '' '' s)"

fun header_fields :: "string list \<Rightarrow> headers" where
  "header_fields [] = []"
| "header_fields (l # ls) =
     (let l = rstrip_set line_end l in
      if l = [] then []
      else (case split_at CHR '':'' 1 l of
          [k, v] \<Rightarrow> (k, strip v) # header_fields ls
        | _ \<Rightarrow> header_fields ls))"

definition parse_request :: "string \<Rightarrow> http_request option" where
  "parse_request t = (case split_all (char_of (10 :: nat)) t of
     [] \<Rightarrow> None
   | l # ls \<Rightarrow> (case words_of (rstrip_set line_end l) of
       [m, p, v] \<Rightarrow> Some \<lparr>rq_method = m, rq_path = p, rq_headers = header_fields ls\<rparr>
     | _ \<Rightarrow> None))"

lemma split_at_first:
  "c \<notin> set w \<Longrightarrow> 0 < n \<Longrightarrow> split_at c n (w @ c # s) = w # split_at c (n - 1) s"
  by (induction w) auto

lemma split_at_zero [simp]: "split_at c 0 s = [s]"
  by (induction s) simp_all

lemma split_at_none: "c \<notin> set w \<Longrightarrow> split_at c n w = [w]"
  by (induction w) auto

text \<open>More splits than there are separators change nothing.\<close>

lemma split_at_enough: "length s \<le> n \<Longrightarrow> length s \<le> m \<Longrightarrow> split_at c n s = split_at c m s"
proof (induction s arbitrary: n m)
  case (Cons d s)
  then have "split_at c n s = split_at c m s" "split_at c (n - 1) s = split_at c (m - 1) s" by auto
  with Cons.prems show ?case by simp
qed simp

lemma split_all_first: "c \<notin> set w \<Longrightarrow> split_all c (w @ c # s) = w # split_all c s"
  using split_at_enough [of s "length w + length s" "length s" c]
  by (simp add: split_all_def split_at_first)

lemma split_all_lines:
  "\<forall>l \<in> set ls. c \<notin> set l \<Longrightarrow> split_all c (concat (map (\<lambda>l. l @ [c]) ls)) = ls @ [[]]"
  by (induction ls) (simp_all add: split_all_first, simp add: split_all_def)

text \<open>Texts without white space, and header values.\<close>

definition plain :: "string \<Rightarrow> bool" where
  "plain s \<longleftrightarrow> s \<noteq> [] \<and> list_all (\<lambda>c. \<not> py_space c) s"

lemma plain_noline: "plain s \<Longrightarrow> c \<in> set s \<Longrightarrow> \<not> line_end c \<and> c \<noteq> CHR '' ''"
proof -
  have "\<not> py_space c \<Longrightarrow> \<not> line_end c \<and> c \<noteq> CHR '' ''"
    by (auto simp: py_space_def line_end_def Let_def code_of_def)
  then show "plain s \<Longrightarrow> c \<in> set s \<Longrightarrow> \<not> line_end c \<and> c \<noteq> CHR '' ''"
    by (simp add: plain_def list_all_iff)
qed

lemma plain_strip: "plain s \<Longrightarrow> strip s = s"
  by (rule strip_id) (simp_all add: plain_def list_all_iff)

lemma plain_strip_space: "plain s \<Longrightarrow> strip (CHR '' '' # s) = s"
proof -
  have "py_space CHR '' ''" by code_simp
  then show "plain s \<Longrightarrow> strip (CHR '' '' # s) = s" using plain_strip [of s] by (simp add: strip_def)
qed

section \<open>The client's request, read by the listener\<close>

lemma rstrip_line: "(l = [] \<or> \<not> line_end (last l)) \<Longrightarrow> rstrip_set line_end (l @ [char_of (13 :: nat)]) = l"
proof -
  have "line_end (char_of (13 :: nat))" by code_simp
  then show "(l = [] \<or> \<not> line_end (last l)) \<Longrightarrow> rstrip_set line_end (l @ [char_of (13 :: nat)]) = l"
    by (cases l rule: rev_cases) (simp_all add: rstrip_set_def)
qed

lemma plain_append [simp]: "plain a \<Longrightarrow> plain b \<Longrightarrow> plain (a @ b)"
  by (simp add: plain_def)

lemma plain_decimal [simp]: "plain (decimal n)"
proof -
  have "\<not> py_space c" if "c \<in> set (decimal n)" for c
    using decimal_chars [of n] digits_plain [of c] that by blast
  then show ?thesis using decimal_chars [of n] by (simp add: plain_def list_all_iff)
qed

lemma plain_int [simp]: "plain (text_of_int i)"
proof -
  have "plain ''-''" by code_simp
  from plain_append [OF this plain_decimal] show ?thesis by (simp add: text_of_int_def)
qed

lemma plain_b64: "list_all (\<lambda>c. \<not> py_space c) (b64_encode d)"
proof -
  have c: "\<not> py_space (b64_char n)" if "n < 64" for n
  proof -
    have "list_all (\<lambda>c. \<not> py_space c) b64_alphabet" "length b64_alphabet = 64" by code_simp+
    with that show ?thesis unfolding b64_char_def list_all_iff by (metis nth_mem)
  qed
  have "\<not> py_space CHR ''=''" by code_simp
  then show ?thesis by (induction d rule: b64_encode.induct) (simp_all add: c)
qed

lemma plain_digest [simp]: "plain (content_digest d)"
proof -
  have "plain digest_prefix" "plain '':''" by code_simp+
  then show ?thesis using plain_b64 [of d] by (simp add: content_digest_def plain_def)
qed

lemma plain_path_safe: "s \<noteq> [] \<Longrightarrow> list_all path_safe_char s \<Longrightarrow> plain s"
proof -
  have "list_all (\<lambda>c. \<not> py_space c) ''abcdefghijklmnopqrstuvwxyzABCDEFGHIJKLMNOPQRSTUVWXYZ0123456789_-''"
    by code_simp
  then have "\<not> py_space c" if "path_safe_char c" for c
    using that unfolding list_all_iff path_safe_char_def by blast
  then show "s \<noteq> [] \<Longrightarrow> list_all path_safe_char s \<Longrightarrow> plain s" by (simp add: plain_def list_all_iff)
qed

lemma plain_path: "plain r \<Longrightarrow> plain (update_path r n)"
proof -
  assume "plain r"
  moreover have "plain ''/v1/rounds/''" "plain ''/updates/''" by code_simp+
  ultimately show "plain (update_path r n)" unfolding update_path_def by (intro plain_append plain_int)
qed

lemma plain_noseparator: "plain s \<Longrightarrow> char_of (10 :: nat) \<notin> set s" "plain s \<Longrightarrow> CHR '' '' \<notin> set s"
  "plain s \<Longrightarrow> \<not> line_end (last s)"
proof -
  have "line_end (char_of (10 :: nat))" by code_simp
  then show "plain s \<Longrightarrow> char_of (10 :: nat) \<notin> set s" "plain s \<Longrightarrow> CHR '' '' \<notin> set s"
    using plain_noline by blast+
  show "plain s \<Longrightarrow> \<not> line_end (last s)" using plain_noline [of s "last s"] by (simp add: plain_def)
qed

text \<open>One header line.\<close>

lemma header_field:
  assumes "plain v" and "CHR '':'' \<notin> set k" and "k \<noteq> []"
  shows "header_fields ((k @ '': '' @ v @ [char_of (13 :: nat)]) # ls) = (k, v) # header_fields ls"
proof -
  have "rstrip_set line_end ((k @ '': '' @ v) @ [char_of (13 :: nat)]) = k @ '': '' @ v"
    using plain_noseparator(3) [OF assms(1)] assms(1) by (intro rstrip_line) (simp add: plain_def)
  then have r: "rstrip_set line_end (k @ CHR '':'' # CHR '' '' # v @ [char_of (13 :: nat)]) = k @ CHR '':'' # CHR '' '' # v"
    by simp
  have "split_at CHR '':'' 1 (k @ CHR '':'' # CHR '' '' # v) = [k, CHR '' '' # v]"
    using split_at_first [OF assms(2), of 1] by simp
  then show ?thesis using assms(3) plain_strip_space [OF assms(1)] by (simp add: r Let_def)
qed

definition client_request :: "string \<Rightarrow> int \<Rightarrow> string \<Rightarrow> int \<Rightarrow> nat \<Rightarrow> bytes \<Rightarrow> http_request" where
  "client_request host port r n sz d = \<lparr>rq_method = ''PUT'', rq_path = update_path r n, rq_headers =
     [(''Host'', host @ '':'' @ text_of_int port), (''Content-Length'', text_of_int (int sz)),
      (''Content-Digest'', content_digest d), (''Content-Type'', ''application/octet-stream''),
      (''Expect'', ''100-continue''), (''Connection'', ''close'')]\<rparr>"

lemma words_three:
  assumes "plain a" "plain b" "plain c"
  shows "words_of (a @ CHR '' '' # b @ CHR '' '' # c) = [a, b, c]"
proof -
  have "split_all CHR '' '' c = [c]" using split_at_none [OF plain_noseparator(2) [OF assms(3)]] by (simp add: split_all_def)
  then show ?thesis
    using assms by (simp add: words_of_def split_all_first [OF plain_noseparator(2)] plain_def)
qed

lemma client_request_text:
  assumes "plain host" and "plain r"
  shows "parse_request (request_text host port r n sz d) = Some (client_request host port r n sz d)"
proof -
  let ?cr = "char_of (13 :: nat) :: char" and ?lf = "char_of (10 :: nat) :: char"
  have p: "plain ''PUT''" "plain ''HTTP/1.1''" "plain ''application/octet-stream''" "plain ''100-continue''"
    "plain ''close''" "plain '':''" by code_simp+
  let ?h = "host @ '':'' @ text_of_int port"
  have h: "plain ?h" using assms p by (intro plain_append plain_int)
  let ?ls = "map (\<lambda>l. l @ [?cr]) (request_lines host port r n sz d)"
  have t: "request_text host port r n sz d = concat (map (\<lambda>l. l @ [?lf]) ?ls)"
    by (simp add: request_text_def crlf_def comp_def)
  have nl: "?lf \<notin> set ''PUT ''" "?lf \<notin> set '' HTTP/1.1''" "?lf \<notin> set ''Host: ''" "?lf \<notin> set ''Content-Length: ''"
    "?lf \<notin> set ''Content-Digest: ''" "?lf \<notin> set ''Content-Type: application/octet-stream''"
    "?lf \<notin> set ''Expect: 100-continue''" "?lf \<notin> set ''Connection: close''" "?lf \<noteq> ?cr"
    by code_simp+
  have "\<forall>l \<in> set ?ls. ?lf \<notin> set l"
    using nl plain_noseparator(1) [OF plain_path [OF assms(2)], of n] plain_noseparator(1) [OF h]
      plain_noseparator(1) [OF plain_int] plain_noseparator(1) [OF plain_digest]
    by (simp add: request_lines_def)
  from split_all_lines [OF this] have s: "split_all ?lf (request_text host port r n sz d) = ?ls @ [[]]"
    by (simp only: t)
  have "rstrip_set line_end ((''PUT '' @ update_path r n @ '' HTTP/1.1'') @ [?cr]) =
      ''PUT '' @ update_path r n @ '' HTTP/1.1''"
    by (intro rstrip_line) (simp, code_simp)
  then have first: "words_of (rstrip_set line_end ((''PUT '' @ update_path r n @ '' HTTP/1.1'') @ [?cr])) =
      [''PUT'', update_path r n, ''HTTP/1.1'']"
    using words_three [OF p(1) plain_path [OF assms(2)] p(2), of n] by simp
  have "rstrip_set line_end ([] @ [?cr]) = []" by (rule rstrip_line) simp
  then have last: "header_fields [[?cr], []] = []" by simp
  have hdrs: "header_fields (tl (?ls @ [[]])) = rq_headers (client_request host port r n sz d)"
    using header_field [OF h, of "''Host''"] header_field [OF plain_int, of "''Content-Length''" "int sz"]
      header_field [OF plain_digest, of "''Content-Digest''" d] header_field [OF p(3), of "''Content-Type''"]
      header_field [OF p(4), of "''Expect''"] header_field [OF p(5), of "''Connection''"] last
    by (simp add: request_lines_def client_request_def)
  show ?thesis
    using s first hdrs
    by (simp add: parse_request_def request_lines_def client_request_def)
qed

section \<open>The listener's answers, read by the client\<close>

text \<open>\<^verbatim>\<open>send_response\<close> writes the status line and the headers \<^verbatim>\<open>Server\<close> and \<^verbatim>\<open>Date\<close>; the handler adds its own.\<close>

definition status_line :: "nat \<Rightarrow> string \<Rightarrow> string" where
  "status_line st reason = ''HTTP/1.1'' @ CHR '' '' # decimal st @ CHR '' '' # reason @ crlf"

definition header_line :: "string \<Rightarrow> string \<Rightarrow> string" where
  "header_line k v = k @ CHR '':'' # CHR '' '' # v @ crlf"

definition continue_lines :: "string list" where
  "continue_lines = [status_line 100 ''Continue'', crlf]"

definition created_lines :: "string \<Rightarrow> string \<Rightarrow> string list" where
  "created_lines srv date =
     [status_line 201 ''Created'', header_line ''Server'' srv, header_line ''Date'' date,
      header_line ''Content-Length'' ''0'', header_line ''Connection'' ''close'', crlf]"

text \<open>\<^verbatim>\<open>_send_error\<close>: \<open>len\<close> is the length of the JSON body that follows.\<close>

definition error_lines :: "nat \<Rightarrow> string \<Rightarrow> string \<Rightarrow> string \<Rightarrow> nat \<Rightarrow> string list" where
  "error_lines st reason srv date len =
     [status_line st reason, header_line ''Server'' srv, header_line ''Date'' date,
      header_line ''Content-Type'' ''application/json; charset=utf-8'',
      header_line ''Content-Length'' (decimal len), header_line ''Connection'' ''close'', crlf]"

definition error_value :: "string \<Rightarrow> string \<Rightarrow> pyval" where
  "error_value code msg = PDict [(''error_code'', PStr code), (''error_message'', PStr msg)]"

lemma crlf_blank [simp]: "is_blank crlf"
  by (simp add: is_blank_def crlf_def)

lemma blank_start: "is_blank l \<Longrightarrow> l \<noteq> [] \<and> line_end (hd l)"
proof -
  have "line_end (char_of (13 :: nat))" "line_end (char_of (10 :: nat))" by code_simp+
  then show "is_blank l \<Longrightarrow> l \<noteq> [] \<and> line_end (hd l)" by (auto simp: is_blank_def)
qed

text \<open>A header line adds its name in lower case.\<close>

lemma read_header_line:
  assumes "k \<noteq> []" and "\<not> line_end (hd k)" and "CHR '':'' \<notin> set k"
  shows "read_headers (header_line k v # ls) fin hs =
    read_headers ls fin (add_header (lower (strip k)) (strip (CHR '' '' # v @ crlf)) hs)"
proof -
  have b: "\<not> is_blank (header_line k v)"
    using blank_start [of "header_line k v"] assms(1,2) by (auto simp: header_line_def hd_append)
  have "split_at CHR '':'' 1 (header_line k v) = [k, CHR '' '' # v @ crlf]"
    using split_at_first [OF assms(3), of 1] by (simp add: header_line_def)
  with b show ?thesis by (simp add: header_line_def)
qed

lemma strip_value:
  assumes "plain v"
  shows "strip (CHR '' '' # v @ crlf) = v"
proof -
  have sp: "py_space CHR '' ''" "py_space (char_of (13 :: nat))" "py_space (char_of (10 :: nat))" by code_simp+
  obtain c cs where c: "v = c # cs" "\<not> py_space c" using assms by (cases v) (auto simp: plain_def)
  have "dropWhile py_space (CHR '' '' # v @ crlf) = v @ crlf" using c sp(1) by simp
  moreover have "dropWhile py_space (rev v) = rev v"
    using assms by (cases "rev v") (auto simp: plain_def list_all_iff)
  ultimately show ?thesis using sp by (simp add: strip_def rstrip_set_def crlf_def)
qed

lemma keys_read:
  "lower (strip ''Server'') = ''server''" "lower (strip ''Date'') = ''date''"
  "lower (strip ''Content-Type'') = ''content-type''" "lower (strip ''Content-Length'') = ''content-length''"
  "lower (strip ''Connection'') = ''connection''"
  by code_simp+

lemma key_starts:
  "\<not> line_end (hd ''Server'')" "\<not> line_end (hd ''Date'')" "\<not> line_end (hd ''Content-Type'')"
  "\<not> line_end (hd ''Content-Length'')" "\<not> line_end (hd ''Connection'')"
  "CHR '':'' \<notin> set ''Server''" "CHR '':'' \<notin> set ''Date''" "CHR '':'' \<notin> set ''Content-Type''"
  "CHR '':'' \<notin> set ''Content-Length''" "CHR '':'' \<notin> set ''Connection''"
  by code_simp+

lemma read_headers_end: "read_headers (crlf # ls) fin hs = (Inr hs, ls)"
  by simp

lemma content_lengths_add:
  "content_lengths (add_header k v hs) =
   (if k = ''content-length'' then content_lengths hs @ [v] else content_lengths hs)"
  by (auto simp: content_lengths_def add_header_def)

text \<open>The status line.\<close>

lemma read_status:
  assumes "reason \<noteq> []" and "\<not> line_end (last reason)" and "length (decimal st) \<le> 4300"
  shows "read_http_response \<lparr>ls_lines = status_line st reason # ls, ls_end = fin\<rparr> =
    (case read_headers ls fin [] of
       (Inl e, ls') \<Rightarrow> (Inl e, \<lparr>ls_lines = ls', ls_end = fin\<rparr>)
     | (Inr hs, ls') \<Rightarrow> (Inr (int st, hs), \<lparr>ls_lines = ls', ls_end = fin\<rparr>))"
proof -
  let ?x = "''HTTP/1.1'' @ CHR '' '' # decimal st @ CHR '' '' # reason"
  have le: "line_end (char_of (13 :: nat))" "line_end (char_of (10 :: nat))" by code_simp+
  obtain ys y where y: "reason = ys @ [y]" using assms(1) by (cases reason rule: rev_cases) auto
  have "dropWhile line_end (rev ?x) = rev ?x" using assms(2) unfolding y by simp
  then have r: "rstrip_set line_end (status_line st reason) = ?x"
    using le by (simp add: rstrip_set_def status_line_def crlf_def)
  have "CHR '' '' \<notin> set ''HTTP/1.1''" by code_simp
  from split_at_first [OF this, of 2] split_at_first [OF plain_noseparator(2) [OF plain_decimal], of 1 st]
  have s: "split_at CHR '' '' 2 ?x = [''HTTP/1.1'', decimal st, reason]" by simp
  have "starts_with ''HTTP/'' ''HTTP/1.1''" by code_simp
  with s int_of_decimal [OF assms(3)] show ?thesis
    unfolding read_http_response_def read_line_def by (simp add: r split: prod.splits sum.splits)
qed

definition stream :: "string list \<Rightarrow> exn option \<Rightarrow> line_stream" where
  "stream ls fin = \<lparr>ls_lines = ls, ls_end = fin\<rparr>"

lemma short_decimal: "n < 10 ^ k \<Longrightarrow> 0 < k \<Longrightarrow> length (decimal n) \<le> k"
proof (induction n arbitrary: k rule: decimal.induct)
  case (1 n)
  show ?case
  proof (cases "n < 10")
    case True
    with 1(3) show ?thesis by (simp add: decimal.simps [of n])
  next
    case False
    then have "1 < k" using 1(2,3) by (cases "k = 1") auto
    then obtain j where k: "k = Suc j" "0 < j" by (cases k) auto
    with 1(2) have "n div 10 < 10 ^ j" by (simp add: less_mult_imp_div_less mult.commute)
    from 1(1) [OF False this k(2)] k False show ?thesis by (simp add: decimal.simps [of n])
  qed
qed

lemma read_continue:
  "read_http_response (stream (continue_lines @ ls) fin) = (Inr (100, []), stream ls fin)"
proof -
  have r: "''Continue'' \<noteq> []" "\<not> line_end (last ''Continue'')" by code_simp+
  have "length (decimal 100) \<le> 4300" using short_decimal [of 100 3] by simp
  from read_status [OF r this] show ?thesis by (simp add: stream_def continue_lines_def)
qed

text \<open>The headers of an answer.\<close>

lemma known_header_lines:
  "read_headers (header_line ''Server'' v # ls) fin hs =
     read_headers ls fin (add_header ''server'' (strip (CHR '' '' # v @ crlf)) hs)"
  "read_headers (header_line ''Date'' v # ls) fin hs =
     read_headers ls fin (add_header ''date'' (strip (CHR '' '' # v @ crlf)) hs)"
  "read_headers (header_line ''Content-Type'' v # ls) fin hs =
     read_headers ls fin (add_header ''content-type'' (strip (CHR '' '' # v @ crlf)) hs)"
  "read_headers (header_line ''Content-Length'' v # ls) fin hs =
     read_headers ls fin (add_header ''content-length'' (strip (CHR '' '' # v @ crlf)) hs)"
  "read_headers (header_line ''Connection'' v # ls) fin hs =
     read_headers ls fin (add_header ''connection'' (strip (CHR '' '' # v @ crlf)) hs)"
  using read_header_line [OF _ key_starts(1,6)] read_header_line [OF _ key_starts(2,7)]
    read_header_line [OF _ key_starts(3,8)] read_header_line [OF _ key_starts(4,9)]
    read_header_line [OF _ key_starts(5,10)]
  by (simp_all only: keys_read list.distinct not_False_eq_True simp_thms)

lemma read_created:
  "\<exists>hs. read_http_response (stream (created_lines srv date @ ls) fin) = (Inr (201, hs), stream ls fin) \<and>
     content_lengths hs = [''0'']"
proof -
  have r: "''Created'' \<noteq> []" "\<not> line_end (last ''Created'')" by code_simp+
  have "plain ''0''" by code_simp
  from strip_value [OF this] have z: "strip (CHR '' '' # CHR ''0'' # crlf) = ''0''" by simp
  have "length (decimal 201) \<le> 4300" using short_decimal [of 201 3] by simp
  from read_status [OF r this] show ?thesis
    by (simp add: stream_def created_lines_def known_header_lines z content_lengths_add
        del: read_headers.simps(2)) (simp add: read_headers_end content_lengths_add, simp add: content_lengths_def)
qed

definition reason_ok :: "string \<Rightarrow> bool" where
  "reason_ok t \<longleftrightarrow> t \<noteq> [] \<and> \<not> line_end (last t)"

lemma read_error:
  assumes "reason_ok reason" and "length (decimal st) \<le> 4300"
  shows "\<exists>hs. read_http_response (stream (error_lines st reason srv date len @ ls) fin) =
      (Inr (int st, hs), stream ls fin) \<and> content_lengths hs = [decimal len]"
  using read_status [of reason st] assms
  by (simp add: reason_ok_def stream_def error_lines_def known_header_lines strip_value [OF plain_decimal]
      content_lengths_add del: read_headers.simps(2))
    (simp add: read_headers_end content_lengths_add, simp add: content_lengths_def)

lemma refusal_understood:
  assumes "content_lengths hs = [decimal len]" and "len \<le> 16384" and "code \<noteq> []"
  shows "read_http_error (Inr (Some (error_value code msg))) hs dc dm r n =
    Inr (FLRuntimeError code msg (Some r) (Some n))"
proof -
  have "length (decimal len) \<le> 4300" using assms(2) short_decimal [of len 5] by simp
  from int_of_decimal [OF this] assms show ?thesis
    by (simp add: read_http_error_def error_value_def dget_def)
qed

section \<open>One upload from end to end\<close>

text \<open>The handler thread of one request, run to its end.\<close>

fun handler_run ::
  "(bytes \<Rightarrow> bytes) \<Rightarrow> upload_io \<Rightarrow> nat \<Rightarrow> task option \<Rightarrow> upload_server \<Rightarrow> upload_event list \<times> upload_server" where
  "handler_run sha io n None s = ([], s)"
| "handler_run sha io 0 k s = ([], s)"
| "handler_run sha io (Suc n) (Some k) s = (case task_turn sha io k s of
     (k', s', es) \<Rightarrow> (case handler_run sha io n k' s' of (fs, s'') \<Rightarrow> (es @ fs, s'')))"

definition upload_session ::
  "(bytes \<Rightarrow> bytes) \<Rightarrow> bool \<Rightarrow> upload_io \<Rightarrow> http_request \<Rightarrow> upload_server \<Rightarrow> upload_event list \<times> upload_server" where
  "upload_session sha storage io rq s = (case open_request True storage rq s of
     (Inl e, s') \<Rightarrow> ([Answered e], s')
   | (Inr u, s') \<Rightarrow> (case handler_run sha io 5 (Some (Reserved u)) s' of (es, s'') \<Rightarrow> (Accepted u # es, s'')))"

text \<open>What it writes, when the reason phrases, the \<^verbatim>\<open>Server\<close> and \<^verbatim>\<open>Date\<close> headers and the lengths of the error
  bodies are given.\<close>

record answer_style =
  as_reason :: "nat \<Rightarrow> string"
  as_server :: string
  as_date :: string
  as_length :: "string \<Rightarrow> nat"

fun answer_lines :: "answer_style \<Rightarrow> upload_event \<Rightarrow> string list" where
  "answer_lines sty (Answered (st, code)) =
     (if st = 100 then continue_lines
      else if st = 201 then created_lines (as_server sty) (as_date sty)
      else error_lines st (as_reason sty st) (as_server sty) (as_date sty) (as_length sty code))"
| "answer_lines sty _ = []"

definition style_ok :: "answer_style \<Rightarrow> bool" where
  "style_ok sty \<longleftrightarrow> (\<forall>st. reason_ok (as_reason sty st)) \<and> (\<forall>c. as_length sty c \<le> 16384)"

text \<open>The refusal in a list of events, if there is one.\<close>

fun refusal :: "upload_event list \<Rightarrow> string" where
  "refusal [] = []"
| "refusal (Answered (st, code) # es) = (if st = 100 \<or> st = 201 then refusal es else code)"
| "refusal (_ # es) = refusal es"

lemma refusal_status:
  assumes "open_request h storage rq s = (Inl (st, code), s')"
  shows "st \<in> {400, 404, 409, 411, 413, 415, 507} \<and> code \<noteq> []"
proof -
  have p: "st \<in> {400, 404} \<and> code \<noteq> []" if "path_node r p = Inl (st, code)" for r p
    using that by (auto simp: path_node_def Let_def invalid_node_id_def split: if_splits option.splits)
  have l: "st \<in> {400, 411, 413} \<and> code \<noteq> []" if "check_length mx ls = Inl (st, code)" for mx ls
    using that by (auto simp: check_length_def split: if_splits option.splits list.splits)
  have c: "st \<in> {400, 411, 413, 415} \<and> code \<noteq> []" if "check_headers mx hs = Inl (st, code)" for mx hs
    using that l by (auto simp: check_headers_def Let_def invalid_headers_def split: if_splits option.splits sum.splits)
  have f: "st \<in> {404, 409} \<and> code \<noteq> []" if "check_free c n s = Inl (st, code)" for c n
    using that by (auto simp: check_free_def split: if_splits)
  have j: "st \<in> {400, 404, 409, 411, 413, 415, 507} \<and> code \<noteq> []" if "judge_upload storage rq s = Inl (st, code)"
  proof -
    from that have "(st, code) \<in> {(404, ''round_not_found''), (400, ''method_not_allowed''), (507, ''storage_unavailable'')} \<or>
        (\<exists>r p. path_node r p = Inl (st, code)) \<or> (\<exists>c n. check_free c n s = Inl (st, code)) \<or>
        (\<exists>mx hs. check_headers mx hs = Inl (st, code))"
      by (auto simp: judge_upload_def split: option.splits if_splits sum.splits prod.splits)
    then show ?thesis using p [of _ _] f c by (elim disjE exE) (simp, fast+)
  qed
  show ?thesis
  proof (cases "h \<and> wants_continue rq")
    case True
    with assms have "judge_upload storage rq s = Inl (st, code)"
      by (simp add: open_request_def reserve_upload_def split: sum.splits)
    then show ?thesis by (rule j)
  next
    case False
    with assms show ?thesis by (auto simp: open_request_def split: if_splits)
  qed
qed

lemma body_failure_status: "receive_body sha io u = Inl (st, code) \<Longrightarrow> st \<in> {422, 507} \<and> code \<noteq> []"
proof -
  have l: "receive_loop len b eof f got = Inl (st, code) \<Longrightarrow> st \<in> {422, 507} \<and> code \<noteq> []" for len b eof f got
  proof (induction len b eof f got rule: receive_loop.induct)
    case (1 len b eof f got)
    from 1(2) show ?case
      by (subst (asm) receive_loop.simps)
        (auto simp: upload_incomplete_def storage_failed_def split: if_splits option.splits dest: 1(1))
  qed
  then show "receive_body sha io u = Inl (st, code) \<Longrightarrow> st \<in> {422, 507} \<and> code \<noteq> []"
    by (auto simp: receive_body_def upload_incomplete_def storage_failed_def split: if_splits sum.splits)
qed

lemma handler_steps:
  "handler_run sha io 5 (Some k) s = (case task_turn sha io k s of
     (k', s', es) \<Rightarrow> (case handler_run sha io 4 k' s' of (fs, s'') \<Rightarrow> (es @ fs, s'')))"
  "handler_run sha io 4 (Some k) s = (case task_turn sha io k s of
     (k', s', es) \<Rightarrow> (case handler_run sha io 3 k' s' of (fs, s'') \<Rightarrow> (es @ fs, s'')))"
  "handler_run sha io 3 (Some k) s = (case task_turn sha io k s of
     (k', s', es) \<Rightarrow> (case handler_run sha io 2 k' s' of (fs, s'') \<Rightarrow> (es @ fs, s'')))"
  "handler_run sha io 2 (Some k) s = (case task_turn sha io k s of
     (k', s', es) \<Rightarrow> (case handler_run sha io 1 k' s' of (fs, s'') \<Rightarrow> (es @ fs, s'')))"
  "handler_run sha io 1 (Some k) s = (case task_turn sha io k s of
     (k', s', es) \<Rightarrow> (case handler_run sha io 0 k' s' of (fs, s'') \<Rightarrow> (es @ fs, s'')))"
  "handler_run sha io n None s = ([], s)" "handler_run sha io 0 j s = ([], s)"
  using handler_run.simps(3) [of sha io 4 k s] handler_run.simps(3) [of sha io 3 k s]
    handler_run.simps(3) [of sha io 2 k s] handler_run.simps(3) [of sha io 1 k s]
    handler_run.simps(3) [of sha io 0 k s]
  by (simp_all add: numeral_eq_Suc) (cases j; simp)

definition error_statuses :: "nat set" where
  "error_statuses = {400, 404, 409, 411, 413, 415, 422, 500, 507}"

lemma error_status: "st \<in> error_statuses \<Longrightarrow> st \<noteq> 100 \<and> st \<noteq> 201 \<and> st < 1000"
  by (auto simp: error_statuses_def)

lemma rejected:
  "st \<in> error_statuses \<Longrightarrow> code \<noteq> [] \<Longrightarrow>
   \<exists>st' code'. reject_accepted io u (st, code) =
     Reported u code # (if io_response_ok io then [Answered (st', code')] else []) \<and>
     st' \<in> error_statuses \<and> code' \<noteq> []"
  by (cases "io_callback_err io") (auto simp: reject_accepted_def Let_def error_statuses_def)

lemma session_cases:
  assumes "upload_session sha storage io rq s = (es, s')"
  obtains (refused) st code where "es = [Answered (st, code)]" "st \<in> error_statuses" "code \<noteq> []"
  | (unanswered) u where "es = [Accepted u, Reported u ''continue_write_failed'']"
  | (failed) u code st' code' where
      "es = Accepted u # Answered (100, []) # Reported u code # (if io_response_ok io then [Answered (st', code')] else [])"
      "st' \<in> error_statuses" "code' \<noteq> []"
  | (committed) u b where "judge_upload storage rq s = Inr u" "body_ok sha u b"
      "es = Accepted u # Answered (100, []) # Committed u b # (if io_response_ok io then [Answered (201, [])] else [])"
      "us_files s' (file_key u) = (Some b, Json (PDict (commit_manifest sha u b)))"
proof -
  obtain r s1 where o: "open_request True storage rq s = (r, s1)" by fastforce
  from o show ?thesis
  proof (cases rule: open_request_cases)
    case (refused e)
    obtain st code where e: "e = (st, code)" by fastforce
    with refusal_status o refused have "st \<in> error_statuses" "code \<noteq> []" unfolding error_statuses_def by fastforce+
    with assms o refused e show ?thesis by (intro that(1) [of st code]) (auto simp: upload_session_def)
  next
    case (reserved u)
    obtain fs s2 where h: "handler_run sha io 5 (Some (Reserved u)) s1 = (fs, s2)" by fastforce
    with assms o reserved have es: "es = Accepted u # fs" "s' = s2" by (simp_all add: upload_session_def)
    show ?thesis
    proof (cases "io_continue_ok io")
      case False
      with h es that(2) show ?thesis by (simp add: handler_steps continue_turn_def)
    next
      case True
      show ?thesis
      proof (cases "\<exists>b. receive_body sha io u = Inr b \<and> io_replace_ok io")
        case False
        then obtain st code where x: "receive_turn sha io u s1 = (Leaving u False, s1, reject_accepted io u (st, code))"
          "st \<in> error_statuses" "code \<noteq> []"
          using body_failure_status [of sha io u]
          by (cases "receive_body sha io u")
            (fastforce simp: receive_turn_def storage_failed_def error_statuses_def)+
        from rejected [OF x(2,3), of io u] obtain st' code' where
          "reject_accepted io u (st, code) = Reported u code # (if io_response_ok io then [Answered (st', code')] else [])"
          "st' \<in> error_statuses" "code' \<noteq> []" by blast
        with h es x \<open>io_continue_ok io\<close> show ?thesis
          by (intro that(3) [of u code st' code']) (auto simp: handler_steps continue_turn_def)
      next
        case True
        then obtain b where b: "receive_body sha io u = Inr b" "io_replace_ok io" by blast
        note ok = receive_body_Inr [OF b(1)]
        show ?thesis
        proof (cases "io_manifest_err io")
          case None
          with h es b \<open>io_continue_ok io\<close> reserved(2) ok show ?thesis
            by (intro that(4) [of u b])
              (auto simp: handler_steps continue_turn_def receive_turn_def commit_turn_def write_json_atomic_def
                answer_turn_def)
        next
          case (Some e)
          from rejected [of 500 "''manifest_commit_failed''" io u] obtain st' code' where
            "reject_accepted io u (500, ''manifest_commit_failed'') = Reported u ''manifest_commit_failed'' #
               (if io_response_ok io then [Answered (st', code')] else [])"
            "st' \<in> error_statuses" "code' \<noteq> []" by (auto simp: error_statuses_def)
          with h es b Some \<open>io_continue_ok io\<close> show ?thesis
            by (intro that(3) [of u "''manifest_commit_failed''" st' code'])
              (auto simp: handler_steps continue_turn_def receive_turn_def commit_turn_def write_json_atomic_def)
        qed
      qed
    qed
  qed
qed

text \<open>What the client makes of each kind of answer.\<close>

definition quiet_link :: "upload_link \<Rightarrow> bool" where
  "quiet_link lk \<longleftrightarrow> lk_connect lk = None \<and> \<not> lk_stopping lk \<and> lk_send lk = None \<and> lk_body lk = None"

lemma exchange_quiet:
  assumes "quiet_link lk" and "of_hex h = Some d"
  shows "fst (put_exchange host port r n sz h lk) = fst (continue_phase r n lk)"
  using assms by (simp add: quiet_link_def put_exchange_def Let_def split: prod.splits)

lemma status_digits: "st < 1000 \<Longrightarrow> length (decimal st) \<le> 4300"
  using short_decimal [of st 3] by simp

lemma continue_refused:
  assumes "quiet_link lk" and "lk_stream lk = stream (error_lines st reason srv date len @ ls) fin"
    and "reason_ok reason" and "st < 1000" and "st \<noteq> 100" and "len \<le> 16384" and "code \<noteq> []"
    and "lk_error_body lk = Inr (Some (error_value code msg))"
  shows "fst (continue_phase r n lk) = Inl (FLRuntimeError code msg (Some r) (Some n))"
proof -
  obtain hs where hs: "read_http_response (lk_stream lk) = (Inr (int st, hs), stream ls fin)"
    "content_lengths hs = [decimal len]"
    using read_error [OF assms(3) status_digits [OF assms(4)]] assms(2) by metis
  with assms(1,5,8) refusal_understood [OF hs(2) assms(6,7)] show ?thesis
    by (simp add: continue_phase_def quiet_link_def read_upload_response_def refused_upload_def)
qed

lemma continue_continued:
  assumes "quiet_link lk" and "lk_stream lk = stream (continue_lines @ ls) fin"
  shows "fst (continue_phase r n lk) = fst (final_phase r n lk (stream ls fin))"
  using assms read_continue [of ls fin]
  by (simp add: continue_phase_def quiet_link_def read_upload_response_def body_phase_def split: prod.splits)

lemma final_refused:
  assumes "reason_ok reason" and "st < 1000" and "st \<noteq> 201" and "len \<le> 16384" and "code \<noteq> []"
    and "lk_error_body lk = Inr (Some (error_value code msg))"
  shows "fst (final_phase r n lk (stream (error_lines st reason srv date len @ ls) fin)) =
    Inl (FLRuntimeError code msg (Some r) (Some n))"
proof -
  obtain hs where hs: "read_http_response (stream (error_lines st reason srv date len @ ls) fin) =
      (Inr (int st, hs), stream ls fin)" "content_lengths hs = [decimal len]"
    using read_error [OF assms(1) status_digits [OF assms(2)]] by metis
  with assms(3,6) refusal_understood [OF hs(2) assms(4,5)] show ?thesis
    by (simp add: final_phase_def read_upload_response_def refused_upload_def)
qed

lemma final_created: "fst (final_phase r n lk (stream (created_lines srv date @ ls) fin)) = Inr ()"
proof -
  obtain hs where "read_http_response (stream (created_lines srv date @ ls) fin) = (Inr (201, hs), stream ls fin)"
    "content_lengths hs = [''0'']" using read_created by blast
  then show ?thesis by (simp add: final_phase_def read_upload_response_def)
qed

lemma empty_stream: "\<exists>e. read_http_response (stream [] fin) = (Inl e, stream [] fin)"
  by (cases fin) (simp_all add: read_http_response_def read_line_def stream_def rstrip_set_def)

lemma final_silent: "\<exists>e. fst (final_phase r n lk (stream [] fin)) = Inl e"
  using empty_stream [of fin]
  by (auto simp: final_phase_def read_upload_response_def io_failure_def split: exn.splits)

lemma continue_silent:
  assumes "quiet_link lk" and "lk_stream lk = stream [] fin"
  shows "\<exists>e. fst (continue_phase r n lk) = Inl e"
  using empty_stream [of fin] assms
  by (auto simp: continue_phase_def quiet_link_def read_upload_response_def io_failure_def split: exn.splits)

text \<open>Numbers as text are unambiguous.\<close>

lemma decimal_inj: "decimal m = decimal n \<Longrightarrow> m = n"
  by (metis scan_decimal of_nat_eq_iff option.inject)

lemma text_of_nat_inj:
  assumes "0 < m" and "0 < n" and "text_of_int m = text_of_int n"
  shows "m = n"
proof -
  from assms have "decimal (nat m) = decimal (nat n)" by (simp add: text_of_int_def)
  from decimal_inj [OF this] assms show ?thesis by simp
qed

lemma int_of_decimal_Some: "int_of_text 10 (decimal n) = Some v \<Longrightarrow> v = int n"
proof -
  assume v: "int_of_text 10 (decimal n) = Some v"
  have p: "plain (decimal n)" by simp
  obtain c cs where c: "decimal n = c # cs" using decimal_chars [of n] by (cases "decimal n") auto
  moreover have "c \<in> set (decimal n)" using c by simp
  then have "c \<in> set ''0123456789''" by (rule subsetD [OF conjunct1 [OF decimal_chars]])
  ultimately show ?thesis
    using v plain_strip [OF p] digits_plain [of c] scan_decimal [of n]
    by (simp add: int_of_text_def unsigned_text_def split: if_splits)
qed

text \<open>The path names its round and node.\<close>

lemma path_parts:
  assumes "r @ ''/updates/'' @ t = r' @ ''/updates/'' @ t'" and "CHR ''/'' \<notin> set t" and "CHR ''/'' \<notin> set t'"
  shows "r = r' \<and> t = t'"
proof -
  have w: "takeWhile (\<lambda>c. c \<noteq> CHR ''/'') (rev (x @ ''/updates/'' @ y)) = rev y" if "CHR ''/'' \<notin> set y" for x y
  proof -
    have "takeWhile (\<lambda>c. c \<noteq> CHR ''/'') (rev y @ z) = rev y @ takeWhile (\<lambda>c. c \<noteq> CHR ''/'') z" for z
      using that by (intro takeWhile_append2) auto
    then show ?thesis by simp
  qed
  from assms(1) w [OF assms(2), of r] w [OF assms(3), of r'] have "t = t'" by (metis rev_rev_ident)
  with assms(1) show ?thesis by simp
qed

lemma digits_no_slash: "0 < n \<Longrightarrow> CHR ''/'' \<notin> set (text_of_int n)"
proof -
  have "CHR ''/'' \<notin> set ''0123456789''" by code_simp
  then show "0 < n \<Longrightarrow> CHR ''/'' \<notin> set (text_of_int n)"
    using decimal_chars [of "nat n"] by (auto simp: text_of_int_def)
qed

lemma update_path_upload:
  assumes "update_path r n = upload_prefix r' @ text_of_int n'" and "0 < n" and "0 < n'"
  shows "r = r' \<and> n = n'"
proof -
  from assms(1) have "r @ ''/updates/'' @ text_of_int n = r' @ ''/updates/'' @ text_of_int n'"
    by (simp add: update_path_def upload_prefix_def)
  from path_parts [OF this digits_no_slash [OF assms(2)] digits_no_slash [OF assms(3)]]
  show ?thesis using text_of_nat_inj assms(2,3) by blast
qed

text \<open>The headers of the client's request.\<close>

lemma client_headers:
  "header_values (rq_headers (client_request host port r n sz d)) ''Transfer-Encoding'' = []"
  "header_values (rq_headers (client_request host port r n sz d)) ''Expect'' = [''100-continue'']"
  "header_values (rq_headers (client_request host port r n sz d)) ''Connection'' = [''close'']"
  "header_values (rq_headers (client_request host port r n sz d)) ''Content-Type'' = [''application/octet-stream'']"
  "header_values (rq_headers (client_request host port r n sz d)) ''Content-Length'' = [text_of_int (int sz)]"
  "header_values (rq_headers (client_request host port r n sz d)) ''Content-Digest'' = [content_digest d]"
proof -
  have l: "lower ''Host'' = ''host''" "lower ''Content-Length'' = ''content-length''"
    "lower ''Content-Digest'' = ''content-digest''" "lower ''Content-Type'' = ''content-type''"
    "lower ''Expect'' = ''expect''" "lower ''Connection'' = ''connection''"
    "lower ''Transfer-Encoding'' = ''transfer-encoding''" by code_simp+
  show "header_values (rq_headers (client_request host port r n sz d)) ''Transfer-Encoding'' = []"
    "header_values (rq_headers (client_request host port r n sz d)) ''Expect'' = [''100-continue'']"
    "header_values (rq_headers (client_request host port r n sz d)) ''Connection'' = [''close'']"
    "header_values (rq_headers (client_request host port r n sz d)) ''Content-Type'' = [''application/octet-stream'']"
    "header_values (rq_headers (client_request host port r n sz d)) ''Content-Length'' = [text_of_int (int sz)]"
    "header_values (rq_headers (client_request host port r n sz d)) ''Content-Digest'' = [content_digest d]"
    by (simp_all add: header_values_def client_request_def l)
qed

text \<open>The reservation of a client's request is for its own round, node, length and digest.\<close>

lemma client_reserved:
  assumes "judge_upload storage (client_request host port r n sz d) s = Inr u" and "0 < n"
  shows "rx_round (uc_round u) = r \<and> uc_node u = n \<and> uc_length u = sz \<and> uc_digest u = d"
proof -
  note j = judge_upload_Inr [OF assms(1)]
  from j(11) have "update_path r n = upload_prefix (rx_round (uc_round u)) @ text_of_int (uc_node u)"
    by (simp add: client_request_def)
  from update_path_upload [OF this assms(2) j(3)] have rn: "r = rx_round (uc_round u)" "n = uc_node u" by blast+
  from j(12) have h: "int_of_text 10 (text_of_int (int sz)) = Some (int (uc_length u))"
    "parse_content_digest (content_digest d) = Some (uc_digest u)"
    unfolding check_headers_iff client_headers by auto
  from h(1) have "int (uc_length u) = int sz" by (auto simp: text_of_int_def dest: int_of_decimal_Some)
  with rn h(2) show ?thesis by (simp add: parse_content_digest_encode split: if_splits)
qed

lemma hex_of_digits: "list_all hex_digit (hex_of bs)"
proof -
  have "hex_digit (hex_char n)" if "n < 16" for n
  proof -
    have "length ''0123456789abcdef'' = 16" by simp
    with that show ?thesis unfolding hex_digit_def hex_char_def by (metis nth_mem)
  qed
  then show ?thesis by (induction bs) simp_all
qed

section \<open>Samples\<close>

definition uplink_round :: string where
  "uplink_round = ''12345678-1234-4123-8123-123456789abc''"

definition listening :: upload_server where
  "listening = install_round sample_context (uw_server (fresh_uploads no_files))"

definition sample_put :: http_request where
  "sample_put = client_request ''server'' 8080 uplink_round 2 3 (zero_sha [1, 2, 3])"

definition plain_style :: answer_style where
  "plain_style = \<lparr>as_reason = (\<lambda>_. ''Reason''), as_server = ''s'', as_date = ''d'', as_length = (\<lambda>_. 60)\<rparr>"

definition sample_events :: "upload_event list" where
  "sample_events = [Accepted sample_upload, Answered (100, []), Committed sample_upload [1, 2, 3], Answered (201, [])]"

definition sample_link :: upload_link where
  "sample_link = \<lparr>lk_connect = None, lk_stopping = False, lk_send = None,
     lk_stream = stream (concat (map (answer_lines plain_style) sample_events)) None, lk_body = None,
     lk_error_body = Inr (Some (error_value [] ''m''))\<rparr>"

definition checking_runtime :: server_rt where
  "checking_runtime = waiting_runtime\<lparr>sr_round := Some uplink_round, sr_max := 10, sr_match := False,
     sr_updates := (\<lambda>n. (Json (PDict (commit_manifest zero_sha sample_upload [1, 2, 3])),
        Regular [1, 2, 3] \<lparr>st_dev = 0, st_ino = 0, st_size = 3, st_mtime_ns = 0\<rparr>))\<rparr>"

lemma sample_parts: "plain ''server''" "plain uplink_round" "uuid4_string uplink_round"
  by code_simp+

lemma sample_put_judged: "judge_upload True sample_put listening = Inr sample_upload"
proof -
  have c: "us_context listening = Some (sample_context\<lparr>rx_nodes := [1, 2]\<rparr>)" "us_files listening = no_files"
    "us_active listening = {}" "us_used listening = {}"
    by (simp_all add: listening_def install_round_def sample_context_def fresh_uploads_def)
  have r: "rx_round sample_context = uplink_round" "rx_max sample_context = 10"
    by (simp_all add: sample_context_def uplink_round_def)
  have "length (text_of_int 2) \<le> 4300" "length (text_of_int 3) \<le> 4300" by code_simp+
  then have p: "path_node uplink_round (rq_path sample_put) = Inr 2" "int_of_text 10 (text_of_int 3) = Some 3"
    using int_of_decimal [of 3]
    by (simp_all add: path_node_iff sample_put_def client_request_def update_path_def upload_prefix_def text_of_int_def)
  have h: "check_headers 10 (rq_headers sample_put) = Inr (3, zero_sha [1, 2, 3])"
    unfolding check_headers_iff sample_put_def client_headers using p(2)
    by (simp add: parse_content_digest_encode zero_sha_def)
  from judge_upload_InrI [of listening _ sample_put 2 3 "zero_sha [1, 2, 3]" True, OF c(1)] p h r c show ?thesis
    by (simp add: sample_upload_def no_files_def) (simp add: sample_put_def client_request_def)
qed

lemma sample_session: "\<exists>s. upload_session zero_sha True fine_io sample_put listening = (sample_events, s)"
proof -
  have "wants_continue sample_put"
  proof -
    have "lower ''100-continue'' = ''100-continue''" by code_simp
    then show ?thesis unfolding wants_continue_def sample_put_def client_headers by simp
  qed
  then have "open_request True True sample_put listening = (Inr sample_upload, book_upload sample_upload listening)"
    using sample_put_judged by (simp add: open_request_def reserve_upload_def)
  moreover have "io_continue_ok fine_io" "io_replace_ok fine_io" "io_manifest_err fine_io = None" "io_response_ok fine_io"
    by (simp_all add: fine_io_def)
  ultimately show ?thesis
    by (simp add: upload_session_def handler_steps continue_turn_def receive_turn_def commit_turn_def
        write_json_atomic_def answer_turn_def sample_body sample_events_def)
qed

section \<open>Guarantees\<close>





end
