(* ===== verification/Server_Transport.thy ===== *)
theory Server_Transport
  imports Client_Transport "HOL-Library.Multiset"
begin

text \<open>
  The sending half of \<^verbatim>\<open>ServerTransport\<close> in \<^verbatim>\<open>wfb_ng/fl/transport.py\<close>: its life cycle and the downlink
  operations. A downlink is a \<^verbatim>\<open>uftp\<close> process with a monitor thread; callers start it, wait for it and
  cancel it, each on a thread of its own, and keep a reference to the operation they asked for. Operations
  are objects in a store, named by their handles; a step is what one thread does between two releases of
  the lock. \<open>Running\<close>, \<open>Ended\<close> and \<open>Reaped\<close> tell a process that runs, one that has ended, and one whose exit
  code the monitor has collected - which is what \<^verbatim>\<open>process.poll()\<close> sees. Signals only make a process end.
\<close>

section \<open>Life cycle\<close>

record server_transport =
  tp_ready :: bool
  tp_state :: transport_state
  tp_listener :: bool

definition server_transport_init :: server_transport where
  "server_transport_init = \<lparr>tp_ready = False, tp_state = TsNew, tp_listener = False\<rparr>"

definition tp_start :: "bool \<Rightarrow> bool \<Rightarrow> server_transport \<Rightarrow> unit res \<times> server_transport" where
  "tp_start has_uftp bind_ok s =
     (if tp_state s \<noteq> TsNew then (Inl (fl_error ''transport_already_started'' ''started''), s)
      else if \<not> has_uftp
      then (Inl (fl_error ''transport_unavailable'' ''no uftp''), s\<lparr>tp_state := TsFailed\<rparr>)
      else if \<not> bind_ok
      then (Inl (fl_error ''transport_start_failed'' ''listener''), s\<lparr>tp_state := TsFailed\<rparr>)
      else (Inr (), s\<lparr>tp_listener := True, tp_ready := True, tp_state := TsReady\<rparr>))"

definition tp_poll_failure :: "bool \<Rightarrow> server_transport \<Rightarrow> exn option \<times> server_transport" where
  "tp_poll_failure listener_alive s =
     (if tp_ready s \<and> tp_listener s \<and> \<not> listener_alive
      then (Some (fl_error ''transport_failed'' ''listener ended''), s\<lparr>tp_ready := False, tp_state := TsFailed\<rparr>)
      else (None, s))"

text \<open>\<^verbatim>\<open>close\<close> up to and after the cancellation of an operation that is not completed.\<close>

definition tp_close :: "server_transport \<Rightarrow> server_transport" where
  "tp_close s =
     (if tp_state s = TsClosed then s else s\<lparr>tp_ready := False, tp_listener := False, tp_state := TsClosed\<rparr>)"

section \<open>Downlink operations\<close>

datatype process = Running | Ended int | Reaped int

datatype op_status = OpActive | OpCancelling | OpCompleted

datatype monitor = MonWaiting | MonJudging int bool | MonDone

record operation =
  op_files :: "string list"
  op_status_file :: "string list option"
  op_process :: process
  op_state :: op_status
  op_error :: "exn option"
  op_monitor :: monitor

text \<open>The transport's operations: the store, the current handle, the next free one; the callers that wait
  inside \<^verbatim>\<open>wait_downlink\<close> and \<^verbatim>\<open>cancel_downlink\<close>, the latter with the answer they will give.\<close>

record downlink =
  dk_ops :: "nat \<Rightarrow> operation option"
  dk_current :: "nat option"
  dk_next :: nat
  dk_waiting :: "nat multiset"
  dk_cancelling :: "(nat \<times> bool) multiset"

definition no_downlink :: downlink where
  "no_downlink = \<lparr>dk_ops = (\<lambda>_. None), dk_current = None, dk_next = 0, dk_waiting = {#}, dk_cancelling = {#}\<rparr>"

definition new_operation :: "string \<Rightarrow> operation" where
  "new_operation r = \<lparr>op_files = [r @ ''/model.bin'', r @ ''/model.manifest.json''], op_status_file = None,
     op_process = Running, op_state = OpActive, op_error = None, op_monitor = MonWaiting\<rparr>"

definition busy :: "downlink \<Rightarrow> bool" where
  "busy d \<longleftrightarrow> (case Option.bind (dk_current d) (dk_ops d) of None \<Rightarrow> False | Some p \<Rightarrow> op_state p \<noteq> OpCompleted)"

definition put_op :: "nat \<Rightarrow> operation \<Rightarrow> downlink \<Rightarrow> downlink" where
  "put_op h p d = d\<lparr>dk_ops := (dk_ops d)(h := Some p)\<rparr>"

text \<open>\<^verbatim>\<open>start_downlink\<close>: the checks of the status file, then the operation under the lock.\<close>

definition start_downlink ::
  "string \<Rightarrow> bool \<Rightarrow> exn option \<Rightarrow> downlink \<Rightarrow> nat res \<times> downlink" where
  "start_downlink r status_ok popen_err d =
     (if \<not> status_ok then (Inl (fl_error ''transport_failed'' ''status file''), d)
      else if busy d then (Inl (RuntimeError ''a downlink is active''), d)
      else (case popen_err of
          Some e \<Rightarrow> (Inl e, d)
        | None \<Rightarrow>
            (Inr (dk_next d),
             (put_op (dk_next d) (new_operation r) d)\<lparr>dk_current := Some (dk_next d), dk_next := Suc (dk_next d)\<rparr>)))"

text \<open>\<^verbatim>\<open>_monitor_downlink\<close>: collect the exit code, look whether the operation is being cancelled, judge.\<close>

definition judge_downlink :: "int list \<Rightarrow> int \<Rightarrow> bool \<Rightarrow> operation \<Rightarrow> exn option" where
  "judge_downlink uids rc cancelled p =
     (if cancelled then None
      else if rc \<noteq> 0 then Some (fl_error ''transport_failed'' ''uftp exit code'')
      else (case validate_uftp_status (op_status_file p) uids (op_files p) of
          Inl e \<Rightarrow> Some e | Inr _ \<Rightarrow> None))"

definition reap :: "int \<Rightarrow> operation \<Rightarrow> operation" where
  "reap rc p = p\<lparr>op_process := Reaped rc\<rparr>"

definition look :: "int \<Rightarrow> operation \<Rightarrow> operation" where
  "look rc p = p\<lparr>op_monitor := MonJudging rc (op_state p = OpCancelling)\<rparr>"

definition finish :: "int list \<Rightarrow> int \<Rightarrow> bool \<Rightarrow> operation \<Rightarrow> operation" where
  "finish uids rc cancelled p =
     p\<lparr>op_error := judge_downlink uids rc cancelled p, op_state := OpCompleted, op_monitor := MonDone\<rparr>"

text \<open>\<^verbatim>\<open>wait_downlink\<close> and \<^verbatim>\<open>cancel_downlink\<close> up to where they wait; an answer at once is \<open>Inr (Some _)\<close>.\<close>

definition unknown_handle :: exn where
  "unknown_handle = RuntimeError ''unknown operation handle''"

definition wait_call :: "nat \<Rightarrow> downlink \<Rightarrow> unit res \<times> downlink" where
  "wait_call h d =
     (if dk_current d \<noteq> Some h then (Inl unknown_handle, d)
      else (Inr (), d\<lparr>dk_waiting := add_mset h (dk_waiting d)\<rparr>))"

fun reaped :: "process \<Rightarrow> bool" where
  "reaped (Reaped rc) = True"
| "reaped _ = False"

definition cancel_call :: "nat \<Rightarrow> downlink \<Rightarrow> bool option res \<times> downlink" where
  "cancel_call h d =
     (case (if dk_current d = Some h then dk_ops d h else None) of
        None \<Rightarrow> (Inl unknown_handle, d)
      | Some p \<Rightarrow> (case op_state p of
          OpCompleted \<Rightarrow> (Inr (Some False), d)
        | OpActive \<Rightarrow>
            if reaped (op_process p)
            then (Inr None, d\<lparr>dk_cancelling := add_mset (h, False) (dk_cancelling d)\<rparr>)
            else (Inr None, (put_op h (p\<lparr>op_state := OpCancelling\<rparr>) d)
                              \<lparr>dk_cancelling := add_mset (h, True) (dk_cancelling d)\<rparr>)
        | OpCancelling \<Rightarrow> (Inr None, d\<lparr>dk_cancelling := add_mset (h, True) (dk_cancelling d)\<rparr>)))"

section \<open>Steps\<close>

datatype dl_event =
    Finished nat int bool
  | Waited nat "exn option"
  | CancelAnswered nat bool

text \<open>One step of some thread, with what it makes known.\<close>

inductive dl_step :: "int list \<Rightarrow> downlink \<Rightarrow> dl_event list \<Rightarrow> downlink \<Rightarrow> bool" for uids where
  start: "start_downlink r ok err d = (x, d') \<Longrightarrow> dl_step uids d [] d'"
| ends: "dk_ops d h = Some p \<Longrightarrow> op_process p = Running \<Longrightarrow>
    dl_step uids d [] (put_op h (p\<lparr>op_process := Ended rc, op_status_file := lines\<rparr>) d)"
| reaps: "dk_ops d h = Some p \<Longrightarrow> op_process p = Ended rc \<Longrightarrow> dl_step uids d [] (put_op h (reap rc p) d)"
| looks: "dk_ops d h = Some p \<Longrightarrow> op_process p = Reaped rc \<Longrightarrow> op_monitor p = MonWaiting \<Longrightarrow>
    dl_step uids d [] (put_op h (look rc p) d)"
| finishes: "dk_ops d h = Some p \<Longrightarrow> op_monitor p = MonJudging rc c \<Longrightarrow>
    dl_step uids d [Finished h rc c] (put_op h (finish uids rc c p) d)"
| wait: "wait_call h d = (x, d') \<Longrightarrow> dl_step uids d [] d'"
| waited: "h \<in># dk_waiting d \<Longrightarrow> dk_ops d h = Some p \<Longrightarrow> op_state p = OpCompleted \<Longrightarrow>
    dl_step uids d [Waited h (op_error p)] (d\<lparr>dk_waiting := dk_waiting d - {#h#}\<rparr>)"
| cancel: "cancel_call h d = (x, d') \<Longrightarrow>
    dl_step uids d (case x of Inr (Some b) \<Rightarrow> [CancelAnswered h b] | _ \<Rightarrow> []) d'"
| cancelled: "(h, b) \<in># dk_cancelling d \<Longrightarrow> dk_ops d h = Some p \<Longrightarrow> op_state p = OpCompleted \<Longrightarrow>
    dl_step uids d [CancelAnswered h b] (d\<lparr>dk_cancelling := dk_cancelling d - {#(h, b)#}\<rparr>)"

inductive dl_run :: "int list \<Rightarrow> downlink \<Rightarrow> dl_event list \<Rightarrow> bool" for uids where
  fresh: "dl_run uids no_downlink []"
| step: "dl_run uids d es \<Longrightarrow> dl_step uids d fs d' \<Longrightarrow> dl_run uids d' (es @ fs)"

section \<open>The invariant\<close>

text \<open>What an operation says about itself: the monitor has judged exactly the completed ones, on the exit
  code it collected, and it has seen the cancellation that stands.\<close>

definition op_ok :: "operation \<Rightarrow> bool" where
  "op_ok p \<longleftrightarrow> (op_monitor p = MonDone \<longleftrightarrow> op_state p = OpCompleted) \<and>
     (op_state p = OpCompleted \<longrightarrow> reaped (op_process p)) \<and>
     (\<forall>rc c. op_monitor p = MonJudging rc c \<longrightarrow> op_process p = Reaped rc \<and> (c \<longleftrightarrow> op_state p = OpCancelling))"

definition store_ok :: "downlink \<Rightarrow> bool" where
  "store_ok d \<longleftrightarrow> (\<forall>h p. dk_ops d h = Some p \<longrightarrow>
       op_ok p \<and> h < dk_next d \<and> (dk_current d \<noteq> Some h \<longrightarrow> op_state p = OpCompleted)) \<and>
     (\<forall>h. dk_current d = Some h \<longrightarrow> dk_ops d h \<noteq> None)"

fun finishes_of :: "nat \<Rightarrow> dl_event list \<Rightarrow> (int \<times> bool) list" where
  "finishes_of h [] = []"
| "finishes_of h (Finished g rc c # es) = (if g = h then [(rc, c)] else []) @ finishes_of h es"
| "finishes_of h (e # es) = finishes_of h es"

lemma finishes_of_append [simp]: "finishes_of h (es @ fs) = finishes_of h es @ finishes_of h fs"
  by (induction h es rule: finishes_of.induct) simp_all

lemma finishes_of_iff: "(rc, c) \<in> set (finishes_of h es) \<longleftrightarrow> Finished h rc c \<in> set es"
  by (induction h es rule: finishes_of.induct) auto

text \<open>The events tell the truth about the store. For one operation: what its verdicts, the error a waiter
  got, and the answer that it was cancelled say.\<close>

definition verdict_ok :: "int list \<Rightarrow> operation option \<Rightarrow> (int \<times> bool) list \<Rightarrow> bool" where
  "verdict_ok uids x vs \<longleftrightarrow> (case x of
     None \<Rightarrow> vs = []
   | Some p \<Rightarrow> if op_state p = OpCompleted
       then \<exists>rc c. vs = [(rc, c)] \<and> op_process p = Reaped rc \<and> op_error p = judge_downlink uids rc c p
       else vs = [])"

definition waited_ok :: "operation option \<Rightarrow> exn option \<Rightarrow> bool" where
  "waited_ok x e \<longleftrightarrow> (case x of None \<Rightarrow> False | Some p \<Rightarrow> op_state p = OpCompleted \<and> op_error p = e)"

definition stopped_ok :: "operation option \<Rightarrow> (int \<times> bool) list \<Rightarrow> bool" where
  "stopped_ok x vs \<longleftrightarrow> (case x of
     None \<Rightarrow> False
   | Some p \<Rightarrow> op_state p = OpCancelling \<or> op_state p = OpCompleted \<and> (\<exists>rc. (rc, True) \<in> set vs))"

definition verdicts_ok :: "int list \<Rightarrow> downlink \<Rightarrow> dl_event list \<Rightarrow> bool" where
  "verdicts_ok uids d es \<longleftrightarrow> (\<forall>h. verdict_ok uids (dk_ops d h) (finishes_of h es))"

definition waits_ok :: "downlink \<Rightarrow> dl_event list \<Rightarrow> bool" where
  "waits_ok d es \<longleftrightarrow> (\<forall>h e. Waited h e \<in> set es \<longrightarrow> waited_ok (dk_ops d h) e)"

definition cancels_ok :: "downlink \<Rightarrow> dl_event list \<Rightarrow> bool" where
  "cancels_ok d es \<longleftrightarrow> (\<forall>h. (h, True) \<in># dk_cancelling d \<or> CancelAnswered h True \<in> set es \<longrightarrow>
     stopped_ok (dk_ops d h) (finishes_of h es))"

definition dl_inv :: "int list \<Rightarrow> downlink \<Rightarrow> dl_event list \<Rightarrow> bool" where
  "dl_inv uids d es \<longleftrightarrow> store_ok d \<and> verdicts_ok uids d es \<and> waits_ok d es \<and> cancels_ok d es"

lemma put_op_fields [simp]:
  "dk_ops (put_op h p d) = (dk_ops d)(h := Some p)" "dk_current (put_op h p d) = dk_current d"
  "dk_next (put_op h p d) = dk_next d" "dk_waiting (put_op h p d) = dk_waiting d"
  "dk_cancelling (put_op h p d) = dk_cancelling d"
  by (simp_all add: put_op_def)

lemma new_operation_ok: "op_ok (new_operation r)" "op_state (new_operation r) = OpActive"
  by (simp_all add: op_ok_def new_operation_def)

lemma store_put:
  assumes "store_ok d" and "dk_ops d h = Some p" and "op_ok q"
    and "op_state p = OpCompleted \<Longrightarrow> op_state q = OpCompleted"
  shows "store_ok (put_op h q d)"
  using assms by (auto simp: store_ok_def)

text \<open>Starting an operation leaves the others alone.\<close>

lemma start_cases:
  assumes "start_downlink r ok err d = (x, d')"
  obtains (refused) e where "x = Inl e" "d' = d"
  | (started) "x = Inr (dk_next d)" "\<not> busy d"
      "d' = (put_op (dk_next d) (new_operation r) d)\<lparr>dk_current := Some (dk_next d), dk_next := Suc (dk_next d)\<rparr>"
proof (cases "ok \<and> \<not> busy d \<and> err = None")
  case True
  with assms show ?thesis by (intro started) (auto simp: start_downlink_def)
next
  case False
  with assms have "d' = d \<and> (\<exists>e. x = Inl e)" by (auto simp: start_downlink_def split: if_splits option.splits)
  with refused show ?thesis by blast
qed

lemma start_inv:
  assumes "start_downlink r ok err d = (x, d')" and "dl_inv uids d es"
  shows "dl_inv uids d' es"
  using assms(1)
proof (cases rule: start_cases)
  case refused
  with assms(2) show ?thesis by simp
next
  case started
  have free: "dk_ops d (dk_next d) = None"
    using assms(2) by (cases "dk_ops d (dk_next d)") (auto simp: dl_inv_def store_ok_def)
  have idle: "op_state p = OpCompleted" if "dk_ops d h = Some p" for h p
    using that started(2) assms(2) by (cases "dk_current d = Some h") (auto simp: dl_inv_def store_ok_def busy_def)
  have fresh: "finishes_of (dk_next d) es = []"
  proof -
    have "verdict_ok uids (dk_ops d (dk_next d)) (finishes_of (dk_next d) es)"
      using assms(2) unfolding dl_inv_def verdicts_ok_def by blast
    with free show ?thesis by (simp add: verdict_ok_def)
  qed
  have ops: "dk_ops d' = (dk_ops d)(dk_next d := Some (new_operation r))" using started by simp
  have "store_ok d'"
    unfolding store_ok_def
  proof (intro conjI allI impI)
    fix h p assume h: "dk_ops d' h = Some p"
    have "op_ok p \<and> h < dk_next d' \<and> (dk_current d' \<noteq> Some h \<longrightarrow> op_state p = OpCompleted)"
    proof (cases "h = dk_next d")
      case True
      with h ops have "p = new_operation r" by simp
      with True started(3) show ?thesis by (simp add: new_operation_ok)
    next
      case False
      with h have p: "dk_ops d h = Some p" by (simp add: ops)
      with assms(2) have "op_ok p \<and> h < dk_next d" by (simp add: dl_inv_def store_ok_def)
      with idle [OF p] started(3) show ?thesis by simp
    qed
    then show "op_ok p" "h < dk_next d'" "dk_current d' \<noteq> Some h \<Longrightarrow> op_state p = OpCompleted" by blast+
  next
    fix h assume "dk_current d' = Some h"
    with started(3) show "dk_ops d' h \<noteq> None" by (simp add: ops)
  qed
  moreover have "verdicts_ok uids d' es" using assms(2) fresh new_operation_ok
    by (simp add: dl_inv_def verdicts_ok_def ops) (simp add: verdict_ok_def)
  moreover have "waits_ok d' es"
    unfolding waits_ok_def
  proof (intro allI impI)
    fix h e assume "Waited h e \<in> set es"
    with assms(2) have "waited_ok (dk_ops d h) e" by (simp add: dl_inv_def waits_ok_def)
    with free show "waited_ok (dk_ops d' h) e" by (cases "h = dk_next d") (simp_all add: ops waited_ok_def)
  qed
  moreover have "cancels_ok d' es"
    unfolding cancels_ok_def
  proof (intro allI impI)
    fix h assume "(h, True) \<in># dk_cancelling d' \<or> CancelAnswered h True \<in> set es"
    with assms(2) started have "stopped_ok (dk_ops d h) (finishes_of h es)" by (auto simp: dl_inv_def cancels_ok_def)
    with free show "stopped_ok (dk_ops d' h) (finishes_of h es)"
      by (cases "h = dk_next d") (simp_all add: ops stopped_ok_def)
  qed
  ultimately show ?thesis by (simp add: dl_inv_def)
qed

text \<open>A change of an operation: what has to be shown for it, the others are as before.\<close>

lemma change_op:
  assumes i: "dl_inv uids d es" and p: "dk_ops d h = Some p" "op_state p \<noteq> OpCompleted" and q: "op_ok q"
    and v: "verdict_ok uids (Some q) (finishes_of h (es @ fs))"
    and c: "op_state p = OpCancelling \<Longrightarrow> stopped_ok (Some q) (finishes_of h (es @ fs))"
    and f: "fs = [] \<or> (\<exists>rc c. fs = [Finished h rc c])"
  shows "dl_inv uids (put_op h q d) (es @ fs)"
proof -
  have o: "finishes_of g (es @ fs) = finishes_of g es" if "g \<noteq> h" for g using f that by auto
  have s: "store_ok (put_op h q d)" using i p q by (auto simp: dl_inv_def store_ok_def)
  have "verdict_ok uids (dk_ops (put_op h q d) g) (finishes_of g (es @ fs))" for g
  proof (cases "g = h")
    case False
    with i o [OF False] show ?thesis by (simp add: dl_inv_def verdicts_ok_def del: finishes_of_append)
  qed (use v in simp)
  moreover have "waited_ok (dk_ops (put_op h q d) g) e" if "Waited g e \<in> set (es @ fs)" for g e
  proof -
    have "Waited g e \<in> set es" using that f by auto
    with i have w: "waited_ok (dk_ops d g) e" by (simp add: dl_inv_def waits_ok_def)
    with p have "g \<noteq> h" by (auto simp: waited_ok_def)
    with w show ?thesis by simp
  qed
  moreover have "stopped_ok (dk_ops (put_op h q d) g) (finishes_of g (es @ fs))"
    if "(g, True) \<in># dk_cancelling (put_op h q d) \<or> CancelAnswered g True \<in> set (es @ fs)" for g
  proof -
    have "(g, True) \<in># dk_cancelling d \<or> CancelAnswered g True \<in> set es" using that f by auto
    with i have w: "stopped_ok (dk_ops d g) (finishes_of g es)" by (auto simp: dl_inv_def cancels_ok_def)
    show ?thesis
    proof (cases "g = h")
      case True
      with w p c show ?thesis by (simp add: stopped_ok_def)
    next
      case False
      with w o [OF False] show ?thesis by (simp del: finishes_of_append)
    qed
  qed
  ultimately show ?thesis using s unfolding dl_inv_def verdicts_ok_def waits_ok_def cancels_ok_def by blast
qed

lemma change_inv:
  assumes "dl_inv uids d es" and "dk_ops d h = Some p" and "op_state p \<noteq> OpCompleted" and "op_ok q"
    and "op_state q \<noteq> OpCompleted" and "op_state p = OpCancelling \<Longrightarrow> op_state q = OpCancelling"
  shows "dl_inv uids (put_op h q d) es"
proof -
  have "verdict_ok uids (dk_ops d h) (finishes_of h es)"
    using assms(1) unfolding dl_inv_def verdicts_ok_def by blast
  with assms(2,3) have "finishes_of h es = []" by (simp add: verdict_ok_def)
  with change_op [OF assms(1-4), of "[]"] assms(5,6) show ?thesis by (simp add: verdict_ok_def stopped_ok_def)
qed

lemma finish_inv:
  assumes i: "dl_inv uids d es" and p: "dk_ops d h = Some p" and m: "op_monitor p = MonJudging rc c"
  shows "dl_inv uids (put_op h (finish uids rc c p) d) (es @ [Finished h rc c])"
proof -
  let ?q = "finish uids rc c p"
  have ok: "op_ok p" using i p by (simp add: dl_inv_def store_ok_def)
  then have s: "op_state p \<noteq> OpCompleted" "op_process p = Reaped rc" "c \<longleftrightarrow> op_state p = OpCancelling"
    using m by (auto simp: op_ok_def)
  have q: "op_state ?q = OpCompleted" "op_process ?q = Reaped rc" "op_ok ?q"
    "op_error ?q = judge_downlink uids rc c ?q"
    using s by (simp_all add: finish_def op_ok_def judge_downlink_def)
  have "verdict_ok uids (dk_ops d h) (finishes_of h es)"
    using i unfolding dl_inv_def verdicts_ok_def by blast
  with p s(1) have "finishes_of h es = []" by (simp add: verdict_ok_def)
  then have "finishes_of h (es @ [Finished h rc c]) = [(rc, c)]" by simp
  with q s(3) have v: "verdict_ok uids (Some ?q) (finishes_of h (es @ [Finished h rc c]))"
    "op_state p = OpCancelling \<Longrightarrow> stopped_ok (Some ?q) (finishes_of h (es @ [Finished h rc c]))"
    by (simp_all add: verdict_ok_def stopped_ok_def del: finishes_of_append)
  show ?thesis by (rule change_op [OF i p s(1) q(3) v]) simp_all
qed

lemma waits_call_inv: "wait_call h d = (x, d') \<Longrightarrow> dl_inv uids d es \<Longrightarrow> dl_inv uids d' es"
  by (auto simp: wait_call_def dl_inv_def store_ok_def verdicts_ok_def waits_ok_def cancels_ok_def split: if_splits)

lemma cancel_cases:
  assumes "cancel_call h d = (x, d')"
  obtains (unknown) e where "x = Inl e" "d' = d"
  | (complete) p where "x = Inr (Some False)" "d' = d" "dk_ops d h = Some p" "op_state p = OpCompleted"
  | (natural) p where "x = Inr None" "dk_ops d h = Some p" "op_state p = OpActive"
      "d' = d\<lparr>dk_cancelling := add_mset (h, False) (dk_cancelling d)\<rparr>"
  | (stopping) p where "x = Inr None" "dk_ops d h = Some p" "op_state p = OpActive" "\<not> reaped (op_process p)"
      "d' = (put_op h (p\<lparr>op_state := OpCancelling\<rparr>) d)\<lparr>dk_cancelling := add_mset (h, True) (dk_cancelling d)\<rparr>"
  | (again) p where "x = Inr None" "dk_ops d h = Some p" "op_state p = OpCancelling"
      "d' = d\<lparr>dk_cancelling := add_mset (h, True) (dk_cancelling d)\<rparr>"
proof -
  show ?thesis
  proof (cases "if dk_current d = Some h then dk_ops d h else None")
    case None
    with assms show ?thesis by (intro unknown [of unknown_handle]) (auto simp: cancel_call_def)
  next
    case (Some p)
    then have p: "dk_ops d h = Some p" by (simp split: if_splits)
    show ?thesis
    proof (cases "op_state p")
      case OpActive
      with Some p assms natural [of p] stopping [of p] show ?thesis
        by (cases "reaped (op_process p)") (auto simp: cancel_call_def)
    next
      case OpCancelling
      with Some p assms again [of p] show ?thesis by (auto simp: cancel_call_def)
    next
      case OpCompleted
      with Some p assms complete [of p] show ?thesis by (auto simp: cancel_call_def)
    qed
  qed
qed

lemma more_cancelling:
  assumes "dl_inv uids d es" and "b \<Longrightarrow> stopped_ok (dk_ops d h) (finishes_of h es)"
  shows "dl_inv uids (d\<lparr>dk_cancelling := add_mset (h, b) (dk_cancelling d)\<rparr>) es"
  using assms by (auto simp: dl_inv_def store_ok_def verdicts_ok_def waits_ok_def cancels_ok_def)

lemma answer_inv:
  assumes "dl_inv uids d es" and "b \<Longrightarrow> (h, True) \<in># dk_cancelling d"
  shows "dl_inv uids d (es @ [CancelAnswered h b])"
  using assms by (auto simp: dl_inv_def store_ok_def verdicts_ok_def waits_ok_def cancels_ok_def)

lemma fewer_cancelling:
  "dl_inv uids d es \<Longrightarrow> dl_inv uids (d\<lparr>dk_cancelling := dk_cancelling d - m\<rparr>) es"
  by (auto simp: dl_inv_def store_ok_def verdicts_ok_def waits_ok_def cancels_ok_def dest: in_diffD)

lemma dl_step_inv:
  assumes "dl_step uids d fs d'" and i: "dl_inv uids d es"
  shows "dl_inv uids d' (es @ fs)"
  using assms(1)
proof cases
  case (start r ok err x)
  with start_inv i show ?thesis by simp
next
  case (ends h p ls rc)
  have "op_ok p" using i ends by (simp add: dl_inv_def store_ok_def)
  then have "op_state p \<noteq> OpCompleted" "op_ok (p\<lparr>op_process := Ended rc, op_status_file := ls\<rparr>)"
    using ends by (auto simp: op_ok_def)
  with change_inv [OF i ends(3)] ends show ?thesis by simp
next
  case (reaps h p rc)
  have "op_ok p" using i reaps by (simp add: dl_inv_def store_ok_def)
  then have "op_state p \<noteq> OpCompleted" "op_ok (reap rc p)" using reaps by (auto simp: op_ok_def reap_def)
  with change_inv [OF i reaps(3)] reaps show ?thesis by (simp add: reap_def)
next
  case (looks h p rc)
  have "op_ok p" using i looks by (simp add: dl_inv_def store_ok_def)
  then have "op_state p \<noteq> OpCompleted" "op_ok (look rc p)" using looks by (auto simp: op_ok_def look_def)
  with change_inv [OF i looks(3)] looks show ?thesis by (simp add: look_def)
next
  case (finishes h p rc c)
  with finish_inv i show ?thesis by simp
next
  case (wait h x)
  with waits_call_inv i show ?thesis by simp
next
  case (waited h p)
  with i show ?thesis
    by (auto simp: dl_inv_def store_ok_def verdicts_ok_def waits_ok_def cancels_ok_def waited_ok_def)
next
  case (cancel h x)
  from cancel(2) show ?thesis
  proof (cases rule: cancel_cases)
    case (unknown e)
    with cancel i show ?thesis by simp
  next
    case (complete p)
    with cancel answer_inv [OF i, of False h] show ?thesis by simp
  next
    case (natural p)
    with cancel more_cancelling [OF i, of False h] show ?thesis by simp
  next
    case (stopping p)
    let ?q = "p\<lparr>op_state := OpCancelling\<rparr>"
    have "op_ok p" using i stopping(2) by (simp add: dl_inv_def store_ok_def)
    then have "op_ok ?q" using stopping(3,4) by (auto simp: op_ok_def)
    with change_inv [OF i stopping(2)] stopping(3) have "dl_inv uids (put_op h ?q d) es" by simp
    from more_cancelling [OF this, of True h] stopping cancel show ?thesis by (simp add: stopped_ok_def)
  next
    case (again p)
    then have "stopped_ok (dk_ops d h) (finishes_of h es)" by (simp add: stopped_ok_def)
    from more_cancelling [OF i, of True h] this again cancel show ?thesis by simp
  qed
next
  case (cancelled h b p)
  from answer_inv [OF i, of b h] cancelled have "dl_inv uids d (es @ [CancelAnswered h b])" by (cases b) auto
  from fewer_cancelling [OF this] cancelled show ?thesis by simp
qed

lemma dl_inv_fresh: "dl_inv uids no_downlink []"
  by (simp add: dl_inv_def no_downlink_def store_ok_def verdicts_ok_def waits_ok_def cancels_ok_def verdict_ok_def)

lemma dl_run_inv: "dl_run uids d es \<Longrightarrow> dl_inv uids d es"
  by (induction rule: dl_run.induct) (auto intro: dl_inv_fresh dl_step_inv)

section \<open>Guarantees\<close>

lemma same_items_mset: "same_items xs ys \<longleftrightarrow> mset xs = mset ys"
proof
  assume s: "same_items xs ys"
  have "mset xs \<subseteq># mset ys"
  proof (rule mset_subset_eqI)
    fix x show "count (mset xs) x \<le> count (mset ys) x"
      using s by (cases "x \<in> set xs") (auto simp: same_items_def count_mset count_list_0_iff)
  qed
  moreover have "size (mset xs) = size (mset ys)" using s by (simp add: same_items_def)
  ultimately show "mset xs = mset ys" by (metis mset_subset_size nless_le subset_mset.le_imp_less_or_eq)
next
  assume m: "mset xs = mset ys"
  then have "length xs = length ys" by (metis size_mset)
  moreover have "count_list xs x = count_list ys x" for x using m by (metis count_mset)
  ultimately show "same_items xs ys" by (simp add: same_items_def)
qed

lemma validate_status_Inr:
  "validate_uftp_status content uids files = Inr () \<longleftrightarrow>
   (\<exists>ls cs rs. content = Some ls \<and> parse_status ls = Some (cs, rs) \<and>
      mset cs = mset (map (\<lambda>u. (''success'', u)) uids) \<and>
      mset rs = mset (concat (map (\<lambda>u. map (\<lambda>f. (u, f, ''copy'')) files) uids)))"
  by (cases content) (auto simp: validate_uftp_status_def same_items_mset split: option.splits)

definition status_1 :: "string list" where
  "status_1 = [''CONNECT;success;0x00000001'', ''RESULT;0x00000001;r/model.bin;3;copy;0'',
     ''RESULT;0x00000001;r/model.manifest.json;9;copy;0'']"

definition op_1 :: operation where
  "op_1 = (reap 0 ((new_operation ''r'')\<lparr>op_process := Ended 0, op_status_file := Some status_1\<rparr>))
     \<lparr>op_error := None, op_state := OpCompleted, op_monitor := MonDone\<rparr>"

definition done_1 :: downlink where
  "done_1 = \<lparr>dk_ops = [0 \<mapsto> op_1], dk_current = Some 0, dk_next = 1, dk_waiting = {#}, dk_cancelling = {#}\<rparr>"

lemma sample_downlink: "dl_run [1] done_1 [Finished 0 0 False, Waited 0 None]"
proof -
  let ?p0 = "new_operation ''r''"
  let ?p1 = "?p0\<lparr>op_process := Ended 0, op_status_file := Some status_1\<rparr>"
  let ?p3 = "look 0 (reap 0 ?p1)"
  let ?d = "\<lambda>p w. \<lparr>dk_ops = [0 \<mapsto> p], dk_current = Some 0, dk_next = 1, dk_waiting = w, dk_cancelling = {#}\<rparr>"
  have v: "validate_uftp_status (Some status_1) [1] [''r/model.bin'', ''r/model.manifest.json''] = Inr ()"
    by code_simp
  have p: "op_process ?p0 = Running" by (simp add: new_operation_def)
  have "dl_run [1] (?d ?p0 {#}) ([] @ [])"
    by (rule dl_run.step [OF dl_run.fresh dl_step.start [of "''r''" True None _ "Inr 0"]])
      (simp add: start_downlink_def busy_def no_downlink_def put_op_def)
  from dl_run.step [OF this dl_step.wait [of 0 _ "Inr ()" "?d ?p0 {#0#}"]]
  have "dl_run [1] (?d ?p0 {#0#}) []" by (simp add: wait_call_def)
  from dl_run.step [OF this dl_step.ends [of _ 0 ?p0 _ "Some status_1" 0]] p
  have "dl_run [1] (?d ?p1 {#0#}) []" by (simp add: put_op_def)
  from dl_run.step [OF this dl_step.reaps [of _ 0 ?p1 0]]
  have "dl_run [1] (?d (reap 0 ?p1) {#0#}) []" by (simp add: put_op_def)
  from dl_run.step [OF this dl_step.looks [of _ 0 "reap 0 ?p1" 0]]
  have "dl_run [1] (?d ?p3 {#0#}) []" by (simp add: put_op_def reap_def new_operation_def)
  from dl_run.step [OF this dl_step.finishes [of _ 0 ?p3 0 False]]
  have "dl_run [1] (?d op_1 {#0#}) [Finished 0 0 False]" using v
    by (simp add: put_op_def finish_def judge_downlink_def look_def reap_def new_operation_def op_1_def)
  from dl_run.step [OF this dl_step.waited [of 0 _ op_1]] show ?thesis
    by (simp add: done_1_def op_1_def)
qed



text \<open>A cancellation and a verdict exclude each other. When a caller is told that it cancelled a
  downlink, no exit code and no status file of that downlink is ever judged: its only verdict is the
  cancellation, and whoever waits for it is let go without an error.\<close>

theorem cancelled_is_not_judged:
  assumes "dl_run uids d es" and "CancelAnswered h True \<in> set es"
  shows "Finished h rc False \<notin> set es \<and> length (finishes_of h es) \<le> 1 \<and> (Waited h e \<in> set es \<longrightarrow> e = None)"
proof -
  have i: "dl_inv uids d es" by (rule dl_run_inv [OF assms(1)])
  then have s: "stopped_ok (dk_ops d h) (finishes_of h es)" "verdict_ok uids (dk_ops d h) (finishes_of h es)"
    and w: "Waited h e \<in> set es \<Longrightarrow> waited_ok (dk_ops d h) e"
    using assms(2) unfolding dl_inv_def cancels_ok_def verdicts_ok_def waits_ok_def by blast+
  from s obtain p where p: "dk_ops d h = Some p" by (auto simp: stopped_ok_def split: option.splits)
  show ?thesis
  proof (cases "op_state p = OpCompleted")
    case True
    with s p obtain r where "finishes_of h es = [(r, True)]" "op_error p = judge_downlink uids r True p"
      by (auto simp: stopped_ok_def verdict_ok_def)
    with w p finishes_of_iff [of rc False h es] show ?thesis by (auto simp: waited_ok_def judge_downlink_def)
  next
    case False
    with s p have "finishes_of h es = []" by (simp add: verdict_ok_def)
    with w p False finishes_of_iff [of rc False h es] show ?thesis by (auto simp: waited_ok_def)
  qed
qed

definition op_2 :: operation where
  "op_2 = (new_operation ''r'')\<lparr>op_process := Reaped (- 15), op_state := OpCompleted, op_monitor := MonDone\<rparr>"

lemma sample_cancel:
  "dl_run [1] \<lparr>dk_ops = [0 \<mapsto> op_2], dk_current = Some 0, dk_next = 1, dk_waiting = {#}, dk_cancelling = {#}\<rparr>
     [Finished 0 (- 15) True, CancelAnswered 0 True]"
proof -
  let ?p0 = "new_operation ''r''"
  let ?p1 = "?p0\<lparr>op_state := OpCancelling\<rparr>"
  let ?p2 = "?p1\<lparr>op_process := Ended (- 15), op_status_file := None\<rparr>"
  let ?p3 = "look (- 15) (reap (- 15) ?p2)"
  let ?d = "\<lambda>p w. \<lparr>dk_ops = [0 \<mapsto> p], dk_current = Some 0, dk_next = 1, dk_waiting = {#}, dk_cancelling = w\<rparr>"
  have "dl_run [1] (?d ?p0 {#}) ([] @ [])"
    by (rule dl_run.step [OF dl_run.fresh dl_step.start [of "''r''" True None _ "Inr 0"]])
      (simp add: start_downlink_def busy_def no_downlink_def put_op_def)
  from dl_run.step [OF this dl_step.cancel [of 0 _ "Inr None" "?d ?p1 {#(0, True)#}"]]
  have "dl_run [1] (?d ?p1 {#(0, True)#}) []" by (simp add: cancel_call_def put_op_def new_operation_def)
  from dl_run.step [OF this dl_step.ends [of _ 0 ?p1 _ None "- 15"]]
  have "dl_run [1] (?d ?p2 {#(0, True)#}) []" by (simp add: put_op_def new_operation_def)
  from dl_run.step [OF this dl_step.reaps [of _ 0 ?p2 "- 15"]]
  have "dl_run [1] (?d (reap (- 15) ?p2) {#(0, True)#}) []" by (simp add: put_op_def)
  from dl_run.step [OF this dl_step.looks [of _ 0 "reap (- 15) ?p2" "- 15"]]
  have "dl_run [1] (?d ?p3 {#(0, True)#}) []" by (simp add: put_op_def reap_def new_operation_def)
  from dl_run.step [OF this dl_step.finishes [of _ 0 ?p3 "- 15" True]]
  have "dl_run [1] (?d op_2 {#(0, True)#}) [Finished 0 (- 15) True]"
    by (simp add: put_op_def finish_def judge_downlink_def look_def reap_def new_operation_def op_2_def)
  from dl_run.step [OF this dl_step.cancelled [of 0 True _ op_2]] show ?thesis
    by (simp add: op_2_def)
qed

theorem cancelled_is_not_judged_witness:
  "length (finishes_of 0 [Finished 0 (- 15) True, CancelAnswered 0 True]) \<le> 1"
  using cancelled_is_not_judged [OF sample_cancel, of 0] by simp

end
