(* ===== verification/Daemon_Config.thy ===== *)
theory Daemon_Config
  imports Radio_Params Wire_Text
begin

text \<open>
  The passive parts of \<^verbatim>\<open>wfb_ng/fl/server_daemon.py\<close>: \<open>ServerState\<close>, the validated
  \<open>ServerDaemonConfig\<close> with its loader and the command line overrides, the command line of the link
  process, and \<open>ServerEventBus\<close>. A configuration value the code does not convert stays a JSON value.
  The addresses are parsed as \<^verbatim>\<open>ipaddress\<close> does. The event bus is a list of subscriber queues with
  their identities; a full queue loses its oldest event.
\<close>

datatype server_state =
    S_INITIALIZING | S_IDLE | S_PREPARING | S_RUNNING | S_ABORTING | S_SWITCHING_RADIO | S_SURVEYING
  | S_RADIO_ERROR | S_STOPPED

fun server_state_value :: "server_state \<Rightarrow> string" where
  "server_state_value S_INITIALIZING = ''INITIALIZING''"
| "server_state_value S_IDLE = ''IDLE''"
| "server_state_value S_PREPARING = ''PREPARING''"
| "server_state_value S_RUNNING = ''RUNNING''"
| "server_state_value S_ABORTING = ''ABORTING''"
| "server_state_value S_SWITCHING_RADIO = ''SWITCHING_RADIO''"
| "server_state_value S_SURVEYING = ''SURVEYING''"
| "server_state_value S_RADIO_ERROR = ''RADIO_ERROR''"
| "server_state_value S_STOPPED = ''STOPPED''"

section \<open>Conversions\<close>

text \<open>\<^verbatim>\<open>int(v)\<close> of a JSON value.\<close>

definition trunc_rat :: "rat \<Rightarrow> int" where
  "trunc_rat r = (if 0 \<le> r then \<lfloor>r\<rfloor> else \<lceil>r\<rceil>)"

fun json_int :: "pyval \<Rightarrow> int res" where
  "json_int (PInt i) = Inr i"
| "json_int (PBool b) = Inr (if b then 1 else 0)"
| "json_int (PFloat (Fin r)) = Inr (trunc_rat r)"
| "json_int (PFloat NaN) = Inl (ValueError ''cannot convert float NaN to integer'')"
| "json_int (PFloat f) = Inl OverflowError"
| "json_int (PStr s) = (case int_of_text 10 s of
     None \<Rightarrow> Inl (ValueError ''invalid literal for int()'') | Some i \<Rightarrow> Inr i)"
| "json_int v = Inl (TypeError ''int() argument'')"

text \<open>\<^verbatim>\<open>ipaddress.IPv4Address\<close>: four decimal octets without leading zeros, or an integer.\<close>

definition octet :: "string \<Rightarrow> nat option" where
  "octet s =
     (if s = [] \<or> 3 < length s \<or> \<not> list_all (\<lambda>c. c \<in> set ''0123456789'') s \<or>
         (s \<noteq> ''0'' \<and> hd s = CHR ''0'') then None
      else (case int_of_text 10 s of
          Some i \<Rightarrow> if i \<le> 255 then Some (nat i) else None | None \<Rightarrow> None))"

definition ipv4_text :: "string \<Rightarrow> nat option" where
  "ipv4_text s = (case map octet (split_all CHR ''.'' s) of
     [Some a, Some b, Some c, Some d] \<Rightarrow> Some (((a * 256 + b) * 256 + c) * 256 + d)
   | _ \<Rightarrow> None)"

fun ipv4_address :: "pyval \<Rightarrow> nat option" where
  "ipv4_address (PStr s) = ipv4_text s"
| "ipv4_address (PInt i) = (if 0 \<le> i \<and> i < 2 ^ 32 then Some (nat i) else None)"
| "ipv4_address (PBool b) = Some (if b then 1 else 0)"
| "ipv4_address v = None"

text \<open>The prefix of \<^verbatim>\<open>IPv4Interface\<close>: a number up to 32, a net mask or its complement.\<close>

definition net_mask :: "nat \<Rightarrow> nat" where
  "net_mask p = 2 ^ 32 - 2 ^ (32 - p)"

definition prefix_ok :: "string \<Rightarrow> bool" where
  "prefix_ok s =
     ((s \<noteq> [] \<and> list_all (\<lambda>c. c \<in> set ''0123456789'') s \<and>
       (case int_of_text 10 s of Some i \<Rightarrow> i \<le> 32 | None \<Rightarrow> False)) \<or>
      (case ipv4_text s of None \<Rightarrow> False
       | Some n \<Rightarrow> list_ex (\<lambda>p. n = net_mask p \<or> n = 2 ^ 32 - 1 - net_mask p) [0..<33]))"

fun ipv4_interface_ok :: "pyval \<Rightarrow> bool" where
  "ipv4_interface_ok (PStr s) = (case split_all CHR ''/'' s of
     [a] \<Rightarrow> ipv4_text a \<noteq> None
   | [a, p] \<Rightarrow> ipv4_text a \<noteq> None \<and> prefix_ok p
   | _ \<Rightarrow> False)"
| "ipv4_interface_ok v = (ipv4_address v \<noteq> None)"

definition is_loopback :: "nat \<Rightarrow> bool" where
  "is_loopback n \<longleftrightarrow> n div 2 ^ 24 = 127"

section \<open>The configuration\<close>

definition DEFAULT_WEB_PORT :: int where "DEFAULT_WEB_PORT = 8080"

definition ALL_KNOWN_CLIENT_IDS :: "int list" where
  "ALL_KNOWN_CLIENT_IDS = [1, 2, 3, 4, 5, 6, 7, 8, 9, 10]"

record server_config =
  sc_ipc_host :: pyval
  sc_ipc_port :: int
  sc_web_host :: pyval
  sc_web_port :: int
  sc_channel :: int
  sc_txpower :: int
  sc_downlink_mcs :: int
  sc_uplink_mcs :: int
  sc_tun_name :: pyval
  sc_tun_ip :: pyval
  sc_tun_cidr :: pyval
  sc_tun_txqueuelen :: int
  sc_bind_host :: pyval
  sc_bind_port :: int
  sc_broadcast_addr :: pyval
  sc_broadcast_port :: int
  sc_air_interface :: pyval
  sc_link_id :: int
  sc_known_clients :: "int list"
  sc_work_dir :: pyval
  sc_model_dir :: pyval
  sc_enable_link :: bool
  sc_enable_control :: bool

definition default_server_config :: server_config where
  "default_server_config =
     \<lparr>sc_ipc_host = PStr ''127.0.0.1'', sc_ipc_port = 9090, sc_web_host = PNone,
      sc_web_port = DEFAULT_WEB_PORT, sc_channel = DEFAULT_CHANNEL,
      sc_txpower = DEFAULT_TXPOWER_DBM, sc_downlink_mcs = 3, sc_uplink_mcs = 6,
      sc_tun_name = PStr ''fl-s'', sc_tun_ip = PStr ''10.80.0.1'',
      sc_tun_cidr = PStr ''10.80.0.1/24'', sc_tun_txqueuelen = 5000,
      sc_bind_host = PStr ''10.80.0.1'', sc_bind_port = 9001,
      sc_broadcast_addr = PStr ''255.255.255.255'', sc_broadcast_port = 9000,
      sc_air_interface = PNone, sc_link_id = 7669206, sc_known_clients = ALL_KNOWN_CLIENT_IDS,
      sc_work_dir = PStr ''/tmp/wfb-ng-fl/server'',
      sc_model_dir = PStr ''/var/lib/wfb-ng-fl/models'',
      sc_enable_link = True, sc_enable_control = True\<rparr>"

definition config_radio_dict :: "server_config \<Rightarrow> pydict" where
  "config_radio_dict c =
     [(''channel'', PInt (sc_channel c)), (''radio_txpower_dbm'', PInt (sc_txpower c)),
      (''downlink_mcs'', PInt (sc_downlink_mcs c)), (''uplink_mcs'', PInt (sc_uplink_mcs c))]"

definition web_host_ok :: "server_config \<Rightarrow> bool" where
  "web_host_ok c = (sc_web_host c = PNone \<or>
     (case ipv4_address (sc_web_host c) of
        None \<Rightarrow> False
      | Some a \<Rightarrow> \<not> is_loopback a \<and> a \<noteq> 0 \<and> Some a \<noteq> ipv4_address (sc_tun_ip c)))"

text \<open>\<^verbatim>\<open>__post_init__\<close>.\<close>

definition check_server_config :: "server_config \<Rightarrow> server_config res" where
  "check_server_config c =
     (case validate_radio_config (PDict (config_radio_dict c)) of
        Inl e \<Rightarrow> Inl (fl_error ''invalid_radio_configuration'' (exn_str e))
      | Inr _ \<Rightarrow>
          if ipv4_address (sc_tun_ip c) = None \<or> \<not> ipv4_interface_ok (sc_tun_cidr c)
          then Inl (fl_error ''invalid_tun_ip'' ''tun address'')
          else if \<not> web_host_ok c then Inl (fl_error ''invalid_web_host'' ''web host'')
          else if sc_web_port c \<noteq> DEFAULT_WEB_PORT then Inl (fl_error ''invalid_web_port'' ''web port'')
          else if sc_known_clients c \<noteq> ALL_KNOWN_CLIENT_IDS
          then Inl (fl_error ''invalid_known_clients'' ''known clients'')
          else Inr c)"

text \<open>
  \<open>load_server_config\<close>: whether the file exists, whether the path is the default one, and the
  result of reading and parsing the file.
\<close>

definition server_config_of :: "pydict \<Rightarrow> server_config res" where
  "server_config_of d =
     (let D = default_server_config; num = (\<lambda>k x. json_int (dget_default d k (PInt x))) in
      bind_res (num ''ipc_port'' (sc_ipc_port D)) (\<lambda>ipc_port.
      bind_res (num ''web_port'' (sc_web_port D)) (\<lambda>web_port.
      bind_res (num ''channel'' (sc_channel D)) (\<lambda>channel.
      bind_res (num ''radio_txpower_dbm'' (sc_txpower D)) (\<lambda>txpower.
      bind_res (num ''downlink_mcs'' (sc_downlink_mcs D)) (\<lambda>downlink.
      bind_res (num ''uplink_mcs'' (sc_uplink_mcs D)) (\<lambda>uplink.
      bind_res (num ''tun_txqueuelen'' (sc_tun_txqueuelen D)) (\<lambda>qlen.
      bind_res (num ''control_bind_port'' (sc_bind_port D)) (\<lambda>bind_port.
      bind_res (num ''control_broadcast_port'' (sc_broadcast_port D)) (\<lambda>broadcast_port.
      bind_res (num ''link_id'' (sc_link_id D)) (\<lambda>link_id.
      check_server_config
        \<lparr>sc_ipc_host = dget_default d ''ipc_host'' (sc_ipc_host D), sc_ipc_port = ipc_port,
         sc_web_host = dget d ''web_host'', sc_web_port = web_port, sc_channel = channel,
         sc_txpower = txpower, sc_downlink_mcs = downlink, sc_uplink_mcs = uplink,
         sc_tun_name = dget_default d ''tun_name'' (sc_tun_name D),
         sc_tun_ip = dget_default d ''tun_ip'' (sc_tun_ip D),
         sc_tun_cidr = dget_default d ''tun_cidr'' (sc_tun_cidr D), sc_tun_txqueuelen = qlen,
         sc_bind_host = dget_default d ''control_bind_host'' (sc_bind_host D),
         sc_bind_port = bind_port,
         sc_broadcast_addr = dget_default d ''control_broadcast_addr'' (sc_broadcast_addr D),
         sc_broadcast_port = broadcast_port, sc_air_interface = dget d ''air_interface'',
         sc_link_id = link_id, sc_known_clients = ALL_KNOWN_CLIENT_IDS,
         sc_work_dir = dget_default d ''work_dir'' (sc_work_dir D),
         sc_model_dir = dget_default d ''model_library_dir'' (sc_model_dir D),
         sc_enable_link = truthy (dget_default d ''enable_link_process'' (PBool True)),
         sc_enable_control = truthy (dget_default d ''enable_control_plane'' (PBool True))\<rparr>)))))))))))"

definition load_server_config :: "bool \<Rightarrow> bool \<Rightarrow> pyval res \<Rightarrow> server_config res" where
  "load_server_config found dflt contents =
     (if \<not> found then
        if dflt then check_server_config default_server_config
        else Inl (fl_error ''config_not_found'' ''config file'')
      else case contents of
        Inl e \<Rightarrow> Inl (fl_error ''invalid_server_config'' (exn_str e))
      | Inr v \<Rightarrow> (case as_dict v of
          None \<Rightarrow> Inl (fl_error ''invalid_server_config'' ''not an object'')
        | Some d \<Rightarrow> server_config_of d))"

record server_args =
  sa_ipc_host :: "string option"
  sa_ipc_port :: "int option"
  sa_channel :: "int option"
  sa_txpower :: "int option"
  sa_downlink_mcs :: "int option"
  sa_uplink_mcs :: "int option"
  sa_interface :: "string option"
  sa_tun_name :: "string option"

definition override :: "'a option \<Rightarrow> 'a \<Rightarrow> 'a" where
  "override ov x = (case ov of None \<Rightarrow> x | Some y \<Rightarrow> y)"

definition no_overrides :: "server_args \<Rightarrow> bool" where
  "no_overrides a \<longleftrightarrow>
     sa_ipc_host a = None \<and> sa_ipc_port a = None \<and> sa_channel a = None \<and> sa_txpower a = None \<and>
     sa_downlink_mcs a = None \<and> sa_uplink_mcs a = None \<and> sa_interface a = None \<and> sa_tun_name a = None"

definition merge_args :: "server_args \<Rightarrow> server_config \<Rightarrow> server_config" where
  "merge_args a c =
     c\<lparr>sc_ipc_host := override (map_option PStr (sa_ipc_host a)) (sc_ipc_host c),
       sc_ipc_port := override (sa_ipc_port a) (sc_ipc_port c),
       sc_channel := override (sa_channel a) (sc_channel c),
       sc_txpower := override (sa_txpower a) (sc_txpower c),
       sc_downlink_mcs := override (sa_downlink_mcs a) (sc_downlink_mcs c),
       sc_uplink_mcs := override (sa_uplink_mcs a) (sc_uplink_mcs c),
       sc_air_interface := override (map_option PStr (sa_interface a)) (sc_air_interface c),
       sc_tun_name := override (map_option PStr (sa_tun_name a)) (sc_tun_name c)\<rparr>"

text \<open>\<open>main\<close>, up to the construction of the daemon.\<close>

definition main_config :: "server_args \<Rightarrow> server_config res \<Rightarrow> server_config res" where
  "main_config a loaded = bind_res loaded (\<lambda>c.
     if no_overrides a then Inr c else check_server_config (merge_args a c))"

section \<open>The command line of the link process\<close>

definition join_with :: "string \<Rightarrow> string list \<Rightarrow> string" where
  "join_with sep ws = (case ws of [] \<Rightarrow> [] | w # rest \<Rightarrow> w @ concat (map (\<lambda>x. sep @ x) rest))"

definition client_target :: "int \<Rightarrow> string" where
  "client_target nid =
     text_of_int nid @ '':10.80.0.'' @ text_of_int (10 + nid) @ '':127.0.0.1:1''"

definition link_options :: "pyval \<Rightarrow> pyval \<Rightarrow> pyval \<Rightarrow> int \<Rightarrow> int \<Rightarrow> int \<Rightarrow> int list \<Rightarrow> int option \<Rightarrow>
    (string \<times> pyval option) list" where
  "link_options tun_name tun_addr air channel mcs link_id known epoch =
     [(''--role'', Some (PStr ''server'')), (''--tun-name'', Some tun_name),
      (''--tun-addr'', Some tun_addr), (''--node-id'', Some (PStr ''255'')),
      (''--link-id'', Some (PStr (text_of_int link_id))),
      (''--uplink-stream'', Some (PStr ''1'')), (''--downlink-stream'', Some (PStr ''2'')),
      (''--fec-k'', Some (PStr ''8'')), (''--fec-n'', Some (PStr ''14'')),
      (''--radio-bandwidth'', Some (PStr (if channel = 165 then ''20'' else ''40''))),
      (''--radio-mcs-index'', Some (PStr (text_of_int mcs))), (''--radio-short-gi'', None),
      (''--air-interface'', Some air),
      (''--known-clients'', Some (PStr (join_with '','' (map text_of_int known))))] @
     map (\<lambda>n. (''--client-target'', Some (PStr (client_target n)))) known @
     [(''--downlink-pause-threshold-bytes'', Some (PStr ''131072'')),
      (''--downlink-resume-threshold-bytes'', Some (PStr ''65536'')),
      (''--downlink-queue-packets-limit'', Some (PStr ''64''))] @
     (case epoch of None \<Rightarrow> [] | Some e \<Rightarrow> [(''--epoch'', Some (PStr (text_of_int e)))])"

definition flatten_options :: "(string \<times> pyval option) list \<Rightarrow> pyval list" where
  "flatten_options os =
     concat (map (\<lambda>(k, v). PStr k # (case v of None \<Rightarrow> [] | Some x \<Rightarrow> [x])) os)"

definition build_v6_uplink_server_command ::
  "string \<Rightarrow> pyval \<Rightarrow> pyval \<Rightarrow> pyval \<Rightarrow> int \<Rightarrow> int \<Rightarrow> int \<Rightarrow> int list \<Rightarrow> int option \<Rightarrow> pyval list" where
  "build_v6_uplink_server_command exe tun_name tun_addr air channel mcs link_id known epoch =
     PStr exe # flatten_options (link_options tun_name tun_addr air channel mcs link_id known epoch)"

section \<open>The event bus\<close>

text \<open>A queue is its identity and its content, the oldest event first.\<close>

record event_bus =
  eb_max :: nat
  eb_subs :: "(nat \<times> pydict list) list"
  eb_next :: nat

definition bus_init :: "nat \<Rightarrow> event_bus" where
  "bus_init m = \<lparr>eb_max = m, eb_subs = [], eb_next = 0\<rparr>"

definition bus_subscribe :: "event_bus \<Rightarrow> nat \<times> event_bus" where
  "bus_subscribe b = (eb_next b,
     b\<lparr>eb_subs := eb_subs b @ [(eb_next b, [])], eb_next := Suc (eb_next b)\<rparr>)"

definition bus_unsubscribe :: "nat \<Rightarrow> event_bus \<Rightarrow> event_bus" where
  "bus_unsubscribe q b = b\<lparr>eb_subs := AList.delete q (eb_subs b)\<rparr>"

text \<open>\<^verbatim>\<open>put_nowait\<close> raises on a full queue (a bound of 0 means none); then the oldest event makes room.\<close>

definition put_dropping :: "nat \<Rightarrow> pydict \<Rightarrow> pydict list \<Rightarrow> pydict list" where
  "put_dropping m e q = (if 0 < m \<and> m \<le> length q then tl q @ [e] else q @ [e])"

definition bus_publish :: "pydict \<Rightarrow> event_bus \<Rightarrow> event_bus" where
  "bus_publish e b = b\<lparr>eb_subs := map (\<lambda>(q, es). (q, put_dropping (eb_max b) e es)) (eb_subs b)\<rparr>"

text \<open>\<^verbatim>\<open>get\<close> of the streaming handler; \<open>None\<close> is the keep-alive of an empty queue.\<close>

definition bus_get :: "nat \<Rightarrow> event_bus \<Rightarrow> pydict option \<times> event_bus" where
  "bus_get q b = (case map_of (eb_subs b) q of
     Some (e # es) \<Rightarrow> (Some e, b\<lparr>eb_subs := AList.update q es (eb_subs b)\<rparr>)
   | _ \<Rightarrow> (None, b))"

text \<open>What a subscriber who does not read in between finds after a run of publications.\<close>

definition latest :: "nat \<Rightarrow> 'a list \<Rightarrow> 'a list" where
  "latest m es = (if 0 < m then drop (length es - m) es else es)"

lemma put_dropping_latest: "put_dropping m e (latest m es) = latest m (es @ [e])"
proof (cases "0 < m \<and> m \<le> length es")
  case True
  then have "tl (drop (length es - m) es) = drop (Suc (length es) - m) es"
    by (simp add: tl_drop drop_Suc Suc_diff_le)
  with True show ?thesis by (simp add: put_dropping_def latest_def)
qed (auto simp: put_dropping_def latest_def)

lemma publish_queue:
  "map_of (eb_subs (bus_publish e b)) q = map_option (put_dropping (eb_max b) e) (map_of (eb_subs b) q)"
proof -
  have "map_of (map (\<lambda>(q, es). (q, f es)) xs) q = map_option f (map_of xs q)" for f and xs :: "(nat \<times> pydict list) list"
    by (induction xs) auto
  then show ?thesis by (simp add: bus_publish_def)
qed

lemma publish_max [simp]: "eb_max (bus_publish e b) = eb_max b"
  by (simp add: bus_publish_def)

lemma published_run:
  assumes "map_of (eb_subs b) q = Some (latest (eb_max b) es)"
  shows "map_of (eb_subs (fold bus_publish evs b)) q = Some (latest (eb_max b) (es @ evs))"
  using assms
proof (induction evs arbitrary: b es)
  case (Cons e evs)
  have "map_of (eb_subs (bus_publish e b)) q = Some (latest (eb_max (bus_publish e b)) (es @ [e]))"
    using Cons.prems by (simp add: publish_queue put_dropping_latest)
  from Cons.IH [OF this] show ?case by simp
qed simp

section \<open>What an accepted configuration satisfies\<close>

lemma check_server_config_Inr:
  "check_server_config c = Inr c' \<longleftrightarrow> c' = c \<and>
     is_ok (validate_radio_config (PDict (config_radio_dict c))) \<and>
     ipv4_address (sc_tun_ip c) \<noteq> None \<and> ipv4_interface_ok (sc_tun_cidr c) \<and> web_host_ok c \<and>
     sc_web_port c = DEFAULT_WEB_PORT \<and> sc_known_clients c = ALL_KNOWN_CLIENT_IDS"
  by (cases "validate_radio_config (PDict (config_radio_dict c))")
    (auto simp: check_server_config_def)

lemma main_config_checked:
  assumes "main_config a (load_server_config ex dflt contents) = Inr c"
  shows "check_server_config c = Inr c"
proof -
  have load: "load_server_config ex dflt contents = Inr c0 \<Longrightarrow> check_server_config c0 = Inr c0" for c0
    by (auto simp: load_server_config_def server_config_of_def Let_def check_server_config_Inr
        split: if_splits sum.splits option.splits)
  from assms obtain c0 where c0: "load_server_config ex dflt contents = Inr c0"
    and c: "(if no_overrides a then Inr c0 else check_server_config (merge_args a c0)) = Inr c"
    by (auto simp: main_config_def)
  show ?thesis
  proof (cases "no_overrides a")
    case True
    with c load [OF c0] show ?thesis by simp
  next
    case False
    with c have "check_server_config (merge_args a c0) = Inr c" by simp
    then show ?thesis by (simp add: check_server_config_Inr)
  qed
qed

end
