(* ===== verification/Server_Daemon.thy ===== *)
theory Server_Daemon
  imports Daemon_Config Control_Server
begin

text \<open>
  \<open>ServerDaemon\<close> of \<^verbatim>\<open>wfb_ng/fl/server_daemon.py\<close>: its state and the operations of its threads.
  The daemon's lock is re-entrant and held throughout \<open>start_job\<close>, \<open>start\<close> and the admission checks,
  so each of these is one function of the state. \<open>_finalize_job\<close>, a radio switch, a survey and
  \<open>stop\<close> release the lock in between: each is a call with a program counter and a turn function,
  one turn per locked section or external action, which \<open>Daemon_Safety\<close> interleaves.

  The control plane is \<open>ctl_server\<close> of \<open>Control_Server\<close>, the radio switch the transaction of
  \<open>Radio_Reconf\<close>. What the operating system, the role, the coordinator thread and the radio answer is
  an argument of the turn. Objects the daemon creates (server roles, coordinators) are numbered;
  \<open>sd_log\<close> records the external actions in order: console records, published events, broadcasts, and
  what happens to roles, coordinators and the link process. The refreshes of the console, which never
  raise, and its own state are left out.
\<close>

section \<open>State\<close>

record role_args =
  ra_nodes :: "int list"
  ra_uftp_port :: int
  ra_http_port :: int
  ra_max_update :: int
  ra_rate :: int

datatype deffect =
    EConsole pydict
  | EPublish pydict
  | EBroadcast pydict
  | ERoleStart nat role_args
  | ERoleClose nat
  | ECoordStart nat
  | ECoordAbort nat string
  | ELinkStop
  | ELinkStart "pyval list"

record daemon =
  sd_config :: server_config
  sd_state :: server_state
  sd_active :: "pydict option"
  sd_recent :: "pydict option"
  sd_coord :: "nat option"
  sd_role :: "nat option"
  sd_stop :: bool
  sd_link :: bool
  sd_link_radio :: "radio_config option"
  sd_radio :: radio_config
  sd_confirmed :: bool
  sd_ctl :: ctl_server
  sd_socket :: bool
  sd_iface :: pyval
  sd_serial :: nat
  sd_log :: "deffect list"

definition config_radio :: "server_config \<Rightarrow> radio_config" where
  "config_radio c =
     \<lparr>rc_channel = sc_channel c, rc_txpower = sc_txpower c, rc_downlink_mcs = sc_downlink_mcs c,
      rc_uplink_mcs = sc_uplink_mcs c, rc_uftp_rate = rc_uftp_rate default_radio_config\<rparr>"

definition daemon_init :: "server_config \<Rightarrow> daemon" where
  "daemon_init c =
     \<lparr>sd_config = c, sd_state = S_INITIALIZING, sd_active = None, sd_recent = None, sd_coord = None,
      sd_role = None, sd_stop = False, sd_link = False, sd_link_radio = None,
      sd_radio = config_radio c, sd_confirmed = True, sd_ctl = server_init (config_radio c) 10,
      sd_socket = False, sd_iface = sc_air_interface c, sd_serial = 0, sd_log = []\<rparr>"

definition emit :: "deffect \<Rightarrow> daemon \<Rightarrow> daemon" where
  "emit e d = d\<lparr>sd_log := sd_log d @ [e]\<rparr>"

definition console :: "string \<Rightarrow> pydict \<Rightarrow> daemon \<Rightarrow> daemon" where
  "console t extra d = emit (EConsole ((''type'', PStr t) # extra)) d"

text \<open>\<^verbatim>\<open>broadcast_downlink\<close>: without a socket it raises, otherwise the outcome of \<^verbatim>\<open>sendto\<close> is given.\<close>

definition send_downlink :: "exn option \<Rightarrow> pydict \<Rightarrow> daemon \<Rightarrow> exn option \<times> daemon" where
  "send_downlink out m d =
     (if \<not> sd_socket d then (Some (RuntimeError ''broadcast socket not initialized''), d)
      else case out of Some e \<Rightarrow> (Some e, d) | None \<Rightarrow> (None, emit (EBroadcast m) d))"

definition time_val :: "rat \<Rightarrow> pyval" where
  "time_val t = PFloat (Fin t)"

section \<open>Events\<close>

definition track_phase :: "rat \<Rightarrow> pydict \<Rightarrow> pydict \<Rightarrow> pydict" where
  "track_phase now ev a =
     (let t = dget ev ''type'';
          phase = (\<lambda>p a. AList.update ''phase_started_at'' (time_val now)
                          (AList.update ''server_phase'' (PStr p) a)) in
      if t = PStr ''ROUND_STARTED'' then
        AList.update ''round_started_at'' (time_val now)
          (phase ''preparing'' (AList.update ''current_round'' (dget ev ''round_index'') a))
      else if t = PStr ''MODEL_PUBLISH_START'' \<or> t = PStr ''MODEL_PUBLISH_STARTED'' then
        phase ''publishing_model'' a
      else if t = PStr ''WAIT_FOR_UPDATES_START'' then phase ''waiting_updates'' a
      else if t = PStr ''ROUND_COMPLETED'' then
        phase ''preparing'' (AList.update ''rounds_completed''
          (dget_default ev ''round_index'' (PInt 0)) a)
      else a)"

definition publish_event :: "rat \<Rightarrow> pydict \<Rightarrow> daemon \<Rightarrow> daemon" where
  "publish_event now ev d =
     (if dget ev ''type'' = PStr ''NODE_HEARTBEAT'' then emit (EPublish ev) d
      else emit (EPublish ev) (emit (EConsole ev)
        (d\<lparr>sd_active := map_option (track_phase now ev) (sd_active d)\<rparr>)))"

definition readiness_value :: "node_readiness \<Rightarrow> string" where
  "readiness_value r = (case r of OFFLINE \<Rightarrow> ''OFFLINE'' | CONNECTING \<Rightarrow> ''CONNECTING''
     | READY \<Rightarrow> ''READY'' | ACTIVE \<Rightarrow> ''ACTIVE'' | READINESS_ABORTING \<Rightarrow> ''ABORTING'')"

text \<open>\<open>_on_node_heartbeat\<close>\<close>

definition on_node_heartbeat :: "rat \<Rightarrow> node_heartbeat \<Rightarrow> node_record \<Rightarrow> daemon \<Rightarrow> daemon" where
  "on_node_heartbeat wall hb r d = publish_event wall
     [(''type'', PStr ''NODE_HEARTBEAT''), (''node_id'', PInt (hb_node_id hb)),
      (''state'', PStr (hb_state hb)), (''readiness'', PStr (readiness_value (nr_readiness r))),
      (''elapsed_ms'', PInt (hb_elapsed_ms hb)), (''current_channel'', PInt (hb_current_channel hb)),
      (''txpower_dbm'', PInt (hb_txpower_dbm hb)), (''uplink_mcs'', PInt (hb_uplink_mcs hb)),
      (''timestamp'', time_val wall)] d"

section \<open>The link process\<close>

text \<open>
  What starting the link process meets: the executable found, the log file, the process creation,
  and the polls of the readiness loop before its deadline, each an exit code and whether the TUN is
  ready.
\<close>

record link_env =
  le_exe :: "string option"
  le_open :: "exn option"
  le_popen :: "exn option"
  le_polls :: "(int option \<times> bool res) list"

definition or_wlan0 :: "pyval \<Rightarrow> pyval" where
  "or_wlan0 v = (if truthy v then v else PStr ''wlan0'')"

definition link_command :: "string \<Rightarrow> radio_config \<Rightarrow> daemon \<Rightarrow> pyval list" where
  "link_command exe radio d =
     (let c = sd_config d in
      build_v6_uplink_server_command exe (sc_tun_name c) (sc_tun_cidr c) (or_wlan0 (sd_iface d))
        (rc_channel radio) (rc_downlink_mcs radio) (sc_link_id c) (sc_known_clients c) None)"

definition launch_link :: "link_env \<Rightarrow> radio_config \<Rightarrow> daemon \<Rightarrow> exn option \<times> daemon" where
  "launch_link env radio d = (case le_exe env of
     None \<Rightarrow> (Some (fl_error ''link_executable_missing'' ''wfb_v6_uplink''), d)
   | Some exe \<Rightarrow> (case le_open env of
       Some e \<Rightarrow> (Some e, d)
     | None \<Rightarrow> (case le_popen env of
         Some e \<Rightarrow> (Some (fl_error ''link_process_start_failed'' (exn_str e)), d)
       | None \<Rightarrow> (None, emit (ELinkStart (link_command exe radio d)) (d\<lparr>sd_link := True\<rparr>)))))"

definition stop_link :: "daemon \<Rightarrow> daemon" where
  "stop_link d = emit ELinkStop (d\<lparr>sd_link := False, sd_link_radio := None\<rparr>)"

text \<open>One turn of the readiness loop. Another thread may have stopped the process meanwhile; then
  \<^verbatim>\<open>self._link_process\<close> is \<^verbatim>\<open>None\<close>.\<close>

datatype poll_result = PollAgain | PollReady | PollFail exn

definition poll_link :: "int option \<times> bool res \<Rightarrow> daemon \<Rightarrow> poll_result" where
  "poll_link p d =
     (if \<not> sd_link d then PollFail (OtherException ''AttributeError'')
      else case p of
        (Some rc, _) \<Rightarrow> PollFail (fl_error ''link_process_start_failed'' ''exited'')
      | (None, Inl e) \<Rightarrow> PollFail e
      | (None, Inr ready) \<Rightarrow> if ready then PollReady else PollAgain)"

definition tun_failed :: exn where
  "tun_failed = fl_error ''link_tun_failed'' ''not ready''"

fun await_link :: "(int option \<times> bool res) list \<Rightarrow> daemon \<Rightarrow> exn option" where
  "await_link [] d = Some tun_failed"
| "await_link (p # ps) d = (case poll_link p d of
     PollReady \<Rightarrow> None | PollFail e \<Rightarrow> Some e | PollAgain \<Rightarrow> await_link ps d)"

text \<open>\<open>_start_link_process\<close> run without interruption.\<close>

definition start_link :: "link_env \<Rightarrow> radio_config \<Rightarrow> daemon \<Rightarrow> exn option \<times> daemon" where
  "start_link env radio d = (case launch_link env radio d of
     (Some e, d) \<Rightarrow> (Some e, d)
   | (None, d) \<Rightarrow> (case await_link (le_polls env) d of
       Some e \<Rightarrow> (Some e, stop_link d)
     | None \<Rightarrow> (None, d\<lparr>sd_link_radio := Some radio\<rparr>)))"

text \<open>\<open>_apply_radio_runtime\<close>, the control plane's callback.\<close>

definition link_differs :: "radio_config option \<Rightarrow> radio_config \<Rightarrow> bool" where
  "link_differs active c = (case active of
     None \<Rightarrow> True
   | Some a \<Rightarrow> rc_downlink_mcs a \<noteq> rc_downlink_mcs c \<or>
       (rc_channel a = 165) \<noteq> (rc_channel c = 165))"

definition apply_radio_runtime :: "link_env \<Rightarrow> radio_config \<Rightarrow> daemon \<Rightarrow> exn option \<times> daemon" where
  "apply_radio_runtime env c d =
     (if sd_state d = S_STOPPED then (Some (fl_error ''daemon_stopped'' ''stopped''), d)
      else if sc_enable_link (sd_config d) \<and> link_differs (sd_link_radio d) c
      then start_link env c (stop_link d)
      else (None, d))"

section \<open>Starting the daemon\<close>

record start_env =
  se_ifaces :: "string list"
  se_wireless :: "exn option"
  se_link :: link_env
  se_control :: "exn option"
  se_http :: "exn option"

definition discover :: "start_env \<Rightarrow> daemon \<Rightarrow> daemon" where
  "discover env d =
     (if sd_iface d \<noteq> PNone then d
      else case se_ifaces env of [] \<Rightarrow> d | i # _ \<Rightarrow> d\<lparr>sd_iface := PStr i\<rparr>)"

definition start_services :: "start_env \<Rightarrow> daemon \<Rightarrow> exn option \<times> daemon" where
  "start_services env d =
     (let ctl = (if sc_enable_control (sd_config d) then se_control env else None) in
      case ctl of
        Some e \<Rightarrow> (Some e, d)
      | None \<Rightarrow>
          (let d = d\<lparr>sd_socket := sc_enable_control (sd_config d)\<rparr> in
           case se_http env of Some e \<Rightarrow> (Some e, d) | None \<Rightarrow> (None, d\<lparr>sd_state := S_IDLE\<rparr>)))"

definition start_daemon :: "start_env \<Rightarrow> daemon \<Rightarrow> exn option \<times> daemon" where
  "start_daemon env d =
     (if sd_state d \<noteq> S_INITIALIZING then (None, d)
      else
        let d = discover env (d\<lparr>sd_stop := False\<rparr>);
            wireless = (if truthy (sd_iface d) then se_wireless env else None)
        in case wireless of
          Some e \<Rightarrow> (Some e, d)
        | None \<Rightarrow>
            if sc_enable_link (sd_config d) then
              (case start_link (se_link env) (sd_radio d) d of
                 (Some e, d) \<Rightarrow> (Some e, d)
               | (None, d) \<Rightarrow> start_services env d)
            else start_services env d)"

section \<open>Ending a job\<close>

datatype outcome = Completed | Failed | Aborted

fun outcome_name :: "outcome \<Rightarrow> string" where
  "outcome_name Completed = ''completed''"
| "outcome_name Failed = ''failed''"
| "outcome_name Aborted = ''aborted''"

fun execution_result :: "outcome \<Rightarrow> string" where
  "execution_result Completed = ''succeeded''"
| "execution_result Failed = ''failed''"
| "execution_result Aborted = ''aborted''"

text \<open>
  Where \<open>_finalize_job\<close> is: before its first locked section; stopping the coordinator; closing the
  role; asking whether to reset the link; stopping, launching and awaiting the link process; the
  locked section of a failed reset; the terminal broadcast; the locked section of a failed broadcast;
  the last locked section; the terminal event; returned or raised.
\<close>

datatype fin_pc =
    FinClaim
  | FinCoord "nat option" "nat option"
  | FinRole "nat option"
  | FinCheck
  | FinUnlink
  | FinLaunch
  | FinPoll radio_config
  | FinLinkFailed exn
  | FinBroadcast
  | FinBroadcastFailed exn
  | FinSettle
  | FinPublish
  | FinReturn pydict
  | FinRaise exn

record fin_call =
  fc_outcome :: outcome
  fc_job :: pyval
  fc_reason :: string
  fc_summary :: pydict
  fc_error :: string
  fc_recovery :: "string option"
  fc_pc :: fin_pc

record fin_env =
  fe_now :: rat
  fe_coord :: "exn option"
  fe_role :: "exn option"
  fe_link :: link_env
  fe_poll :: "(int option \<times> bool res) option"
  fe_send :: "exn option"

definition fin_ignored :: "fin_call \<Rightarrow> fin_call" where
  "fin_ignored c = c\<lparr>fc_pc := FinReturn [(''status'', PStr ''ignored''), (''job_id'', fc_job c)]\<rparr>"

definition recovering :: "rat \<Rightarrow> fin_call \<Rightarrow> pydict \<Rightarrow> pydict" where
  "recovering now c a = dict_update a
     [(''execution_result'', PStr (execution_result (fc_outcome c))),
      (''recovery_state'', PStr ''recovering''), (''server_phase'', PStr ''recovering''),
      (''reason'', PStr (fc_reason c)), (''error'', PStr (fc_error c)),
      (''phase_started_at'', time_val now)]"

text \<open>The first locked section: the call claims the active job, or ends without effect.\<close>

definition fin_claims :: "fin_call \<Rightarrow> daemon \<Rightarrow> bool" where
  "fin_claims c d \<longleftrightarrow> sd_state d \<noteq> S_STOPPED \<and>
     (case sd_active d of None \<Rightarrow> False
      | Some a \<Rightarrow> fc_job c = PNone \<or> fc_job c = dget a ''job_id'')"

definition fin_claim :: "fin_env \<Rightarrow> fin_call \<Rightarrow> daemon \<Rightarrow> fin_call \<times> daemon" where
  "fin_claim env c d =
     (case sd_active d of
        Some a \<Rightarrow>
          if fin_claims c d then
            let job = (if fc_job c = PNone then dget a ''job_id'' else fc_job c);
                d' = console ''RECOVERY_STARTED'' [(''job_id'', job)]
                       (d\<lparr>sd_recent := Some (recovering (fe_now env) c a)\<rparr>)
            in (c\<lparr>fc_job := job, fc_pc := FinCoord (sd_coord d) (sd_role d)\<rparr>,
                d'\<lparr>sd_state := if fc_outcome c = Aborted then S_ABORTING else sd_state d,
                   sd_coord := None, sd_active := None, sd_role := None\<rparr>)
          else (fin_ignored c, d)
      | None \<Rightarrow> (fin_ignored c, d))"

definition fin_goto :: "fin_pc \<Rightarrow> fin_call \<Rightarrow> fin_call" where
  "fin_goto p c = c\<lparr>fc_pc := p\<rparr>"

text \<open>\<^verbatim>\<open>self._recent_job.update(...)\<close>; on \<^verbatim>\<open>None\<close> it would raise.\<close>

definition no_recent :: exn where
  "no_recent = OtherException ''AttributeError''"

definition blocked :: "string \<Rightarrow> pydict \<Rightarrow> pydict" where
  "blocked code r = dict_update r [(''recovery_state'', PStr ''blocked''), (''recovery_error'', PStr code)]"

definition fin_blocked :: "string \<Rightarrow> exn \<Rightarrow> fin_call \<Rightarrow> daemon \<Rightarrow> fin_call \<times> daemon" where
  "fin_blocked code e c d = (case sd_recent d of
     None \<Rightarrow> (fin_goto (FinRaise no_recent) c, d)
   | Some r \<Rightarrow> (fin_goto (FinRaise e) c,
       console ''RECOVERY_BLOCKED'' [(''job_id'', fc_job c)] (d\<lparr>sd_recent := Some (blocked code r)\<rparr>)))"

definition terminal_message :: "rat \<Rightarrow> fin_call \<Rightarrow> pydict" where
  "terminal_message now c =
     [(''type'', PStr (if fc_outcome c = Completed then ''JOB_COMPLETED'' else ''JOB_ABORT'')),
      (''job_id'', fc_job c), (''timestamp_ms'', PInt (trunc_rat (now * 1000)))] @
     (if fc_outcome c = Completed then []
      else [(''reason'', PStr (if fc_reason c = [] then fc_error c else fc_reason c))])"

definition fin_broadcast :: "fin_env \<Rightarrow> fin_call \<Rightarrow> daemon \<Rightarrow> fin_call \<times> daemon" where
  "fin_broadcast env c d =
     (if fc_job c = PNone then (fin_goto (FinBroadcastFailed (RuntimeError ''no job'')) c, d)
      else case send_downlink (fe_send env) (terminal_message (fe_now env) c) d of
        (Some e, d) \<Rightarrow> (fin_goto (FinBroadcastFailed e) c, d)
      | (None, d) \<Rightarrow> (fin_goto FinSettle c, d))"

definition recovery_settled :: "rat \<Rightarrow> string option \<Rightarrow> pydict \<Rightarrow> pydict" where
  "recovery_settled now err r =
     (let r = dict_update r
        [(''recovery_state'', PStr (if err = None then ''ready'' else ''blocked'')),
         (''server_phase'', PStr (if err = None then ''ready'' else ''recovery_blocked'')),
         (''phase_started_at'', time_val now)]
      in case err of None \<Rightarrow> r | Some code \<Rightarrow> AList.update ''recovery_error'' (PStr code) r)"

definition settle_state :: "daemon \<Rightarrow> daemon" where
  "settle_state d = (if sd_stop d then d else d\<lparr>sd_state := S_IDLE\<rparr>)"

definition settle_error :: "fin_call \<Rightarrow> daemon \<Rightarrow> string option" where
  "settle_error c d =
     (if sd_state d = S_STOPPED \<or> sd_stop d
      then (case fc_recovery c of None \<Rightarrow> Some ''DAEMON_STOPPED'' | Some e \<Rightarrow> Some e)
      else fc_recovery c)"

definition fin_settle :: "fin_env \<Rightarrow> fin_call \<Rightarrow> daemon \<Rightarrow> fin_call \<times> daemon" where
  "fin_settle env c d0 =
     (let d = settle_state d0; err = settle_error c d in
      case sd_recent d of
        None \<Rightarrow> (c\<lparr>fc_pc := FinRaise (TypeError ''NoneType'')\<rparr>, d)
      | Some r \<Rightarrow> (c\<lparr>fc_recovery := err, fc_pc := FinPublish\<rparr>,
          console (if err = None then ''RECOVERY_COMPLETED'' else ''RECOVERY_BLOCKED'')
            [(''job_id'', fc_job c)] (d\<lparr>sd_recent := Some (recovery_settled (fe_now env) err r)\<rparr>)))"

definition terminal_event :: "rat \<Rightarrow> fin_call \<Rightarrow> pydict" where
  "terminal_event now c = (case fc_outcome c of
     Completed \<Rightarrow> [(''type'', PStr ''JOB_COMPLETED''), (''job_id'', fc_job c),
                   (''summary'', PDict (fc_summary c))]
   | Failed \<Rightarrow> [(''type'', PStr ''JOB_FAILED''), (''job_id'', fc_job c), (''error'', PStr (fc_error c))]
   | Aborted \<Rightarrow> [(''type'', PStr ''JOB_ABORTED''), (''job_id'', fc_job c),
                 (''reason'', PStr (fc_reason c)), (''timestamp'', time_val now)])"

definition fin_result :: "fin_call \<Rightarrow> pydict" where
  "fin_result c =
     [(''status'', PStr (outcome_name (fc_outcome c))), (''job_id'', fc_job c),
      (''reason'', PStr (fc_reason c))]"

definition fin_coord :: "fin_env \<Rightarrow> nat option \<Rightarrow> nat option \<Rightarrow> fin_call \<Rightarrow> daemon \<Rightarrow> fin_call \<times> daemon" where
  "fin_coord env coord role c d = (case coord of
     Some h \<Rightarrow>
       if fc_outcome c = Aborted then
         (c\<lparr>fc_recovery := (if fe_coord env = None then fc_recovery c else Some ''COORDINATOR_STOP_FAILED''),
            fc_pc := FinRole role\<rparr>, emit (ECoordAbort h (fc_reason c)) d)
       else (fin_goto (FinRole role) c, d)
   | None \<Rightarrow> (fin_goto (FinRole role) c, d))"

definition fin_role :: "fin_env \<Rightarrow> nat option \<Rightarrow> fin_call \<Rightarrow> daemon \<Rightarrow> fin_call \<times> daemon" where
  "fin_role env role c d = (case role of
     Some h \<Rightarrow>
       (c\<lparr>fc_recovery := (if fe_role env = None then fc_recovery c else Some ''ROLE_CLOSE_FAILED''),
          fc_pc := FinCheck\<rparr>, emit (ERoleClose h) d)
   | None \<Rightarrow> (fin_goto FinCheck c, d))"

definition fin_launch :: "fin_env \<Rightarrow> fin_call \<Rightarrow> daemon \<Rightarrow> fin_call \<times> daemon" where
  "fin_launch env c d = (case launch_link (fe_link env) (sd_radio d) d of
     (Some e, d) \<Rightarrow> (fin_goto (FinLinkFailed e) c, d)
   | (None, d) \<Rightarrow> (fin_goto (FinPoll (sd_radio d)) c, d))"

definition fin_poll :: "fin_env \<Rightarrow> radio_config \<Rightarrow> fin_call \<Rightarrow> daemon \<Rightarrow> fin_call \<times> daemon" where
  "fin_poll env radio c d =
     (case (case fe_poll env of None \<Rightarrow> PollFail tun_failed | Some p \<Rightarrow> poll_link p d) of
        PollAgain \<Rightarrow> (c, d)
      | PollReady \<Rightarrow> (fin_goto FinBroadcast c, d\<lparr>sd_link_radio := Some radio\<rparr>)
      | PollFail e \<Rightarrow> (fin_goto (FinLinkFailed e) c, stop_link d))"

definition fin_turn :: "fin_env \<Rightarrow> fin_call \<Rightarrow> daemon \<Rightarrow> fin_call \<times> daemon" where
  "fin_turn env c d = (case fc_pc c of
     FinClaim \<Rightarrow> fin_claim env c d
   | FinCoord coord role \<Rightarrow> fin_coord env coord role c d
   | FinRole role \<Rightarrow> fin_role env role c d
   | FinCheck \<Rightarrow>
       (fin_goto (if sc_enable_link (sd_config d) \<and> \<not> sd_stop d \<and> sd_state d \<noteq> S_STOPPED
                  then FinUnlink else FinBroadcast) c, d)
   | FinUnlink \<Rightarrow> (fin_goto FinLaunch c, stop_link d)
   | FinLaunch \<Rightarrow> fin_launch env c d
   | FinPoll radio \<Rightarrow> fin_poll env radio c d
   | FinLinkFailed e \<Rightarrow>
       fin_blocked ''LINK_RESET_FAILED'' (fl_error ''link_reset_failed'' (exn_str e)) c
         (if sd_stop d then d else d\<lparr>sd_state := S_STOPPED\<rparr>)
   | FinBroadcast \<Rightarrow> fin_broadcast env c d
   | FinBroadcastFailed e \<Rightarrow>
       fin_blocked ''TERMINAL_BROADCAST_FAILED'' (fl_error ''terminal_broadcast_failed'' (exn_str e)) c
         (d\<lparr>sd_state := S_STOPPED\<rparr>)
   | FinSettle \<Rightarrow> fin_settle env c d
   | FinPublish \<Rightarrow>
       (fin_goto (FinReturn (fin_result c)) c,
        publish_event (fe_now env) (terminal_event (fe_now env) c) d)
   | FinReturn r \<Rightarrow> (c, d)
   | FinRaise e \<Rightarrow> (c, d))"

definition fin_over :: "fin_call \<Rightarrow> bool" where
  "fin_over c = (case fc_pc c of FinReturn r \<Rightarrow> True | FinRaise e \<Rightarrow> True | _ \<Rightarrow> False)"

definition finalize_call :: "outcome \<Rightarrow> pyval \<Rightarrow> string \<Rightarrow> pydict \<Rightarrow> string \<Rightarrow> fin_call" where
  "finalize_call out job reason summary err =
     \<lparr>fc_outcome = out, fc_job = job, fc_reason = reason, fc_summary = summary, fc_error = err,
      fc_recovery = None, fc_pc = FinClaim\<rparr>"

text \<open>\<open>_on_job_completed\<close>, \<open>_on_job_failed\<close> and \<open>abort_job\<close>.\<close>

definition on_job_completed :: "pyval \<Rightarrow> pydict \<Rightarrow> fin_call" where
  "on_job_completed job summary = finalize_call Completed job ''completed'' summary []"

definition on_job_failed :: "pyval \<Rightarrow> exn \<Rightarrow> fin_call" where
  "on_job_failed job e = finalize_call Failed job (''job_failed: '' @ exn_str e) [] (exn_str e)"

definition daemon_abort_job :: "string \<Rightarrow> fin_call" where
  "daemon_abort_job reason = finalize_call Aborted PNone reason [] []"

text \<open>\<open>_finalize_job\<close> without interruption, as \<open>start_job\<close> calls it under the lock: the turns in
  their order, the readiness loop over the given polls. Each turn but a poll moves to a later point,
  so twelve are enough.\<close>

fun fin_polls :: "(int option \<times> bool res) list \<Rightarrow> fin_env \<Rightarrow> fin_call \<Rightarrow> daemon \<Rightarrow> fin_call \<times> daemon" where
  "fin_polls [] env c d = fin_turn (env\<lparr>fe_poll := None\<rparr>) c d"
| "fin_polls (p # ps) env c d = (case fin_turn (env\<lparr>fe_poll := Some p\<rparr>) c d of (c', d') \<Rightarrow>
     if fc_pc c' = fc_pc c then fin_polls ps env c' d' else (c', d'))"

fun fin_sync :: "nat \<Rightarrow> fin_env \<Rightarrow> fin_call \<Rightarrow> daemon \<Rightarrow> fin_call \<times> daemon" where
  "fin_sync 0 env c d = (c, d)"
| "fin_sync (Suc n) env c d =
     (if fin_over c then (c, d)
      else case fin_polls (le_polls (fe_link env)) env c d of (c', d') \<Rightarrow> fin_sync n env c' d')"

definition finalize_now :: "fin_env \<Rightarrow> fin_call \<Rightarrow> daemon \<Rightarrow> fin_call \<times> daemon" where
  "finalize_now env c d = fin_sync 12 env c d"

end
