(* ===== verification/Server_Requests.thy ===== *)
theory Server_Requests
  imports Server_Daemon Job_Config Radio_Reconf Radio_Survey
begin

text \<open>
  What an operator asks of \<open>ServerDaemon\<close>: starting a job, switching the radio, a spectrum survey and
  stopping the daemon. \<open>start_job\<close> holds the daemon's lock throughout and is one function; the others
  release it and are calls with a program counter, like the end of a job in \<open>Server_Daemon\<close>.
\<close>

section \<open>Starting a job\<close>

text \<open>An error with the details some of the daemon's errors carry.\<close>

type_synonym derror = "exn \<times> pydict"

abbreviation plain :: "exn \<Rightarrow> derror" where
  "plain e \<equiv> (e, [])"

text \<open>
  What \<open>start_job\<close> meets: its clocks (\<^verbatim>\<open>je_clock n\<close> is the one the registry reads for node \<open>n\<close>), the
  identifier generated for a job without one, the model file, the runtime factory if one is
  configured (its result says whether it returned a runtime), the construction, start and close of
  the server role, the announcement, the datagrams that arrive during the readiness wait, the
  recovery after a failed wait, and the construction of the coordinator.
\<close>

record job_env =
  je_now :: rat
  je_clock :: "int \<Rightarrow> rat"
  je_wall :: rat
  je_fresh :: string
  je_isfile :: bool
  je_size :: "int res"
  je_digest :: "string res"
  je_factory :: "bool res option"
  je_role_new :: "exn option"
  je_role_start :: "exn option"
  je_role_close :: "exn option"
  je_announce :: "exn option"
  je_arrivals :: "(rat \<times> rat \<times> pyval option \<times> string \<times> int) list"
  je_recovery :: fin_env
  je_coord :: "exn option"

definition NODE_OFFLINE_THRESHOLD :: rat where "NODE_OFFLINE_THRESHOLD = 10"

text \<open>The entry of a target node that is not ready, if it is not.\<close>

definition unready_entry :: "job_env \<Rightarrow> registry \<Rightarrow> int \<Rightarrow> pydict option" where
  "unready_entry env reg nid = (case get_node (je_clock env nid) reg nid of
     None \<Rightarrow> Some [(''readiness'', PStr ''OFFLINE''), (''reported_state'', PNone),
               (''last_heartbeat_ago_seconds'', PNone), (''reason'', PStr ''no heartbeat'')]
   | Some r \<Rightarrow>
       let ago = je_now env - nr_last_heartbeat_time r;
           entry = (\<lambda>rd why. Some [(''readiness'', PStr rd),
             (''reported_state'', PStr (nr_reported_state r)),
             (''last_heartbeat_ago_seconds'', time_val (round2 ago)), (''reason'', PStr why)])
       in if nr_readiness r \<noteq> READY then entry (readiness_value (nr_readiness r)) ''not ready''
          else if NODE_OFFLINE_THRESHOLD < ago then entry ''OFFLINE'' ''heartbeat too old''
          else None)"

fun unready_nodes :: "job_env \<Rightarrow> registry \<Rightarrow> int list \<Rightarrow> pydict" where
  "unready_nodes env reg [] = []"
| "unready_nodes env reg (n # ns) = (case unready_entry env reg n of
     None \<Rightarrow> unready_nodes env reg ns
   | Some e \<Rightarrow> (text_of_int n, PDict e) # unready_nodes env reg ns)"

definition check_model :: "job_env \<Rightarrow> job_config \<Rightarrow> (int \<times> string) res" where
  "check_model env job =
     (if \<not> je_isfile env then Inl (fl_error ''preflight_model_file_not_found'' ''no file'')
      else bind_res (je_size env) (\<lambda>sz.
        if sz \<le> 0 then Inl (fl_error ''preflight_model_empty'' ''empty'')
        else if sz \<noteq> jc_model_size job
        then Inl (fl_error ''preflight_model_validation_failed'' ''size mismatch'')
        else bind_res (je_digest env) (\<lambda>sha.
          if jc_model_sha256 job \<noteq> None \<and> jc_model_sha256 job \<noteq> Some sha
          then Inl (fl_error ''preflight_model_checksum_failed'' ''checksum mismatch'')
          else Inr (sz, sha))))"

definition lift_error :: "'a res \<Rightarrow> derror + 'a" where
  "lift_error r = (case r of Inl e \<Rightarrow> Inl (plain e) | Inr x \<Rightarrow> Inr x)"

definition check_port :: "server_config \<Rightarrow> pydict \<Rightarrow> int res" where
  "check_port c payload = bind_res (json_int (dget_default payload ''uftp_port'' (PInt 1044))) (\<lambda>p.
     if p = sc_broadcast_port c \<or> p = sc_bind_port c
     then Inl (fl_error ''preflight_port_conflict'' ''uftp port'') else Inr p)"

text \<open>The preflight checks, in the order 3, 1, 2 of the code: the model's size and digest and the UFTP
  port, if all pass.\<close>

definition preflight :: "job_env \<Rightarrow> job_config \<Rightarrow> pydict \<Rightarrow> daemon \<Rightarrow> derror + (int \<times> string \<times> int)" where
  "preflight env job payload d =
     (if sd_state d \<noteq> S_IDLE \<or> sd_active d \<noteq> None
      then Inl (plain (fl_error ''preflight_engine_conflict'' ''busy''))
      else
        let unready = unready_nodes env (sv_registry (sd_ctl d)) (jc_target_nodes job) in
        if unready \<noteq> []
        then Inl (fl_error ''preflight_target_nodes_not_ready'' ''not ready'',
                  [(''unready_nodes'', PDict unready)])
        else lift_error (bind_res (check_model env job) (\<lambda>(sz, sha).
          bind_res (check_port (sd_config d) payload) (\<lambda>port. Inr (sz, sha, port)))))"

text \<open>The runtime the coordinator will use: whether there is one, and the server role started for it.\<close>

definition open_role ::
  "job_env \<Rightarrow> job_config \<Rightarrow> int \<Rightarrow> int \<Rightarrow> int \<Rightarrow> daemon \<Rightarrow> (bool \<times> nat option) res \<times> daemon" where
  "open_role env job http max_update port d =
     (let h = sd_serial d;
          args = \<lparr>ra_nodes = jc_target_nodes job, ra_uftp_port = port, ra_http_port = http,
                  ra_max_update = max_update, ra_rate = rc_uftp_rate (sd_radio d)\<rparr>
      in case je_role_new env of
        Some e \<Rightarrow> (Inl e, d)
      | None \<Rightarrow>
          let d = emit (ERoleStart h args) (d\<lparr>sd_serial := Suc h\<rparr>) in
          (case je_role_start env of
             None \<Rightarrow> (Inr (True, Some h), d)
           | Some e \<Rightarrow> (Inl (case je_role_close env of Some e' \<Rightarrow> e' | None \<Rightarrow> e), emit (ERoleClose h) d)))"

definition http_port :: "pydict \<Rightarrow> int res" where
  "http_port payload = json_int (dget_default payload ''server_http_port'' (PInt 8080))"

definition make_runtime ::
  "job_env \<Rightarrow> job_config \<Rightarrow> pydict \<Rightarrow> int \<Rightarrow> int \<Rightarrow> daemon \<Rightarrow> (bool \<times> nat option) res \<times> daemon" where
  "make_runtime env job payload sz port d = (case je_factory env of
     Some r \<Rightarrow> (map_sum (\<lambda>e. e) (\<lambda>b. (b, None)) r, d)
   | None \<Rightarrow>
       if \<not> sc_enable_link (sd_config d) then (Inr (False, None), d)
       else case bind_res (http_port payload) (\<lambda>hp.
              bind_res (json_int (dget_default payload ''max_update_size_bytes'' (PInt (sz * 2))))
                (\<lambda>mu. Inr (hp, mu))) of
         Inl e \<Rightarrow> (Inl e, d)
       | Inr (hp, mu) \<Rightarrow> open_role env job hp mu port d)"

text \<open>\<^verbatim>\<open>payload.get('algorithm_config', {}).get('file_simulation') is True\<close>; a value that is no object has
  no \<^verbatim>\<open>get\<close>.\<close>

definition file_simulation :: "pydict \<Rightarrow> bool res" where
  "file_simulation payload = (case dget_default payload ''algorithm_config'' (PDict []) of
     PDict a \<Rightarrow> Inr (dget a ''file_simulation'' = PBool True)
   | _ \<Rightarrow> Inl (OtherException ''AttributeError''))"

definition job_dict :: "job_env \<Rightarrow> job_config \<Rightarrow> string \<Rightarrow> pydict" where
  "job_dict env job sha = dict_update (job_to_dict job)
     [(''model_sha256'', PStr sha), (''started_at'', time_val (je_wall env)),
      (''current_round'', PInt 0), (''rounds_completed'', PInt 0),
      (''server_phase'', PStr ''preparing''), (''phase_started_at'', time_val (je_wall env))]"

definition announce_msg ::
  "job_env \<Rightarrow> job_config \<Rightarrow> pydict \<Rightarrow> int \<Rightarrow> string \<Rightarrow> int \<Rightarrow> int \<Rightarrow> server_config \<Rightarrow> pydict" where
  "announce_msg env job payload sz sha port http c =
     [(''type'', PStr ''TASK_ANNOUNCE''), (''run_id'', PStr (jc_run_id job)),
      (''job_id'', PStr (jc_job_id job)), (''mode'', PStr (mode_name (jc_mode job))),
      (''rounds'', PInt (jc_rounds job)),
      (''target_nodes'', PList (map PInt (jc_target_nodes job))),
      (''min_updates'', PInt (jc_min_updates job)), (''max_staleness'', PInt (jc_max_staleness job)),
      (''round_timeout_seconds'', PFloat (jc_round_timeout job)),
      (''io_timeout_seconds'', PInt (jc_io_timeout job)),
      (''live_observation'', PBool (jc_live_observation job)),
      (''model_size_bytes'', PInt sz), (''model_sha256'', PStr sha),
      (''server_http_host'', sc_tun_ip c), (''server_http_port'', PInt http),
      (''uftp_port'', PInt port), (''link_id'', PInt (sc_link_id c)),
      (''algorithm'', dget_default payload ''algorithm''
         (PStr ''wfb_ng.fl.issue41_algorithm:client_main'')),
      (''algorithm_config'', dget_default payload ''algorithm_config'' (PDict [])),
      (''timestamp_ms'', PInt (trunc_rat (je_wall env * 1000)))]"

text \<open>The datagrams the receive thread handles while \<open>start_job\<close> waits.\<close>

fun receive_datagrams ::
  "(rat \<times> rat \<times> pyval option \<times> string \<times> int) list \<Rightarrow> ctl_server \<Rightarrow> ctl_server" where
  "receive_datagrams [] s = s"
| "receive_datagrams ((now, wall, payload, addr) # as) s =
     receive_datagrams as (snd (handle_datagram now wall payload addr s))"

definition commit_job :: "pydict \<Rightarrow> nat option \<Rightarrow> daemon \<Rightarrow> daemon" where
  "commit_job jd role d =
     d\<lparr>sd_recent := None, sd_active := Some jd, sd_state := S_RUNNING, sd_role := role\<rparr>"

definition upd_ctl :: "(ctl_server \<Rightarrow> ctl_server) \<Rightarrow> daemon \<Rightarrow> daemon" where
  "upd_ctl f d = d\<lparr>sd_ctl := f (sd_ctl d)\<rparr>"

definition start_coordinator_for :: "job_env \<Rightarrow> bool \<Rightarrow> daemon \<Rightarrow> derror option \<times> daemon" where
  "start_coordinator_for env runtime d =
     (if \<not> runtime then (None, d)
      else case je_coord env of
        Some e \<Rightarrow> (Some (plain e), d)
      | None \<Rightarrow> (None, emit (ECoordStart (sd_serial d))
                        (d\<lparr>sd_coord := Some (sd_serial d), sd_serial := Suc (sd_serial d)\<rparr>)))"

text \<open>After the announcement: the readiness barrier, the started event and the coordinator.\<close>

definition await_clients :: "job_env \<Rightarrow> job_config \<Rightarrow> daemon \<Rightarrow> derror option \<times> daemon" where
  "await_clients env job d =
     (if \<not> sc_enable_link (sd_config d) then (None, upd_ctl clear_task_readiness d)
      else
        let d = upd_ctl (receive_datagrams (je_arrivals env)) d in
        if sv_task_event (sd_ctl d) then (None, upd_ctl clear_task_readiness d)
        else
          (case finalize_now (je_recovery env)
                  (finalize_call Aborted (PStr (jc_job_id job)) ''client_startup_timeout'' [] [])
                  (upd_ctl clear_task_readiness d) of (c, d) \<Rightarrow>
             (Some (plain (case fc_pc c of FinRaise e \<Rightarrow> e
                           | _ \<Rightarrow> fl_error ''client_startup_timeout'' ''clients not ready'')), d)))"

definition run_job_start ::
  "job_env \<Rightarrow> job_config \<Rightarrow> pydict \<Rightarrow> int \<Rightarrow> string \<Rightarrow> int \<Rightarrow> bool \<Rightarrow> daemon \<Rightarrow> derror option \<times> daemon" where
  "run_job_start env job payload sz sha port runtime d = (case http_port payload of
     Inl e \<Rightarrow> (Some (plain e), d)
   | Inr hp \<Rightarrow>
       let m = announce_msg env job payload sz sha port hp (sd_config d);
           d = upd_ctl (prepare_task_readiness (jc_job_id job) (jc_target_nodes job)) d
       in (case send_downlink (je_announce env) m d of
          (Some e, d) \<Rightarrow> (Some (plain e), d)
        | (None, d) \<Rightarrow> (case await_clients env job d of
            (Some e, d) \<Rightarrow> (Some e, d)
          | (None, d) \<Rightarrow>
              start_coordinator_for env runtime
                (publish_event (je_wall env)
                   [(''type'', PStr ''JOB_STARTED''), (''job'', PDict (job_dict env job sha)),
                    (''timestamp'', time_val (je_wall env))] d))))"

definition job_accepted :: "job_config \<Rightarrow> int \<Rightarrow> string \<Rightarrow> pydict" where
  "job_accepted job sz sha =
     [(''status'', PStr ''accepted''), (''run_id'', PStr (jc_run_id job)),
      (''job_id'', PStr (jc_job_id job)), (''mode'', PStr (mode_name (jc_mode job))),
      (''rounds'', PInt (jc_rounds job)),
      (''target_nodes'', PList (map PInt (jc_target_nodes job))),
      (''min_updates'', PInt (jc_min_updates job)), (''model_size_bytes'', PInt sz),
      (''model_sha256'', PStr sha)]"

definition launch_job ::
  "job_env \<Rightarrow> job_config \<Rightarrow> pydict \<Rightarrow> int \<times> string \<times> int \<Rightarrow> daemon \<Rightarrow> (derror + pydict) \<times> daemon" where
  "launch_job env job payload checked d = (case checked of (sz, sha, port) \<Rightarrow>
     (case make_runtime env job payload sz port d of
        (Inl e, d) \<Rightarrow> (Inl (plain e), d)
      | (Inr (runtime, role), d) \<Rightarrow> (case file_simulation payload of
          Inl e \<Rightarrow> (Inl (plain e), d)
        | Inr _ \<Rightarrow>
            (case run_job_start env job payload sz sha port runtime
                    (commit_job (job_dict env job sha) role d) of
               (Some e, d) \<Rightarrow> (Inl e, d)
             | (None, d) \<Rightarrow> (Inr (job_accepted job sz sha), d)))))"

definition start_job :: "job_env \<Rightarrow> pyval \<Rightarrow> daemon \<Rightarrow> (derror + pydict) \<times> daemon" where
  "start_job env v d = (case job_from_dict (je_fresh env) v of
     Inl e \<Rightarrow> (Inl (plain e), d)
   | Inr job \<Rightarrow>
       let payload = (case as_dict v of None \<Rightarrow> [] | Some p \<Rightarrow> p) in
       (case preflight env job payload d of
          Inl e \<Rightarrow> (Inl e, d)
        | Inr checked \<Rightarrow> launch_job env job payload checked d))"

section \<open>Radio reconfiguration\<close>

definition invalid_radio_request :: "string \<Rightarrow> derror" where
  "invalid_radio_request m = plain (fl_error ''invalid_radio_request'' m)"

definition target_ids :: "int list \<Rightarrow> pyval \<Rightarrow> int list option" where
  "target_ids known v = (case as_list v of
     None \<Rightarrow> None
   | Some vs \<Rightarrow>
       let ids = List.map_filter as_int vs in
       if vs \<noteq> [] \<and> length ids = length vs \<and> list_all (\<lambda>i. i \<in> set known) ids \<and> distinct ids
       then Some ids else None)"

definition radio_request :: "int list \<Rightarrow> pyval \<Rightarrow> derror + (pydict \<times> int list)" where
  "radio_request known v = (case as_dict v of
     None \<Rightarrow> Inl (invalid_radio_request ''not an object'')
   | Some p \<Rightarrow>
       if \<not> (list_all (\<lambda>(k, _). k \<in> {''confirmed'', ''patch'', ''target_nodes''}) p \<and>
             list_all (has_key p) [''confirmed'', ''patch'', ''target_nodes''])
       then Inl (invalid_radio_request ''fields'')
       else if dget p ''confirmed'' \<noteq> PBool True then Inl (invalid_radio_request ''not confirmed'')
       else (case (as_dict (dget p ''patch''), target_ids known (dget p ''target_nodes'')) of
           (None, _) \<Rightarrow> Inl (invalid_radio_request ''patch'')
         | (Some patch, ids) \<Rightarrow>
             if patch = [] then Inl (invalid_radio_request ''patch'')
             else (case ids of None \<Rightarrow> Inl (invalid_radio_request ''target_nodes'')
                   | Some ids \<Rightarrow> Inr (patch, ids))))"

definition radio_ready :: "rat \<Rightarrow> registry \<Rightarrow> int \<Rightarrow> bool" where
  "radio_ready now reg nid = (case get_node now reg nid of
     None \<Rightarrow> False
   | Some r \<Rightarrow> nr_readiness r = READY \<and> nr_reported_state r = ''IDLE'')"

text \<open>\<open>_reserve_radio_reconfiguration\<close>: what is wrong with the request, or the patch and its targets,
  with the engine reserved.\<close>

definition radio_admission ::
  "rat \<Rightarrow> pydict \<Rightarrow> int list \<Rightarrow> daemon \<Rightarrow> derror option" where
  "radio_admission now patch targets d =
     (case validate_radio_patch (PDict patch) (sd_radio d) of
        Inl (TypeError m) \<Rightarrow> Some (invalid_radio_request m)
      | Inl (ValueError m) \<Rightarrow> Some (invalid_radio_request m)
      | Inl e \<Rightarrow> Some (plain e)
      | Inr _ \<Rightarrow>
          if sd_state d \<noteq> S_IDLE \<or> sd_active d \<noteq> None
          then Some (plain (fl_error ''engine_busy'' ''busy''))
          else
            let unready = filter (\<lambda>n. \<not> radio_ready now (sv_registry (sd_ctl d)) n) targets in
            if unready \<noteq> []
            then Some (fl_error ''radio_target_nodes_not_ready'' ''not ready'',
                       [(''unready_nodes'', PList (map PInt (sort unready)))])
            else None)"

definition reserve_radio :: "rat \<Rightarrow> pyval \<Rightarrow> daemon \<Rightarrow> (derror + (pydict \<times> int list)) \<times> daemon" where
  "reserve_radio now v d = (case radio_request (sc_known_clients (sd_config d)) v of
     Inl e \<Rightarrow> (Inl e, d)
   | Inr (patch, targets) \<Rightarrow> (case radio_admission now patch targets d of
       Some e \<Rightarrow> (Inl e, d)
     | None \<Rightarrow> (Inr (patch, targets), d\<lparr>sd_state := S_SWITCHING_RADIO\<rparr>)))"

text \<open>
  \<open>reconfigure_radio\<close>: the reservation, the call into the control plane with its turns, and the last
  locked section. The broadcasts of the control plane use the daemon's socket.
\<close>

datatype rad_pc =
    RadReserve pyval
  | RadBegin pydict "int list"
  | RadRun txn
  | RadEnd "switch_result res"
  | RadReturn pydict
  | RadRaise derror

definition switch_status_name :: "switch_status \<Rightarrow> string" where
  "switch_status_name s =
     (case s of SwFinalized \<Rightarrow> ''finalized'' | SwRolledBack \<Rightarrow> ''rolled_back'' | SwRadioError \<Rightarrow> ''radio_error'')"

definition phase_val :: "switch_phase option \<Rightarrow> pyval" where
  "phase_val p = (case p of None \<Rightarrow> PNone | Some PREPARE \<Rightarrow> PStr ''PREPARE''
     | Some COMMIT \<Rightarrow> PStr ''COMMIT'' | Some FINALIZED \<Rightarrow> PStr ''FINALIZED'' | Some CONFIRMED \<Rightarrow> PStr ''CONFIRMED'')"

definition radio_answer :: "switch_result \<Rightarrow> daemon \<Rightarrow> pydict" where
  "radio_answer r d =
     [(''session_id'', PStr (rr_session r)), (''status'', PStr (switch_status_name (rr_status r))),
      (''target_channel'', PInt (rr_target_channel r)), (''applied_patch'', PDict (rr_patch r)),
      (''failed_phase'', phase_val (rr_failed_phase r)),
      (''unresponsive_nodes'', PList (map PInt (rr_unresponsive r))),
      (''error_message'', (case rr_error r of None \<Rightarrow> PNone | Some m \<Rightarrow> PStr m)),
      (''effective_config'', if sd_confirmed d then PDict (rc_to_dict (sd_radio d)) else PNone)]"

definition radio_end :: "switch_result res \<Rightarrow> daemon \<Rightarrow> rad_pc \<times> daemon" where
  "radio_end res d = (case res of
     Inl e \<Rightarrow>
       (RadRaise (plain e),
        console ''RADIO_APPLY_FAILED'' [(''message'', PStr ''radio apply failed'')]
          (d\<lparr>sd_radio := sv_radio (sd_ctl d), sd_confirmed := False,
             sd_ctl := (sd_ctl d)\<lparr>sv_radio_error := True\<rparr>,
             sd_state := if sd_state d = S_STOPPED then S_STOPPED else S_RADIO_ERROR\<rparr>))
   | Inr r \<Rightarrow>
       let d = console ''RADIO_APPLY_RESULT'' [(''message'', PStr (switch_status_name (rr_status r)))]
                 (d\<lparr>sd_radio := sv_radio (sd_ctl d), sd_confirmed := rr_effective r \<noteq> None,
                    sd_state := if sd_state d = S_STOPPED then S_STOPPED
                      else if rr_status r = SwRadioError then S_RADIO_ERROR else S_IDLE\<rparr>)
       in (RadReturn (radio_answer r d), d))"

definition rad_goto :: "txn \<Rightarrow> rad_pc" where
  "rad_goto tx = (case tx_pc tx of PcResult r \<Rightarrow> RadEnd (Inr r) | PcRaise e \<Rightarrow> RadEnd (Inl e) | _ \<Rightarrow> RadRun tx)"

definition socket_env :: "turn_env \<Rightarrow> daemon \<Rightarrow> turn_env" where
  "socket_env env d = env\<lparr>te_send := (\<lambda>m. if sd_socket d then te_send env m
     else Some (RuntimeError ''broadcast socket not initialized''))\<rparr>"

definition emit_broadcasts :: "pydict list \<Rightarrow> daemon \<Rightarrow> daemon" where
  "emit_broadcasts ms d = d\<lparr>sd_log := sd_log d @ map EBroadcast ms\<rparr>"

definition rad_turn :: "turn_env \<Rightarrow> string \<Rightarrow> rad_pc \<Rightarrow> daemon \<Rightarrow> rad_pc \<times> daemon" where
  "rad_turn env sid pc d = (case pc of
     RadReserve v \<Rightarrow> (case reserve_radio (te_now env) v d of
         (Inl e, d) \<Rightarrow> (RadRaise e, d)
       | (Inr (patch, targets), d) \<Rightarrow> (RadBegin patch targets, d))
   | RadBegin patch targets \<Rightarrow>
       (case reconf_begin (socket_env env d) sid targets (PDict patch) default_timeouts (sd_ctl d) of
          Refused e \<Rightarrow> (RadEnd (Inl e), d)
        | NoTargets r \<Rightarrow> (RadEnd (Inr r), d)
        | Started tx s outs \<Rightarrow> (rad_goto tx, emit_broadcasts outs (d\<lparr>sd_ctl := s\<rparr>)))
   | RadRun tx \<Rightarrow>
       if turn_enabled (te_now env) tx (sd_ctl d) then
         (case reconf_turn (socket_env env d) tx (sd_ctl d) of (tx, s, outs) \<Rightarrow>
            (rad_goto tx, emit_broadcasts outs (d\<lparr>sd_ctl := s\<rparr>)))
       else (pc, d)
   | RadEnd res \<Rightarrow> radio_end res d
   | RadReturn r \<Rightarrow> (pc, d)
   | RadRaise e \<Rightarrow> (pc, d))"

section \<open>Spectrum survey\<close>

datatype sur_pc =
    SurReserve
  | SurRun
  | SurEnd "survey_report res"
  | SurReturn survey_report
  | SurRaise exn

record survey_env =
  su_now :: rat
  su_duration :: rat
  su_threshold :: rat
  su_prepare :: "unit res"
  su_count :: "int \<Rightarrow> int res"
  su_finish :: "unit res"

definition survey_iface :: "daemon \<Rightarrow> string" where
  "survey_iface d = (case or_wlan0 (sd_iface d) of PStr s \<Rightarrow> s | _ \<Rightarrow> [])"

definition sur_turn :: "survey_env \<Rightarrow> sur_pc \<Rightarrow> daemon \<Rightarrow> sur_pc \<times> daemon" where
  "sur_turn env pc d = (case pc of
     SurReserve \<Rightarrow>
       if sd_state d \<noteq> S_IDLE then (SurRaise (fl_error ''engine_busy'' ''busy''), d)
       else (SurRun, d\<lparr>sd_state := S_SURVEYING\<rparr>)
   | SurRun \<Rightarrow>
       let res = survey_spectrum (Some (survey_iface d)) (su_duration env) (su_threshold env)
                   (su_prepare env) (su_count env) (su_finish env)
       in (SurEnd res, (case res of Inl e \<Rightarrow> d
            | Inr r \<Rightarrow> publish_event (su_now env)
                [(''type'', PStr ''SPECTRUM_SURVEY_COMPLETED''),
                 (''report'', PDict (survey_report_to_dict r)), (''timestamp'', time_val (su_now env))] d))
   | SurEnd res \<Rightarrow>
       ((case res of Inl e \<Rightarrow> SurRaise e | Inr r \<Rightarrow> SurReturn r),
        if sd_state d = S_SURVEYING then d\<lparr>sd_state := S_IDLE\<rparr> else d)
   | SurReturn r \<Rightarrow> (pc, d)
   | SurRaise e \<Rightarrow> (pc, d))"

section \<open>Stopping the daemon\<close>

datatype stop_pc =
    StopClaim
  | StopControl "nat option" "nat option"
  | StopCoord "nat option" "nat option"
  | StopRole "nat option"
  | StopLink
  | StopReturn

definition stopped_recent :: "daemon \<Rightarrow> pydict option" where
  "stopped_recent d = (case sd_active d of
     Some a \<Rightarrow> Some (dict_update a
       [(''execution_result'', PStr ''aborted''), (''recovery_state'', PStr ''blocked''),
        (''reason'', PStr ''daemon_stopped''), (''recovery_error'', PStr ''DAEMON_STOPPED'')])
   | None \<Rightarrow> (case sd_recent d of
       None \<Rightarrow> None
     | Some r \<Rightarrow> Some (if dget r ''recovery_state'' = PStr ''recovering'' then blocked ''DAEMON_STOPPED'' r else r)))"

text \<open>The first locked section of \<open>stop\<close>; a daemon already being stopped is left alone.\<close>

definition stop_claim :: "daemon \<Rightarrow> stop_pc \<times> daemon" where
  "stop_claim d =
     (if sd_stop d then (StopReturn, d)
      else (StopControl (sd_coord d) (sd_role d),
            d\<lparr>sd_stop := True, sd_recent := stopped_recent d, sd_state := S_STOPPED,
              sd_coord := None, sd_active := None, sd_role := None\<rparr>))"

definition stop_turn :: "stop_pc \<Rightarrow> daemon \<Rightarrow> stop_pc \<times> daemon" where
  "stop_turn pc d = (case pc of
     StopClaim \<Rightarrow> stop_claim d
   | StopControl coord role \<Rightarrow>
       (StopCoord coord role, if sc_enable_control (sd_config d) then d\<lparr>sd_socket := False\<rparr> else d)
   | StopCoord coord role \<Rightarrow>
       (StopRole role, (case coord of None \<Rightarrow> d | Some h \<Rightarrow> emit (ECoordAbort h ''daemon_stopped'') d))
   | StopRole role \<Rightarrow> (StopLink, (case role of None \<Rightarrow> d | Some h \<Rightarrow> emit (ERoleClose h) d))
   | StopLink \<Rightarrow> (StopReturn, if sc_enable_link (sd_config d) then stop_link d else d)
   | StopReturn \<Rightarrow> (pc, d))"

end
