(* ===== verification/Daemon_Safety.thy ===== *)
theory Daemon_Safety
  imports Server_Requests
begin

text \<open>
  The server daemon's threads over one state: any number of \<open>_finalize_job\<close>, radio, survey and
  \<open>stop\<close> calls, interleaved turn by turn with job starts, the start of the daemon, datagrams, events
  of the coordinator and the callback of the control plane. At most one call \<^emph>\<open>owns\<close> the engine, from
  its reservation to the locked section that releases it; the invariant ties the owner to the
  daemon's state. On it rest the refinement of an abstract engine and the safety properties.
\<close>

section \<open>Threads\<close>

datatype thread = TFin fin_call | TRadio rad_pc | TSurvey sur_pc | TStop stop_pc

inductive turn :: "thread \<Rightarrow> daemon \<Rightarrow> thread \<Rightarrow> daemon \<Rightarrow> bool" where
  turn_fin: "fin_turn env c d = (c', d') \<Longrightarrow> turn (TFin c) d (TFin c') d'"
| turn_radio: "rad_turn renv sid p d = (p', d') \<Longrightarrow> turn (TRadio p) d (TRadio p') d'"
| turn_survey: "sur_turn senv p d = (p', d') \<Longrightarrow> turn (TSurvey p) d (TSurvey p') d'"
| turn_stop: "stop_turn p d = (p', d') \<Longrightarrow> turn (TStop p) d (TStop p') d'"

inductive_cases turnE: "turn th d th' d'"

text \<open>A call as its thread begins it.\<close>

inductive fresh_call :: "thread \<Rightarrow> bool" where
  fresh_completed: "fresh_call (TFin (on_job_completed job summary))"
| fresh_failed: "fresh_call (TFin (on_job_failed job e))"
| fresh_abort: "fresh_call (TFin (daemon_abort_job reason))"
| fresh_console_abort: "fresh_call (TFin (finalize_call Aborted job reason [] []))"
| fresh_radio: "fresh_call (TRadio (RadReserve v))"
| fresh_survey: "fresh_call (TSurvey SurReserve)"
| fresh_stop: "fresh_call (TStop StopClaim)"

type_synonym dsys = "daemon \<times> (nat \<Rightarrow> thread option)"

inductive d_step :: "dsys \<Rightarrow> dsys \<Rightarrow> bool" where
  d_turn: "ths i = Some th \<Longrightarrow> turn th d th' d' \<Longrightarrow> d_step (d, ths) (d', ths(i \<mapsto> th'))"
| d_spawn: "ths i = None \<Longrightarrow> fresh_call th \<Longrightarrow> d_step (d, ths) (d, ths(i \<mapsto> th))"
| d_job: "start_job env v d = (r, d') \<Longrightarrow> d_step (d, ths) (d', ths)"
| d_start: "start_daemon env d = (r, d') \<Longrightarrow> d_step (d, ths) (d', ths)"
| d_datagram: "handle_datagram now wall payload addr (sd_ctl d) = (r, s) \<Longrightarrow>
    d_step (d, ths) (d\<lparr>sd_ctl := s\<rparr>, ths)"
| d_event: "d_step (d, ths) (publish_event now ev d, ths)"
| d_callback: "ths i = Some (TRadio (RadRun tx)) \<Longrightarrow> apply_radio_runtime env c d = (r, d') \<Longrightarrow>
    d_step (d, ths) (d', ths)"

inductive_cases d_stepE: "d_step s s'"

inductive d_reach :: "server_config \<Rightarrow> dsys \<Rightarrow> bool" for cfg where
  reach_init: "d_reach cfg (daemon_init cfg, Map.empty)"
| reach_step: "d_reach cfg s \<Longrightarrow> d_step s s' \<Longrightarrow> d_reach cfg s'"

section \<open>Ownership of the engine\<close>

fun owns :: "thread \<Rightarrow> bool" where
  "owns (TFin c) = (case fc_pc c of FinClaim \<Rightarrow> False | FinPublish \<Rightarrow> False | FinReturn _ \<Rightarrow> False
     | FinRaise _ \<Rightarrow> False | _ \<Rightarrow> True)"
| "owns (TRadio p) = (case p of RadBegin _ _ \<Rightarrow> True | RadRun _ \<Rightarrow> True | RadEnd _ \<Rightarrow> True | _ \<Rightarrow> False)"
| "owns (TSurvey p) = (case p of SurRun \<Rightarrow> True | SurEnd _ \<Rightarrow> True | _ \<Rightarrow> False)"
| "owns (TStop p) = False"

text \<open>The state the daemon shows while a call owns the engine.\<close>

fun hold_state :: "thread \<Rightarrow> server_state" where
  "hold_state (TFin c) = (if fc_outcome c = Aborted then S_ABORTING else S_RUNNING)"
| "hold_state (TRadio p) = S_SWITCHING_RADIO"
| "hold_state (TSurvey p) = S_SURVEYING"
| "hold_state (TStop p) = S_STOPPED"

fun job_of :: "thread \<Rightarrow> pyval option" where
  "job_of (TFin c) = Some (fc_job c)"
| "job_of _ = None"

definition no_job :: "daemon \<Rightarrow> bool" where
  "no_job d \<longleftrightarrow> sd_active d = None \<and> sd_coord d = None \<and> sd_role d = None"

definition recent_id :: "daemon \<Rightarrow> pyval option" where
  "recent_id d = map_option (\<lambda>r. dget r ''job_id'') (sd_recent d)"

definition held_ok :: "thread \<Rightarrow> daemon \<Rightarrow> bool" where
  "held_ok th d \<longleftrightarrow> no_job d \<and>
     (sd_state d = hold_state th \<or> sd_state d = S_STOPPED \<and> sd_stop d) \<and> (job_of th \<noteq> None \<longrightarrow> recent_id d = job_of th)"

definition free_ok :: "daemon \<Rightarrow> bool" where
  "free_ok d \<longleftrightarrow>
     (no_job d \<and> sd_state d \<in> {S_INITIALIZING, S_IDLE, S_RADIO_ERROR, S_STOPPED}) \<or>
     (sd_active d \<noteq> None \<and> sd_state d = S_RUNNING)"

definition stop_ok :: "daemon \<Rightarrow> bool" where
  "stop_ok d \<longleftrightarrow> (sd_stop d \<longrightarrow> sd_state d = S_STOPPED)"

text \<open>The owner, if there is one, and what holds of the daemon then.\<close>

definition owner_ok :: "thread \<Rightarrow> daemon \<Rightarrow> bool" where
  "owner_ok th d \<longleftrightarrow> stop_ok d \<and> (if owns th then held_ok th d else free_ok d)"

definition no_owner :: "(nat \<Rightarrow> thread option) \<Rightarrow> bool" where
  "no_owner ths \<longleftrightarrow> (\<forall>i th. ths i = Some th \<longrightarrow> \<not> owns th)"

definition sole_owner :: "(nat \<Rightarrow> thread option) \<Rightarrow> nat \<Rightarrow> thread \<Rightarrow> bool" where
  "sole_owner ths i th \<longleftrightarrow> ths i = Some th \<and> owns th \<and>
     (\<forall>j th'. ths j = Some th' \<longrightarrow> owns th' \<longrightarrow> j = i)"

definition ds_inv :: "dsys \<Rightarrow> bool" where
  "ds_inv s \<longleftrightarrow> (case s of (d, ths) \<Rightarrow> stop_ok d \<and>
     (no_owner ths \<and> free_ok d \<or> (\<exists>i th. sole_owner ths i th \<and> held_ok th d)))"

section \<open>Frames\<close>

lemma emit_frame [simp, frame_simps]:
  "sd_config (emit e d) = sd_config d" "sd_state (emit e d) = sd_state d"
  "sd_active (emit e d) = sd_active d" "sd_recent (emit e d) = sd_recent d"
  "sd_coord (emit e d) = sd_coord d" "sd_role (emit e d) = sd_role d" "sd_stop (emit e d) = sd_stop d"
  "sd_link (emit e d) = sd_link d" "sd_link_radio (emit e d) = sd_link_radio d"
  "sd_radio (emit e d) = sd_radio d" "sd_confirmed (emit e d) = sd_confirmed d"
  "sd_ctl (emit e d) = sd_ctl d" "sd_socket (emit e d) = sd_socket d" "sd_iface (emit e d) = sd_iface d"
  "sd_serial (emit e d) = sd_serial d" "sd_log (emit e d) = sd_log d @ [e]"
  by (simp_all add: emit_def)

lemma console_frame [simp, frame_simps]:
  "sd_config (console t x d) = sd_config d" "sd_state (console t x d) = sd_state d"
  "sd_active (console t x d) = sd_active d" "sd_recent (console t x d) = sd_recent d"
  "sd_coord (console t x d) = sd_coord d" "sd_role (console t x d) = sd_role d"
  "sd_stop (console t x d) = sd_stop d" "sd_radio (console t x d) = sd_radio d"
  "sd_confirmed (console t x d) = sd_confirmed d" "sd_ctl (console t x d) = sd_ctl d"
  "sd_link (console t x d) = sd_link d" "sd_link_radio (console t x d) = sd_link_radio d"
  "sd_socket (console t x d) = sd_socket d" "sd_iface (console t x d) = sd_iface d"
  "sd_serial (console t x d) = sd_serial d"
  by (simp_all add: console_def)

text \<open>What the engine's admission depends on; most actions leave all of it alone.\<close>

definition same_engine :: "daemon \<Rightarrow> daemon \<Rightarrow> bool" where
  "same_engine d d' \<longleftrightarrow> sd_config d' = sd_config d \<and> sd_state d' = sd_state d \<and>
     sd_active d' = sd_active d \<and> sd_recent d' = sd_recent d \<and> sd_coord d' = sd_coord d \<and>
     sd_role d' = sd_role d \<and> sd_stop d' = sd_stop d \<and> sd_radio d' = sd_radio d \<and>
     sd_confirmed d' = sd_confirmed d"

lemma same_engine_refl [simp]: "same_engine d d"
  by (simp add: same_engine_def)

lemma same_engine_trans: "same_engine a b \<Longrightarrow> same_engine b c \<Longrightarrow> same_engine a c"
  by (simp add: same_engine_def)

lemma same_engine_ok:
  assumes "same_engine d d'"
  shows "held_ok th d' = held_ok th d" "free_ok d' = free_ok d" "stop_ok d' = stop_ok d"
  using assms by (simp_all add: same_engine_def held_ok_def free_ok_def stop_ok_def no_job_def recent_id_def)

lemma same_engine_emit [simp]: "same_engine d (emit e d)"
  by (simp add: same_engine_def)

lemma same_engine_ctl [simp]: "same_engine d (d\<lparr>sd_ctl := s\<rparr>)" "same_engine d (upd_ctl f d)"
  by (simp_all add: same_engine_def upd_ctl_def)

lemma same_engine_upd_ctl [simp]:
  "same_engine d (upd_ctl f d') = same_engine d d'" "same_engine (upd_ctl f d) d' = same_engine d d'"
  by (simp_all add: same_engine_def upd_ctl_def)

lemma same_engine_stop_link [simp]: "same_engine d (stop_link d)"
  by (simp add: same_engine_def stop_link_def)

lemma same_engine_broadcasts [simp]: "same_engine d (emit_broadcasts ms d)"
  by (simp add: same_engine_def emit_broadcasts_def)

lemma launch_link_same: "launch_link env radio d = (r, d') \<Longrightarrow> same_engine d d'"
  by (auto simp: launch_link_def same_engine_def split: option.splits)

lemma start_link_same: "start_link env radio d = (r, d') \<Longrightarrow> same_engine d d'"
  by (auto simp: start_link_def same_engine_def stop_link_def dest!: launch_link_same
      split: prod.splits option.splits)

lemma send_downlink_same: "send_downlink out m d = (r, d') \<Longrightarrow> same_engine d d'"
  by (auto simp: send_downlink_def split: if_splits option.splits)

lemma apply_radio_runtime_same: "apply_radio_runtime env c d = (r, d') \<Longrightarrow> same_engine d d'"
  by (auto simp: apply_radio_runtime_def split: if_splits
      intro: same_engine_trans [OF same_engine_stop_link] dest: start_link_same)

lemma publish_event_ok:
  "held_ok th d \<Longrightarrow> held_ok th (publish_event now ev d)" "free_ok d \<Longrightarrow> free_ok (publish_event now ev d)"
  "stop_ok d \<Longrightarrow> stop_ok (publish_event now ev d)"
  by (auto simp: publish_event_def held_ok_def free_ok_def stop_ok_def no_job_def recent_id_def)

section \<open>One turn\<close>

text \<open>What a turn of a call may do to the owner: its own, or another's.\<close>

definition turn_ok :: "thread \<Rightarrow> daemon \<Rightarrow> thread \<Rightarrow> daemon \<Rightarrow> bool" where
  "turn_ok th d th' d' \<longleftrightarrow>
     (owner_ok th d \<longrightarrow> owner_ok th' d') \<and>
     (\<forall>o'. \<not> owns th \<and> owns o' \<and> stop_ok d \<and> held_ok o' d \<longrightarrow>
        \<not> owns th' \<and> stop_ok d' \<and> held_ok o' d')"

lemma same_turn_ok: "same_engine d d' \<Longrightarrow> \<not> owns th \<Longrightarrow> \<not> owns th' \<Longrightarrow> turn_ok th d th' d'"
  by (simp add: turn_ok_def owner_ok_def same_engine_ok)

lemma job_id_update [simp]:
  "dget (AList.update k v r) k' = (if k = k' then v else dget r k')"
  by (simp add: dget_def)

lemma job_id_kept [simp]:
  "dget (blocked code r) ''job_id'' = dget r ''job_id''"
  "dget (recovery_settled now err r) ''job_id'' = dget r ''job_id''"
  "dget (recovering now c r) ''job_id'' = dget r ''job_id''"
  by (simp_all add: blocked_def recovery_settled_def recovering_def Let_def split: option.split)


lemmas engine_defs = owner_ok_def held_ok_def free_ok_def stop_ok_def no_job_def recent_id_def

lemma hold_busy: "owns th \<Longrightarrow> hold_state th \<in> {S_RUNNING, S_ABORTING, S_SWITCHING_RADIO, S_SURVEYING}"
  by (cases th) auto

lemma hold_not_idle [simp]: "owns th \<Longrightarrow> hold_state th \<noteq> S_IDLE" "owns th \<Longrightarrow> S_IDLE \<noteq> hold_state th"
  using hold_busy by fastforce+

lemma fin_claim_ok:
  assumes "fin_claim env c d = (c', d')" and pc: "fc_pc c = FinClaim"
  shows "turn_ok (TFin c) d (TFin c') d'"
proof (cases "fin_claims c d")
  case True
  then obtain a where a: "sd_active d = Some a" by (auto simp: fin_claims_def split: option.splits)
  with True assms show ?thesis
    by (auto simp: turn_ok_def engine_defs fin_claim_def fin_claims_def Let_def split: if_splits)
next
  case False
  with assms(1) have "c' = fin_ignored c \<and> d' = d"
    by (auto simp: fin_claim_def split: option.splits)
  then show ?thesis using pc by (simp add: same_turn_ok fin_ignored_def)
qed

lemma kept_ok:
  assumes "\<And>o'. held_ok o' d \<Longrightarrow> held_ok o' d'" "stop_ok d \<Longrightarrow> stop_ok d'" "owns th" "owns th'"
    "hold_state th' = hold_state th" "job_of th' = job_of th"
  shows "turn_ok th d th' d'"
proof -
  have "held_ok th d \<Longrightarrow> held_ok th' d'"
    using assms(1) [of th] assms(5,6) by (simp add: held_ok_def)
  with assms show ?thesis by (auto simp: turn_ok_def owner_ok_def)
qed

lemma step_owned_ok:
  assumes "same_engine d d'" "owns (TFin c)" "owns (TFin c')" "fc_outcome c' = fc_outcome c" "fc_job c' = fc_job c"
  shows "turn_ok (TFin c) d (TFin c') d'"
  using assms by (intro kept_ok) (auto simp: same_engine_ok)

text \<open>The turns of \<open>_finalize_job\<close> that only act outside the engine.\<close>

definition quiet :: "fin_call \<Rightarrow> daemon \<Rightarrow> fin_call \<Rightarrow> daemon \<Rightarrow> bool" where
  "quiet c d c' d' \<longleftrightarrow> same_engine d d' \<and> owns (TFin c) \<and> owns (TFin c') \<and>
     fc_outcome c' = fc_outcome c \<and> fc_job c' = fc_job c"

lemma quiet_ok: "quiet c d c' d' \<Longrightarrow> turn_ok (TFin c) d (TFin c') d'"
  unfolding quiet_def by (blast intro: step_owned_ok)

lemma fin_coord_quiet:
  "fin_coord env coord role c d = (c', d') \<Longrightarrow> fc_pc c = FinCoord coord role \<Longrightarrow> quiet c d c' d'"
  by (cases coord; cases "fc_outcome c = Aborted") (auto simp: fin_coord_def quiet_def fin_goto_def)

lemma fin_role_quiet:
  "fin_role env role c d = (c', d') \<Longrightarrow> fc_pc c = FinRole role \<Longrightarrow> quiet c d c' d'"
  by (cases role) (auto simp: fin_role_def quiet_def fin_goto_def)

lemma fin_launch_quiet:
  assumes "fin_launch env c d = (c', d')" "fc_pc c = FinLaunch"
  shows "quiet c d c' d'"
proof -
  obtain r d1 where r: "launch_link (fe_link env) (sd_radio d) d = (r, d1)" by fastforce
  from launch_link_same [OF r] r assms show ?thesis
    by (cases r) (auto simp: fin_launch_def quiet_def fin_goto_def)
qed

lemma fin_poll_quiet:
  assumes "fin_poll env radio c d = (c', d')" "fc_pc c = FinPoll radio"
  shows "quiet c d c' d'"
proof -
  define r where "r = (case fe_poll env of None \<Rightarrow> PollFail tun_failed | Some p \<Rightarrow> poll_link p d)"
  from assms show ?thesis unfolding fin_poll_def r_def [symmetric]
    by (cases r) (auto simp: quiet_def fin_goto_def same_engine_def stop_link_def)
qed

lemma fin_broadcast_quiet:
  assumes "fin_broadcast env c d = (c', d')" "fc_pc c = FinBroadcast"
  shows "quiet c d c' d'"
proof -
  obtain r d1 where r: "send_downlink (fe_send env) (terminal_message (fe_now env) c) d = (r, d1)" by fastforce
  from send_downlink_same [OF r] r assms show ?thesis
    by (cases r) (auto simp: fin_broadcast_def quiet_def fin_goto_def split: if_splits)
qed

lemma fin_blocked_ok:
  assumes "fin_blocked code e c d1 = (c', d')" and pc: "owns (TFin c)"
    and d1: "d1 = d\<lparr>sd_state := S_STOPPED\<rparr> \<or> d1 = d \<and> sd_stop d"
  shows "turn_ok (TFin c) d (TFin c') d'"
proof (cases "sd_recent d")
  case None
  with assms have "c' = fin_goto (FinRaise no_recent) c" "d' = d1"
    by (auto simp: fin_blocked_def)
  with None d1 pc show ?thesis by (auto simp: turn_ok_def engine_defs)
next
  case (Some r)
  with assms have "c' = fin_goto (FinRaise e) c"
    "d' = console ''RECOVERY_BLOCKED'' [(''job_id'', fc_job c)] (d1\<lparr>sd_recent := Some (blocked code r)\<rparr>)"
    by (auto simp: fin_blocked_def)
  with Some d1 pc show ?thesis by (auto simp: turn_ok_def engine_defs fin_goto_def)
qed

lemma settle_state_frame [simp]:
  "sd_recent (settle_state d) = sd_recent d" "sd_stop (settle_state d) = sd_stop d"
  "no_job (settle_state d) = no_job d" "sd_active (settle_state d) = sd_active d"
  "sd_log (settle_state d) = sd_log d" "sd_config (settle_state d) = sd_config d" "sd_radio (settle_state d) = sd_radio d"
  "sd_ctl (settle_state d) = sd_ctl d"
  "sd_state (settle_state d) = (if sd_stop d then sd_state d else S_IDLE)"
  by (simp_all add: settle_state_def no_job_def)

lemma fin_settle_ok:
  assumes "fin_settle env c d = (c', d')" and pc: "fc_pc c = FinSettle"
  shows "turn_ok (TFin c) d (TFin c') d'"
proof (cases "sd_recent d")
  case None
  then show ?thesis using pc by (auto simp: turn_ok_def engine_defs)
next
  case (Some r)
  with assms have "\<not> owns (TFin c')" "no_job d' = no_job (settle_state d)" "sd_stop d' = sd_stop d"
    "sd_state d' = sd_state (settle_state d)"
    by (auto simp: fin_settle_def Let_def no_job_def)
  with pc show ?thesis by (auto simp: turn_ok_def owner_ok_def stop_ok_def held_ok_def free_ok_def)
qed

lemma fin_turn_ok:
  assumes "fin_turn env c d = (c', d')"
  shows "turn_ok (TFin c) d (TFin c') d'"
proof (cases "fc_pc c")
  case FinClaim
  with assms show ?thesis by (intro fin_claim_ok) (simp_all add: fin_turn_def)
next
  case FinCheck
  with assms show ?thesis
    by (intro quiet_ok) (auto simp: fin_turn_def fin_goto_def quiet_def)
next
  case FinUnlink
  with assms show ?thesis
    by (intro quiet_ok) (auto simp: fin_turn_def fin_goto_def quiet_def)
next
  case (FinLinkFailed e)
  with assms show ?thesis
    by (cases "sd_stop d") (auto simp: fin_turn_def intro: fin_blocked_ok)
next
  case (FinBroadcastFailed e)
  with assms show ?thesis by (intro fin_blocked_ok) (auto simp: fin_turn_def)
next
  case FinPublish
  with assms have "c' = fin_goto (FinReturn (fin_result c)) c"
    "d' = publish_event (fe_now env) (terminal_event (fe_now env) c) d" by (auto simp: fin_turn_def)
  with FinPublish show ?thesis
    by (simp add: turn_ok_def owner_ok_def fin_goto_def publish_event_ok)
qed (use assms in \<open>auto simp: fin_turn_def intro: same_turn_ok quiet_ok fin_coord_quiet fin_role_quiet
  fin_launch_quiet fin_poll_quiet fin_broadcast_quiet fin_settle_ok\<close>)

lemma rad_turn_ok:
  assumes "rad_turn env sid p d = (p', d')"
  shows "turn_ok (TRadio p) d (TRadio p') d'"
proof (cases p)
  case (RadReserve v)
  with assms show ?thesis
    by (auto simp: rad_turn_def reserve_radio_def radio_admission_def turn_ok_def engine_defs Let_def
        split: sum.splits prod.splits option.splits if_splits exn.splits)
next
  case (RadBegin patch targets)
  with assms have "same_engine d d' \<and> owns (TRadio p')"
    by (auto simp: rad_turn_def rad_goto_def same_engine_def emit_broadcasts_def split: begin_result.splits txn_pc.splits)
  with RadBegin show ?thesis by (intro kept_ok) (auto simp: same_engine_ok)
next
  case (RadRun tx)
  with assms have "same_engine d d' \<and> owns (TRadio p')"
    by (auto simp: rad_turn_def rad_goto_def same_engine_def emit_broadcasts_def split: prod.splits if_splits txn_pc.splits)
  with RadRun show ?thesis by (intro kept_ok) (auto simp: same_engine_ok)
next
  case (RadEnd res)
  with assms show ?thesis
    by (auto simp: rad_turn_def radio_end_def turn_ok_def engine_defs Let_def split: sum.splits if_splits)
qed (use assms in \<open>auto simp: rad_turn_def intro!: same_turn_ok\<close>)

lemma sur_turn_ok:
  assumes "sur_turn env p d = (p', d')"
  shows "turn_ok (TSurvey p) d (TSurvey p') d'"
proof (cases p)
  case SurReserve
  with assms show ?thesis by (auto simp: sur_turn_def turn_ok_def engine_defs split: if_splits)
next
  case SurRun
  with assms obtain res where p': "p' = SurEnd res" and "d' = d \<or> (\<exists>now ev. d' = publish_event now ev d)"
    by (auto simp: sur_turn_def Let_def split: sum.splits)
  then have "held_ok th d \<Longrightarrow> held_ok th d'" "stop_ok d \<Longrightarrow> stop_ok d'" for th
    by (auto simp: publish_event_ok)
  with SurRun p' show ?thesis by (intro kept_ok) simp_all
next
  case (SurEnd res)
  with assms show ?thesis
    by (auto simp: sur_turn_def turn_ok_def engine_defs split: sum.splits if_splits)
qed (use assms in \<open>auto simp: sur_turn_def intro!: same_turn_ok\<close>)

lemma stop_turn_ok:
  assumes "stop_turn p d = (p', d')"
  shows "turn_ok (TStop p) d (TStop p') d'"
proof (cases "p = StopClaim")
  case True
  with assms show ?thesis
    by (auto simp: stop_turn_def stop_claim_def stopped_recent_def turn_ok_def engine_defs split: if_splits option.splits)
next
  case False
  with assms have "same_engine d d'"
    by (auto simp: stop_turn_def same_engine_def stop_link_def split: stop_pc.splits option.splits if_splits)
  then show ?thesis by (simp add: same_turn_ok)
qed

lemma turn_turn_ok: "turn th d th' d' \<Longrightarrow> turn_ok th d th' d'"
  by (auto elim!: turnE intro: fin_turn_ok rad_turn_ok sur_turn_ok stop_turn_ok)

section \<open>\<open>_finalize_job\<close> ends\<close>

fun fin_rank :: "fin_pc \<Rightarrow> nat" where
  "fin_rank FinClaim = 11"
| "fin_rank (FinCoord co ro) = 10"
| "fin_rank (FinRole ro) = 9"
| "fin_rank FinCheck = 8"
| "fin_rank FinUnlink = 7"
| "fin_rank FinLaunch = 6"
| "fin_rank (FinPoll r) = 5"
| "fin_rank FinBroadcast = 4"
| "fin_rank FinSettle = 3"
| "fin_rank FinPublish = 2"
| "fin_rank (FinLinkFailed e) = 1"
| "fin_rank (FinBroadcastFailed e) = 1"
| "fin_rank (FinReturn r) = 0"
| "fin_rank (FinRaise e) = 0"

lemma fin_over_rank: "fin_over c \<longleftrightarrow> fin_rank (fc_pc c) = 0"
  by (cases "fc_pc c") (simp_all add: fin_over_def)

lemma fin_blocked_over: "fin_blocked code e c d = (c', d') \<Longrightarrow> fin_rank (fc_pc c') = 0"
  by (auto simp: fin_blocked_def fin_goto_def split: option.splits)

lemma fin_poll_progress:
  "fin_poll env radio c d = (c', d') \<Longrightarrow> fc_pc c = FinPoll radio \<Longrightarrow>
   fin_rank (fc_pc c') < 5 \<or> fc_pc c' = FinPoll radio \<and> fe_poll env \<noteq> None"
  by (cases "fe_poll env")
    (auto simp: fin_poll_def fin_goto_def split: poll_result.splits)

lemma fin_turn_progress:
  assumes "fin_turn env c d = (c', d')" "\<not> fin_over c"
  shows "fin_rank (fc_pc c') < fin_rank (fc_pc c) \<or> fc_pc c' = fc_pc c \<and> fe_poll env \<noteq> None"
proof (cases "fc_pc c")
  case FinClaim
  with assms show ?thesis
    by (auto simp: fin_turn_def fin_claim_def fin_ignored_def Let_def split: option.splits if_splits)
next
  case (FinCoord co ro)
  with assms show ?thesis
    by (cases co; cases "fc_outcome c = Aborted") (auto simp: fin_turn_def fin_coord_def fin_goto_def)
next
  case (FinRole ro)
  with assms show ?thesis by (cases ro) (auto simp: fin_turn_def fin_role_def fin_goto_def)
next
  case FinLaunch
  obtain r d1 where "launch_link (fe_link env) (sd_radio d) d = (r, d1)" by fastforce
  with FinLaunch assms show ?thesis by (cases r) (auto simp: fin_turn_def fin_launch_def fin_goto_def)
next
  case (FinPoll radio)
  with assms fin_poll_progress show ?thesis by (fastforce simp: fin_turn_def)
next
  case (FinLinkFailed e)
  with assms show ?thesis by (auto simp: fin_turn_def dest: fin_blocked_over)
next
  case FinBroadcast
  obtain r d1 where "send_downlink (fe_send env) (terminal_message (fe_now env) c) d = (r, d1)" by fastforce
  with FinBroadcast assms show ?thesis
    by (cases r) (auto simp: fin_turn_def fin_broadcast_def fin_goto_def split: if_splits)
next
  case (FinBroadcastFailed e)
  with assms show ?thesis by (auto simp: fin_turn_def dest: fin_blocked_over)
next
  case FinSettle
  with assms show ?thesis
    by (cases "sd_recent (settle_state d)") (auto simp: fin_turn_def fin_settle_def Let_def)
qed (use assms in \<open>auto simp: fin_turn_def fin_goto_def fin_over_def split: if_splits\<close>)

lemma fin_polls_progress:
  "fin_polls ps env c d = (c', d') \<Longrightarrow> \<not> fin_over c \<Longrightarrow> fin_rank (fc_pc c') < fin_rank (fc_pc c)"
proof (induction ps env c d arbitrary: c' d' rule: fin_polls.induct)
  case (1 env c d)
  then show ?case using fin_turn_progress [of "env\<lparr>fe_poll := None\<rparr>" c d c' d'] by simp
next
  case (2 p ps env c d)
  obtain c1 d1 where t: "fin_turn (env\<lparr>fe_poll := Some p\<rparr>) c d = (c1, d1)" by fastforce
  show ?case
  proof (cases "fc_pc c1 = fc_pc c")
    case True
    then have "\<not> fin_over c1" using 2 by (simp add: fin_over_def)
    with 2 t True show ?thesis by simp
  next
    case False
    with fin_turn_progress [OF t] 2 t show ?thesis by auto
  qed
qed

lemma fin_sync_over: "fin_sync n env c d = (c', d') \<Longrightarrow> fin_rank (fc_pc c) \<le> n \<Longrightarrow> fin_over c'"
proof (induction n arbitrary: c d)
  case 0
  then show ?case by (simp add: fin_over_rank)
next
  case (Suc n)
  show ?case
  proof (cases "fin_over c")
    case False
    obtain c1 d1 where p: "fin_polls (le_polls (fe_link env)) env c d = (c1, d1)" by fastforce
    from fin_polls_progress [OF p False] Suc.prems(2) have "fin_rank (fc_pc c1) \<le> n" by simp
    with Suc.IH [of c1 d1] Suc.prems(1) p False show ?thesis by simp
  qed (use Suc.prems in simp)
qed

text \<open>A property every turn keeps is kept by the call as a whole.\<close>

lemma fin_polls_keeps:
  assumes "\<And>env c d c' d'. fin_turn env c d = (c', d') \<Longrightarrow> P c d \<Longrightarrow> P c' d'"
  shows "fin_polls ps env c d = (c', d') \<Longrightarrow> P c d \<Longrightarrow> P c' d'"
  using assms by (induction ps env c d rule: fin_polls.induct) (auto split: prod.splits if_splits)

lemma fin_sync_keeps:
  assumes "\<And>env c d c' d'. fin_turn env c d = (c', d') \<Longrightarrow> P c d \<Longrightarrow> P c' d'"
  shows "fin_sync n env c d = (c', d') \<Longrightarrow> P c d \<Longrightarrow> P c' d'"
proof (induction n arbitrary: c d)
  case (Suc n)
  then show ?case
    using fin_polls_keeps [of P, OF assms] by (cases "fin_over c") (auto split: prod.splits)
qed simp

lemma finalize_now_ok:
  assumes "finalize_now env c d = (c', d')" "fc_pc c = FinClaim" "stop_ok d" "free_ok d"
  shows "fin_over c' \<and> stop_ok d' \<and> free_ok d'"
proof -
  have run: "fin_sync 12 env c d = (c', d')" using assms(1) by (simp add: finalize_now_def)
  have ov: "fin_over c'" by (rule fin_sync_over [OF run]) (simp add: assms(2))
  have "owner_ok (TFin c) d" using assms by (simp add: owner_ok_def)
  with fin_sync_keeps [where P = "\<lambda>c d. owner_ok (TFin c) d", OF _ run]
  have "owner_ok (TFin c') d'" using fin_turn_ok by (auto simp: turn_ok_def)
  moreover from ov have "\<not> owns (TFin c')" by (auto simp: fin_over_def split: fin_pc.splits)
  ultimately show ?thesis using ov by (simp add: owner_ok_def)
qed

section \<open>A job start is atomic\<close>

lemma make_runtime_same: "make_runtime env job payload sz port d = (r, d') \<Longrightarrow> same_engine d d'"
  by (auto simp: make_runtime_def open_role_def same_engine_def Let_def split: option.splits if_splits sum.splits prod.splits)

lemma await_clients_ok:
  assumes "await_clients env job d = (r, d')" "stop_ok d" "free_ok d"
  shows "stop_ok d' \<and> free_ok d' \<and> (r = None \<longrightarrow> same_engine d d')"
proof -
  let ?d1 = "upd_ctl (receive_datagrams (je_arrivals env)) d"
  let ?d2 = "upd_ctl clear_task_readiness ?d1"
  have same: "same_engine d ?d2" "same_engine d (upd_ctl clear_task_readiness d)"
    by simp_all
  consider "\<not> sc_enable_link (sd_config d)" | "sc_enable_link (sd_config d)" "sv_task_event (sd_ctl ?d1)"
    | "sc_enable_link (sd_config d)" "\<not> sv_task_event (sd_ctl ?d1)" by blast
  then show ?thesis
  proof cases
    case 3
    obtain c1 d1 where f: "finalize_now (je_recovery env)
        (finalize_call Aborted (PStr (jc_job_id job)) ''client_startup_timeout'' [] []) ?d2 = (c1, d1)"
      by fastforce
    have "stop_ok ?d2" "free_ok ?d2"
      using assms(2,3) same_engine_ok(2,3) [OF same(1)] by blast+
    from finalize_now_ok [OF f _ this] assms(1) 3 f show ?thesis
      by (auto simp: await_clients_def Let_def finalize_call_def)
  qed (use assms same in \<open>auto simp: await_clients_def Let_def same_engine_ok\<close>)
qed

lemma send_downlink_cases:
  assumes "send_downlink out m d = (r, d')"
  shows "same_engine d d' \<and> (r = None \<longrightarrow> d' = emit (EBroadcast m) d)"
  using send_downlink_same [OF assms] assms by (auto simp: send_downlink_def split: if_splits option.splits)

lemma start_coordinator_ok:
  "start_coordinator_for env rt d = (r, d') \<Longrightarrow> stop_ok d \<and> free_ok d \<and> sd_active d \<noteq> None \<Longrightarrow>
   stop_ok d' \<and> free_ok d'"
  by (auto simp: start_coordinator_for_def engine_defs split: if_splits option.splits)

lemma publish_active [simp]: "(sd_active (publish_event now ev d) = None) = (sd_active d = None)"
  by (auto simp: publish_event_def)

lemma run_job_start_ok:
  assumes r: "run_job_start env job payload sz sha port rt d = (r, d')"
    and ok: "stop_ok d" "free_ok d" "sd_active d \<noteq> None"
  shows "stop_ok d' \<and> free_ok d'"
proof (cases "http_port payload")
  case (Inr hp)
  let ?d1 = "upd_ctl (prepare_task_readiness (jc_job_id job) (jc_target_nodes job)) d"
  let ?m = "announce_msg env job payload sz sha port hp (sd_config d)"
  obtain x d2 where s: "send_downlink (je_announce env) ?m ?d1 = (x, d2)" by fastforce
  have d2: "same_engine d d2" using send_downlink_same [OF s] by simp
  then have ok2: "stop_ok d2" "free_ok d2" "sd_active d2 \<noteq> None"
    using ok by (auto simp: same_engine_ok) (simp add: same_engine_def)
  show ?thesis
  proof (cases x)
    case (Some e)
    with r s Inr ok2 show ?thesis by (simp add: run_job_start_def)
  next
    case None
    obtain y d3 where a: "await_clients env job d2 = (y, d3)" by fastforce
    note ok3 = await_clients_ok [OF a ok2(1,2)]
    show ?thesis
    proof (cases y)
      case (Some e)
      with r s Inr None a ok3 show ?thesis by (simp add: run_job_start_def)
    next
      case y: None
      let ?d4 = "publish_event (je_wall env) [(''type'', PStr ''JOB_STARTED''),
        (''job'', PDict (job_dict env job sha)), (''timestamp'', time_val (je_wall env))] d3"
      from y ok3 ok2 have "sd_active d3 \<noteq> None" by (simp add: same_engine_def)
      with ok3 have "stop_ok ?d4 \<and> free_ok ?d4 \<and> sd_active ?d4 \<noteq> None"
        by (simp add: publish_event_ok del: not_None_eq)
      moreover from r s Inr None a y have "start_coordinator_for env rt ?d4 = (r, d')"
        by (simp add: run_job_start_def)
      ultimately show ?thesis by (blast dest: start_coordinator_ok)
    qed
  qed
qed (use assms in \<open>simp add: run_job_start_def\<close>)

lemma preflight_idle: "preflight env job payload d = Inr x \<Longrightarrow> sd_state d = S_IDLE \<and> sd_active d = None"
  by (auto simp: preflight_def split: if_splits)

lemma launch_job_ok:
  assumes "launch_job env job payload checked d = (r, d')" "stop_ok d" "free_ok d" "sd_state d = S_IDLE"
  shows "stop_ok d' \<and> free_ok d'"
proof -
  obtain sz sha port where ch: "checked = (sz, sha, port)" by (cases checked)
  obtain x d1 where m: "make_runtime env job payload sz port d = (x, d1)" by fastforce
  note same = make_runtime_same [OF m]
  have ok1: "stop_ok d1" "free_ok d1" using assms same by (simp_all add: same_engine_ok)
  have idle: "sd_state d1 = S_IDLE" using same assms(4) by (simp add: same_engine_def)
  show ?thesis
  proof (cases "(\<exists>e. x = Inl e) \<or> (\<exists>e. file_simulation payload = Inl e)")
    case True
    with assms(1) m ch ok1 show ?thesis by (auto simp: launch_job_def split: prod.splits sum.splits)
  next
    case False
    then obtain rt role b where x: "x = Inr (rt, role)" "file_simulation payload = Inr b"
      by (metis sum.exhaust surj_pair)
    let ?d = "commit_job (job_dict env job sha) role d1"
    obtain y d2 where j: "run_job_start env job payload sz sha port rt ?d = (y, d2)" by fastforce
    have c: "stop_ok ?d" "free_ok ?d" "sd_active ?d \<noteq> None"
      using ok1 idle by (auto simp: commit_job_def stop_ok_def free_ok_def)
    from run_job_start_ok [OF j c] assms(1) m ch x j show ?thesis
      by (auto simp: launch_job_def split: option.splits)
  qed
qed

lemma start_job_ok:
  assumes "start_job env v d = (r, d')"
  shows "d' = d \<or> sd_state d = S_IDLE \<and> sd_active d = None \<and> (stop_ok d \<and> free_ok d \<longrightarrow> stop_ok d' \<and> free_ok d')"
proof (cases "job_from_dict (je_fresh env) v")
  case (Inr job)
  define payload where "payload = (case as_dict v of None \<Rightarrow> [] | Some p \<Rightarrow> p)"
  show ?thesis
  proof (cases "preflight env job payload d")
    case p: (Inr checked)
    note idle = preflight_idle [OF p]
    with assms Inr p have "launch_job env job payload checked d = (r, d')"
      by (simp add: start_job_def payload_def Let_def)
    from launch_job_ok [OF this] idle show ?thesis by blast
  qed (use assms Inr in \<open>simp add: start_job_def payload_def Let_def\<close>)
qed (use assms in \<open>simp add: start_job_def\<close>)

section \<open>The invariant\<close>

lemma owner_update:
  "no_owner ths \<Longrightarrow> \<not> owns th' \<Longrightarrow> no_owner (ths(i \<mapsto> th'))"
  "no_owner ths \<Longrightarrow> owns th' \<Longrightarrow> sole_owner (ths(i \<mapsto> th')) i th'"
  "sole_owner ths i th \<Longrightarrow> owns th' \<Longrightarrow> sole_owner (ths(i \<mapsto> th')) i th'"
  "sole_owner ths i th \<Longrightarrow> \<not> owns th' \<Longrightarrow> no_owner (ths(i \<mapsto> th'))"
  "sole_owner ths k o' \<Longrightarrow> k \<noteq> i \<Longrightarrow> \<not> owns th' \<Longrightarrow> sole_owner (ths(i \<mapsto> th')) k o'"
  by (auto simp: no_owner_def sole_owner_def)

lemma sole_owner_owns: "sole_owner ths i th \<Longrightarrow> owns th"
  by (simp add: sole_owner_def)

lemma sole_owner_at: "sole_owner ths i th \<Longrightarrow> ths i = Some th"
  by (simp add: sole_owner_def)

lemma sole_owner_unique: "sole_owner ths i th \<Longrightarrow> ths j = Some th' \<Longrightarrow> owns th' \<Longrightarrow> j = i"
  unfolding sole_owner_def by blast

lemma ds_inv_noI: "stop_ok d \<Longrightarrow> no_owner ths \<Longrightarrow> free_ok d \<Longrightarrow> ds_inv (d, ths)"
  by (simp add: ds_inv_def)

lemma ds_inv_soleI: "stop_ok d \<Longrightarrow> sole_owner ths i th \<Longrightarrow> held_ok th d \<Longrightarrow> ds_inv (d, ths)"
  unfolding ds_inv_def by blast

lemma ds_invE:
  assumes "ds_inv (d, ths)"
  obtains (unowned) "stop_ok d" "no_owner ths" "free_ok d"
    | (owned) i th where "stop_ok d" "sole_owner ths i th" "held_ok th d"
  using assms unfolding ds_inv_def by blast

text \<open>Steps that leave the threads alone.\<close>

lemma ds_inv_daemon:
  assumes "ds_inv (d, ths)" "stop_ok d \<Longrightarrow> stop_ok d'" "stop_ok d \<Longrightarrow> free_ok d \<Longrightarrow> free_ok d'"
    "\<And>th. owns th \<Longrightarrow> held_ok th d \<Longrightarrow> held_ok th d'"
  shows "ds_inv (d', ths)"
  using assms(1)
proof (cases rule: ds_invE)
  case unowned
  with assms show ?thesis by (intro ds_inv_noI)
next
  case (owned i th)
  with assms(2) assms(4) [OF sole_owner_owns [OF owned(2)]] show ?thesis by (intro ds_inv_soleI)
qed

lemma ds_inv_turn:
  assumes inv: "ds_inv (d, ths)" and i: "ths i = Some th" and t: "turn th d th' d'"
  shows "ds_inv (d', ths(i \<mapsto> th'))"
proof -
  note ok = turn_turn_ok [OF t]
  have mine: ?thesis if "owner_ok th d" and own: "no_owner ths \<or> sole_owner ths i th"
  proof -
    from ok that have "owner_ok th' d'" by (simp add: turn_ok_def)
    then have "stop_ok d'" and o': "if owns th' then held_ok th' d' else free_ok d'"
      by (simp_all add: owner_ok_def)
    show ?thesis
    proof (cases "owns th'")
      case True
      with own have "sole_owner (ths(i \<mapsto> th')) i th'" by (blast intro: owner_update)
      with True o' \<open>stop_ok d'\<close> show ?thesis by (simp add: ds_inv_soleI)
    next
      case False
      with own have "no_owner (ths(i \<mapsto> th'))" by (blast intro: owner_update)
      with False o' \<open>stop_ok d'\<close> show ?thesis by (simp add: ds_inv_noI)
    qed
  qed
  show ?thesis using inv
  proof (cases rule: ds_invE)
    case unowned
    with i have "owner_ok th d" by (auto simp: owner_ok_def no_owner_def)
    with unowned mine show ?thesis by blast
  next
    case (owned k o')
    show ?thesis
    proof (cases "k = i")
      case True
      from sole_owner_at [OF owned(2)] i True have "o' = th" by simp
      with owned sole_owner_owns [OF owned(2)] have "owner_ok th d" by (simp add: owner_ok_def)
      with owned(2) True \<open>o' = th\<close> mine show ?thesis by blast
    next
      case False
      with sole_owner_unique [OF owned(2) i] have "\<not> owns th" by blast
      with ok owned have "\<not> owns th'" "stop_ok d'" "held_ok o' d'"
        unfolding turn_ok_def by (blast dest: sole_owner_owns)+
      with owner_update(5) [OF owned(2) False] show ?thesis by (intro ds_inv_soleI)
    qed
  qed
qed

lemma fresh_not_owner: "fresh_call th \<Longrightarrow> \<not> owns th"
  by (auto elim!: fresh_call.cases
      simp: on_job_completed_def on_job_failed_def daemon_abort_job_def finalize_call_def)

lemma start_services_ok:
  "start_services env d = (r, d') \<Longrightarrow> sd_state d = S_INITIALIZING \<Longrightarrow> no_job d \<Longrightarrow> \<not> sd_stop d \<Longrightarrow>
   no_job d' \<and> \<not> sd_stop d' \<and> sd_state d' \<in> {S_INITIALIZING, S_IDLE} \<and> sd_radio d' = sd_radio d \<and>
   sd_ctl d' = sd_ctl d"
  by (auto simp: start_services_def Let_def no_job_def split: option.splits if_splits)

lemma start_link_ctl: "start_link env radio d = (r, d') \<Longrightarrow> sd_ctl d' = sd_ctl d"
  by (auto simp: start_link_def launch_link_def stop_link_def split: prod.splits option.splits)

lemma discover_frame [simp]:
  "sd_state (discover env d) = sd_state d" "no_job (discover env d) = no_job d"
  "sd_stop (discover env d) = sd_stop d" "sd_radio (discover env d) = sd_radio d"
  "sd_ctl (discover env d) = sd_ctl d" "sd_config (discover env d) = sd_config d"
  by (auto simp: discover_def no_job_def split: list.splits)

lemma start_daemon_ok:
  assumes "start_daemon env d = (r, d')"
  shows "d' = d \<or> sd_state d = S_INITIALIZING \<and>
    (no_job d \<longrightarrow> no_job d' \<and> \<not> sd_stop d' \<and> sd_state d' \<in> {S_INITIALIZING, S_IDLE} \<and>
     sd_radio d' = sd_radio d \<and> sd_ctl d' = sd_ctl d)"
proof (cases "sd_state d = S_INITIALIZING")
  case True
  define d1 where "d1 = discover env (d\<lparr>sd_stop := False\<rparr>)"
  have d1: "sd_state d1 = S_INITIALIZING" "\<not> sd_stop d1" "no_job d1 = no_job d" "sd_radio d1 = sd_radio d"
    "sd_ctl d1 = sd_ctl d"
    using True by (simp_all add: d1_def no_job_def discover_def split: list.split)
  obtain x d2 where l: "start_link (se_link env) (sd_radio d1) d1 = (x, d2)" by fastforce
  from start_link_same [OF l] start_link_ctl [OF l] d1
  have d2: "sd_state d2 = S_INITIALIZING" "\<not> sd_stop d2" "no_job d2 = no_job d" "sd_radio d2 = sd_radio d"
    "sd_ctl d2 = sd_ctl d"
    by (auto simp: same_engine_def no_job_def)
  consider "d' = d1" | "d' = d2" | "start_services env d1 = (r, d')" | "start_services env d2 = (r, d')"
    using assms True l by (auto simp: start_daemon_def Let_def d1_def [symmetric] split: option.splits if_splits)
  then show ?thesis
    by cases (use True d1 d2 in \<open>auto dest: start_services_ok\<close>)
qed (use assms in \<open>simp add: start_daemon_def\<close>)

lemma hold_not_init [simp]:
  "owns th \<Longrightarrow> hold_state th \<noteq> S_INITIALIZING" "owns th \<Longrightarrow> S_INITIALIZING \<noteq> hold_state th"
  using hold_busy by fastforce+

lemma ds_inv_spawn:
  assumes "ds_inv (d, ths)" "ths i = None" "fresh_call th"
  shows "ds_inv (d, ths(i \<mapsto> th))"
proof -
  note th = fresh_not_owner [OF assms(3)]
  from assms(1) show ?thesis
  proof (cases rule: ds_invE)
    case unowned
    with owner_update(1) [OF unowned(2) th] show ?thesis by (intro ds_inv_noI)
  next
    case (owned k o')
    from sole_owner_at [OF owned(2)] assms(2) have "k \<noteq> i" by auto
    from owner_update(5) [OF owned(2) this th] owned show ?thesis by (intro ds_inv_soleI)
  qed
qed

lemma ds_inv_job:
  assumes "start_job env v d = (r, d')" "ds_inv (d, ths)"
  shows "ds_inv (d', ths)"
proof (cases "d' = d")
  case False
  with start_job_ok [OF assms(1)] have idle: "sd_state d = S_IDLE"
    and ok: "stop_ok d \<Longrightarrow> free_ok d \<Longrightarrow> stop_ok d' \<and> free_ok d'" by blast+
  from assms(2) have "stop_ok d" and "free_ok d \<and> no_owner ths"
    using idle by (auto simp: ds_inv_def held_ok_def dest: sole_owner_owns)
  with ok show ?thesis by (simp add: ds_inv_def)
qed (use assms in simp)

lemma ds_inv_start:
  assumes "start_daemon env d = (r, d')" "ds_inv (d, ths)"
  shows "ds_inv (d', ths)"
proof (cases "d' = d")
  case False
  with start_daemon_ok [OF assms(1)] have st: "sd_state d = S_INITIALIZING"
    and ok: "no_job d \<Longrightarrow> no_job d' \<and> \<not> sd_stop d' \<and> sd_state d' \<in> {S_INITIALIZING, S_IDLE}" by blast+
  from assms(2) have "no_job d" "no_owner ths"
    using st by (auto simp: ds_inv_def held_ok_def free_ok_def dest: sole_owner_owns)
  with ok show ?thesis by (auto simp: ds_inv_def stop_ok_def free_ok_def)
qed (use assms in simp)

lemma ds_inv_same:
  assumes "same_engine d d'" "ds_inv (d, ths)"
  shows "ds_inv (d', ths)"
  using assms by (simp add: ds_inv_def same_engine_ok)

lemma ds_inv_event: "ds_inv (d, ths) \<Longrightarrow> ds_inv (publish_event now ev d, ths)"
  by (erule ds_inv_daemon) (simp_all add: publish_event_ok)

lemma ds_inv_step:
  assumes "d_step s s'" "ds_inv s"
  shows "ds_inv s'"
  using assms
  by (induction rule: d_step.induct)
    (blast intro: ds_inv_turn ds_inv_spawn ds_inv_job ds_inv_start ds_inv_event
      ds_inv_same same_engine_ctl apply_radio_runtime_same)+

lemma reach_inv: "d_reach cfg s \<Longrightarrow> ds_inv s"
proof (induction rule: d_reach.induct)
  case reach_init
  show ?case by (auto simp: daemon_init_def stop_ok_def free_ok_def no_job_def ds_inv_def no_owner_def)
qed (blast intro: ds_inv_step)

end
