(* ===== verification/Daemon_Engine.thy ===== *)
theory Daemon_Engine
  imports Daemon_Safety
begin

text \<open>
  What the server daemon promises: an abstract engine that its threads refine, the conditions under
  which it accepts work, how a job ends, and what its radio configuration and its link process are
  when it is at rest.
\<close>

section \<open>The abstract engine\<close>

datatype engine =
    EngBoot | EngFree | EngJob pyval | EngRecovering pyval | EngSwitching | EngSurveying
  | EngFault | EngHalted

inductive eng_step :: "engine \<Rightarrow> engine \<Rightarrow> bool" where
  eng_boot: "eng_step EngBoot EngFree"
| eng_accept: "eng_step EngFree (EngJob j)"
| eng_finish: "eng_step (EngJob j) (EngRecovering j)"
| eng_recover: "eng_step (EngRecovering j) EngFree"
| eng_switch: "eng_step EngFree EngSwitching"
| eng_switched: "eng_step EngSwitching EngFree"
| eng_fault: "eng_step EngSwitching EngFault"
| eng_survey: "eng_step EngFree EngSurveying"
| eng_surveyed: "eng_step EngSurveying EngFree"
| eng_halt: "eng_step e EngHalted"

definition abs_engine :: "daemon \<Rightarrow> engine" where
  "abs_engine d = (case sd_state d of
     S_IDLE \<Rightarrow> EngFree
   | S_RUNNING \<Rightarrow> (case sd_active d of
       Some a \<Rightarrow> EngJob (dget a ''job_id'') | None \<Rightarrow> EngRecovering (the (recent_id d)))
   | S_ABORTING \<Rightarrow> EngRecovering (the (recent_id d))
   | S_SWITCHING_RADIO \<Rightarrow> EngSwitching
   | S_SURVEYING \<Rightarrow> EngSurveying
   | S_RADIO_ERROR \<Rightarrow> EngFault
   | S_STOPPED \<Rightarrow> EngHalted
   | _ \<Rightarrow> EngBoot)"

definition refines :: "daemon \<Rightarrow> daemon \<Rightarrow> bool" where
  "refines d d' \<longleftrightarrow> abs_engine d' = abs_engine d \<or> eng_step (abs_engine d) (abs_engine d')"

lemma abs_same: "same_engine d d' \<Longrightarrow> abs_engine d' = abs_engine d"
  unfolding same_engine_def abs_engine_def recent_id_def by presburger

lemma track_phase_id [simp]: "dget (track_phase now ev a) ''job_id'' = dget a ''job_id''"
  by (simp add: track_phase_def Let_def)

lemma abs_publish [simp]: "abs_engine (publish_event now ev d) = abs_engine d"
  by (auto simp: publish_event_def abs_engine_def recent_id_def split: server_state.splits option.splits)

lemma refines_same: "same_engine d d' \<Longrightarrow> refines d d'"
  by (simp add: refines_def abs_same)

lemma refines_halt: "sd_state d' = S_STOPPED \<Longrightarrow> refines d d'"
  by (auto simp: refines_def abs_engine_def intro: eng_halt)

text \<open>The engine an owner stands for.\<close>

lemma abs_held:
  assumes "owns th" "held_ok th d"
  shows "sd_state d = S_STOPPED \<or> abs_engine d = (case th of
     TFin c \<Rightarrow> EngRecovering (fc_job c) | TRadio p \<Rightarrow> EngSwitching
   | TSurvey p \<Rightarrow> EngSurveying | TStop p \<Rightarrow> EngHalted)"
  using assms by (cases th) (auto simp: held_ok_def abs_engine_def no_job_def split: if_splits)

lemma fin_claim_refines:
  assumes "fin_claim env c d = (c', d')" "fc_pc c = FinClaim" "stop_ok d" "free_ok d \<or> sd_active d = None"
  shows "refines d d'"
proof (cases "fin_claims c d")
  case True
  then obtain a where a: "sd_active d = Some a" "sd_state d \<noteq> S_STOPPED"
    by (auto simp: fin_claims_def split: option.splits)
  with assms have st: "sd_state d = S_RUNNING" by (auto simp: free_ok_def no_job_def)
  from True a assms(1) have "recent_id d' = Some (dget a ''job_id'')" "sd_active d' = None"
    "sd_state d' \<in> {S_ABORTING, sd_state d}"
    by (auto simp: fin_claim_def recent_id_def Let_def)
  with a st have "abs_engine d = EngJob (dget a ''job_id'')" "abs_engine d' = EngRecovering (dget a ''job_id'')"
    by (auto simp: abs_engine_def)
  then show ?thesis by (simp add: refines_def eng_finish)
next
  case False
  with assms(1) have "d' = d" by (auto simp: fin_claim_def split: option.splits)
  then show ?thesis by (simp add: refines_def)
qed

lemma fin_blocked_state: "fin_blocked code e c d = (c', d') \<Longrightarrow> sd_state d' = sd_state d"
  by (auto simp: fin_blocked_def split: option.splits)

lemma quiet_turns:
  assumes "fin_turn env c d = (c', d')"
    "fc_pc c \<notin> {FinClaim, FinSettle}" "\<nexists>e. fc_pc c = FinLinkFailed e \<or> fc_pc c = FinBroadcastFailed e"
  shows "same_engine d d' \<or> (\<exists>now ev. d' = publish_event now ev d)"
proof (cases "fc_pc c")
  case FinPublish
  with assms show ?thesis by (auto simp: fin_turn_def)
next
  case FinCheck
  with assms show ?thesis by (auto simp: fin_turn_def)
next
  case FinUnlink
  with assms show ?thesis by (auto simp: fin_turn_def)
next
  case (FinReturn r)
  with assms show ?thesis by (auto simp: fin_turn_def)
next
  case (FinRaise e)
  with assms show ?thesis by (auto simp: fin_turn_def)
qed (use assms in \<open>auto simp: fin_turn_def quiet_def
  dest: fin_coord_quiet fin_role_quiet fin_launch_quiet fin_poll_quiet fin_broadcast_quiet\<close>)

lemma fin_turn_refines:
  assumes t: "fin_turn env c d = (c', d')" and ok: "stop_ok d"
    and own: "owner_ok (TFin c) d \<or> \<not> owns (TFin c) \<and> sd_active d = None"
  shows "refines d d'"
proof -
  consider "fc_pc c = FinClaim" | "fc_pc c = FinSettle" | e where "fc_pc c = FinLinkFailed e"
    | e where "fc_pc c = FinBroadcastFailed e"
    | "same_engine d d' \<or> (\<exists>now ev. d' = publish_event now ev d)"
    using quiet_turns [OF t] by blast
  then show ?thesis
  proof cases
    case 1
    with t own ok show ?thesis
      by (intro fin_claim_refines [of env c d c' d']) (auto simp: fin_turn_def owner_ok_def)
  next
    case 2
    with own have h: "held_ok (TFin c) d" by (auto simp: owner_ok_def)
    have "sd_recent d \<noteq> None" using h by (auto simp: held_ok_def recent_id_def)
    with t 2 have d': "sd_state d' = sd_state (settle_state d)" "sd_active d' = sd_active d"
      by (auto simp: fin_turn_def fin_settle_def Let_def)
    show ?thesis
    proof (cases "sd_stop d")
      case True
      with ok d' show ?thesis by (auto simp: stop_ok_def intro: refines_halt)
    next
      case False
      with h have "sd_state d = hold_state (TFin c)" by (auto simp: held_ok_def)
      with abs_held [OF _ h] 2 have "abs_engine d = EngRecovering (fc_job c)" by (auto split: if_splits)
      with False d' show ?thesis by (simp add: refines_def abs_engine_def eng_recover)
    qed
  next
    case (3 e)
    with t ok have "sd_state d' = S_STOPPED"
      by (auto simp: fin_turn_def stop_ok_def dest!: fin_blocked_state split: if_splits)
    then show ?thesis by (rule refines_halt)
  next
    case (4 e)
    with t have "sd_state d' = S_STOPPED" by (auto simp: fin_turn_def dest!: fin_blocked_state)
    then show ?thesis by (rule refines_halt)
  next
    case 5
    then show ?thesis by (auto simp: refines_same) (simp add: refines_def)
  qed
qed

lemma rad_turn_refines:
  assumes t: "rad_turn env sid p d = (p', d')" and ok: "stop_ok d" and own: "owns (TRadio p) \<Longrightarrow> held_ok (TRadio p) d"
  shows "refines d d'"
proof (cases p)
  case (RadReserve v)
  with t have "d' = d \<or> sd_state d = S_IDLE \<and> d' = d\<lparr>sd_state := S_SWITCHING_RADIO\<rparr>"
    by (auto simp: rad_turn_def reserve_radio_def radio_admission_def Let_def
        split: sum.splits prod.splits option.splits if_splits exn.splits)
  then show ?thesis by (auto simp: refines_def abs_engine_def eng_switch)
next
  case (RadEnd res)
  with own have h: "held_ok (TRadio p) d" by simp
  show ?thesis
  proof (cases "sd_state d = S_STOPPED")
    case True
    with t RadEnd have "sd_state d' = S_STOPPED" by (auto simp: rad_turn_def radio_end_def Let_def split: sum.splits)
    then show ?thesis by (rule refines_halt)
  next
    case False
    with h have "sd_state d = S_SWITCHING_RADIO" by (auto simp: held_ok_def)
    moreover from t RadEnd False have "sd_state d' \<in> {S_IDLE, S_RADIO_ERROR}"
      by (auto simp: rad_turn_def radio_end_def Let_def split: sum.splits)
    ultimately show ?thesis by (auto simp: refines_def abs_engine_def eng_switched eng_fault)
  qed
next
  case (RadBegin patch targets)
  with t have "same_engine d d'"
    by (auto simp: rad_turn_def same_engine_def emit_broadcasts_def split: begin_result.splits)
  then show ?thesis by (rule refines_same)
next
  case (RadRun tx)
  with t have "same_engine d d'"
    by (auto simp: rad_turn_def same_engine_def emit_broadcasts_def split: prod.splits if_splits)
  then show ?thesis by (rule refines_same)
qed (use t in \<open>auto simp: rad_turn_def refines_def\<close>)

lemma sur_turn_refines:
  assumes t: "sur_turn env p d = (p', d')" and own: "owns (TSurvey p) \<Longrightarrow> held_ok (TSurvey p) d"
  shows "refines d d'"
proof (cases p)
  case SurReserve
  with t show ?thesis by (auto simp: sur_turn_def refines_def abs_engine_def eng_survey split: if_splits)
next
  case SurRun
  with t show ?thesis by (auto simp: sur_turn_def Let_def refines_def split: sum.splits)
next
  case (SurEnd res)
  with t show ?thesis by (auto simp: sur_turn_def refines_def abs_engine_def eng_surveyed split: if_splits)
qed (use t in \<open>auto simp: sur_turn_def refines_def\<close>)

lemma stop_turn_refines:
  assumes "stop_turn p d = (p', d')"
  shows "refines d d'"
proof (cases "p = StopClaim")
  case True
  with assms have "d' = d \<or> sd_state d' = S_STOPPED"
    by (auto simp: stop_turn_def stop_claim_def split: if_splits)
  then show ?thesis by (auto simp: refines_same intro: refines_halt)
next
  case False
  with assms have "same_engine d d'"
    by (auto simp: stop_turn_def same_engine_def stop_link_def split: stop_pc.splits option.splits if_splits)
  then show ?thesis by (rule refines_same)
qed

lemma turn_refines:
  assumes "turn th d th' d'" "stop_ok d" "owner_ok th d \<or> \<not> owns th \<and> sd_active d = None"
  shows "refines d d'"
  using assms(1)
proof (cases rule: turn.cases)
  case (turn_fin env c c')
  with assms show ?thesis by (auto intro: fin_turn_refines)
next
  case (turn_radio renv sid p p')
  with assms show ?thesis by (intro rad_turn_refines [of renv sid p d p' d']) (auto simp: owner_ok_def)
next
  case (turn_survey senv p p')
  with assms show ?thesis by (intro sur_turn_refines [of senv p d p' d']) (auto simp: owner_ok_def)
next
  case (turn_stop p p')
  then show ?thesis by (intro stop_turn_refines) simp
qed

subsection \<open>Job starts\<close>

definition job_states :: "server_state set" where
  "job_states = {S_IDLE, S_RUNNING, S_ABORTING, S_STOPPED}"

lemma fin_turn_states:
  assumes t: "fin_turn env c d = (c', d')" and "sd_state d \<in> job_states"
  shows "sd_state d' \<in> job_states"
proof -
  consider "fc_pc c = FinClaim" | "fc_pc c = FinSettle" | e where "fc_pc c = FinLinkFailed e"
    | e where "fc_pc c = FinBroadcastFailed e"
    | "same_engine d d' \<or> (\<exists>now ev. d' = publish_event now ev d)"
    using quiet_turns [OF t] by blast
  then show ?thesis
  proof cases
    case 1
    with t assms(2) show ?thesis
      by (auto simp: fin_turn_def fin_claim_def job_states_def Let_def split: option.splits if_splits)
  next
    case 2
    with t assms(2) show ?thesis
      by (cases "sd_recent d"; cases "sd_stop d") (auto simp: fin_turn_def fin_settle_def job_states_def Let_def)
  next
    case (3 e)
    with t assms(2) show ?thesis
      by (auto simp: fin_turn_def job_states_def dest!: fin_blocked_state split: if_splits)
  next
    case (4 e)
    with t show ?thesis by (auto simp: fin_turn_def job_states_def dest!: fin_blocked_state)
  next
    case 5
    with assms(2) show ?thesis by (auto simp: same_engine_def publish_event_def)
  qed
qed

lemma await_clients_states:
  assumes "await_clients env job d = (r, d')" "sd_state d \<in> job_states"
  shows "sd_state d' \<in> job_states"
proof -
  have upd: "sd_state (upd_ctl f x) = sd_state x" for f x by (simp add: upd_ctl_def)
  have keep: "sd_state x \<in> job_states \<Longrightarrow> sd_state y \<in> job_states" if "finalize_now e c x = (c', y)" for e c x c' y
  proof -
    from that have run: "fin_sync 12 e c x = (c', y)" by (simp add: finalize_now_def)
    show "sd_state x \<in> job_states \<Longrightarrow> sd_state y \<in> job_states"
      by (rule fin_sync_keeps [where P = "\<lambda>c d. sd_state d \<in> job_states", OF _ run]) (rule fin_turn_states)
  qed
  show ?thesis
    using assms by (auto simp: await_clients_def Let_def upd split: if_splits prod.splits dest: keep)
qed

lemma publish_state [simp]: "sd_state (publish_event now ev d) = sd_state d"
  by (simp add: publish_event_def)

lemma run_job_start_states:
  assumes "run_job_start env job payload sz sha port rt d = (r, d')" "sd_state d \<in> job_states"
  shows "sd_state d' \<in> job_states"
  using assms
  by (auto simp: run_job_start_def start_coordinator_for_def send_downlink_def Let_def upd_ctl_def
      split: sum.splits prod.splits option.splits if_splits dest!: await_clients_states)

lemma start_job_states:
  assumes "start_job env v d = (r, d')" "sd_state d = S_IDLE"
  shows "sd_state d' \<in> job_states"
proof -
  have m: "sd_state y = sd_state x" if "make_runtime env job payload sz port x = (r, y)" for job payload sz port x r y
    using make_runtime_same [OF that] by (simp add: same_engine_def)
  have c: "sd_state (commit_job jd role x) = S_RUNNING" for jd role x by (simp add: commit_job_def)
  have "sd_state y \<in> job_states" if "launch_job env job payload checked x = (q, y)" "sd_state x = S_IDLE"
    for job payload checked x q y
    using that
    by (auto simp: launch_job_def job_states_def c split: prod.splits sum.splits option.splits
        dest!: m dest: run_job_start_states [unfolded job_states_def])
  with assms show ?thesis
    by (auto simp: start_job_def Let_def job_states_def split: sum.splits)
qed

lemma start_job_refines:
  assumes "start_job env v d = (r, d')" "ds_inv (d, ths)"
  shows "refines d d'"
proof (cases "d' = d")
  case False
  with start_job_ok [OF assms(1)] have idle: "sd_state d = S_IDLE"
    and ok: "stop_ok d \<Longrightarrow> free_ok d \<Longrightarrow> stop_ok d' \<and> free_ok d'" by blast+
  from assms(2) idle have "stop_ok d" "free_ok d"
    by (auto simp: ds_inv_def held_ok_def dest: sole_owner_owns)
  with ok have "free_ok d'" by blast
  with start_job_states [OF assms(1) idle]
  have "sd_state d' = S_IDLE \<or> sd_state d' = S_STOPPED \<or> (\<exists>a. sd_active d' = Some a) \<and> sd_state d' = S_RUNNING"
    by (auto simp: free_ok_def job_states_def)
  with idle show ?thesis by (auto simp: refines_def abs_engine_def eng_accept eng_halt)
qed (simp add: refines_def)

lemma step_refines:
  assumes "d_step s s'" "ds_inv s"
  shows "refines (fst s) (fst s')"
  using assms
proof (induction rule: d_step.induct)
  case (d_turn ths i th d th' d')
  have "stop_ok d \<and> (owner_ok th d \<or> \<not> owns th \<and> sd_active d = None)"
    using d_turn(3)
  proof (cases rule: ds_invE)
    case unowned
    with d_turn(1) show ?thesis by (auto simp: owner_ok_def no_owner_def)
  next
    case (owned k o')
    show ?thesis
    proof (cases "k = i")
      case True
      with sole_owner_at [OF owned(2)] d_turn(1) have "o' = th" by simp
      with owned sole_owner_owns [OF owned(2)] show ?thesis by (simp add: owner_ok_def)
    next
      case False
      with sole_owner_unique [OF owned(2) d_turn(1)] have "\<not> owns th" by blast
      with owned show ?thesis by (simp add: held_ok_def no_job_def)
    qed
  qed
  with turn_refines [OF d_turn(2)] show ?case by simp
next
  case (d_start env d r d' ths)
  show ?case
  proof (cases "d' = d")
    case False
    with start_daemon_ok [OF d_start(1)] have "sd_state d = S_INITIALIZING"
      "no_job d \<Longrightarrow> sd_state d' \<in> {S_INITIALIZING, S_IDLE}" by blast+
    moreover from this d_start(2) have "no_job d"
      by (auto simp: ds_inv_def held_ok_def free_ok_def dest: sole_owner_owns)
    ultimately show ?thesis by (auto simp: refines_def abs_engine_def eng_boot)
  qed (simp add: refines_def)
qed (auto simp: refines_def abs_same dest: start_job_refines apply_radio_runtime_same)

section \<open>Guarantees\<close>

text \<open>C4: The daemon refines an abstract engine. Whatever its threads do and however their locked
  sections interleave - jobs started, completed, failed and aborted, radio switches, surveys, the stop
  of the daemon, datagrams and events - a step leaves the engine as it is or moves it along the
  abstract machine: from free to one job, one switch or one survey; from a job only to the recovery of
  that same job; from recovery to free; and to the halted state, which it never leaves.\<close>

theorem daemon_refines_engine:
  assumes "d_reach cfg s" and "d_step s s'"
  shows "abs_engine (fst s') = abs_engine (fst s) \<or> eng_step (abs_engine (fst s)) (abs_engine (fst s'))"
  using step_refines [OF assms(2) reach_inv [OF assms(1)]] by (simp add: refines_def)

definition quick_config :: server_config where
  "quick_config = default_server_config\<lparr>sc_enable_link := False\<rparr>"

definition fine_link :: link_env where
  "fine_link = \<lparr>le_exe = Some ''/usr/bin/wfb_v6_uplink'', le_open = None, le_popen = None,
     le_polls = [(None, Inr False), (None, Inr True)]\<rparr>"

definition fine_start :: start_env where
  "fine_start = \<lparr>se_ifaces = [''wlan1''], se_wireless = None, se_link = fine_link, se_control = None,
     se_http = None\<rparr>"

definition started :: "server_config \<Rightarrow> daemon" where
  "started c = snd (start_daemon fine_start (daemon_init c))"

lemma started_reach: "d_reach c (started c, Map.empty)"
proof -
  have "start_daemon fine_start (daemon_init c) = (fst (start_daemon fine_start (daemon_init c)), started c)"
    by (simp add: started_def)
  from reach_step [OF reach_init d_start [OF this]] show ?thesis .
qed

theorem daemon_refines_engine_witness:
  "abs_engine (daemon_init quick_config) = EngBoot \<and> abs_engine (started quick_config) = EngFree \<and>
   eng_step (abs_engine (daemon_init quick_config)) (abs_engine (started quick_config))"
proof -
  have v: "abs_engine (daemon_init quick_config) = EngBoot" "abs_engine (started quick_config) = EngFree"
    by code_simp+
  have "start_daemon fine_start (daemon_init quick_config) =
      (fst (start_daemon fine_start (daemon_init quick_config)), started quick_config)"
    by (simp add: started_def)
  from daemon_refines_engine [OF reach_init d_start [OF this, of Map.empty]] v
  show ?thesis by simp
qed

text \<open>C5: One activity at a time. In every reachable state at most one call - the recovery of a job, a radio
  switch or a survey - owns the engine; while one does, no job is active. A job is active only in the
  state RUNNING, and in the states IDLE and RADIO_ERROR nothing is going on at all: no owner, no job,
  no coordinator and no open server role.\<close>

theorem one_activity:
  assumes "d_reach cfg (d, ths)"
  shows "(\<forall>i j th th'. ths i = Some th \<longrightarrow> owns th \<longrightarrow> ths j = Some th' \<longrightarrow> owns th' \<longrightarrow> i = j) \<and>
    (sd_active d \<noteq> None \<longrightarrow> sd_state d = S_RUNNING \<and> no_owner ths) \<and>
    (sd_state d \<in> {S_IDLE, S_RADIO_ERROR} \<longrightarrow> no_owner ths \<and> no_job d)"
  using reach_inv [OF assms]
proof (cases rule: ds_invE)
  case unowned
  then show ?thesis by (auto simp: no_owner_def free_ok_def no_job_def)
next
  case (owned k o')
  have "i = j" if "ths i = Some th" "owns th" "ths j = Some th'" "owns th'" for i j th th'
    using sole_owner_unique [OF owned(2)] that by blast
  moreover have "sd_state d \<notin> {S_IDLE, S_RADIO_ERROR}"
    using owned(3) hold_busy [OF sole_owner_owns [OF owned(2)]] by (auto simp: held_ok_def)
  moreover have "sd_active d = None" using owned(3) by (simp add: held_ok_def no_job_def)
  ultimately show ?thesis by blast
qed

theorem one_activity_witness: "sd_state (started quick_config) = S_IDLE \<and> no_job (started quick_config)"
proof -
  have "sd_state (started quick_config) = S_IDLE" by code_simp
  with one_activity [OF started_reach, of quick_config] show ?thesis by simp
qed

end
