(* ===== verification/Daemon_Jobs.thy ===== *)
theory Daemon_Jobs
  imports Daemon_Engine
begin

text \<open>
  The life of a job in the server daemon: what an accepted start has checked and done, down to the
  clients' own messages at the readiness barrier; what a start that fails leaves behind; how the end
  of a job turns out; and the interleaving with \<open>stop\<close> that leaves the link process running.
\<close>

section \<open>The readiness barrier\<close>

text \<open>The TASK_READY messages among datagrams, as the receive thread understands them.\<close>

fun task_msg :: "pyval option \<Rightarrow> (string \<times> int) list" where
  "task_msg (Some (PDict p)) =
     (if dget p ''type'' = PStr ''TASK_READY''
      then (case (as_str (dget p ''job_id''), as_int (dget p ''node_id'')) of
              (Some job, Some nid) \<Rightarrow> [(job, nid)] | _ \<Rightarrow> [])
      else [])"
| "task_msg _ = []"

definition task_msgs :: "(rat \<times> rat \<times> pyval option \<times> string \<times> int) list \<Rightarrow> (string \<times> int) list" where
  "task_msgs as = concat (map (\<lambda>(now, wall, payload, addr). task_msg payload) as)"

definition same_task :: "ctl_server \<Rightarrow> ctl_server \<Rightarrow> bool" where
  "same_task s t \<longleftrightarrow> sv_task_job s = sv_task_job t \<and> sv_task_expected s = sv_task_expected t \<and>
     sv_task_ready s = sv_task_ready t \<and> sv_task_event s = sv_task_event t"

lemma same_task_refl [simp]: "same_task s s"
  by (simp add: same_task_def)

lemma same_task_record: "same_task s t \<Longrightarrow> same_task (record_task_ready m s) (record_task_ready m t)"
  by (cases m) (auto simp: same_task_def record_task_ready_def Let_def)

lemma others_same_task:
  "same_task (record_finalized_ack p s) s" "same_task (record_confirmed_ack p s) s"
  "same_task (record_prepare_ack a s) s" "same_task (record_commit_success c s) s"
  by (auto simp: same_task_def record_defs split: prod.splits option.splits)

lemma heartbeat_same_task: "handle_heartbeat now wall hb addr s = (r, s') \<Longrightarrow> same_task s' s"
  by (auto simp: handle_heartbeat_def same_task_def Let_def split: prod.splits)

lemma datagram_task:
  "same_task (snd (handle_datagram now wall payload addr s)) (fold record_task_ready (task_msg payload) s)"
proof (cases "\<exists>p. payload = Some (PDict p) \<and> dget p ''type'' = PStr ''TASK_READY''")
  case True
  then show ?thesis
    by (auto simp: handle_datagram_def handle_task_ready_def Let_def split: option.splits prod.splits)
next
  case False
  then have "task_msg payload = []" by (cases payload rule: task_msg.cases) auto
  moreover have "same_task (snd (handle_datagram now wall payload addr s)) s"
    using False
    by (auto simp: handle_datagram_def Let_def others_same_task split: option.splits sum.splits prod.splits
        dest: heartbeat_same_task)
  ultimately show ?thesis by simp
qed

lemma same_task_fold: "same_task s t \<Longrightarrow> same_task (fold record_task_ready ms s) (fold record_task_ready ms t)"
  by (induction ms arbitrary: s t) (simp_all add: same_task_record)

lemma same_task_trans: "same_task a b \<Longrightarrow> same_task b c \<Longrightarrow> same_task a c"
  by (simp add: same_task_def)

lemma receive_task: "same_task (receive_datagrams as s) (fold record_task_ready (task_msgs as) s)"
proof (induction "as" s rule: receive_datagrams.induct)
  case (1 s)
  show ?case by (simp add: task_msgs_def)
next
  case (2 now wall payload addr "as" s)
  let ?t = "snd (handle_datagram now wall payload addr s)"
  have "same_task (fold record_task_ready (task_msgs as) ?t)
      (fold record_task_ready (task_msgs as) (fold record_task_ready (task_msg payload) s))"
    by (rule same_task_fold) (rule datagram_task)
  with 2 same_task_trans show ?case by (fastforce simp: task_msgs_def)
qed

text \<open>From the barrier as \<open>start_job\<close> sets it up, the wait ends well exactly when every target has said
  TASK_READY for this job.\<close>

lemma barrier_passed_iff:
  assumes "targets \<noteq> []"
  shows "sv_task_event (receive_datagrams as (prepare_task_readiness job targets s)) \<longleftrightarrow>
    (\<forall>n \<in> set targets. (job, n) \<in> set (task_msgs as))"
proof -
  let ?s = "prepare_task_readiness job targets s"
  have "sv_task_event (receive_datagrams as ?s) = sv_task_event (fold record_task_ready (task_msgs as) ?s)"
    using receive_task [of "as" ?s] by (simp add: same_task_def)
  also have "\<dots> \<longleftrightarrow> (\<forall>n \<in> sv_task_expected ?s. \<exists>m \<in> set (task_msgs as). Some (snd m) = Some n \<and> task_matches m ?s)"
    by (rule task.complete_iff_all_heard) (use assms in \<open>simp_all add: prepare_task_readiness_def\<close>)
  also have "\<dots> \<longleftrightarrow> (\<forall>n \<in> set targets. (job, n) \<in> set (task_msgs as))"
    by (force simp: prepare_task_readiness_def)
  finally show ?thesis .
qed

text \<open>Node \<open>n\<close> has sent TASK_READY for the job.\<close>

definition said_ready :: "(rat \<times> rat \<times> pyval option \<times> string \<times> int) list \<Rightarrow> string \<Rightarrow> int \<Rightarrow> bool" where
  "said_ready as job n \<longleftrightarrow> (\<exists>now wall p addr. (now, wall, Some (PDict p), addr) \<in> set as \<and>
    dget p ''type'' = PStr ''TASK_READY'' \<and> dget p ''job_id'' = PStr job \<and> dget p ''node_id'' = PInt n)"

lemma task_msgs_origin:
  assumes "(job, n) \<in> set (task_msgs as)"
  shows "said_ready as job n"
proof -
  from assms obtain now wall payload addr where a: "(now, wall, payload, addr) \<in> set as"
    and m: "(job, n) \<in> set (task_msg payload)"
    by (auto simp: task_msgs_def)
  have "\<exists>p. payload = Some (PDict p)"
  proof (cases payload)
    case (Some v)
    with m show ?thesis by (cases v) (simp_all del: task_msg.simps(1))
  qed (use m in simp)
  then obtain p where p: "payload = Some (PDict p)" by blast
  with m have t: "dget p ''type'' = PStr ''TASK_READY''"
    by (cases "dget p ''type'' = PStr ''TASK_READY''") simp_all
  obtain j i where j: "as_str (dget p ''job_id'') = Some j" "as_int (dget p ''node_id'') = Some i"
    using m p t
    by (cases "as_str (dget p ''job_id'')"; cases "as_int (dget p ''node_id'')") auto
  with m p t have "j = job" "i = n" by auto
  with j t have "dget p ''type'' = PStr ''TASK_READY''" "dget p ''job_id'' = PStr job"
    "dget p ''node_id'' = PInt n" by auto
  with a p show ?thesis unfolding said_ready_def by blast
qed

section \<open>An accepted start\<close>

lemma unready_none:
  "unready_nodes env reg ns = [] \<longleftrightarrow> (\<forall>n \<in> set ns. unready_entry env reg n = None)"
  by (induction ns) (auto split: option.splits)

definition node_fresh :: "job_env \<Rightarrow> registry \<Rightarrow> int \<Rightarrow> bool" where
  "node_fresh env reg n \<longleftrightarrow> (\<exists>r. get_node (je_clock env n) reg n = Some r \<and> nr_readiness r = READY \<and>
     je_now env - nr_last_heartbeat_time r \<le> 10)"

lemma unready_entry_none: "unready_entry env reg n = None \<longleftrightarrow> node_fresh env reg n"
  by (auto simp: unready_entry_def node_fresh_def NODE_OFFLINE_THRESHOLD_def Let_def split: option.splits)

lemma check_model_Inr:
  "check_model env job = Inr (sz, sha) \<longleftrightarrow> je_isfile env \<and> je_size env = Inr sz \<and> 0 < sz \<and>
   sz = jc_model_size job \<and> je_digest env = Inr sha \<and> (\<forall>s. jc_model_sha256 job = Some s \<longrightarrow> s = sha)"
  by (cases "je_size env"; cases "je_digest env"; cases "jc_model_sha256 job") (auto simp: check_model_def)

text \<open>The conditions of the preflight checks.\<close>

definition preflight_ok :: "job_env \<Rightarrow> job_config \<Rightarrow> pydict \<Rightarrow> int \<Rightarrow> string \<Rightarrow> int \<Rightarrow> daemon \<Rightarrow> bool" where
  "preflight_ok env job payload sz sha port d \<longleftrightarrow>
     sd_state d = S_IDLE \<and> sd_active d = None \<and>
     (\<forall>n \<in> set (jc_target_nodes job). node_fresh env (sv_registry (sd_ctl d)) n) \<and>
     je_isfile env \<and> je_size env = Inr sz \<and> 0 < sz \<and> sz = jc_model_size job \<and>
     je_digest env = Inr sha \<and> (\<forall>s. jc_model_sha256 job = Some s \<longrightarrow> s = sha) \<and>
     check_port (sd_config d) payload = Inr port"

lemma preflight_Inr:
  "preflight env job payload d = Inr (sz, sha, port) \<longleftrightarrow> preflight_ok env job payload sz sha port d"
proof -
  have lift: "lift_error r = Inr x \<longleftrightarrow> r = Inr x" for r and x :: "int \<times> string \<times> int"
    by (cases r) (simp_all add: lift_error_def)
  show ?thesis
    by (auto simp: preflight_def preflight_ok_def Let_def lift unready_none unready_entry_none check_model_Inr
        split: prod.splits)
qed

lemma make_runtime_ctl:
  "make_runtime env job payload sz port d = (r, d') \<Longrightarrow> sd_ctl d' = sd_ctl d \<and> sd_socket d' = sd_socket d"
  by (auto simp: make_runtime_def open_role_def Let_def split: option.splits if_splits sum.splits prod.splits)

lemma map_sum_Inr [simp]: "map_sum f g s = Inr y \<longleftrightarrow> (\<exists>x. s = Inr x \<and> g x = y)"
  by (cases s) auto

lemma make_runtime_log:
  "make_runtime env job payload sz port d = (Inr (rt, role), d') \<Longrightarrow>
   (case role of None \<Rightarrow> sd_log d' = sd_log d
    | Some h \<Rightarrow> \<exists>args. sd_log d' = sd_log d @ [ERoleStart h args] \<and> ra_nodes args = jc_target_nodes job)"
  by (auto simp: make_runtime_def open_role_def Let_def split: option.splits if_splits sum.splits prod.splits)

lemma job_dict_ids [simp]:
  "dget (job_dict env job sha) ''job_id'' = PStr (jc_job_id job)"
  "dget (job_dict env job sha) ''model_sha256'' = PStr sha"
  "dget (job_dict env job sha) ''target_nodes'' = PList (map PInt (jc_target_nodes job))"
  by (simp_all add: job_dict_def job_to_dict_def dget_def)

lemma publish_frame [simp]:
  "sd_config (publish_event now ev d) = sd_config d" "sd_role (publish_event now ev d) = sd_role d"
  "sd_coord (publish_event now ev d) = sd_coord d" "sd_ctl (publish_event now ev d) = sd_ctl d"
  "sd_socket (publish_event now ev d) = sd_socket d" "sd_stop (publish_event now ev d) = sd_stop d"
  "sd_radio (publish_event now ev d) = sd_radio d" "sd_recent (publish_event now ev d) = sd_recent d"
  "sd_link (publish_event now ev d) = sd_link d" "sd_confirmed (publish_event now ev d) = sd_confirmed d"
  by (simp_all add: publish_event_def)

lemma upd_ctl_frame [simp]:
  "sd_config (upd_ctl f d) = sd_config d" "sd_role (upd_ctl f d) = sd_role d"
  "sd_coord (upd_ctl f d) = sd_coord d" "sd_ctl (upd_ctl f d) = f (sd_ctl d)"
  "sd_socket (upd_ctl f d) = sd_socket d" "sd_stop (upd_ctl f d) = sd_stop d"
  "sd_radio (upd_ctl f d) = sd_radio d" "sd_recent (upd_ctl f d) = sd_recent d"
  "sd_state (upd_ctl f d) = sd_state d" "sd_active (upd_ctl f d) = sd_active d"
  "sd_log (upd_ctl f d) = sd_log d" "sd_confirmed (upd_ctl f d) = sd_confirmed d"
  by (simp_all add: upd_ctl_def)

lemma await_clients_None:
  assumes "await_clients env job d = (None, d')"
  shows "d' = upd_ctl (\<lambda>s. clear_task_readiness
      (if sc_enable_link (sd_config d) then receive_datagrams (je_arrivals env) s else s)) d \<and>
    (sc_enable_link (sd_config d) \<longrightarrow> sv_task_event (receive_datagrams (je_arrivals env) (sd_ctl d)))"
  using assms by (auto simp: await_clients_def Let_def upd_ctl_def split: if_splits prod.splits)

lemma run_job_start_None:
  assumes r: "run_job_start env job payload sz sha port rt d = (None, d')" and t: "jc_target_nodes job \<noteq> []"
  obtains hp where "http_port payload = Inr hp"
    "EBroadcast (announce_msg env job payload sz sha port hp (sd_config d)) \<in> set (sd_log d')"
    "sc_enable_link (sd_config d) \<longrightarrow>
       (\<forall>n \<in> set (jc_target_nodes job). (jc_job_id job, n) \<in> set (task_msgs (je_arrivals env)))"
    "sd_state d' = sd_state d" "map_option (\<lambda>a. dget a ''job_id'') (sd_active d') = map_option (\<lambda>a. dget a ''job_id'') (sd_active d)"
    "sd_role d' = sd_role d" "(sd_coord d' \<noteq> None) = (rt \<or> sd_coord d \<noteq> None)" "set (sd_log d) \<subseteq> set (sd_log d')"
proof (cases "http_port payload")
  case (Inr hp)
  let ?d1 = "upd_ctl (prepare_task_readiness (jc_job_id job) (jc_target_nodes job)) d"
  let ?m = "announce_msg env job payload sz sha port hp (sd_config d)"
  obtain x d2 where s: "send_downlink (je_announce env) ?m ?d1 = (x, d2)" by fastforce
  with r Inr have x: "x = None" by (cases x) (auto simp: run_job_start_def)
  with s send_downlink_cases [OF s] have d2: "d2 = emit (EBroadcast ?m) ?d1" by simp
  obtain y d3 where a: "await_clients env job d2 = (y, d3)" by fastforce
  with r Inr s x have y: "y = None" by (cases y) (auto simp: run_job_start_def)
  note d3 = await_clients_None [OF a [unfolded y]]
  let ?d4 = "publish_event (je_wall env) [(''type'', PStr ''JOB_STARTED''),
        (''job'', PDict (job_dict env job sha)), (''timestamp'', time_val (je_wall env))] d3"
  have last: "start_coordinator_for env rt ?d4 = (None, d')"
    using r Inr s x a y by (simp add: run_job_start_def)
  have log: "set (sd_log d) \<union> {EBroadcast ?m} \<subseteq> set (sd_log d3)" using d3 d2 by simp
  have d': "sd_state d' = sd_state d3" "sd_role d' = sd_role d3" "(sd_coord d' \<noteq> None) = (rt \<or> sd_coord d3 \<noteq> None)"
    "set (sd_log d3) \<subseteq> set (sd_log d')" "map_option (\<lambda>a. dget a ''job_id'') (sd_active d') = map_option (\<lambda>a. dget a ''job_id'') (sd_active d3)"
    using last by (auto simp: start_coordinator_for_def publish_event_def option.map_comp comp_def
        split: if_splits option.splits)
  show thesis
  proof (rule that [OF Inr])
    show "EBroadcast ?m \<in> set (sd_log d')" "set (sd_log d) \<subseteq> set (sd_log d')" using log d'(4) by auto
    show "sc_enable_link (sd_config d) \<longrightarrow>
       (\<forall>n \<in> set (jc_target_nodes job). (jc_job_id job, n) \<in> set (task_msgs (je_arrivals env)))"
    proof
      assume that: "sc_enable_link (sd_config d)"
      have "sv_task_event (receive_datagrams (je_arrivals env) (sd_ctl ?d1))" using d3 d2 that by simp
      with barrier_passed_iff [OF t]
      show "\<forall>n \<in> set (jc_target_nodes job). (jc_job_id job, n) \<in> set (task_msgs (je_arrivals env))" by simp
    qed
  qed (use d' d3 d2 in simp_all)
qed (use r in \<open>simp add: run_job_start_def\<close>)

lemma job_targets:
  assumes "job_from_dict fresh v = Inr job"
  obtains payload where "v = PDict payload" "jc_target_nodes job \<noteq> []"
proof -
  from assms obtain payload where v: "v = PDict payload"
    by (auto simp: job_from_dict_def split: option.splits)
  with job_from_dict_Inr [of fresh payload job] assms have "jc_target_nodes job \<noteq> []" by simp
  with v that show thesis by blast
qed

lemma start_job_Inr:
  assumes "start_job env v d = (Inr ans, d')"
  obtains job payload sz sha port rt role d1 where "v = PDict payload"
    "job_from_dict (je_fresh env) v = Inr job" "jc_target_nodes job \<noteq> []"
    "preflight_ok env job payload sz sha port d"
    "make_runtime env job payload sz port d = (Inr (rt, role), d1)"
    "run_job_start env job payload sz sha port rt (commit_job (job_dict env job sha) role d1) = (None, d')"
    "ans = job_accepted job sz sha"
proof -
  from assms obtain job where j: "job_from_dict (je_fresh env) v = Inr job"
    by (auto simp: start_job_def split: sum.splits)
  then obtain payload where v: "v = PDict payload" "jc_target_nodes job \<noteq> []" by (rule job_targets)
  with assms j obtain checked where p: "preflight env job payload d = Inr checked"
    and l: "launch_job env job payload checked d = (Inr ans, d')"
    by (auto simp: start_job_def Let_def split: sum.splits)
  obtain sz sha port where ch: "checked = (sz, sha, port)" by (cases checked)
  from l ch obtain rt role d1 where m: "make_runtime env job payload sz port d = (Inr (rt, role), d1)"
    and r: "run_job_start env job payload sz sha port rt (commit_job (job_dict env job sha) role d1) = (None, d')"
    and ans: "ans = job_accepted job sz sha"
    by (auto simp: launch_job_def split: prod.splits sum.splits option.splits)
  from that [OF v(1) j v(2) _ m r ans] p ch preflight_Inr show thesis by blast
qed


definition ready_node :: "int \<Rightarrow> node_record" where
  "ready_node n = \<lparr>nr_node_id = n, nr_tun_host = 10 + n, nr_reported_state = ''IDLE'',
     nr_readiness = READY, nr_elapsed_ms = 0, nr_current_channel = 157, nr_txpower_dbm = 12,
     nr_uplink_mcs = 6, nr_error_code = PNone, nr_timestamp_ms = None, nr_last_heartbeat_time = 0,
     nr_last_heartbeat_wall_time = 0, nr_addr = (''10.80.0.11'', 9001)\<rparr>"

definition ready_registry :: registry where
  "ready_registry = (registry_init 10)\<lparr>reg_nodes := [(1, ready_node 1), (2, ready_node 2)]\<rparr>"

definition lab_config :: server_config where
  "lab_config = default_server_config\<lparr>sc_link_id := 7\<rparr>"

definition idle_daemon :: daemon where
  "idle_daemon = upd_ctl (\<lambda>s. s\<lparr>sv_registry := ready_registry\<rparr>) (started lab_config)"

definition task_ready :: "int \<Rightarrow> rat \<times> rat \<times> pyval option \<times> string \<times> int" where
  "task_ready n = (1, 1, Some (PDict [(''type'', PStr ''TASK_READY''), (''job_id'', PStr sample_job_id),
     (''node_id'', PInt n)]), ''10.80.0.11'', 9001)"

definition fine_recovery :: fin_env where
  "fine_recovery = \<lparr>fe_now = 2, fe_coord = None, fe_role = None, fe_link = fine_link, fe_poll = None,
     fe_send = None\<rparr>"

definition fine_job_env :: job_env where
  "fine_job_env = \<lparr>je_now = 1, je_clock = (\<lambda>n. 1), je_wall = 1, je_fresh = sample_job_id,
     je_isfile = True, je_size = Inr 8, je_digest = Inr ''ab'', je_factory = None, je_role_new = None,
     je_role_start = None, je_role_close = None, je_announce = None,
     je_arrivals = [task_ready 2, task_ready 7, task_ready 1], je_recovery = fine_recovery,
     je_coord = None\<rparr>"

definition answer_of :: "(derror + pydict) \<times> daemon \<Rightarrow> pydict option" where
  "answer_of r = (case fst r of Inl e \<Rightarrow> None | Inr a \<Rightarrow> Some a)"


section \<open>A start that fails\<close>

text \<open>The end of a job that was claimed: nothing is active any more.\<close>

lemma fin_claim_active:
  assumes "fin_claim env c d = (c', d')" "fin_claims c d"
  shows "fc_pc c' \<noteq> FinClaim \<and> sd_active d' = None"
proof -
  from assms(2) obtain a where "sd_active d = Some a" by (auto simp: fin_claims_def split: option.splits)
  with assms show ?thesis by (auto simp: fin_claim_def Let_def)
qed

lemma fin_turn_not_claim:
  assumes "fin_turn env c d = (c', d')" "fc_pc c \<noteq> FinClaim"
  shows "fc_pc c' \<noteq> FinClaim"
proof (cases "fin_over c")
  case True
  with assms have "c' = c" by (auto simp: fin_over_def fin_turn_def split: fin_pc.splits)
  with assms(2) show ?thesis by simp
next
  case False
  have "fin_rank (fc_pc c) < 11" using assms(2) by (cases "fc_pc c") simp_all
  with fin_turn_progress [OF assms(1) False] assms(2) show ?thesis by auto
qed

lemma fin_turn_inactive:
  assumes "fin_turn env c d = (c', d')" "fc_pc c \<noteq> FinClaim" "sd_active d = None"
  shows "sd_active d' = None"
proof -
  consider "fc_pc c = FinSettle" | e where "fc_pc c = FinLinkFailed e"
    | e where "fc_pc c = FinBroadcastFailed e"
    | "same_engine d d' \<or> (\<exists>now ev. d' = publish_event now ev d)"
    using quiet_turns [OF assms(1)] assms(2) by blast
  then show ?thesis
  proof cases
    case 1
    with assms(1,3) show ?thesis
      by (cases "sd_recent d") (auto simp: fin_turn_def fin_settle_def Let_def)
  next
    case (2 e)
    with assms(1,3) show ?thesis
      by (cases "sd_recent d"; cases "sd_stop d") (auto simp: fin_turn_def fin_blocked_def)
  next
    case (3 e)
    with assms(1,3) show ?thesis
      by (cases "sd_recent d") (auto simp: fin_turn_def fin_blocked_def)
  next
    case 4
    with assms(3) show ?thesis by (auto simp: same_engine_def publish_event_def)
  qed
qed

lemma finalize_now_claimed:
  assumes "finalize_now env c d = (c', d')" "fc_pc c = FinClaim" "fin_claims c d"
  shows "sd_active d' = None"
proof -
  from assms(1) have run: "fin_sync 12 env c d = (c', d')" by (simp add: finalize_now_def)
  let ?P = "\<lambda>c d. if fc_pc c = FinClaim then fin_claims c d else sd_active d = None"
  have step: "?P c' d'" if "fin_turn env c d = (c', d')" "?P c d" for env c d c' d'
  proof (cases "fc_pc c = FinClaim")
    case True
    with that have "fin_claim env c d = (c', d')" "fin_claims c d" by (simp_all add: fin_turn_def)
    from fin_claim_active [OF this] show ?thesis by simp
  next
    case False
    with that fin_turn_not_claim [OF that(1)] fin_turn_inactive [OF that(1)] show ?thesis by simp
  qed
  have "?P c' d'" by (rule fin_sync_keeps [where P = ?P, OF step run]) (use assms in auto)
  moreover have "fc_pc c' \<noteq> FinClaim" using fin_sync_over [OF run] assms(2) by (auto simp: fin_over_def)
  ultimately show ?thesis by simp
qed

lemma active_None_rest: "free_ok d \<Longrightarrow> sd_active d = None \<Longrightarrow> no_job d"
  by (auto simp: free_ok_def)

lemma await_clients_Some:
  assumes a: "await_clients env job d = (Some e, d')" and ok: "stop_ok d" "free_ok d" "sd_state d = S_RUNNING"
    and act: "sd_active d = Some a" "dget a ''job_id'' = PStr (jc_job_id job)"
  shows "no_job d' \<and> sd_state d' \<in> {S_IDLE, S_STOPPED}"
proof -
  define d1 where "d1 = upd_ctl clear_task_readiness (upd_ctl (receive_datagrams (je_arrivals env)) d)"
  define c where "c = finalize_call Aborted (PStr (jc_job_id job)) ''client_startup_timeout'' [] []"
  obtain c' where f: "finalize_now (je_recovery env) c d1 = (c', d')"
    using a by (auto simp: await_clients_def Let_def d1_def c_def split: if_splits prod.splits)
  have "same_engine d d1" by (simp add: d1_def)
  then have d1: "stop_ok d1" "free_ok d1" "sd_state d1 = S_RUNNING" "sd_active d1 = Some a"
    using ok act by (simp_all add: same_engine_ok) (simp_all add: same_engine_def)
  have claim: "fc_pc c = FinClaim" "fin_claims c d1"
    using d1 act by (simp_all add: c_def finalize_call_def fin_claims_def)
  from finalize_now_claimed [OF f claim] finalize_now_ok [OF f claim(1) d1(1,2)]
  have "no_job d'" "free_ok d'" by (auto intro: active_None_rest)
  moreover have "sd_state d' \<in> job_states"
    by (rule await_clients_states [OF a]) (simp add: ok job_states_def)
  ultimately show ?thesis by (auto simp: free_ok_def no_job_def job_states_def)
qed

lemma run_job_start_Some:
  assumes r: "run_job_start env job payload sz sha port rt d = (Some e, d')"
    and d: "sd_state d = S_RUNNING" "sd_active d = Some (job_dict env job sha)" "sd_coord d = None"
      "sd_socket d = sock" "stop_ok d" "free_ok d"
  shows "(no_job d' \<and> sd_state d' \<in> {S_IDLE, S_STOPPED}) \<or>
    (sd_state d' = S_RUNNING \<and> sd_active d' \<noteq> None \<and> sd_coord d' = None \<and>
     (\<not> is_ok (http_port payload) \<or> je_announce env \<noteq> None \<or> \<not> sock \<or> je_coord env \<noteq> None))"
proof (cases "http_port payload")
  case (Inl e1)
  with r d show ?thesis by (simp add: run_job_start_def)
next
  case (Inr hp)
  define d1 where "d1 = upd_ctl (prepare_task_readiness (jc_job_id job) (jc_target_nodes job)) d"
  define m where "m = announce_msg env job payload sz sha port hp (sd_config d)"
  obtain x d2 where s: "send_downlink (je_announce env) m d1 = (x, d2)" by fastforce
  have same: "same_engine d d2" using send_downlink_same [OF s] by (simp add: d1_def)
  then have d2: "sd_state d2 = S_RUNNING" "sd_active d2 = Some (job_dict env job sha)" "sd_coord d2 = None"
    "stop_ok d2" "free_ok d2"
    using d by (simp_all add: same_engine_ok) (simp_all add: same_engine_def)
  from r Inr have r': "(case send_downlink (je_announce env) m d1 of
      (Some e, d) \<Rightarrow> (Some (plain e), d)
    | (None, d) \<Rightarrow> (case await_clients env job d of
        (Some e, d) \<Rightarrow> (Some e, d)
      | (None, d) \<Rightarrow> start_coordinator_for env rt
          (publish_event (je_wall env) [(''type'', PStr ''JOB_STARTED''),
             (''job'', PDict (job_dict env job sha)), (''timestamp'', time_val (je_wall env))] d))) = (Some e, d')"
    by (simp add: run_job_start_def d1_def m_def)
  show ?thesis
  proof (cases x)
    case (Some e1)
    with s have "je_announce env \<noteq> None \<or> \<not> sock"
      using d by (auto simp: send_downlink_def d1_def split: if_splits option.splits)
    moreover from Some s r' have "d' = d2" by simp
    ultimately show ?thesis using d2 by auto
  next
    case None
    obtain y d3 where a: "await_clients env job d2 = (y, d3)" by fastforce
    show ?thesis
    proof (cases y)
      case (Some e1)
      with None s a r' have "d' = d3" by simp
      with await_clients_Some [OF a [unfolded Some] d2(4,5,1,2)] show ?thesis by simp
    next
      case y: None
      from await_clients_ok [OF a d2(4,5)] y have "same_engine d2 d3" by blast
      then have d3: "sd_state d3 = S_RUNNING" "sd_active d3 \<noteq> None" "sd_coord d3 = None"
        using d2 by (simp_all add: same_engine_def)
      define d4 where "d4 = publish_event (je_wall env) [(''type'', PStr ''JOB_STARTED''),
             (''job'', PDict (job_dict env job sha)), (''timestamp'', time_val (je_wall env))] d3"
      have d4: "sd_state d4 = S_RUNNING" "sd_active d4 \<noteq> None" "sd_coord d4 = None"
        using d3 by (simp_all add: d4_def del: not_None_eq)
      from None s a y r' have last: "start_coordinator_for env rt d4 = (Some e, d')" by (simp add: d4_def)
      then have "d' = d4 \<and> je_coord env \<noteq> None"
        by (auto simp: start_coordinator_for_def split: if_splits option.splits)
      with d4 show ?thesis by blast
    qed
  qed
qed

text \<open>C8: What a failed job start leaves behind. When the engine was idle and \<open>start_job\<close> ends with an error,
  either no job is active and the daemon is idle again (or stopped, because the recovery of the aborted
  job failed) - or it remains RUNNING with the job active and no coordinator to run it, which happens
  only if the announcement could not be sent, the HTTP port of the request is no number, or the
  coordinator could not be built.\<close>

theorem failed_start_outcome:
  assumes "start_job env (PDict payload) d = (Inl e, d')" and "sd_state d = S_IDLE" and "no_job d" and "stop_ok d"
  shows "(no_job d' \<and> sd_state d' \<in> {S_IDLE, S_STOPPED}) \<or>
    (sd_state d' = S_RUNNING \<and> sd_active d' \<noteq> None \<and> sd_coord d' = None \<and>
     (\<not> is_ok (http_port payload) \<or> je_announce env \<noteq> None \<or> \<not> sd_socket d \<or> je_coord env \<noteq> None))"
proof -
  have same: ?thesis if "same_engine d d'"
    using that assms by (simp add: same_engine_def no_job_def)
  show ?thesis
  proof (cases "job_from_dict (je_fresh env) (PDict payload)")
    case (Inl e1)
    with assms(1) same show ?thesis by (simp add: start_job_def)
  next
    case j: (Inr job)
    show ?thesis
    proof (cases "preflight env job payload d")
      case (Inl e1)
      with assms(1) j same show ?thesis by (simp add: start_job_def)
    next
      case p: (Inr checked)
      obtain sz sha port where ch: "checked = (sz, sha, port)" by (cases checked)
      obtain x d1 where m: "make_runtime env job payload sz port d = (x, d1)" by fastforce
      note same1 = make_runtime_same [OF m]
      from assms(1) j p ch have l: "launch_job env job payload (sz, sha, port) d = (Inl e, d')"
        by (simp add: start_job_def)
      show ?thesis
      proof (cases "(\<exists>e. x = Inl e) \<or> (\<exists>e. file_simulation payload = Inl e)")
        case True
        with l m have "d' = d1" by (auto simp: launch_job_def split: prod.splits sum.splits)
        with same same1 show ?thesis by blast
      next
        case False
        then obtain rt role b where x: "x = Inr (rt, role)" "file_simulation payload = Inr b"
          by (metis sum.exhaust surj_pair)
        define d2 where "d2 = commit_job (job_dict env job sha) role d1"
        from l m x have r: "run_job_start env job payload sz sha port rt d2 = (Some e, d')"
          by (auto simp: launch_job_def d2_def split: prod.splits option.splits)
        have d2: "sd_state d2 = S_RUNNING" "sd_active d2 = Some (job_dict env job sha)" "sd_coord d2 = None"
          "sd_socket d2 = sd_socket d" "stop_ok d2" "free_ok d2"
          using same1 make_runtime_ctl [OF m] assms
          by (auto simp: d2_def commit_job_def same_engine_def no_job_def stop_ok_def free_ok_def)
        show ?thesis by (rule run_job_start_Some [OF r d2])
      qed
    qed
  qed
qed

definition deaf_job_env :: job_env where
  "deaf_job_env = fine_job_env\<lparr>je_announce := Some (OtherException ''OSError'')\<rparr>"

theorem failed_start_outcome_witness:
  "sd_state (snd (start_job deaf_job_env (PDict sample_request) idle_daemon)) = S_RUNNING \<and>
   sd_coord (snd (start_job deaf_job_env (PDict sample_request) idle_daemon)) = None"
proof -
  obtain r d' where s: "start_job deaf_job_env (PDict sample_request) idle_daemon = (r, d')" by fastforce
  have "answer_of (start_job deaf_job_env (PDict sample_request) idle_daemon) = None \<and>
      sd_state (snd (start_job deaf_job_env (PDict sample_request) idle_daemon)) \<notin> {S_IDLE, S_STOPPED}" by code_simp
  with s obtain e where e: "start_job deaf_job_env (PDict sample_request) idle_daemon = (Inl e, d')"
    "sd_state d' \<notin> {S_IDLE, S_STOPPED}"
    by (cases r) (auto simp: answer_of_def)
  have "sd_state idle_daemon = S_IDLE" "no_job idle_daemon" "stop_ok idle_daemon"
    unfolding no_job_def stop_ok_def by code_simp+
  from failed_start_outcome [OF e(1) this] e(2) s show ?thesis by auto
qed

end
