(* ===== verification/Daemon_Recovery.thy ===== *)
theory Daemon_Recovery
  imports Daemon_Jobs
begin

text \<open>
  The end of a job, \<open>_finalize_job\<close>, computed from what it meets: the daemon is idle again exactly if
  the link process came up again and the terminal message was sent, and it stops itself otherwise.
  Interleaved with \<open>stop\<close> the same call can leave a link process behind.
\<close>

section \<open>The turns in their order\<close>

fun polls_ready :: "(int option \<times> bool res) list \<Rightarrow> bool" where
  "polls_ready [] = False"
| "polls_ready ((None, Inr ready) # ps) = (ready \<or> polls_ready ps)"
| "polls_ready (p # ps) = False"

text \<open>The link process can be started again.\<close>

definition link_starts :: "link_env \<Rightarrow> bool" where
  "link_starts env \<longleftrightarrow> le_exe env \<noteq> None \<and> le_open env = None \<and> le_popen env = None \<and> polls_ready (le_polls env)"

lemma fin_turn_poll_irrelevant:
  "(\<forall>r. fc_pc c \<noteq> FinPoll r) \<Longrightarrow> fin_turn (env\<lparr>fe_poll := x\<rparr>) c d = fin_turn env c d"
  by (cases "fc_pc c")
    (auto simp: fin_turn_def fin_claim_def fin_coord_def fin_role_def fin_launch_def fin_broadcast_def
      fin_settle_def Let_def split: option.split)

lemma fin_polls_single:
  assumes "\<forall>r. fc_pc c \<noteq> FinPoll r" "\<not> fin_over c"
  shows "fin_polls ps env c d = fin_turn env c d"
proof -
  obtain c' d' where t: "fin_turn env c d = (c', d')" by fastforce
  have pc: "fc_pc c' \<noteq> fc_pc c"
  proof
    assume eq: "fc_pc c' = fc_pc c"
    have "fin_turn (env\<lparr>fe_poll := None\<rparr>) c d = (c', d')"
      using fin_turn_poll_irrelevant [OF assms(1)] t by simp
    from fin_turn_progress [OF this assms(2)] eq show False by simp
  qed
  with t show ?thesis
    by (cases ps) (simp_all add: fin_turn_poll_irrelevant [OF assms(1)])
qed

lemma fin_sync_single:
  assumes "\<forall>r. fc_pc c \<noteq> FinPoll r" "\<not> fin_over c" "fin_turn env c d = (c', d')"
  shows "fin_sync (Suc n) env c d = fin_sync n env c' d'"
  using assms by (simp add: fin_polls_single fin_sync.simps(2))

declare fin_sync.simps(2) [simp del]

lemma fin_sync_done: "fin_over c \<Longrightarrow> fin_sync n env c d = (c, d)"
  by (cases n) (simp_all add: fin_sync.simps(2))

lemma fin_polls_ready:
  assumes "fc_pc c = FinPoll radio" "sd_link d"
  shows "\<exists>e. fin_polls ps env c d =
    (if polls_ready ps then (fin_goto FinBroadcast c, d\<lparr>sd_link_radio := Some radio\<rparr>)
     else (fin_goto (FinLinkFailed e) c, stop_link d))"
  using assms
proof (induction ps rule: polls_ready.induct)
  case 1
  then show ?case by (auto simp: fin_turn_def fin_poll_def)
next
  case (2 ready ps)
  then show ?case
    by (cases ready) (auto simp: fin_turn_def fin_poll_def poll_link_def fin_goto_def)
qed (auto simp: fin_turn_def fin_poll_def poll_link_def fin_goto_def split: option.split)

section \<open>How a job's end turns out\<close>

text \<open>The two ends of the call, given its job and what \<open>sd_recent\<close> holds.\<close>

definition ended_idle :: "fin_env \<Rightarrow> fin_call \<Rightarrow> bool \<Rightarrow> fin_call \<times> daemon \<Rightarrow> bool" where
  "ended_idle env c clean r \<longleftrightarrow> (case r of (c', d') \<Rightarrow>
     (\<exists>a. fc_pc c' = FinReturn a) \<and> sd_state d' = S_IDLE \<and>
     EBroadcast (terminal_message (fe_now env) c) \<in> set (sd_log d') \<and>
     (\<exists>rec. sd_recent d' = Some rec \<and>
        dget rec ''recovery_state'' = PStr (if clean then ''ready'' else ''blocked'')))"

definition ended_stopped :: "string \<Rightarrow> fin_call \<times> daemon \<Rightarrow> bool" where
  "ended_stopped code r \<longleftrightarrow> (case r of (c', d') \<Rightarrow>
     (\<exists>m. fc_pc c' = FinRaise (fl_error code m)) \<and> sd_state d' = S_STOPPED \<and>
     (\<exists>rec. sd_recent d' = Some rec \<and> dget rec ''recovery_state'' = PStr ''blocked''))"

definition send_ok :: "fin_env \<Rightarrow> fin_call \<Rightarrow> daemon \<Rightarrow> bool" where
  "send_ok env c d \<longleftrightarrow> fc_job c \<noteq> PNone \<and> sd_socket d \<and> fe_send env = None"

lemma settle_ends:
  assumes "fc_pc c = FinSettle" "\<not> sd_stop d" "sd_recent d = Some r" "sd_state d \<noteq> S_STOPPED"
    "EBroadcast (terminal_message (fe_now env) c) \<in> set (sd_log d)"
  shows "ended_idle env c (fc_recovery c = None) (fin_sync (Suc (Suc n)) env c d)"
proof -
  obtain c1 d1 where t: "fin_turn env c d = (c1, d1)" by fastforce
  with assms have c1: "fc_pc c1 = FinPublish" "sd_state d1 = S_IDLE"
    "sd_log d1 = sd_log d @ [EConsole ((''type'', PStr (if fc_recovery c = None then ''RECOVERY_COMPLETED''
       else ''RECOVERY_BLOCKED'')) # [(''job_id'', fc_job c)])]"
    "sd_recent d1 = Some (recovery_settled (fe_now env) (fc_recovery c) r)"
    by (auto simp: fin_turn_def fin_settle_def settle_error_def Let_def console_def)
  obtain c2 d2 where t2: "fin_turn env c1 d1 = (c2, d2)" by fastforce
  with c1 have c2: "fc_pc c2 = FinReturn (fin_result c1)" "sd_state d2 = S_IDLE" "sd_recent d2 = sd_recent d1"
    "set (sd_log d1) \<subseteq> set (sd_log d2)"
    by (auto simp: fin_turn_def fin_goto_def publish_event_def)
  have "fin_sync (Suc (Suc n)) env c d = fin_sync (Suc n) env c1 d1"
    by (rule fin_sync_single) (use assms t in \<open>simp_all add: fin_over_def\<close>)
  also have "\<dots> = fin_sync n env c2 d2"
    by (rule fin_sync_single) (use c1 t2 in \<open>simp_all add: fin_over_def\<close>)
  also have "\<dots> = (c2, d2)" by (rule fin_sync_done) (simp add: fin_over_def c2)
  finally show ?thesis using c1 c2 assms(5)
    by (auto simp: ended_idle_def recovery_settled_def Let_def dget_def split: option.split)
qed

lemma blocked_ends:
  assumes "sd_recent d = Some r" "sd_state d = S_STOPPED" "fin_blocked code (fl_error code' m) c d = (c', d')"
  shows "ended_stopped code' (fin_sync n env c' d')"
proof -
  from assms have "fc_pc c' = FinRaise (fl_error code' m)" "sd_state d' = S_STOPPED"
    "sd_recent d' = Some (blocked code r)"
    by (auto simp: fin_blocked_def fin_goto_def)
  then show ?thesis
    by (simp add: fin_sync_done fin_over_def ended_stopped_def blocked_def)
qed

lemma terminal_message_recovery [simp]:
  "terminal_message t (c\<lparr>fc_recovery := r\<rparr>) = terminal_message t c"
  by (simp add: terminal_message_def)

lemma terminal_message_goto [simp]:
  "terminal_message now (fin_goto p c) = terminal_message now c"
  "terminal_message now (c\<lparr>fc_recovery := x, fc_pc := p\<rparr>) = terminal_message now c"
  "terminal_message now (c\<lparr>fc_pc := p\<rparr>) = terminal_message now c"
  by (simp_all add: terminal_message_def fin_goto_def)

lemma fin_goto_fields [simp]:
  "fc_pc (fin_goto p c) = p" "fc_recovery (fin_goto p c) = fc_recovery c" "fc_job (fin_goto p c) = fc_job c"
  by (simp_all add: fin_goto_def)

lemma broadcast_ends:
  assumes pc: "fc_pc c = FinBroadcast" and d: "\<not> sd_stop d" "sd_recent d = Some r" "sd_state d \<noteq> S_STOPPED"
  shows "if send_ok env c d then ended_idle env c (fc_recovery c = None) (fin_sync (Suc (Suc (Suc n))) env c d)
    else ended_stopped ''terminal_broadcast_failed'' (fin_sync (Suc (Suc (Suc n))) env c d)"
proof -
  obtain c1 d1 where t: "fin_turn env c d = (c1, d1)" by fastforce
  have s: "fin_sync (Suc (Suc (Suc n))) env c d = fin_sync (Suc (Suc n)) env c1 d1"
    by (rule fin_sync_single) (use pc t in \<open>simp_all add: fin_over_def\<close>)
  show ?thesis
  proof (cases "send_ok env c d")
    case True
    with t pc have c1: "c1 = fin_goto FinSettle c" "d1 = emit (EBroadcast (terminal_message (fe_now env) c)) d"
      by (auto simp: fin_turn_def fin_broadcast_def send_downlink_def send_ok_def)
    with d have "ended_idle env c1 (fc_recovery c1 = None) (fin_sync (Suc (Suc n)) env c1 d1)"
      by (intro settle_ends) simp_all
    with True s c1 show ?thesis by (simp add: ended_idle_def)
  next
    case False
    with t pc obtain e where c1: "c1 = fin_goto (FinBroadcastFailed e) c" "d1 = d"
      by (auto simp: fin_turn_def fin_broadcast_def send_downlink_def send_ok_def split: option.splits if_splits)
    obtain c2 d2 where b: "fin_blocked ''TERMINAL_BROADCAST_FAILED''
        (fl_error ''terminal_broadcast_failed'' (exn_str e)) c1 (d\<lparr>sd_state := S_STOPPED\<rparr>) = (c2, d2)" by fastforce
    have "fin_sync (Suc (Suc n)) env c1 d1 = fin_sync (Suc n) env c2 d2"
      by (rule fin_sync_single) (use c1 b in \<open>simp_all add: fin_over_def fin_turn_def\<close>)
    with blocked_ends [OF _ _ b] d False s show ?thesis by simp
  qed
qed

text \<open>What the call needs for its steps after the claim.\<close>

definition recovering_ok :: "daemon \<Rightarrow> bool" where
  "recovering_ok d \<longleftrightarrow> \<not> sd_stop d \<and> sd_recent d \<noteq> None \<and> sd_state d \<noteq> S_STOPPED"

definition recovery_result :: "fin_env \<Rightarrow> fin_call \<Rightarrow> daemon \<Rightarrow> bool \<Rightarrow> fin_call \<times> daemon \<Rightarrow> bool" where
  "recovery_result env c d link_ok r \<longleftrightarrow>
     (if \<not> link_ok then ended_stopped ''link_reset_failed'' r
      else if \<not> send_ok env c d then ended_stopped ''terminal_broadcast_failed'' r
      else ended_idle env c (fc_recovery c = None) r)"

lemma recovery_result_goto [simp]:
  "recovery_result env (fin_goto p c) d b r = recovery_result env c d b r"
  by (simp add: recovery_result_def send_ok_def ended_idle_def)

lemma recovery_result_frame:
  "sd_socket d' = sd_socket d \<Longrightarrow> recovery_result env c d' b r = recovery_result env c d b r"
  by (simp add: recovery_result_def send_ok_def)

lemma broadcast_result:
  assumes "fc_pc c = FinBroadcast" "recovering_ok d"
  shows "recovery_result env c d True (fin_sync (Suc (Suc (Suc n))) env c d)"
  using broadcast_ends [OF assms(1)] assms(2) by (auto simp: recovery_result_def recovering_ok_def split: if_splits)

lemma link_failed_result:
  assumes "fc_pc c = FinLinkFailed e" "recovering_ok d"
  shows "recovery_result env c0 d0 False (fin_sync (Suc n) env c d)"
proof -
  from assms(2) obtain r where d: "\<not> sd_stop d" "sd_recent d = Some r" by (auto simp: recovering_ok_def)
  obtain c1 d1 where b: "fin_blocked ''LINK_RESET_FAILED'' (fl_error ''link_reset_failed'' (exn_str e)) c
      (d\<lparr>sd_state := S_STOPPED\<rparr>) = (c1, d1)" by fastforce
  have "fin_sync (Suc n) env c d = fin_sync n env c1 d1"
    by (rule fin_sync_single) (use assms d b in \<open>simp_all add: fin_over_def fin_turn_def\<close>)
  with blocked_ends [OF _ _ b] d show ?thesis by (simp add: recovery_result_def)
qed

lemma poll_result:
  assumes "fc_pc c = FinPoll radio" "recovering_ok d" "sd_link d"
  shows "recovery_result env c d (polls_ready (le_polls (fe_link env))) (fin_sync (Suc (Suc (Suc (Suc n)))) env c d)"
proof -
  from fin_polls_ready [OF assms(1,3)] obtain e where p: "fin_polls (le_polls (fe_link env)) env c d =
    (if polls_ready (le_polls (fe_link env)) then (fin_goto FinBroadcast c, d\<lparr>sd_link_radio := Some radio\<rparr>)
     else (fin_goto (FinLinkFailed e) c, stop_link d))" by blast
  have over: "\<not> fin_over c" using assms(1) by (simp add: fin_over_def)
  show ?thesis
  proof (cases "polls_ready (le_polls (fe_link env))")
    case True
    with p over have "fin_sync (Suc (Suc (Suc (Suc n)))) env c d =
        fin_sync (Suc (Suc (Suc n))) env (fin_goto FinBroadcast c) (d\<lparr>sd_link_radio := Some radio\<rparr>)"
      by (simp add: fin_sync.simps(2) [of "Suc (Suc (Suc n))"])
    with True broadcast_result [of "fin_goto FinBroadcast c" "d\<lparr>sd_link_radio := Some radio\<rparr>" env n] assms(2)
      recovery_result_frame [of "d\<lparr>sd_link_radio := Some radio\<rparr>" d env c True]
    show ?thesis by (simp add: recovering_ok_def)
  next
    case False
    with p over have "fin_sync (Suc (Suc (Suc (Suc n)))) env c d =
        fin_sync (Suc (Suc (Suc n))) env (fin_goto (FinLinkFailed e) c) (stop_link d)"
      by (simp add: fin_sync.simps(2) [of "Suc (Suc (Suc n))"])
    moreover have "recovering_ok (stop_link d)" using assms(2) by (simp add: recovering_ok_def stop_link_def)
    ultimately show ?thesis
      using False link_failed_result [of "fin_goto (FinLinkFailed e) c" e "stop_link d" env c d "Suc (Suc n)"] by simp
  qed
qed

lemma launch_link_frame:
  "launch_link env radio d = (x, d') \<Longrightarrow> sd_socket d' = sd_socket d \<and>
   (x = None \<longrightarrow> sd_link d' \<and> link_starts env = polls_ready (le_polls env)) \<and> (x \<noteq> None \<longrightarrow> \<not> link_starts env)"
  by (auto simp: launch_link_def link_starts_def split: option.splits)

lemma recovering_ok_same: "same_engine d d' \<Longrightarrow> recovering_ok d' = recovering_ok d"
  by (simp add: same_engine_def recovering_ok_def)

lemma unlink_result:
  assumes "fc_pc c = FinUnlink" "recovering_ok d"
  shows "recovery_result env c d (link_starts (fe_link env))
    (fin_sync (Suc (Suc (Suc (Suc (Suc (Suc n)))))) env c d)"
proof -
  define d1 where "d1 = stop_link d"
  define c1 where "c1 = fin_goto FinLaunch c"
  have d1: "recovering_ok d1" "sd_socket d1 = sd_socket d"
    using assms(2) by (simp_all add: d1_def recovering_ok_def stop_link_def)
  have s1: "fin_sync (Suc (Suc (Suc (Suc (Suc (Suc n)))))) env c d = fin_sync (Suc (Suc (Suc (Suc (Suc n))))) env c1 d1"
    by (rule fin_sync_single) (use assms(1) in \<open>simp_all add: fin_over_def fin_turn_def c1_def d1_def\<close>)
  obtain x d2 where l: "launch_link (fe_link env) (sd_radio d1) d1 = (x, d2)" by fastforce
  have d2: "recovering_ok d2" "sd_socket d2 = sd_socket d"
    using recovering_ok_same [OF launch_link_same [OF l]] launch_link_frame [OF l] d1 by simp_all
  show ?thesis
  proof (cases x)
    case (Some e)
    have "fin_sync (Suc (Suc (Suc (Suc (Suc n))))) env c1 d1 =
        fin_sync (Suc (Suc (Suc (Suc n)))) env (fin_goto (FinLinkFailed e) c1) d2"
      by (rule fin_sync_single) (use l Some in \<open>simp_all add: c1_def fin_over_def fin_turn_def fin_launch_def\<close>)
    moreover from launch_link_frame [OF l] Some have "\<not> link_starts (fe_link env)" by simp
    ultimately show ?thesis
      using s1 link_failed_result [of "fin_goto (FinLinkFailed e) c1" e d2] d2 by simp
  next
    case None
    define c2 where "c2 = fin_goto (FinPoll (sd_radio d1)) c1"
    have s2: "fin_sync (Suc (Suc (Suc (Suc (Suc n))))) env c1 d1 = fin_sync (Suc (Suc (Suc (Suc n)))) env c2 d2"
      by (rule fin_sync_single) (use l None launch_link_same [OF l] in
        \<open>simp_all add: c1_def c2_def fin_over_def fin_turn_def fin_launch_def same_engine_def\<close>)
    from launch_link_frame [OF l] None have "sd_link d2"
      "link_starts (fe_link env) = polls_ready (le_polls (fe_link env))" by simp_all
    with poll_result [of c2 "sd_radio d1" d2 env n] d2 s1 s2 show ?thesis
      using recovery_result_frame [OF d2(2), of env c]
      by (simp add: c2_def c1_def)
  qed
qed

lemma check_result:
  assumes "fc_pc c = FinCheck" "recovering_ok d"
  shows "recovery_result env c d (sc_enable_link (sd_config d) \<longrightarrow> link_starts (fe_link env))
    (fin_sync (Suc (Suc (Suc (Suc (Suc (Suc (Suc n))))))) env c d)"
proof -
  define p where "p = (if sc_enable_link (sd_config d) then FinUnlink else FinBroadcast)"
  have s: "fin_sync (Suc (Suc (Suc (Suc (Suc (Suc (Suc n))))))) env c d =
      fin_sync (Suc (Suc (Suc (Suc (Suc (Suc n)))))) env (fin_goto p c) d"
    by (rule fin_sync_single) (use assms in \<open>auto simp: fin_over_def fin_turn_def recovering_ok_def p_def\<close>)
  show ?thesis
  proof (cases "sc_enable_link (sd_config d)")
    case True
    with unlink_result [of "fin_goto p c" d env n] assms(2) s show ?thesis by (simp add: p_def)
  next
    case False
    with broadcast_result [of "fin_goto p c" d env "Suc (Suc (Suc n))"] assms(2) s show ?thesis by (simp add: p_def)
  qed
qed

text \<open>Whether stopping the coordinator and closing the role went well, and the job that is ended.\<close>

definition closed_clean :: "fin_env \<Rightarrow> fin_call \<Rightarrow> daemon \<Rightarrow> bool" where
  "closed_clean env c d \<longleftrightarrow>
     (sd_coord d \<noteq> None \<longrightarrow> fc_outcome c = Aborted \<longrightarrow> fe_coord env = None) \<and>
     (sd_role d \<noteq> None \<longrightarrow> fe_role env = None)"

definition with_job :: "pyval \<Rightarrow> fin_call \<Rightarrow> fin_call" where
  "with_job j c = c\<lparr>fc_job := j\<rparr>"

lemma role_result:
  assumes "fc_pc c = FinRole role" "recovering_ok d"
  shows "\<exists>c' d'. (\<forall>n. fin_sync (Suc n) env c d = fin_sync n env c' d') \<and> fc_pc c' = FinCheck \<and> recovering_ok d' \<and>
    sd_config d' = sd_config d \<and> sd_socket d' = sd_socket d \<and> fc_job c' = fc_job c \<and>
    (fc_recovery c' = None \<longleftrightarrow> fc_recovery c = None \<and> (role \<noteq> None \<longrightarrow> fe_role env = None)) \<and>
    terminal_message t c' = terminal_message t c"
proof -
  obtain c' d' where t: "fin_turn env c d = (c', d')" by fastforce
  have "fin_sync (Suc n) env c d = fin_sync n env c' d'" for n
    by (rule fin_sync_single) (use assms(1) t in \<open>simp_all add: fin_over_def\<close>)
  moreover from t assms have "fc_pc c' = FinCheck \<and> recovering_ok d' \<and> sd_config d' = sd_config d \<and>
      sd_socket d' = sd_socket d \<and> fc_job c' = fc_job c \<and>
      (fc_recovery c' = None \<longleftrightarrow> fc_recovery c = None \<and> (role \<noteq> None \<longrightarrow> fe_role env = None)) \<and>
      terminal_message t c' = terminal_message t c" for t
    by (cases role; cases "fe_role env") (auto simp: fin_turn_def fin_role_def recovering_ok_def)
  ultimately show ?thesis by blast
qed

lemma coord_result:
  assumes "fc_pc c = FinCoord coord role" "recovering_ok d"
  shows "\<exists>c' d'. (\<forall>n. fin_sync (Suc n) env c d = fin_sync n env c' d') \<and> fc_pc c' = FinRole role \<and> recovering_ok d' \<and>
    sd_config d' = sd_config d \<and> sd_socket d' = sd_socket d \<and> fc_job c' = fc_job c \<and>
    (fc_recovery c' = None \<longleftrightarrow> fc_recovery c = None \<and>
      (coord \<noteq> None \<longrightarrow> fc_outcome c = Aborted \<longrightarrow> fe_coord env = None)) \<and>
    terminal_message t c' = terminal_message t c"
proof -
  obtain c' d' where t: "fin_turn env c d = (c', d')" by fastforce
  have "fin_sync (Suc n) env c d = fin_sync n env c' d'" for n
    by (rule fin_sync_single) (use assms(1) t in \<open>simp_all add: fin_over_def\<close>)
  moreover from t assms have "fc_pc c' = FinRole role \<and> recovering_ok d' \<and> sd_config d' = sd_config d \<and>
      sd_socket d' = sd_socket d \<and> fc_job c' = fc_job c \<and>
      (fc_recovery c' = None \<longleftrightarrow> fc_recovery c = None \<and>
        (coord \<noteq> None \<longrightarrow> fc_outcome c = Aborted \<longrightarrow> fe_coord env = None)) \<and>
      terminal_message t c' = terminal_message t c" for t
    by (cases coord; cases "fe_coord env"; cases "fc_outcome c = Aborted")
      (auto simp: fin_turn_def fin_coord_def recovering_ok_def)
  ultimately show ?thesis by blast
qed

lemma claim_result:
  assumes "fc_pc c = FinClaim" "fin_claims c d" "\<not> sd_stop d" "sd_active d = Some a"
  shows "\<exists>c' d'. (\<forall>n. fin_sync (Suc n) env c d = fin_sync n env c' d') \<and>
    fc_pc c' = FinCoord (sd_coord d) (sd_role d) \<and> recovering_ok d' \<and>
    sd_config d' = sd_config d \<and> sd_socket d' = sd_socket d \<and> fc_job c' = dget a ''job_id'' \<and>
    fc_recovery c' = fc_recovery c \<and> fc_outcome c' = fc_outcome c \<and>
    terminal_message t c' = terminal_message t (with_job (dget a ''job_id'') c)"
proof -
  obtain c' d' where t: "fin_turn env c d = (c', d')" by fastforce
  have "fin_sync (Suc n) env c d = fin_sync n env c' d'" for n
    by (rule fin_sync_single) (use assms(1) t in \<open>simp_all add: fin_over_def\<close>)
  moreover have "fc_pc c' = FinCoord (sd_coord d) (sd_role d) \<and> recovering_ok d' \<and>
      sd_config d' = sd_config d \<and> sd_socket d' = sd_socket d \<and> fc_job c' = dget a ''job_id'' \<and>
      fc_recovery c' = fc_recovery c \<and> fc_outcome c' = fc_outcome c \<and>
      terminal_message t c' = terminal_message t (with_job (dget a ''job_id'') c)" for t
    using t assms
    by (auto simp: fin_turn_def fin_claim_def fin_claims_def recovering_ok_def with_job_def terminal_message_def Let_def
        split: if_splits)
  ultimately show ?thesis by blast
qed

lemma ended_idle_message:
  "terminal_message (fe_now env) c' = terminal_message (fe_now env) c \<Longrightarrow>
   ended_idle env c' b r = ended_idle env c b r"
  by (simp add: ended_idle_def)


definition busy_daemon :: daemon where
  "busy_daemon = snd (start_job fine_job_env (PDict sample_request) idle_daemon)"


end
