(* ===== verification/Client_Identity.thy ===== *)
theory Client_Identity
  imports Daemon_Config Artifacts
begin

text \<open>
  The passive parts of \<^verbatim>\<open>wfb_ng/fl/client_daemon.py\<close>: the node's identity file, the configuration of
  the daemon and of one job, the command line of the link process, and the commands
  \<open>LinuxNetworkAdapter\<close> runs. A command is its argument list; a runner says which command fails.
\<close>

datatype daemon_state =
    D_POLLING | D_HUNTING | D_IDLE | D_PREPARING | D_RUNNING | D_ABORTING | D_STOPPED

fun daemon_state_value :: "daemon_state \<Rightarrow> string" where
  "daemon_state_value D_POLLING = ''POLLING_HARDWARE''"
| "daemon_state_value D_HUNTING = ''HUNTING''"
| "daemon_state_value D_IDLE = ''IDLE''"
| "daemon_state_value D_PREPARING = ''PREPARING''"
| "daemon_state_value D_RUNNING = ''RUNNING''"
| "daemon_state_value D_ABORTING = ''ABORTING''"
| "daemon_state_value D_STOPPED = ''STOPPED''"

section \<open>The node's identity\<close>

text \<open>\<^verbatim>\<open>str\<close> of an address, and the prefix length of \<^verbatim>\<open>IPv4Interface\<close>: a number, a net mask, or the
  complement of one.\<close>

definition ipv4_str :: "nat \<Rightarrow> string" where
  "ipv4_str n =
     (let o' = (\<lambda>k. text_of_int (int (n div 256 ^ k mod 256))) in
      o' 3 @ ''.'' @ o' 2 @ ''.'' @ o' 1 @ ''.'' @ o' 0)"

definition mask_prefix :: "nat \<Rightarrow> nat option" where
  "mask_prefix m = (case filter (\<lambda>p. m = net_mask p) [0..<33] of
     p # _ \<Rightarrow> Some p
   | [] \<Rightarrow> (case filter (\<lambda>p. m = 2 ^ 32 - 1 - net_mask p) [0..<33] of p # _ \<Rightarrow> Some p | [] \<Rightarrow> None))"

definition ipv4_prefix :: "string \<Rightarrow> nat option" where
  "ipv4_prefix s =
     (case (if s \<noteq> [] \<and> list_all (\<lambda>c. c \<in> set ''0123456789'') s then int_of_text 10 s else None) of
        Some i \<Rightarrow> if i \<le> 32 then Some (nat i) else None
      | None \<Rightarrow> Option.bind (ipv4_text s) mask_prefix)"

record node_identity =
  ni_node_id :: int
  ni_tun_ip :: string
  ni_tun_cidr :: string

definition invalid_identity :: "string \<Rightarrow> exn" where
  "invalid_identity m = fl_error ''invalid_node_identity'' m"

text \<open>The address of the text \<^verbatim>\<open>tun_ip\<close>, with or without a prefix, which must then be 24.\<close>

definition identity_address :: "string \<Rightarrow> nat res" where
  "identity_address s = (case split_all CHR ''/'' s of
     [a] \<Rightarrow> (case ipv4_text a of None \<Rightarrow> Inl (invalid_identity ''address'') | Some n \<Rightarrow> Inr n)
   | [a, p] \<Rightarrow> (case (ipv4_text a, ipv4_prefix p) of
         (Some n, Some l) \<Rightarrow> if l = 24 then Inr n else Inl (invalid_identity ''prefix length'')
       | _ \<Rightarrow> Inl (invalid_identity ''address''))
   | _ \<Rightarrow> Inl (invalid_identity ''address''))"

definition node_address :: "int \<Rightarrow> string" where
  "node_address n = ''10.80.0.'' @ text_of_int (10 + n)"

definition identity_of :: "pydict \<Rightarrow> node_identity res" where
  "identity_of d = (case dget d ''node_id'' of
     PInt n \<Rightarrow>
       if \<not> (1 \<le> n \<and> n \<le> 10) then Inl (invalid_identity ''node_id out of range'')
       else (case dget d ''tun_ip'' of
           PStr s \<Rightarrow> bind_res (identity_address s) (\<lambda>a.
             if ipv4_str a \<noteq> node_address n then Inl (invalid_identity ''address of another node'')
             else Inr \<lparr>ni_node_id = n, ni_tun_ip = ipv4_str a, ni_tun_cidr = ipv4_str a @ ''/24''\<rparr>)
         | PNone \<Rightarrow> Inl (invalid_identity ''tun_ip missing'')
         | _ \<Rightarrow> Inl (invalid_identity ''tun_ip not a string''))
   | _ \<Rightarrow> Inl (invalid_identity ''node_id not an integer''))"

definition load_node_identity :: "bool \<Rightarrow> pyval res \<Rightarrow> node_identity res" where
  "load_node_identity found contents =
     (if \<not> found then Inl (invalid_identity ''no file'')
      else case contents of
        Inl e \<Rightarrow> Inl (invalid_identity (exn_str e))
      | Inr v \<Rightarrow> (case as_dict v of
          None \<Rightarrow> Inl (invalid_identity ''not an object'') | Some d \<Rightarrow> identity_of d))"

section \<open>Configurations\<close>

record client_config =
  kc_node_id :: int
  kc_tun_ip :: string
  kc_tun_cidr :: string
  kc_tun_name :: string
  kc_channel :: int
  kc_txpower :: int
  kc_uplink_mcs :: int
  kc_work_dir :: string
  kc_interface :: "string option"
  kc_server_port :: int
  kc_broadcast_port :: int
  kc_link_id :: int
  kc_enable_control :: bool
  kc_enable_link :: bool

definition check_client_config :: "client_config \<Rightarrow> client_config res" where
  "check_client_config c =
     bind_res (validate_radio_config (PDict
         [(''channel'', PInt (kc_channel c)), (''radio_txpower_dbm'', PInt (kc_txpower c)),
          (''uplink_mcs'', PInt (kc_uplink_mcs c))])) (\<lambda>_.
       if kc_link_id c \<le> 0 then Inl (ValueError ''link_id'')
       else Inr (c\<lparr>kc_tun_cidr := if kc_tun_cidr c = [] then kc_tun_ip c @ ''/24'' else kc_tun_cidr c,
                   kc_tun_name := if kc_tun_name c = [] then ''fl-c'' @ text_of_int (kc_node_id c)
                                  else kc_tun_name c\<rparr>))"

text \<open>The arguments of \<open>main\<close>, and the configuration it makes of them and the identity.\<close>

record client_args =
  ka_interface :: "string option"
  ka_channel :: int
  ka_txpower :: int
  ka_uplink_mcs :: int
  ka_link_id :: int
  ka_work_dir :: string
  ka_server_port :: int
  ka_broadcast_port :: int

definition client_main_config :: "client_args \<Rightarrow> node_identity res \<Rightarrow> client_config res" where
  "client_main_config a loaded = bind_res loaded (\<lambda>i. check_client_config
     \<lparr>kc_node_id = ni_node_id i, kc_tun_ip = ni_tun_ip i, kc_tun_cidr = ni_tun_cidr i,
      kc_tun_name = [], kc_channel = ka_channel a, kc_txpower = ka_txpower a,
      kc_uplink_mcs = ka_uplink_mcs a, kc_work_dir = ka_work_dir a, kc_interface = ka_interface a,
      kc_server_port = ka_server_port a, kc_broadcast_port = ka_broadcast_port a,
      kc_link_id = ka_link_id a, kc_enable_control = True, kc_enable_link = True\<rparr>)"

record client_job =
  kj_job_id :: string
  kj_run_id :: string
  kj_node_id :: int
  kj_tun_name :: string
  kj_tun_ip :: string
  kj_io_timeout :: int
  kj_live :: bool
  kj_http_host :: string
  kj_http_port :: int
  kj_uftp_port :: int
  kj_link_id :: int
  kj_bind_host :: "string option"
  kj_channel :: int
  kj_width :: string
  kj_txpower :: int
  kj_uplink_mcs :: int
  kj_max_update :: int
  kj_algorithm :: pyval
  kj_algo_config :: "pydict option"

definition channel_width_of :: "int \<Rightarrow> string" where
  "channel_width_of ch = (if ch = 165 then ''HT20'' else ''HT40+'')"

text \<open>\<^verbatim>\<open>__post_init__\<close> of \<open>ClientJobConfig\<close>.\<close>

definition check_client_job :: "client_job \<Rightarrow> client_job res" where
  "check_client_job j =
     bind_res (validate_path_safe_identifier (PStr (kj_run_id j)) ''run_id'') (\<lambda>_.
     bind_res (validate_path_safe_identifier (PStr (kj_job_id j)) ''job_id'') (\<lambda>_.
       if kj_io_timeout j \<le> 0 then Inl (fl_error ''invalid_io_timeout'' ''io_timeout_seconds'')
       else bind_res (validate_radio_config (PDict
              [(''channel'', PInt (kj_channel j)), (''radio_txpower_dbm'', PInt (kj_txpower j)),
               (''uplink_mcs'', PInt (kj_uplink_mcs j))])) (\<lambda>_.
         if kj_link_id j \<le> 0 then Inl (ValueError ''link_id'')
         else Inr (j\<lparr>kj_bind_host := (case kj_bind_host j of
                 None \<Rightarrow> Some (takeWhile (\<lambda>c. c \<noteq> CHR ''/'') (kj_tun_ip j)) | Some h \<Rightarrow> Some h)\<rparr>))))"

section \<open>Command lines\<close>

text \<open>\<^verbatim>\<open>"40" if "40" in channel_width else "20"\<close>\<close>

fun contains :: "string \<Rightarrow> string \<Rightarrow> bool" where
  "contains p [] = (p = [])"
| "contains p (c # s) = (starts_with p (c # s) \<or> contains p s)"

definition bandwidth_of :: "string \<Rightarrow> string" where
  "bandwidth_of w = (if contains ''40'' w then ''40'' else ''20'')"

definition build_v6_uplink_client_command ::
  "string \<Rightarrow> int \<Rightarrow> string \<Rightarrow> string \<Rightarrow> string \<Rightarrow> int \<Rightarrow> int \<Rightarrow> string \<Rightarrow> string list" where
  "build_v6_uplink_client_command exe nid tun addr air mcs link width =
     [exe, ''--role'', ''client'', ''--tun-name'', tun, ''--tun-addr'', addr,
      ''--node-id'', text_of_int nid, ''--link-id'', text_of_int link,
      ''--uplink-stream'', ''1'', ''--downlink-stream'', ''2'', ''--fec-k'', ''8'', ''--fec-n'', ''14'',
      ''--radio-bandwidth'', bandwidth_of width, ''--radio-mcs-index'', text_of_int mcs,
      ''--radio-short-gi'', ''--air-interface'', air,
      ''--uplink-pause-threshold-bytes'', ''131072'', ''--uplink-resume-threshold-bytes'', ''65536'',
      ''--uplink-queue-packets-limit'', ''64'']"

text \<open>\<open>LinuxNetworkAdapter\<close>: commands are run until one fails; what ran is returned.\<close>

type_synonym runner = "string list \<Rightarrow> exn option"

fun run_commands :: "runner \<Rightarrow> string list list \<Rightarrow> exn option \<times> string list list" where
  "run_commands r [] = (None, [])"
| "run_commands r (c # cs) = (case r c of
     Some e \<Rightarrow> (Some e, [c])
   | None \<Rightarrow> (case run_commands r cs of (x, xs) \<Rightarrow> (x, c # xs)))"

text \<open>\<^verbatim>\<open>["sudo"] + cmd\<close> where the daemon is not root.\<close>

definition sudo_runner :: "bool \<Rightarrow> runner \<Rightarrow> runner" where
  "sudo_runner sudo r cmd = r (if sudo then ''sudo'' # cmd else cmd)"

definition channel_command :: "string \<Rightarrow> int \<Rightarrow> string \<Rightarrow> string list" where
  "channel_command ifc ch width =
     [''iw'', ''dev'', ifc, ''set'', ''channel'', text_of_int ch, if ch = 165 then ''HT20'' else width]"

definition txpower_command :: "string \<Rightarrow> int \<Rightarrow> string list" where
  "txpower_command ifc pw =
     [''iw'', ''dev'', ifc, ''set'', ''txpower'', ''fixed'', text_of_int (- (pw * 100))]"

definition adapter_set_channel :: "runner \<Rightarrow> string \<Rightarrow> int \<Rightarrow> string \<Rightarrow> exn option \<times> string list list" where
  "adapter_set_channel r ifc ch width =
     (case validate_radio_config (PDict [(''channel'', PInt ch)]) of
        Inl e \<Rightarrow> (Some e, []) | Inr _ \<Rightarrow> run_commands r [channel_command ifc ch width])"

definition adapter_set_txpower :: "runner \<Rightarrow> string \<Rightarrow> int \<Rightarrow> exn option \<times> string list list" where
  "adapter_set_txpower r ifc pw =
     (case validate_radio_config (PDict [(''radio_txpower_dbm'', PInt pw)]) of
        Inl e \<Rightarrow> (Some e, []) | Inr _ \<Rightarrow> run_commands r [txpower_command ifc pw])"

definition then_commands ::
  "exn option \<times> string list list \<Rightarrow> exn option \<times> string list list \<Rightarrow> exn option \<times> string list list" where
  "then_commands a b = (case a of (Some e, xs) \<Rightarrow> (Some e, xs)
     | (None, xs) \<Rightarrow> (case b of (x, ys) \<Rightarrow> (x, xs @ ys)))"

definition configure_wireless :: "runner \<Rightarrow> string \<Rightarrow> int \<Rightarrow> string \<Rightarrow> int \<Rightarrow> exn option \<times> string list list" where
  "configure_wireless r ifc ch width pw =
     (case validate_radio_config (PDict [(''channel'', PInt ch), (''radio_txpower_dbm'', PInt pw)]) of
        Inl e \<Rightarrow> (Some e, [])
      | Inr _ \<Rightarrow>
          then_commands
            (run_commands r [[''ip'', ''link'', ''set'', ifc, ''down''],
               [''iw'', ''dev'', ifc, ''set'', ''type'', ''monitor''], [''ip'', ''link'', ''set'', ifc, ''up'']])
          (then_commands (adapter_set_channel r ifc ch width) (adapter_set_txpower r ifc pw)))"

text \<open>\<open>teardown_tun\<close> never raises; \<open>setup_tun\<close> begins with it.\<close>

definition teardown_tun :: "runner \<Rightarrow> bool \<Rightarrow> string \<Rightarrow> string list list" where
  "teardown_tun r active tun = (if active then snd (run_commands r [[''ip'', ''link'', ''del'', tun]]) else [])"

definition setup_tun :: "runner \<Rightarrow> bool \<Rightarrow> string \<Rightarrow> string \<Rightarrow> exn option \<times> string list list" where
  "setup_tun r active tun cidr =
     then_commands (None, teardown_tun r active tun)
       (run_commands r [[''ip'', ''tuntap'', ''add'', ''dev'', tun, ''mode'', ''tun''],
          [''ip'', ''addr'', ''add'', cidr, ''dev'', tun], [''ip'', ''link'', ''set'', tun, ''up'']])"

end
