(* ===== verification/Job_Sandbox.thy ===== *)
theory Job_Sandbox
  imports Client_Identity
begin

text \<open>
  \<open>JobSandbox\<close> of \<^verbatim>\<open>wfb_ng/fl/client_daemon.py\<close>: the child process that runs one job of the client, its
  work directory and its end. The state is the object's, and what it left on disk: the job
  directories in the work directory and the evidence archived per job. The child is a process object
  with its exit code once it has one. All methods hold the sandbox's lock, so each is one function;
  \<open>wait\<close>, which waits without it, is two. What the operating system answers is an argument.
\<close>

section \<open>State\<close>

datatype child = Alive | Exited int

record client_evidence =
  ev_job :: string
  ev_run :: string
  ev_node :: int
  ev_outcome :: string
  ev_returncode :: int

record sandbox =
  sb_state :: daemon_state
  sb_proc :: "child option"
  sb_job :: "client_job option"
  sb_dir :: "string option"
  sb_error :: "exn option"
  sb_retained :: "string option"
  sb_role :: "pydict option"
  sb_disk :: "string list"
  sb_archive :: "client_evidence list"

definition sandbox_init :: sandbox where
  "sandbox_init = \<lparr>sb_state = D_IDLE, sb_proc = None, sb_job = None, sb_dir = None, sb_error = None,
     sb_retained = None, sb_role = None, sb_disk = [], sb_archive = []\<rparr>"

text \<open>What the end of a job meets: a failure of the archive, a TUN that is still there after its
  removal (or cannot be asked for), and a failure to remove the directory.\<close>

record finish_env =
  xf_archive :: "exn option"
  xf_tun :: "exn option"
  xf_rmtree :: bool

section \<open>The end of a job\<close>

definition outcome_text :: "string option \<Rightarrow> int \<Rightarrow> string" where
  "outcome_text oc rc = (case oc of Some x \<Rightarrow> x
     | None \<Rightarrow> if rc = 0 then ''succeeded'' else ''failed'')"

definition job_evidence :: "client_job \<Rightarrow> string option \<Rightarrow> int \<Rightarrow> client_evidence" where
  "job_evidence j oc rc = \<lparr>ev_job = kj_job_id j, ev_run = kj_run_id j, ev_node = kj_node_id j,
     ev_outcome = outcome_text oc rc, ev_returncode = rc\<rparr>"

text \<open>\<open>archive_client_evidence\<close>: an archive of the same job is never replaced.\<close>

definition archive_evidence :: "exn option \<Rightarrow> client_evidence \<Rightarrow> sandbox \<Rightarrow> exn option \<times> sandbox" where
  "archive_evidence out ev s =
     (case out of
        Some e \<Rightarrow> (Some e, s)
      | None \<Rightarrow>
          if ev_job ev \<in> set (map ev_job (sb_archive s)) then (Some (OtherException ''FileExistsError''), s)
          else (None, s\<lparr>sb_archive := sb_archive s @ [ev]\<rparr>))"

text \<open>The evidence of a job that has a directory, and the removal of the directory once it is
  archived; a directory still there is remembered.\<close>

definition save_evidence :: "finish_env \<Rightarrow> string option \<Rightarrow> int \<Rightarrow> sandbox \<Rightarrow> bool \<times> sandbox" where
  "save_evidence env oc rc s = (case (sb_job s, sb_dir s) of
     (Some j, Some d) \<Rightarrow> (case archive_evidence (xf_archive env) (job_evidence j oc rc) s of
         (None, s) \<Rightarrow> (True, s) | (Some e, s) \<Rightarrow> (False, s\<lparr>sb_error := Some e\<rparr>))
   | _ \<Rightarrow> (False, s))"

definition remove_dir :: "finish_env \<Rightarrow> bool \<Rightarrow> sandbox \<Rightarrow> sandbox" where
  "remove_dir env archived s = (case sb_dir s of
     None \<Rightarrow> s
   | Some d \<Rightarrow>
       let s = (if archived \<and> \<not> xf_rmtree env then s\<lparr>sb_disk := removeAll d (sb_disk s)\<rparr> else s)
       in if d \<in> set (sb_disk s) then s\<lparr>sb_retained := Some d\<rparr> else s)"

definition cleanup_failed :: exn where
  "cleanup_failed = fl_error ''task_tun_cleanup_failed'' ''tun cleanup failed''"

definition sandbox_finalize :: "finish_env \<Rightarrow> int \<Rightarrow> string option \<Rightarrow> sandbox \<Rightarrow> exn option \<times> sandbox" where
  "sandbox_finalize env rc oc s =
     (case save_evidence env oc rc s of (archived, s) \<Rightarrow>
        let failed = (sb_job s \<noteq> None \<and> xf_tun env \<noteq> None);
            s = remove_dir env archived s
        in ((if failed then Some cleanup_failed else None),
            s\<lparr>sb_proc := None, sb_job := None, sb_dir := None,
              sb_state := if failed then D_STOPPED else D_IDLE\<rparr>))"

section \<open>Asking for the child\<close>

definition sandbox_poll :: "finish_env \<Rightarrow> sandbox \<Rightarrow> int option res \<times> sandbox" where
  "sandbox_poll env s = (case sb_proc s of
     None \<Rightarrow> (Inr None, s)
   | Some Alive \<Rightarrow> (Inr None, s)
   | Some (Exited rc) \<Rightarrow> (case sandbox_finalize env rc None s of
       (Some e, s) \<Rightarrow> (Inl e, s) | (None, s) \<Rightarrow> (Inr (Some rc), s)))"

definition sandbox_running :: "finish_env \<Rightarrow> sandbox \<Rightarrow> bool res \<times> sandbox" where
  "sandbox_running env s = (case sb_proc s of
     None \<Rightarrow> (Inr False, s)
   | Some Alive \<Rightarrow> (Inr True, s)
   | Some (Exited rc) \<Rightarrow> (case sandbox_finalize env rc None s of
       (Some e, s) \<Rightarrow> (Inl e, s) | (None, s) \<Rightarrow> (Inr False, s)))"

text \<open>\<open>wait\<close> after the child it had looked up has ended with this code.\<close>

definition sandbox_waited :: "finish_env \<Rightarrow> int \<Rightarrow> sandbox \<Rightarrow> int res \<times> sandbox" where
  "sandbox_waited env rc s = (case sandbox_finalize env rc None s of
     (Some e, s) \<Rightarrow> (Inl e, s) | (None, s) \<Rightarrow> (Inr rc, s))"

text \<open>\<open>abort\<close>: the process group is killed; the code read afterwards, if one could be.\<close>

definition sandbox_abort :: "finish_env \<Rightarrow> int option \<Rightarrow> string \<Rightarrow> sandbox \<Rightarrow> exn option \<times> sandbox" where
  "sandbox_abort env reaped oc s =
     (let s = s\<lparr>sb_state := D_ABORTING\<rparr> in
      case sb_proc s of
        Some (Exited rc) \<Rightarrow> sandbox_finalize env rc None s
      | Some Alive \<Rightarrow> sandbox_finalize env (case reaped of None \<Rightarrow> - 1 | Some rc \<Rightarrow> rc) (Some oc) s
      | None \<Rightarrow> sandbox_finalize env 0 (Some oc) s)"

section \<open>Starting a job\<close>

definition sandbox_link_args :: "client_job \<Rightarrow> string \<Rightarrow> string list" where
  "sandbox_link_args j ifc =
     [''--tun-name'', kj_tun_name j,
      ''--tun-addr'', if CHR ''/'' \<in> set (kj_tun_ip j) then kj_tun_ip j else kj_tun_ip j @ ''/24'',
      ''--link-id'', text_of_int (kj_link_id j), ''--uplink-stream'', ''1'', ''--downlink-stream'', ''2'',
      ''--fec-k'', ''8'', ''--fec-n'', ''14'', ''--radio-bandwidth'', bandwidth_of (kj_width j),
      ''--radio-mcs-index'', text_of_int (kj_uplink_mcs j), ''--radio-short-gi'',
      ''--air-interface'', ifc]"

text \<open>The role configuration written for \<open>RoleService\<close>.\<close>

definition role_config :: "client_job \<Rightarrow> string \<Rightarrow> string \<Rightarrow> pydict" where
  "role_config j dir ifc =
     [(''schema_version'', PInt 1), (''role'', PStr ''client''), (''work_dir'', PStr dir),
      (''node_id'', PInt (kj_node_id j)), (''uftp_uid'', PInt (kj_node_id j)),
      (''uftp_port'', PInt (kj_uftp_port j)), (''server_http_host'', PStr (kj_http_host j)),
      (''server_http_port'', PInt (kj_http_port j)),
      (''uftp_bind_host'', (case kj_bind_host j of None \<Rightarrow> PNone | Some h \<Rightarrow> PStr h)),
      (''uftp_multicast_host'', PStr ''239.80.41.1''),
      (''uftp_private_multicast_host'', PStr ''239.80.41.2''),
      (''channel'', PInt (kj_channel j)), (''channel_width'', PStr (kj_width j)),
      (''radio_txpower_dbm'', PInt (kj_txpower j)),
      (''max_update_size_bytes'', PInt (kj_max_update j)), (''live_observation'', PBool (kj_live j)),
      (''observation_path'', if kj_live j then PStr (dir @ ''/observation.jsonl'') else PNone),
      (''io_timeout_seconds'', PInt (kj_io_timeout j)),
      (''link_args'', PList (map PStr (sandbox_link_args j ifc)))]"

text \<open>
  The readiness loop: one entry per turn before the deadline, the exit code the poll returns and the
  lines of the notification received, if one came in time. When the poll returns a code the child has
  exited.
\<close>

definition sandbox_start_failed :: "string \<Rightarrow> exn" where
  "sandbox_start_failed m = fl_error ''sandbox_start_failed'' m"

fun await_notification :: "(int option \<times> string list option) list \<Rightarrow> exn option" where
  "await_notification [] = Some (fl_error ''sandbox_start_timeout'' ''not ready in time'')"
| "await_notification ((Some rc, _) # ps) = Some (sandbox_start_failed ''exited before it was ready'')"
| "await_notification ((None, None) # ps) = await_notification ps"
| "await_notification ((None, Some ls) # ps) =
     (if ''READY=1'' \<in> set ls then None else await_notification ps)"

text \<open>What a start meets: the creation of the directory, everything up to the child's creation (files
  and the notification socket), the creation, the readiness loop, the code collected after a failure,
  and the end of a job that had finished before.\<close>

record launch_env =
  xs_old :: finish_env
  xs_mkdir :: "exn option"
  xs_prepare :: "exn option"
  xs_popen :: "exn option"
  xs_polls :: "(int option \<times> string list option) list"
  xs_reaped :: int
  xs_failed :: finish_env

definition job_dir :: "string \<Rightarrow> client_job \<Rightarrow> string" where
  "job_dir work j = work @ ''/job_'' @ kj_job_id j"

definition make_job_dir :: "exn option \<Rightarrow> string \<Rightarrow> sandbox \<Rightarrow> exn option \<times> sandbox" where
  "make_job_dir out d s = (case out of
     Some e \<Rightarrow> (Some e, s)
   | None \<Rightarrow> if d \<in> set (sb_disk s) then (Some (OtherException ''FileExistsError''), s)
            else (None, s\<lparr>sb_disk := d # sb_disk s, sb_dir := Some d\<rparr>))"

definition write_role :: "string \<Rightarrow> string \<Rightarrow> client_job \<Rightarrow> sandbox \<Rightarrow> sandbox" where
  "write_role work ifc j s = s\<lparr>sb_role := Some (role_config j (job_dir work j) ifc)\<rparr>"

text \<open>The body of the \<^verbatim>\<open>try\<close>; the second result says whether a child was created.\<close>

definition launch_child ::
  "launch_env \<Rightarrow> string \<Rightarrow> string \<Rightarrow> client_job \<Rightarrow> sandbox \<Rightarrow> exn option \<times> bool \<times> sandbox" where
  "launch_child env work ifc j s = (case make_job_dir (xs_mkdir env) (job_dir work j) s of
     (Some e, s) \<Rightarrow> (Some e, False, s)
   | (None, s) \<Rightarrow> (case xs_prepare env of
       Some e \<Rightarrow> (Some e, False, s)
     | None \<Rightarrow> (case xs_popen env of
         Some e \<Rightarrow> (Some e, False, s)
       | None \<Rightarrow> (case await_notification (xs_polls env) of
           Some e \<Rightarrow> (Some e, True, write_role work ifc j s)
         | None \<Rightarrow> (None, True, (write_role work ifc j s)\<lparr>sb_proc := Some Alive, sb_state := D_RUNNING\<rparr>)))))"

definition start_fresh :: "launch_env \<Rightarrow> string \<Rightarrow> string \<Rightarrow> client_job \<Rightarrow> sandbox \<Rightarrow> exn option \<times> sandbox" where
  "start_fresh env work ifc j s =
     (let s = s\<lparr>sb_state := D_PREPARING, sb_error := None, sb_job := Some j, sb_dir := None\<rparr> in
      case launch_child env work ifc j s of
        (None, created, s) \<Rightarrow> (None, s)
      | (Some e, created, s) \<Rightarrow>
          (case sandbox_finalize (xs_failed env) (if created then xs_reaped env else - 1)
                  (Some ''start_failed'') s of
             (Some e', s) \<Rightarrow> (Some e', s)
           | (None, s) \<Rightarrow> (Some (sandbox_start_failed (exn_str e)), s)))"

definition sandbox_start :: "launch_env \<Rightarrow> string \<Rightarrow> string \<Rightarrow> client_job \<Rightarrow> sandbox \<Rightarrow> exn option \<times> sandbox" where
  "sandbox_start env work ifc j s =
     (if sb_state s = D_STOPPED then (Some (fl_error ''sandbox_stopped'' ''stopped''), s)
      else case sb_proc s of
        Some Alive \<Rightarrow> (Some (fl_error ''sandbox_already_running'' ''running''), s)
      | Some (Exited rc) \<Rightarrow> (case sandbox_finalize (xs_old env) rc None s of
          (Some e, s) \<Rightarrow> (Some e, s) | (None, s) \<Rightarrow> start_fresh env work ifc j s)
      | None \<Rightarrow> start_fresh env work ifc j s)"

end
