(* ===== verification/Client_Daemon.thy ===== *)
theory Client_Daemon
  imports Job_Sandbox Client_Switch
begin

text \<open>
  \<open>ClientDaemon\<close> of \<^verbatim>\<open>wfb_ng/fl/client_daemon.py\<close>: its state and operations. The control plane is
  \<open>ctl_client\<close> of \<open>Control_Client\<close>, which shares the daemon's lock; \<open>cd_alive\<close> says whether its thread
  runs. An operation returns the exception it raised, if any, with the state reached. The heartbeats
  the daemon causes carry no alignment: one that arrives with the reply is a step of the control plane
  and the callback \<open>_on_radio_applied\<close> of its own. The network adapter is \<open>LinuxNetworkAdapter\<close>, whose
  \<^verbatim>\<open>teardown_tun\<close> never raises.
\<close>

section \<open>State\<close>

datatype ceffect = CMsg pydict | CLinkStart "string list" | CLinkStop | CSaveChannel int

record client_daemon =
  cd_config :: client_config
  cd_radio :: radio_config
  cd_sandbox :: sandbox
  cd_iface :: "string option"
  cd_last_channel :: int
  cd_control :: "ctl_client option"
  cd_alive :: bool
  cd_link :: "child option"
  cd_job :: "string option"
  cd_stop :: bool
  cd_log :: "ceffect list"

type_synonym cd_op = "client_daemon \<Rightarrow> exn option \<times> client_daemon"

text \<open>\<open>_load_cached_channel\<close>: the parsed content of the cache file, if it exists and can be read. A
  boolean is an \<^verbatim>\<open>int\<close>, but no allowed channel.\<close>

definition load_cached_channel :: "pyval option \<Rightarrow> int \<Rightarrow> int" where
  "load_cached_channel cached dflt = (case Option.bind cached as_dict of
     None \<Rightarrow> dflt
   | Some d \<Rightarrow> (case dget d ''channel'' of
       PInt ch \<Rightarrow> if ch \<in> set ALLOWED_5GHZ_CHANNELS \<and> ch \<notin> set FORBIDDEN_CHANNELS then ch else dflt
     | _ \<Rightarrow> dflt))"

definition client_daemon_init :: "pyval option \<Rightarrow> client_config \<Rightarrow> client_daemon" where
  "client_daemon_init cached c =
     \<lparr>cd_config = c,
      cd_radio = default_radio_config\<lparr>rc_channel := kc_channel c, rc_txpower := kc_txpower c,
                   rc_uplink_mcs := kc_uplink_mcs c\<rparr>,
      cd_sandbox = sandbox_init, cd_iface = None,
      cd_last_channel = load_cached_channel cached (kc_channel c), cd_control = None,
      cd_alive = False, cd_link = None, cd_job = None, cd_stop = False, cd_log = []\<rparr>"

definition client_log :: "ceffect \<Rightarrow> client_daemon \<Rightarrow> client_daemon" where
  "client_log e d = d\<lparr>cd_log := cd_log d @ [e]\<rparr>"

text \<open>The \<^verbatim>\<open>state\<close> property.\<close>

definition client_state :: "client_daemon \<Rightarrow> daemon_state" where
  "client_state d =
     (if cd_stop d \<or> sb_state (cd_sandbox d) = D_STOPPED then D_STOPPED
      else if sb_state (cd_sandbox d) \<in> {D_PREPARING, D_RUNNING, D_ABORTING}
      then sb_state (cd_sandbox d)
      else case (if cd_alive d then cd_control d else None) of
        Some c \<Rightarrow> if cc_state c = HUNTING then D_HUNTING else D_IDLE
      | None \<Rightarrow> if cd_iface d \<noteq> None then D_IDLE else D_POLLING)"

section \<open>What an operation meets\<close>

record idle_env =
  xl_exe :: "string option"
  xl_open :: "exn option"
  xl_popen :: "exn option"
  xl_polls :: "(int option \<times> bool res) list"

record cd_env =
  xd_ctl :: client_env
  xd_io :: "client_node_state \<Rightarrow> hb_io"
  xd_ready :: "hb_io list"
  xd_launch :: launch_env
  xd_end :: finish_env
  xd_reaped :: "int option"
  xd_link :: idle_env
  xd_tun_active :: bool
  xd_setup :: "exn option"
  xd_ifaces :: "string list"
  xd_wireless :: "exn option"
  xd_control :: "exn option"

definition then_d :: "cd_op \<Rightarrow> cd_op \<Rightarrow> cd_op" where
  "then_d f g d = (case f d of (Some e, d') \<Rightarrow> (Some e, d') | (None, d') \<Rightarrow> g d')"

definition in_sandbox :: "(sandbox \<Rightarrow> exn option \<times> sandbox) \<Rightarrow> cd_op" where
  "in_sandbox f d = (case f (cd_sandbox d) of (x, s) \<Rightarrow> (x, d\<lparr>cd_sandbox := s\<rparr>))"

text \<open>\<^verbatim>\<open>if self.sandbox.is_running: ... else: ...\<close>\<close>

definition if_running :: "cd_env \<Rightarrow> cd_op \<Rightarrow> cd_op \<Rightarrow> cd_op" where
  "if_running env f g d = (case sandbox_running (xd_end env) (cd_sandbox d) of
     (Inl e, s) \<Rightarrow> (Some e, d\<lparr>cd_sandbox := s\<rparr>)
   | (Inr b, s) \<Rightarrow> (if b then f else g) (d\<lparr>cd_sandbox := s\<rparr>))"

definition skip_op :: cd_op where "skip_op d = (None, d)"

definition notify :: "cd_env \<Rightarrow> client_node_state \<Rightarrow> client_daemon \<Rightarrow> client_daemon" where
  "notify env st d = (case cd_control d of
     None \<Rightarrow> d
   | Some c \<Rightarrow> (case notify_state_change (xd_ctl env) ((xd_io env st)\<lparr>io_extra := None\<rparr>) st c of
       (c, ms) \<Rightarrow> d\<lparr>cd_control := Some c, cd_log := cd_log d @ map CMsg ms\<rparr>))"

section \<open>The idle link\<close>

definition stop_idle_link :: "client_daemon \<Rightarrow> client_daemon" where
  "stop_idle_link d = client_log CLinkStop (d\<lparr>cd_link := None\<rparr>)"

definition idle_link_command :: "string \<Rightarrow> string \<Rightarrow> client_daemon \<Rightarrow> string list" where
  "idle_link_command exe ifc d =
     (let c = cd_config d in
      build_v6_uplink_client_command exe (kc_node_id c) (kc_tun_name c) (kc_tun_cidr c) ifc
        (rc_uplink_mcs (cd_radio d)) (kc_link_id c) (channel_width_of (rc_channel (cd_radio d))))"

fun await_idle_link :: "(int option \<times> bool res) list \<Rightarrow> exn option" where
  "await_idle_link [] = Some (fl_error ''link_tun_failed'' ''tun not ready'')"
| "await_idle_link ((Some rc, _) # ps) = Some (fl_error ''link_process_start_failed'' ''exited'')"
| "await_idle_link ((None, Inl e) # ps) = Some e"
| "await_idle_link ((None, Inr ready) # ps) = (if ready then None else await_idle_link ps)"

definition launch_idle_link :: "idle_env \<Rightarrow> string \<Rightarrow> cd_op" where
  "launch_idle_link env ifc d = (case xl_exe env of
     None \<Rightarrow> (Some (fl_error ''link_executable_missing'' ''wfb_v6_uplink''), d)
   | Some exe \<Rightarrow> (case xl_open env of
       Some e \<Rightarrow> (Some e, d)
     | None \<Rightarrow> (case xl_popen env of
         Some e \<Rightarrow> (Some e, stop_idle_link d)
       | None \<Rightarrow>
           let d = client_log (CLinkStart (idle_link_command exe ifc d)) (d\<lparr>cd_link := Some Alive\<rparr>)
           in (case await_idle_link (xl_polls env) of
                 Some e \<Rightarrow> (Some e, stop_idle_link d) | None \<Rightarrow> (None, d)))))"

definition start_idle_link :: "cd_env \<Rightarrow> cd_op" where
  "start_idle_link env d = (case cd_iface d of
     None \<Rightarrow> (None, d)
   | Some ifc \<Rightarrow>
       if \<not> kc_enable_link (cd_config d) \<or> sb_state (cd_sandbox d) = D_STOPPED then (None, d)
       else if_running env skip_op (\<lambda>d.
         if cd_link d = Some Alive then (None, d)
         else launch_idle_link (xd_link env) ifc (if cd_link d = None then d else stop_idle_link d)) d)"

definition restore_tun_if_idle :: "cd_env \<Rightarrow> cd_op" where
  "restore_tun_if_idle env d =
     (if cd_iface d = None then (None, d)
      else if_running env skip_op (\<lambda>d. (if xd_tun_active env then None else xd_setup env, d)) d)"

definition ensure_idle_transport :: "cd_env \<Rightarrow> cd_op" where
  "ensure_idle_transport env d =
     (if cd_iface d = None \<or> sb_state (cd_sandbox d) = D_STOPPED then (None, d)
      else if_running env skip_op
        (if kc_enable_link (cd_config d) \<and> kc_enable_control (cd_config d)
         then start_idle_link env else restore_tun_if_idle env) d)"

section \<open>Hardware\<close>

definition stop_control :: "client_daemon \<Rightarrow> client_daemon" where
  "stop_control d = d\<lparr>cd_control := None, cd_alive := False\<rparr>"

definition drop_interface :: cd_op where
  "drop_interface d =
     (let d = (case cd_control d of
           None \<Rightarrow> d
         | Some c \<Rightarrow> stop_control (case cc_locked c of None \<Rightarrow> d | Some ch \<Rightarrow> d\<lparr>cd_last_channel := ch\<rparr>))
      in (None, (stop_idle_link d)\<lparr>cd_iface := None\<rparr>))"

definition on_interface_lost :: "cd_env \<Rightarrow> cd_op" where
  "on_interface_lost env =
     then_d (if_running env (in_sandbox (sandbox_abort (xd_end env) (xd_reaped env) ''aborted'')) skip_op)
       drop_interface"

text \<open>\<open>poll_hardware_once\<close>: the interfaces found, unless the configuration names one; the result is
  the interface the daemon has afterwards.\<close>

definition take_interface :: "cd_env \<Rightarrow> string \<Rightarrow> client_daemon \<Rightarrow> client_daemon" where
  "take_interface env ifc d =
     (if xd_wireless env = None \<and> xd_setup env = None then d\<lparr>cd_iface := Some ifc\<rparr> else d\<lparr>cd_iface := None\<rparr>)"

definition poll_hardware_once :: "cd_env \<Rightarrow> cd_op" where
  "poll_hardware_once env d =
     (case (case kc_interface (cd_config d) of
              Some i \<Rightarrow> if i = [] then xd_ifaces env else [i] | None \<Rightarrow> xd_ifaces env) of
        [] \<Rightarrow> if cd_iface d = None then (None, d) else on_interface_lost env d
      | ifc # _ \<Rightarrow> (None, if cd_iface d = Some ifc then d else take_interface env ifc d))"

section \<open>Jobs\<close>

definition radio_switch_pending :: "client_daemon \<Rightarrow> bool" where
  "radio_switch_pending d = (case cd_control d of None \<Rightarrow> False | Some c \<Rightarrow> cc_session c \<noteq> None)"

definition invalid_job :: "string \<Rightarrow> exn" where
  "invalid_job m = fl_error ''invalid_job_config'' m"

text \<open>The refusals of \<open>trigger_job\<close>.\<close>

definition job_refusal :: "client_job \<Rightarrow> client_daemon \<Rightarrow> exn option" where
  "job_refusal j d =
     (let c = cd_config d in
      if radio_switch_pending d then Some (fl_error ''radio_switch_pending'' ''switch pending'')
      else if client_state d = D_STOPPED then Some (fl_error ''sandbox_stopped'' ''stopped'')
      else if cd_iface d = None then Some (fl_error ''hardware_unavailable'' ''no interface'')
      else if kj_node_id j \<noteq> kc_node_id c then Some (invalid_job ''node id'')
      else if kj_tun_name j \<noteq> kc_tun_name c then Some (invalid_job ''tun name'')
      else if kj_tun_ip j \<noteq> kc_tun_ip c then Some (invalid_job ''tun ip'')
      else if kj_link_id j \<noteq> kc_link_id c then Some (invalid_job ''link id'')
      else None)"

text \<open>\<^verbatim>\<open>replace(job_config, ...)\<close>: the radio parameters in effect.\<close>

definition with_radio :: "client_daemon \<Rightarrow> client_job \<Rightarrow> client_job" where
  "with_radio d j =
     (let ch = (case cd_control d of Some c \<Rightarrow> cc_channel c | None \<Rightarrow> rc_channel (cd_radio d)) in
      j\<lparr>kj_channel := ch, kj_width := channel_width_of ch, kj_txpower := rc_txpower (cd_radio d),
        kj_uplink_mcs := rc_uplink_mcs (cd_radio d)\<rparr>)"

definition announce_ready :: "cd_env \<Rightarrow> string \<Rightarrow> cd_op" where
  "announce_ready env job d = (case cd_control d of
     None \<Rightarrow> (None, d)
   | Some c \<Rightarrow> (case notify_task_ready (xd_ctl env) job (xd_ready env) c of
       (r, c, ms) \<Rightarrow>
         let d = d\<lparr>cd_control := Some c, cd_log := cd_log d @ map CMsg ms\<rparr> in
         (case r of Inl e \<Rightarrow> (Some e, d) | Inr _ \<Rightarrow> (None, notify env RUNNING d))))"

text \<open>The body of the \<^verbatim>\<open>try\<close>, and \<open>trigger_job\<close>.\<close>

definition run_in_sandbox :: "cd_env \<Rightarrow> client_job \<Rightarrow> cd_op" where
  "run_in_sandbox env j =
     then_d (\<lambda>d. in_sandbox (sandbox_start (xd_launch env) (kc_work_dir (cd_config d))
                            (case cd_iface d of None \<Rightarrow> [] | Some ifc \<Rightarrow> ifc) j) d)
    (then_d (\<lambda>d. (None, d\<lparr>cd_job := Some (kj_job_id j)\<rparr>)) (announce_ready env (kj_job_id j)))"

definition trigger_job :: "cd_env \<Rightarrow> client_job \<Rightarrow> cd_op" where
  "trigger_job env j d = (case job_refusal j d of
     Some e \<Rightarrow> (Some e, d)
   | None \<Rightarrow> (case check_client_job (with_radio d j) of
       Inl e \<Rightarrow> (Some e, d)
     | Inr j \<Rightarrow> (case run_in_sandbox env j (stop_idle_link d) of
         (None, d) \<Rightarrow> (None, d)
       | (Some e, d) \<Rightarrow> (case ensure_idle_transport env (d\<lparr>cd_job := None\<rparr>) of
           (Some e', d) \<Rightarrow> (Some e', d) | (None, d) \<Rightarrow> (Some e, d)))))"

text \<open>\<open>_handle_job_terminal\<close> and \<open>_terminate_job\<close>.\<close>

definition end_notices :: "cd_env \<Rightarrow> client_node_state option \<Rightarrow> client_daemon \<Rightarrow> client_daemon" where
  "end_notices env st d = notify env IDLE (case st of None \<Rightarrow> d | Some st \<Rightarrow> notify env st d)"

definition handle_job_terminal :: "cd_env \<Rightarrow> pydict \<Rightarrow> bool \<Rightarrow> cd_op" where
  "handle_job_terminal env msg aborted d =
     (if cd_job d = None \<or> dget msg ''job_id'' \<noteq> PStr (the (cd_job d)) then (None, d)
      else then_d (in_sandbox (sandbox_abort (xd_end env) (xd_reaped env)
                                 (if aborted then ''aborted'' else ''succeeded'')))
          (then_d (ensure_idle_transport env) (\<lambda>d.
             (None, end_notices env (if aborted then Some ABORTING else None) (d\<lparr>cd_job := None\<rparr>)))) d)"

definition terminate_job :: "cd_env \<Rightarrow> client_node_state option \<Rightarrow> cd_op" where
  "terminate_job env st =
     then_d (in_sandbox (sandbox_abort (xd_end env) (xd_reaped env)
               (if st \<noteq> None then ''aborted'' else ''succeeded'')))
    (then_d (ensure_idle_transport env) (\<lambda>d. (None, end_notices env st d)))"

section \<open>TASK_ANNOUNCE\<close>

text \<open>\<^verbatim>\<open>str.format(node_id=...)\<close> of a template: plain fields and doubled braces; a field of another
  form, which may be legal for Python, raises in the model.\<close>

fun format_node :: "int \<Rightarrow> nat \<Rightarrow> string \<Rightarrow> string res" where
  "format_node n k [] = Inr []"
| "format_node n (Suc k) (c # s) = format_node n k s"
| "format_node n 0 (c # s) =
     (if starts_with ''{node_id}'' (c # s)
      then bind_res (format_node n 8 s) (\<lambda>r. Inr (text_of_int n @ r))
      else if starts_with ''{{'' (c # s) then bind_res (format_node n 1 s) (\<lambda>r. Inr (CHR ''{'' # r))
      else if starts_with ''}}'' (c # s) then bind_res (format_node n 1 s) (\<lambda>r. Inr (CHR ''}'' # r))
      else if c = CHR ''{'' \<or> c = CHR ''}'' then Inl (OtherException ''format'')
      else bind_res (format_node n 0 s) (\<lambda>r. Inr (c # r)))"

text \<open>The \<^verbatim>\<open>update_template_path\<close> of the algorithm's configuration.\<close>

definition template_path :: "client_config \<Rightarrow> pydict \<Rightarrow> pydict res" where
  "template_path c a =
     (let tpl = dget a ''update_template_path''; put = (\<lambda>p. AList.update ''update_template_path'' (PStr p) a) in
      if \<not> truthy tpl
      then Inr (put (kc_work_dir c @ ''/update-client'' @ text_of_int (kc_node_id c) @ ''-template.bin''))
      else case tpl of
        PStr s \<Rightarrow> if contains ''{node_id}'' s
                  then bind_res (format_node (kc_node_id c) 0 s) (\<lambda>p. Inr (put p)) else Inr a
      | PList xs \<Rightarrow> if py_in (PStr ''{node_id}'') xs then Inl (OtherException ''AttributeError'') else Inr a
      | PDict d \<Rightarrow> if has_key d ''{node_id}'' then Inl (OtherException ''AttributeError'') else Inr a
      | _ \<Rightarrow> Inl (TypeError ''argument is not iterable''))"

text \<open>What an announcement leads to: a raised error, a rejection, or a job. The text of a server
  address that is no string is left empty.\<close>

datatype announce_result = AnnRaise exn | AnnReject | AnnJob client_job

definition ann_bind :: "'a res \<Rightarrow> ('a \<Rightarrow> announce_result) \<Rightarrow> announce_result" where
  "ann_bind r f = (case r of Inl e \<Rightarrow> AnnRaise e | Inr x \<Rightarrow> f x)"

definition announced_config :: "client_config \<Rightarrow> pydict \<Rightarrow> pydict \<Rightarrow> int \<Rightarrow> pydict" where
  "announced_config c msg a rounds =
     (let a = dict_update a [(''rounds'', PInt rounds), (''node_id'', PInt (kc_node_id c))];
          sz = dget msg ''model_size_bytes''
      in if sz = PNone then a else AList.update ''required_artifact_size_bytes'' sz a)"

definition network_job ::
  "client_config \<Rightarrow> pydict \<Rightarrow> string \<Rightarrow> string \<Rightarrow> int \<Rightarrow> bool \<Rightarrow> pydict \<Rightarrow> announce_result" where
  "network_job c msg run job timeout live a =
     (if \<not> list_all (has_key msg) [''server_http_host'', ''server_http_port'', ''uftp_port'', ''link_id'']
      then AnnReject
      else ann_bind (json_int (dget msg ''server_http_port'')) (\<lambda>http.
           ann_bind (json_int (dget msg ''uftp_port'')) (\<lambda>uftp.
             if uftp = kc_broadcast_port c \<or> uftp = kc_server_port c then AnnReject
             else ann_bind (json_int (dget msg ''link_id'')) (\<lambda>link.
                  ann_bind (check_client_job
                    \<lparr>kj_job_id = job, kj_run_id = run, kj_node_id = kc_node_id c,
                     kj_tun_name = kc_tun_name c, kj_tun_ip = kc_tun_ip c, kj_io_timeout = timeout,
                     kj_live = live,
                     kj_http_host = (case dget msg ''server_http_host'' of PStr s \<Rightarrow> s | _ \<Rightarrow> []),
                     kj_http_port = http, kj_uftp_port = uftp, kj_link_id = link,
                     kj_bind_host = None, kj_channel = DEFAULT_CHANNEL, kj_width = FIXED_BANDWIDTH,
                     kj_txpower = DEFAULT_TXPOWER_DBM, kj_uplink_mcs = RECOMMENDED_UPLINK_MCS,
                     kj_max_update = 1073741824, kj_algorithm = dget msg ''algorithm'',
                     kj_algo_config = Some a\<rparr>) AnnJob))))"

definition announced_job :: "client_config \<Rightarrow> pydict \<Rightarrow> announce_result" where
  "announced_job c msg =
     (case (validate_path_safe_identifier (dget msg ''run_id'') ''run_id'',
            validate_path_safe_identifier (dget msg ''job_id'') ''job_id'') of
        (Inr run, Inr job) \<Rightarrow>
          (case (dget msg ''io_timeout_seconds'', dget msg ''live_observation'',
                 truthy (dget msg ''algorithm''), dget msg ''algorithm_config'', has_key msg ''rounds'') of
             (PInt timeout, PBool live, True, PDict a, True) \<Rightarrow>
               if timeout \<le> 0 then AnnReject
               else ann_bind (json_int (dget msg ''rounds'')) (\<lambda>rounds.
                    ann_bind (template_path c (announced_config c msg a rounds)) (\<lambda>a.
                      network_job c msg run job timeout live a))
           | _ \<Rightarrow> AnnReject)
      | _ \<Rightarrow> AnnReject)"

text \<open>\<^verbatim>\<open>target_nodes and node_id not in target_nodes\<close>\<close>

definition not_for_me :: "client_config \<Rightarrow> pydict \<Rightarrow> bool res" where
  "not_for_me c msg =
     (if truthy (dget msg ''target_nodes'')
      then bind_res (in_targets (kc_node_id c) msg) (\<lambda>b. Inr (\<not> b)) else Inr False)"

definition handle_task_announce :: "cd_env \<Rightarrow> pydict \<Rightarrow> cd_op" where
  "handle_task_announce env msg d = (case not_for_me (cd_config d) msg of
     Inl e \<Rightarrow> (Some e, d)
   | Inr skip \<Rightarrow>
       if skip \<or> radio_switch_pending d \<or> client_state d \<noteq> D_IDLE then (None, d)
       else
         let d = notify env PREPARING d in
         case announced_job (cd_config d) msg of
           AnnRaise e \<Rightarrow> (Some e, d)
         | AnnReject \<Rightarrow> (None, notify env IDLE d)
         | AnnJob j \<Rightarrow> trigger_job env j d)"

section \<open>The control plane\<close>

definition start_control_plane :: "cd_env \<Rightarrow> cd_op" where
  "start_control_plane env d =
     (if cd_iface d = None \<or> (cd_control d \<noteq> None \<and> cd_alive d) then (None, d)
      else
        let r = cd_radio d;
            c = client_init (kc_node_id (cd_config d)) (rc_channel r)
                  (Some (if cd_last_channel d = 0 then rc_channel r else cd_last_channel d))
                  (rc_txpower r) (rc_uplink_mcs r) (ce_now (xd_ctl env));
            d = d\<lparr>cd_control := Some c, cd_alive := False\<rparr>
        in case xd_control env of Some e \<Rightarrow> (Some e, d) | None \<Rightarrow> (None, d\<lparr>cd_alive := True\<rparr>))"

text \<open>\<open>_on_radio_applied\<close> and \<open>_on_radio_finalized\<close>, called with the lock held.\<close>

definition on_radio_applied :: "cd_env \<Rightarrow> radio_config \<Rightarrow> cd_op" where
  "on_radio_applied env r =
     if_running env (\<lambda>d. (Some (fl_error ''radio_job_active'' ''job running''), d))
       (\<lambda>d. let old = cd_radio d; d = d\<lparr>cd_radio := r\<rparr> in
          ensure_idle_transport env
            (if rc_uplink_mcs old \<noteq> rc_uplink_mcs r \<or> (rc_channel old = 165) \<noteq> (rc_channel r = 165)
             then stop_idle_link d else d))"

definition remember_channel :: "int \<Rightarrow> client_daemon \<Rightarrow> client_daemon" where
  "remember_channel ch d =
     (if ch = cd_last_channel d then d else client_log (CSaveChannel ch) (d\<lparr>cd_last_channel := ch\<rparr>))"

definition on_radio_finalized :: "radio_config \<Rightarrow> cd_op" where
  "on_radio_finalized r d = (None, remember_channel (rc_channel r) d)"

section \<open>The supervisory loop\<close>

text \<open>
  Where \<open>run\<close> is. It reads the state without the lock between its calls, so each point is a turn of
  its own; an error it does not catch ends it, and \<open>main\<close> stops the daemon.
\<close>

datatype run_pc =
    RunTop | RunLink | RunControl | RunPoll | RunCheck | RunNotify | RunChannel | RunIdle | RunHardware
  | RunCleanup | RunCrash exn | RunOver

definition run_op :: "run_pc \<Rightarrow> exn option \<times> client_daemon \<Rightarrow> run_pc \<times> client_daemon" where
  "run_op next' r = (case r of (None, d) \<Rightarrow> (next', d) | (Some e, d) \<Rightarrow> (RunCrash e, d))"

definition cleanup_daemon :: "cd_env \<Rightarrow> cd_op" where
  "cleanup_daemon env d = then_d
     (if_running env (in_sandbox (sandbox_abort (xd_end env) (xd_reaped env) ''aborted'')) skip_op)
     (\<lambda>d. (None, stop_idle_link d)) (stop_control d)"

definition stop_client :: "cd_env \<Rightarrow> cd_op" where
  "stop_client env d = cleanup_daemon env (d\<lparr>cd_stop := True\<rparr>)"

definition needs_reconciling :: "client_daemon \<Rightarrow> bool" where
  "needs_reconciling d = (case cd_control d of None \<Rightarrow> False
     | Some c \<Rightarrow> cc_state c \<in> {RUNNING, PREPARING})"

definition run_turn :: "cd_env \<Rightarrow> run_pc \<Rightarrow> client_daemon \<Rightarrow> run_pc \<times> client_daemon" where
  "run_turn env pc d = (case pc of
     RunTop \<Rightarrow>
       if cd_stop d then (RunCleanup, d)
       else if cd_iface d = None then
         (case poll_hardware_once env d of
            (None, d) \<Rightarrow> (if cd_iface d = None then RunTop else RunLink, d)
          | (Some e, d) \<Rightarrow> (RunCrash e, d))
       else (RunLink, d)
   | RunLink \<Rightarrow>
       if kc_enable_control (cd_config d) \<and> cd_iface d \<noteq> None then
         (case sandbox_running (xd_end env) (cd_sandbox d) of
            (Inl e, s) \<Rightarrow> (RunCrash e, d\<lparr>cd_sandbox := s\<rparr>)
          | (Inr True, s) \<Rightarrow> (RunControl, d\<lparr>cd_sandbox := s\<rparr>)
          | (Inr False, s) \<Rightarrow> (case ensure_idle_transport env (d\<lparr>cd_sandbox := s\<rparr>) of
              (None, d) \<Rightarrow> (RunControl, d) | (Some e, d) \<Rightarrow> (RunTop, d)))
       else (RunControl, d)
   | RunControl \<Rightarrow>
       if kc_enable_control (cd_config d) then run_op RunPoll (start_control_plane env d)
       else (RunPoll, d)
   | RunPoll \<Rightarrow> (case sandbox_poll (xd_end env) (cd_sandbox d) of
       (Inl e, s) \<Rightarrow> (RunCrash e, d\<lparr>cd_sandbox := s\<rparr>) | (Inr _, s) \<Rightarrow> (RunCheck, d\<lparr>cd_sandbox := s\<rparr>))
   | RunCheck \<Rightarrow>
       if cd_control d = None then (RunChannel, d)
       else (case sandbox_running (xd_end env) (cd_sandbox d) of
           (Inl e, s) \<Rightarrow> (RunCrash e, d\<lparr>cd_sandbox := s\<rparr>)
         | (Inr b, s) \<Rightarrow> (if \<not> b \<and> needs_reconciling d then RunNotify else RunChannel, d\<lparr>cd_sandbox := s\<rparr>))
   | RunNotify \<Rightarrow> (RunChannel, notify env IDLE d)
   | RunChannel \<Rightarrow> (RunIdle, (case cd_control d of
       None \<Rightarrow> d | Some c \<Rightarrow> (case cc_locked c of None \<Rightarrow> d | Some ch \<Rightarrow> remember_channel ch d)))
   | RunIdle \<Rightarrow> run_op RunHardware (ensure_idle_transport env d)
   | RunHardware \<Rightarrow>
       (case cd_iface d of
          None \<Rightarrow> (RunTop, d)
        | Some ifc \<Rightarrow> if ifc \<in> set (xd_ifaces env) then (RunTop, d)
                     else run_op RunTop (on_interface_lost env d))
   | RunCleanup \<Rightarrow> run_op RunOver (cleanup_daemon env d)
   | RunCrash e \<Rightarrow> (RunOver, snd (stop_client env d))
   | RunOver \<Rightarrow> (RunOver, d))"

end
