(* ===== verification/Client_Daemon_Safety.thy ===== *)
theory Client_Daemon_Safety
  imports Client_Daemon
begin

text \<open>
  The client daemon in operation: its operations interleaved with the supervisory loop, the control
  plane, the ends of processes and signals, as the step relation \<open>k_step\<close>. The invariant \<open>k_inv\<close> is
  proved operation by operation with the rules of the locale \<open>op_contract\<close>: a reflexive and transitive
  relation between the state before and after, which holds of an operation if it holds of its parts.
\<close>

section \<open>The sandbox\<close>

definition ev_dir :: "string \<Rightarrow> client_evidence \<Rightarrow> string" where
  "ev_dir work ev = work @ ''/job_'' @ ev_job ev"

text \<open>What holds even in the middle of a method.\<close>

definition sb_core :: "string \<Rightarrow> sandbox \<Rightarrow> bool" where
  "sb_core work s \<longleftrightarrow> distinct (map ev_job (sb_archive s)) \<and>
     (\<forall>x. sb_dir s = Some x \<longrightarrow> x \<in> set (sb_disk s) \<and> (\<exists>j. sb_job s = Some j \<and> x = job_dir work j))"

text \<open>Between two methods: a child exactly in the state RUNNING, with its job and directory.\<close>

definition sb_ok :: "string \<Rightarrow> sandbox \<Rightarrow> bool" where
  "sb_ok work s \<longleftrightarrow> sb_core work s \<and> sb_state s \<in> {D_IDLE, D_RUNNING, D_STOPPED} \<and>
     (sb_proc s \<noteq> None \<longleftrightarrow> sb_state s = D_RUNNING) \<and> (sb_proc s \<noteq> None \<longleftrightarrow> sb_job s \<noteq> None) \<and>
     (sb_proc s \<noteq> None \<longleftrightarrow> sb_dir s \<noteq> None)"

lemma sb_ok_core: "sb_ok work s \<Longrightarrow> sb_core work s"
  by (simp add: sb_ok_def)

text \<open>Nothing is lost: evidence stays, and a job's directory goes only if its evidence is archived.\<close>

definition sb_kept :: "string \<Rightarrow> sandbox \<Rightarrow> sandbox \<Rightarrow> bool" where
  "sb_kept work s s' \<longleftrightarrow> set (sb_archive s) \<subseteq> set (sb_archive s') \<and>
     (\<forall>x \<in> set (sb_disk s). x \<in> set (sb_disk s') \<or> (\<exists>ev \<in> set (sb_archive s'). x = ev_dir work ev))"

lemma sb_kept_refl [simp]: "sb_kept work s s"
  by (simp add: sb_kept_def)

lemma sb_kept_trans: "sb_kept work s s' \<Longrightarrow> sb_kept work s' s'' \<Longrightarrow> sb_kept work s s''"
  unfolding sb_kept_def by blast

lemma save_evidence_ok:
  assumes "save_evidence env oc rc s = (b, s')" "sb_core work s"
  shows "sb_core work s' \<and> sb_job s' = sb_job s \<and> sb_dir s' = sb_dir s \<and> sb_disk s' = sb_disk s \<and>
    set (sb_archive s) \<subseteq> set (sb_archive s') \<and>
    (b \<longrightarrow> (\<forall>x. sb_dir s = Some x \<longrightarrow> (\<exists>ev \<in> set (sb_archive s'). x = ev_dir work ev)))"
  using assms
  by (auto simp: save_evidence_def archive_evidence_def sb_core_def ev_dir_def job_dir_def job_evidence_def
      split: option.splits if_splits)

lemma remove_dir_fields [simp]:
  "sb_job (remove_dir env b s) = sb_job s" "sb_archive (remove_dir env b s) = sb_archive s"
  "sb_dir (remove_dir env b s) = sb_dir s" "sb_proc (remove_dir env b s) = sb_proc s"
  by (auto simp: remove_dir_def Let_def split: option.split)

lemma remove_dir_disk:
  "x \<in> set (sb_disk s) \<Longrightarrow> x \<in> set (sb_disk (remove_dir env b s)) \<or> (b \<and> sb_dir s = Some x)"
  by (auto simp: remove_dir_def Let_def split: option.split)

lemma finalize_ok:
  assumes "sandbox_finalize env rc oc s = (x, s')" "sb_core work s"
  shows "sb_ok work s' \<and> sb_kept work s s' \<and> sb_proc s' = None \<and> sb_job s' = None \<and>
    (sb_state s' = D_STOPPED \<longleftrightarrow> x \<noteq> None)"
proof -
  obtain b s1 where s1: "save_evidence env oc rc s = (b, s1)" by fastforce
  note ev = save_evidence_ok [OF s1 assms(2)]
  have s': "s' = (remove_dir env b s1)\<lparr>sb_proc := None, sb_job := None, sb_dir := None,
      sb_state := if x \<noteq> None then D_STOPPED else D_IDLE\<rparr>"
    using assms(1) s1 by (auto simp: sandbox_finalize_def Let_def)
  have "sb_kept work s s'"
    unfolding sb_kept_def
  proof (intro conjI ballI)
    show "set (sb_archive s) \<subseteq> set (sb_archive s')" using ev s' by simp
    fix y assume "y \<in> set (sb_disk s)"
    then have "y \<in> set (sb_disk (remove_dir env b s1)) \<or> (b \<and> sb_dir s1 = Some y)"
      using ev by (intro remove_dir_disk) simp
    then show "y \<in> set (sb_disk s') \<or> (\<exists>ev \<in> set (sb_archive s'). y = ev_dir work ev)"
      using ev s' by auto
  qed
  moreover have "sb_ok work s'" using s' ev by (auto simp: sb_ok_def sb_core_def)
  ultimately show ?thesis using s' by simp
qed

lemma running_ok:
  assumes "sandbox_running env s = (r, s')" "sb_ok work s"
  shows "sb_ok work s' \<and> sb_kept work s s' \<and> (r \<noteq> Inr True \<longrightarrow> sb_proc s' = None) \<and>
    (sb_proc s = None \<longrightarrow> s' = s \<and> r = Inr False) \<and> (sb_job s' = None \<or> sb_job s' = sb_job s) \<and>
    (r = Inr True \<longrightarrow> s' = s \<and> sb_proc s = Some Alive) \<and> (sb_proc s' = None \<or> s' = s)"
proof (cases "sb_proc s")
  case (Some p)
  show ?thesis
  proof (cases p)
    case (Exited rc)
    obtain x s1 where f: "sandbox_finalize env rc None s = (x, s1)" by fastforce
    have "sb_ok work s1 \<and> sb_kept work s s1 \<and> sb_proc s1 = None \<and> sb_job s1 = None"
      using finalize_ok [OF f sb_ok_core [OF assms(2)]] by blast
    with assms(1) f Some Exited show ?thesis by (auto simp: sandbox_running_def split: option.splits)
  qed (use assms Some in \<open>auto simp: sandbox_running_def\<close>)
qed (use assms in \<open>auto simp: sandbox_running_def\<close>)

lemma poll_ok:
  assumes "sandbox_poll env s = (r, s')" "sb_ok work s"
  shows "sb_ok work s' \<and> sb_kept work s s' \<and> (sb_proc s' = None \<or> s' = s)"
proof (cases "sb_proc s")
  case (Some p)
  show ?thesis
  proof (cases p)
    case (Exited rc)
    obtain x s1 where f: "sandbox_finalize env rc None s = (x, s1)" by fastforce
    have "sb_ok work s1 \<and> sb_kept work s s1 \<and> sb_proc s1 = None"
      using finalize_ok [OF f sb_ok_core [OF assms(2)]] by blast
    with assms(1) f Some Exited show ?thesis by (auto simp: sandbox_poll_def split: option.splits)
  qed (use assms Some in \<open>auto simp: sandbox_poll_def\<close>)
qed (use assms in \<open>auto simp: sandbox_poll_def\<close>)

lemma abort_ok:
  assumes "sandbox_abort env reaped oc s = (x, s')" "sb_ok work s"
  shows "sb_ok work s' \<and> sb_kept work s s' \<and> sb_proc s' = None \<and> (sb_state s' = D_STOPPED \<longleftrightarrow> x \<noteq> None)"
proof -
  define s0 where "s0 = s\<lparr>sb_state := D_ABORTING\<rparr>"
  have "sb_core work s0" using assms(2) by (simp add: s0_def sb_ok_def sb_core_def)
  moreover from assms(1) obtain rc o' where "sandbox_finalize env rc o' s0 = (x, s')"
    by (auto simp: sandbox_abort_def s0_def Let_def split: option.splits child.splits)
  ultimately have "sb_ok work s' \<and> sb_kept work s0 s' \<and> sb_proc s' = None \<and> (sb_state s' = D_STOPPED \<longleftrightarrow> x \<noteq> None)"
    using finalize_ok by blast
  then show ?thesis by (simp add: sb_kept_def s0_def)
qed

lemma make_job_dir_ok:
  assumes "make_job_dir out (job_dir work j) s = (x, s')" "sb_core work s" "sb_job s = Some j"
  shows "sb_core work s' \<and> sb_kept work s s' \<and> sb_job s' = sb_job s \<and> sb_state s' = sb_state s \<and>
    (x = None \<longrightarrow> sb_dir s' = Some (job_dir work j))"
  using assms by (auto simp: make_job_dir_def sb_core_def sb_kept_def split: option.splits if_splits)

lemma launch_child_ok:
  assumes "launch_child env work ifc j s = (x, b, s')" "sb_core work s" "sb_job s = Some j" "sb_proc s = None"
  shows "sb_kept work s s' \<and> sb_core work s' \<and> (x = None \<longrightarrow> sb_ok work s' \<and> sb_proc s' = Some Alive \<and> sb_job s' = Some j)"
proof -
  obtain y s1 where m: "make_job_dir (xs_mkdir env) (job_dir work j) s = (y, s1)" by fastforce
  note mk = make_job_dir_ok [OF m assms(2,3)]
  have mod: "sb_core work ((write_role work ifc j s1)) = sb_core work s1"
    "sb_core work ((write_role work ifc j s1)\<lparr>sb_proc := p, sb_state := q\<rparr>) = sb_core work s1"
    "sb_kept work s ((write_role work ifc j s1)) = sb_kept work s s1"
    "sb_kept work s ((write_role work ifc j s1)\<lparr>sb_proc := p, sb_state := q\<rparr>) = sb_kept work s s1" for p q
    by (simp_all add: sb_core_def sb_kept_def write_role_def)
  have ok: "sb_ok work ((write_role work ifc j s1)\<lparr>sb_proc := Some Alive, sb_state := D_RUNNING\<rparr>)" if "y = None"
    using that mk mod assms(3) by (simp add: sb_ok_def write_role_def)
  from assms(1) m mk mod ok assms(3) show ?thesis
    by (auto simp: launch_child_def write_role_def split: option.splits)
qed

lemma start_ok:
  assumes "sandbox_start env work ifc j s = (x, s')" "sb_ok work s"
  shows "sb_ok work s' \<and> sb_kept work s s' \<and>
    (x = None \<longrightarrow> sb_proc s' = Some Alive \<and> sb_job s' = Some j) \<and>
    (x \<noteq> None \<longrightarrow> sb_proc s' = None \<or> s' = s)"
proof -
  have fresh: "sb_ok work s2 \<and> sb_kept work s1 s2 \<and> (y = None \<longrightarrow> sb_proc s2 = Some Alive \<and> sb_job s2 = Some j) \<and>
      (y \<noteq> None \<longrightarrow> sb_proc s2 = None)"
    if f: "start_fresh env work ifc j s1 = (y, s2)" "sb_ok work s1" "sb_proc s1 = None" for s1 s2 y
  proof -
    define s0 where "s0 = s1\<lparr>sb_state := D_PREPARING, sb_error := None, sb_job := Some j, sb_dir := None\<rparr>"
    have s0: "sb_core work s0" "sb_job s0 = Some j" "sb_proc s0 = None" "\<And>t. sb_kept work s0 t = sb_kept work s1 t"
      using f(2,3) by (simp_all add: s0_def sb_ok_def sb_core_def sb_kept_def)
    obtain z b t where l: "launch_child env work ifc j s0 = (z, b, t)" by (metis prod_cases3)
    note lk = launch_child_ok [OF l s0(1-3)]
    show ?thesis
    proof (cases z)
      case None
      with f l lk s0 show ?thesis by (auto simp: start_fresh_def s0_def [symmetric])
    next
      case (Some e)
      obtain v u where fin: "sandbox_finalize (xs_failed env) (if b then xs_reaped env else - 1) (Some ''start_failed'') t = (v, u)"
        by fastforce
      with f l Some have "s2 = u" "y \<noteq> None" by (auto simp: start_fresh_def s0_def [symmetric] split: option.splits)
      with finalize_ok [OF fin] lk s0(4) show ?thesis by (auto intro: sb_kept_trans)
    qed
  qed
  show ?thesis
  proof (cases "sb_state s = D_STOPPED \<or> sb_proc s = Some Alive")
    case True
    with assms show ?thesis by (auto simp: sandbox_start_def split: if_splits)
  next
    case False
    show ?thesis
    proof (cases "sb_proc s")
      case None
      with False assms fresh [of s] show ?thesis by (auto simp: sandbox_start_def)
    next
      case (Some p)
      with False obtain rc where p: "sb_proc s = Some (Exited rc)" by (cases p) auto
      obtain y s1 where f: "sandbox_finalize (xs_old env) rc None s = (y, s1)" by fastforce
      have fo: "sb_ok work s1 \<and> sb_kept work s s1 \<and> sb_proc s1 = None" 
        using finalize_ok [OF f sb_ok_core [OF assms(2)]] by blast
      show ?thesis
      proof (cases y)
        case (Some e)
        with assms(1) False p f fo show ?thesis by (auto simp: sandbox_start_def)
      next
        case None
        with assms(1) False p f have "start_fresh env work ifc j s1 = (x, s')" by (simp add: sandbox_start_def)
        from fresh [OF this] fo show ?thesis by (auto intro: sb_kept_trans)
      qed
    qed
  qed
qed

section \<open>Contracts of operations\<close>

definition obeys ::
  "('s \<Rightarrow> 's \<Rightarrow> bool) \<Rightarrow> ('s \<Rightarrow> bool) \<Rightarrow> ('s \<Rightarrow> exn option \<times> 's) \<Rightarrow> bool" where
  "obeys R P f \<longleftrightarrow> (\<forall>d x d'. P d \<longrightarrow> f d = (x, d') \<longrightarrow> R d d')"

lemma obeysD: "obeys R P f \<Longrightarrow> f d = (x, d') \<Longrightarrow> P d \<Longrightarrow> R d d'"
  by (simp add: obeys_def)

lemma obeys_snd: "obeys R P f \<Longrightarrow> P d \<Longrightarrow> R d (snd (f d))"
  unfolding obeys_def by (cases "f d") auto

locale op_contract =
  fixes R :: "client_daemon \<Rightarrow> client_daemon \<Rightarrow> bool"
  assumes R_refl: "R d d" and R_trans: "R d d1 \<Longrightarrow> R d1 d2 \<Longrightarrow> R d d2"
begin

lemma obeys_skip: "obeys R P skip_op"
  by (simp add: obeys_def skip_op_def R_refl)

lemma obeys_then:
  assumes "obeys R P f" "obeys R Q g" "\<And>d d1. P d \<Longrightarrow> f d = (None, d1) \<Longrightarrow> Q d1"
  shows "obeys R P (then_d f g)"
  unfolding obeys_def
proof (intro allI impI)
  fix d x d' assume a: "P d" "then_d f g d = (x, d')"
  obtain y d1 where f: "f d = (y, d1)" by fastforce
  with a assms(1) have R: "R d d1" by (simp add: obeys_def)
  show "R d d'"
  proof (cases y)
    case (Some e)
    with a f R show ?thesis by (simp add: then_d_def)
  next
    case None
    with a f have "g d1 = (x, d')" by (simp add: then_d_def)
    with assms(2,3) a f None have "R d1 d'" unfolding obeys_def by blast
    with R show ?thesis by (rule R_trans)
  qed
qed

lemma obeys_weaken: "obeys R P f \<Longrightarrow> (\<And>d. Q d \<Longrightarrow> P d) \<Longrightarrow> obeys R Q f"
  unfolding obeys_def by blast

lemma obeys_pure: "(\<And>d. P d \<Longrightarrow> R d (h d)) \<Longrightarrow> obeys R P (\<lambda>d. (x, h d))"
  by (simp add: obeys_def)

lemma obeys_if: "obeys R P f \<Longrightarrow> obeys R P g \<Longrightarrow> obeys R P (\<lambda>d. if b d then f d else g d)"
  by (simp add: obeys_def)

lemma obeys_from:
  "(\<And>d. P d \<Longrightarrow> R d (h d)) \<Longrightarrow> (\<And>d. P d \<Longrightarrow> Q (h d)) \<Longrightarrow> obeys R Q f \<Longrightarrow> obeys R P (\<lambda>d. f (h d))"
  unfolding obeys_def using R_trans by blast

end

text \<open>The invariant, and the relation all operations keep: the invariant, the configuration, and the
  evidence.\<close>

definition no_child :: "client_daemon \<Rightarrow> bool" where
  "no_child d \<longleftrightarrow> sb_proc (cd_sandbox d) = None"

definition own_job :: "client_config \<Rightarrow> client_job \<Rightarrow> bool" where
  "own_job c j \<longleftrightarrow> kj_node_id j = kc_node_id c \<and> kj_tun_name j = kc_tun_name c \<and>
     kj_tun_ip j = kc_tun_ip c \<and> kj_link_id j = kc_link_id c"

definition k_inv :: "client_daemon \<Rightarrow> bool" where
  "k_inv d \<longleftrightarrow> sb_ok (kc_work_dir (cd_config d)) (cd_sandbox d) \<and>
     (cd_link d \<noteq> None \<longrightarrow> no_child d) \<and>
     (\<forall>j. sb_job (cd_sandbox d) = Some j \<longrightarrow> own_job (cd_config d) j)"

definition k_good :: "client_daemon \<Rightarrow> client_daemon \<Rightarrow> bool" where
  "k_good d d' \<longleftrightarrow> (k_inv d \<longrightarrow> k_inv d' \<and> cd_config d' = cd_config d \<and>
     sb_kept (kc_work_dir (cd_config d)) (cd_sandbox d) (cd_sandbox d'))"

interpretation kd: op_contract k_good
proof unfold_locales
  fix d d1 d2 :: client_daemon
  show "k_good d d" by (simp add: k_good_def)
  assume "k_good d d1" "k_good d1 d2"
  then show "k_good d d2" by (auto simp: k_good_def intro: sb_kept_trans)
qed

text \<open>An operation that leaves sandbox, configuration and link alone, or only stops the link.\<close>

lemma k_good_frame:
  "cd_sandbox d' = cd_sandbox d \<Longrightarrow> cd_config d' = cd_config d \<Longrightarrow> cd_link d' = cd_link d \<or> cd_link d' = None \<or> no_child d \<Longrightarrow>
   k_good d d'"
  by (auto simp: k_good_def k_inv_def no_child_def)

lemma stop_idle_link_fields [simp]:
  "cd_sandbox (stop_idle_link d) = cd_sandbox d" "cd_config (stop_idle_link d) = cd_config d"
  "cd_link (stop_idle_link d) = None" "cd_iface (stop_idle_link d) = cd_iface d"
  "cd_control (stop_idle_link d) = cd_control d" "cd_radio (stop_idle_link d) = cd_radio d"
  "cd_job (stop_idle_link d) = cd_job d" "cd_stop (stop_idle_link d) = cd_stop d" "cd_alive (stop_idle_link d) = cd_alive d"
  by (simp_all add: stop_idle_link_def client_log_def)

lemma notify_fields [simp]:
  "cd_sandbox (notify env st d) = cd_sandbox d" "cd_config (notify env st d) = cd_config d"
  "cd_link (notify env st d) = cd_link d" "cd_iface (notify env st d) = cd_iface d"
  "cd_radio (notify env st d) = cd_radio d" "cd_job (notify env st d) = cd_job d"
  "cd_stop (notify env st d) = cd_stop d" "cd_alive (notify env st d) = cd_alive d"
  "(cd_control (notify env st d) = None) = (cd_control d = None)"
  by (auto simp: notify_def split: option.split prod.split)

lemma k_good_stop_link: "k_good d (stop_idle_link d)"
  by (rule k_good_frame) simp_all

lemma k_good_notify: "k_good d (notify env st d)"
  by (rule k_good_frame) simp_all

lemma k_good_sandbox:
  assumes "sb_ok (kc_work_dir (cd_config d)) (cd_sandbox d) \<Longrightarrow>
    sb_ok (kc_work_dir (cd_config d)) s \<and> sb_kept (kc_work_dir (cd_config d)) (cd_sandbox d) s \<and>
    (sb_proc s = None \<or> s = cd_sandbox d)"
  shows "k_good d (d\<lparr>cd_sandbox := s\<rparr>)"
  unfolding k_good_def
proof (rule impI)
  let ?w = "kc_work_dir (cd_config d)"
  assume inv: "k_inv d"
  then have "sb_ok ?w (cd_sandbox d)" by (simp add: k_inv_def)
  note r = assms [OF this]
  then have "sb_proc s = None \<or> s = cd_sandbox d" by blast
  then have "k_inv (d\<lparr>cd_sandbox := s\<rparr>)"
  proof
    assume p: "sb_proc s = None"
    with r have "sb_job s = None" by (simp add: sb_ok_def)
    with r p show ?thesis by (simp add: k_inv_def no_child_def)
  next
    assume "s = cd_sandbox d"
    with inv show ?thesis by simp
  qed
  with r show "k_inv (d\<lparr>cd_sandbox := s\<rparr>) \<and> cd_config (d\<lparr>cd_sandbox := s\<rparr>) = cd_config d \<and>
      sb_kept ?w (cd_sandbox d) (cd_sandbox (d\<lparr>cd_sandbox := s\<rparr>))" by simp
qed

lemma k_good_running: "sandbox_running env (cd_sandbox d) = (r, s) \<Longrightarrow> k_good d (d\<lparr>cd_sandbox := s\<rparr>)"
  by (rule k_good_sandbox, drule (1) running_ok) blast

lemma k_good_poll: "sandbox_poll env (cd_sandbox d) = (r, s) \<Longrightarrow> k_good d (d\<lparr>cd_sandbox := s\<rparr>)"
  by (rule k_good_sandbox, drule (1) poll_ok) blast

lemma k_good_abort: "sandbox_abort env reaped oc (cd_sandbox d) = (x, s) \<Longrightarrow> k_good d (d\<lparr>cd_sandbox := s\<rparr>)"
  by (rule k_good_sandbox, drule (1) abort_ok) blast

lemma obeys_if_running:
  assumes "obeys k_good (\<lambda>d. True) f" "obeys k_good no_child g"
  shows "obeys k_good P (if_running env f g)"
  unfolding obeys_def
proof (intro allI impI)
  fix d x d' assume a: "if_running env f g d = (x, d')"
  obtain r s where s: "sandbox_running (xd_end env) (cd_sandbox d) = (r, s)" by fastforce
  define d1 where "d1 = d\<lparr>cd_sandbox := s\<rparr>"
  have n: "r \<noteq> Inr True \<longrightarrow> no_child d1"
    using s by (auto simp: d1_def no_child_def sandbox_running_def sandbox_finalize_def Let_def
        split: option.splits child.splits prod.splits)
  have "k_good d d1" using k_good_running [OF s] by (simp add: d1_def)
  moreover have "k_good d1 d'"
  proof (cases r)
    case (Inl e)
    with a s have "d' = d1" by (simp add: if_running_def d1_def)
    then show ?thesis by (simp add: kd.R_refl)
  next
    case (Inr b)
    show ?thesis
    proof (cases b)
      case True
      with a s Inr have "f d1 = (x, d')" by (simp add: if_running_def d1_def)
      with assms(1) show ?thesis by (rule obeysD) simp
    next
      case False
      with a s Inr have "g d1 = (x, d')" by (simp add: if_running_def d1_def)
      with assms(2) show ?thesis by (rule obeysD) (use n Inr False in simp)
    qed
  qed
  ultimately show "k_good d d'" by (rule kd.R_trans)
qed

lemma obeys_abort: "obeys k_good P (in_sandbox (sandbox_abort env reaped oc))"
  unfolding obeys_def in_sandbox_def by (auto split: prod.splits intro: k_good_abort)

section \<open>The operations keep the invariant\<close>

lemma launch_idle_link_obeys: "obeys k_good no_child (launch_idle_link env ifc)"
  unfolding obeys_def
proof (intro allI impI)
  fix d x d' assume "no_child d" "launch_idle_link env ifc d = (x, d')"
  then show "k_good d d'"
    by (intro k_good_frame) (auto simp: launch_idle_link_def client_log_def Let_def split: option.splits)
qed

lemma start_idle_link_obeys: "obeys k_good P (start_idle_link env)"
proof -
  have inner: "obeys k_good no_child (\<lambda>d. if cd_link d = Some Alive then (None, d)
      else launch_idle_link (xd_link env) ifc (if cd_link d = None then d else stop_idle_link d))" for ifc
    by (intro kd.obeys_if kd.obeys_pure kd.obeys_from [OF _ _ launch_idle_link_obeys])
      (auto simp: kd.R_refl k_good_stop_link no_child_def)
  have run: "obeys k_good P (if_running env skip_op (\<lambda>d. if cd_link d = Some Alive then (None, d)
      else launch_idle_link (xd_link env) ifc (if cd_link d = None then d else stop_idle_link d)))" for ifc
    by (rule obeys_if_running [OF kd.obeys_skip inner])
  show ?thesis
    unfolding obeys_def
  proof (intro allI impI)
    fix d x d' assume "P d" "start_idle_link env d = (x, d')"
    with run show "k_good d d'"
      by (auto simp: start_idle_link_def kd.R_refl obeys_def split: option.splits if_splits)
  qed
qed

lemma restore_tun_obeys: "obeys k_good P (restore_tun_if_idle env)"
proof -
  have run: "obeys k_good P (if_running env skip_op (\<lambda>d. (if xd_tun_active env then None else xd_setup env, d)))"
    by (intro obeys_if_running kd.obeys_skip kd.obeys_pure) (rule kd.R_refl)
  show ?thesis
    unfolding obeys_def
  proof (intro allI impI)
    fix d x d' assume "P d" "restore_tun_if_idle env d = (x, d')"
    with run show "k_good d d'"
      by (auto simp: restore_tun_if_idle_def kd.R_refl obeys_def split: if_splits)
  qed
qed

lemma ensure_idle_obeys: "obeys k_good P (ensure_idle_transport env)"
  unfolding obeys_def
proof (intro allI impI)
  fix d x d' assume a: "P d" "ensure_idle_transport env d = (x, d')"
  have "obeys k_good (\<lambda>d. True) (if_running env skip_op
      (if kc_enable_link (cd_config d) \<and> kc_enable_control (cd_config d)
       then start_idle_link env else restore_tun_if_idle env))"
    by (rule obeys_if_running [OF kd.obeys_skip]) (simp add: start_idle_link_obeys restore_tun_obeys)
  with a show "k_good d d'"
    by (auto simp: ensure_idle_transport_def kd.R_refl obeys_def split: if_splits)
qed

lemma drop_interface_obeys: "obeys k_good P drop_interface"
  by (auto simp: obeys_def drop_interface_def Let_def stop_control_def intro!: k_good_frame split: option.splits)

lemma abort_running_obeys:
  "obeys k_good P (if_running env (in_sandbox (sandbox_abort env' reaped oc)) skip_op)"
  by (intro obeys_if_running obeys_abort kd.obeys_skip)

lemma interface_lost_obeys: "obeys k_good P (on_interface_lost env)"
  unfolding on_interface_lost_def
  by (rule kd.obeys_then [OF abort_running_obeys drop_interface_obeys]) simp

lemma poll_hardware_obeys: "obeys k_good P (poll_hardware_once env)"
proof -
  have "k_good d (take_interface env ifc d)" for d ifc
    by (rule k_good_frame) (simp_all add: take_interface_def)
  then show ?thesis
    unfolding obeys_def poll_hardware_once_def
    by (auto simp: kd.R_refl split: list.splits if_splits intro: obeysD [OF interface_lost_obeys])
qed

text \<open>Starting a job: the link has been stopped and the job belongs to this node.\<close>

lemma run_in_sandbox_obeys:
  "obeys k_good (\<lambda>d. cd_link d = None \<and> own_job (cd_config d) j) (run_in_sandbox env j)"
proof -
  let ?start = "\<lambda>d. in_sandbox (sandbox_start (xd_launch env) (kc_work_dir (cd_config d))
      (case cd_iface d of None \<Rightarrow> [] | Some ifc \<Rightarrow> ifc) j) d"
  have start: "obeys k_good (\<lambda>d. cd_link d = None \<and> own_job (cd_config d) j) ?start"
    unfolding obeys_def
  proof (intro allI impI)
    fix d x d' assume a: "cd_link d = None \<and> own_job (cd_config d) j" "?start d = (x, d')"
    obtain s where s: "sandbox_start (xd_launch env) (kc_work_dir (cd_config d))
        (case cd_iface d of None \<Rightarrow> [] | Some ifc \<Rightarrow> ifc) j (cd_sandbox d) = (x, s)" "d' = d\<lparr>cd_sandbox := s\<rparr>"
      using a(2) by (auto simp: in_sandbox_def split: prod.splits)
    note so = start_ok [OF s(1)]
    show "k_good d d'"
      unfolding k_good_def
    proof (rule impI)
      assume inv: "k_inv d"
      then have "sb_ok (kc_work_dir (cd_config d)) (cd_sandbox d)" by (simp add: k_inv_def)
      note r = so [OF this]
      have "own_job (cd_config d) j'" if "sb_job s = Some j'" for j'
      proof (cases "x = None")
        case True
        with r that a(1) show ?thesis by simp
      next
        case False
        with r have "sb_proc s = None \<or> s = cd_sandbox d" by blast
        with r that have "s = cd_sandbox d" by (auto simp: sb_ok_def)
        with inv that show ?thesis by (simp add: k_inv_def)
      qed
      with r a(1) s(2) show "k_inv d' \<and> cd_config d' = cd_config d \<and>
          sb_kept (kc_work_dir (cd_config d)) (cd_sandbox d) (cd_sandbox d')"
        by (simp add: k_inv_def)
    qed
  qed
  have ready: "obeys k_good (\<lambda>d. True) (announce_ready env job)" for job
    unfolding obeys_def announce_ready_def
    by (auto simp: kd.R_refl Let_def split: option.splits prod.splits sum.splits
        intro!: k_good_frame intro: kd.R_trans [OF k_good_frame k_good_notify])
  have job: "obeys k_good (\<lambda>d. True) (\<lambda>d. (None, d\<lparr>cd_job := Some (kj_job_id j)\<rparr>))"
    by (rule kd.obeys_pure) (rule k_good_frame, simp_all)
  show ?thesis
    unfolding run_in_sandbox_def
    by (rule kd.obeys_then [OF start kd.obeys_then [OF job ready]]) simp_all
qed

lemma check_job_own:
  assumes "check_client_job j = Inr j'"
  shows "own_job c j' = own_job c j \<and> kj_job_id j' = kj_job_id j \<and> kj_channel j' = kj_channel j \<and>
    kj_width j' = kj_width j \<and> kj_txpower j' = kj_txpower j \<and> kj_uplink_mcs j' = kj_uplink_mcs j"
  using assms by (auto simp: check_client_job_def own_job_def split: if_splits)

lemma with_radio_own [simp]: "own_job c (with_radio d j) = own_job c j"
  by (simp add: own_job_def with_radio_def Let_def)

lemma refusal_own: "job_refusal j d = None \<Longrightarrow> own_job (cd_config d) j"
  by (simp add: job_refusal_def own_job_def Let_def split: if_splits)

lemma trigger_job_obeys: "obeys k_good P (trigger_job env j)"
  unfolding obeys_def
proof (intro allI impI)
  fix d x d' assume t: "trigger_job env j d = (x, d')"
  show "k_good d d'"
  proof (cases "\<exists>j'. job_refusal j d = None \<and> check_client_job (with_radio d j) = Inr j'")
    case False
    with t have "d' = d" by (auto simp: trigger_job_def split: option.splits sum.splits)
    then show ?thesis by (simp add: kd.R_refl)
  next
    case True
    then obtain j' where j: "job_refusal j d = None" "check_client_job (with_radio d j) = Inr j'" by blast
    then have own: "own_job (cd_config d) j'" using check_job_own [OF j(2)] refusal_own by simp
    obtain y d1 where r: "run_in_sandbox env j' (stop_idle_link d) = (y, d1)" by fastforce
    have "k_good (stop_idle_link d) d1"
      by (rule obeysD [OF run_in_sandbox_obeys r]) (simp add: own)
    with k_good_stop_link have g: "k_good d d1" by (rule kd.R_trans)
    show ?thesis
    proof (cases y)
      case None
      with t j r g show ?thesis by (simp add: trigger_job_def)
    next
      case (Some e)
      obtain z d2 where e: "ensure_idle_transport env (d1\<lparr>cd_job := None\<rparr>) = (z, d2)" by fastforce
      with t j r Some have "d' = d2" by (auto simp: trigger_job_def split: option.splits)
      moreover have "k_good d1 (d1\<lparr>cd_job := None\<rparr>)" by (rule k_good_frame) simp_all
      moreover have "k_good (d1\<lparr>cd_job := None\<rparr>) d2" by (rule obeysD [OF ensure_idle_obeys e TrueI])
      ultimately show ?thesis using g kd.R_trans by blast
    qed
  qed
qed

lemma notices_good: "k_good d (end_notices env st d)"
  unfolding end_notices_def by (cases st) (auto intro: k_good_notify kd.R_trans)

lemma terminate_job_obeys: "obeys k_good P (terminate_job env st)"
  unfolding terminate_job_def
  by (rule kd.obeys_then [OF obeys_abort kd.obeys_then [OF ensure_idle_obeys kd.obeys_pure [OF notices_good]]]) simp_all

lemma job_terminal_obeys: "obeys k_good P (handle_job_terminal env msg ab)"
proof -
  have "k_good d (end_notices env st (d\<lparr>cd_job := None\<rparr>))" for d st
    by (rule kd.R_trans [OF k_good_frame notices_good]) simp_all
  then have "obeys k_good (\<lambda>d. True) (then_d (in_sandbox (sandbox_abort (xd_end env) (xd_reaped env) oc))
      (then_d (ensure_idle_transport env) (\<lambda>d. (None, end_notices env st (d\<lparr>cd_job := None\<rparr>)))))" for oc st
    by (intro kd.obeys_then [OF obeys_abort kd.obeys_then [OF ensure_idle_obeys kd.obeys_pure]]) simp_all
  then show ?thesis
    unfolding obeys_def handle_job_terminal_def by (auto simp: kd.R_refl split: if_splits)
qed

lemma task_announce_obeys: "obeys k_good P (handle_task_announce env msg)"
  unfolding obeys_def
proof (intro allI impI)
  fix d x d' assume t: "handle_task_announce env msg d = (x, d')"
  let ?d = "notify env PREPARING d"
  have n: "k_good d ?d" by (rule k_good_notify)
  have "k_good ?d d''" if "trigger_job env j ?d = (x, d'')" for j d''
    by (rule obeysD [OF trigger_job_obeys that TrueI])
  then show "k_good d d'"
    using t n by (auto simp: handle_task_announce_def Let_def kd.R_refl split: sum.splits if_splits announce_result.splits
        intro: kd.R_trans k_good_notify)
qed

lemma start_control_obeys: "obeys k_good P (start_control_plane env)"
  by (auto simp: obeys_def start_control_plane_def Let_def intro!: k_good_frame split: if_splits option.splits)

lemma radio_applied_obeys: "obeys k_good P (on_radio_applied env r)"
  unfolding on_radio_applied_def
proof (rule obeys_if_running)
  show "obeys k_good (\<lambda>d. True) (\<lambda>d. (Some (fl_error ''radio_job_active'' ''job running''), d))"
    by (rule kd.obeys_pure) (rule kd.R_refl)
  have "k_good d (if b then stop_idle_link (d\<lparr>cd_radio := r\<rparr>) else d\<lparr>cd_radio := r\<rparr>)" for d b
    by (rule k_good_frame) simp_all
  then show "obeys k_good no_child (\<lambda>d. let old = cd_radio d; d = d\<lparr>cd_radio := r\<rparr> in
      ensure_idle_transport env (if rc_uplink_mcs old \<noteq> rc_uplink_mcs r \<or> (rc_channel old = 165) \<noteq> (rc_channel r = 165)
        then stop_idle_link d else d))"
    unfolding Let_def by (rule kd.obeys_from [OF _ _ ensure_idle_obeys [where P = "\<lambda>d. True"]]) simp_all
qed

lemma remember_good: "k_good d (remember_channel ch d)"
  by (rule k_good_frame) (simp_all add: remember_channel_def client_log_def)

lemma cleanup_obeys: "obeys k_good P (cleanup_daemon env)"
proof -
  have "obeys k_good (\<lambda>d. True) (then_d (if_running env (in_sandbox (sandbox_abort (xd_end env) (xd_reaped env) ''aborted'')) skip_op)
      (\<lambda>d. (None, stop_idle_link d)))"
    by (rule kd.obeys_then [OF abort_running_obeys kd.obeys_pure [OF k_good_stop_link]]) simp
  moreover have "k_good d (stop_control d)" for d by (rule k_good_frame) (simp_all add: stop_control_def)
  ultimately show ?thesis
    unfolding cleanup_daemon_def by (rule kd.obeys_from [where Q = "\<lambda>d. True", rotated 2]) simp_all
qed

lemma stop_client_obeys: "obeys k_good P (stop_client env)"
  unfolding stop_client_def
  by (rule kd.obeys_from [OF _ _ cleanup_obeys [where P = "\<lambda>d. True"]]) (simp_all add: k_good_frame)

lemma run_op_good: "(\<And>x d'. r = (x, d') \<Longrightarrow> k_good d d') \<Longrightarrow> run_op p r = (pc', d') \<Longrightarrow> k_good d d'"
  by (cases r) (auto simp: run_op_def split: option.splits)

lemma run_turn_good:
  assumes "run_turn env pc d = (pc', d')"
  shows "k_good d d'"
proof (cases pc)
  case RunTop
  with assms show ?thesis
    by (auto simp: run_turn_def kd.R_refl split: if_splits prod.splits option.splits
        intro: obeysD [OF poll_hardware_obeys])
next
  case RunLink
  obtain r s where s: "sandbox_running (xd_end env) (cd_sandbox d) = (r, s)" by fastforce
  obtain x d2 where e: "ensure_idle_transport env (d\<lparr>cd_sandbox := s\<rparr>) = (x, d2)" by fastforce
  have "k_good d d2" by (rule kd.R_trans [OF k_good_running [OF s] obeysD [OF ensure_idle_obeys e TrueI]])
  with assms RunLink s e k_good_running [OF s] show ?thesis
    by (auto simp: run_turn_def kd.R_refl split: if_splits sum.splits bool.splits option.splits)
next
  case RunControl
  with assms show ?thesis
    by (auto simp: run_turn_def kd.R_refl split: if_splits elim!: run_op_good [rotated]
        intro: obeysD [OF start_control_obeys])
next
  case RunPoll
  obtain r s where s: "sandbox_poll (xd_end env) (cd_sandbox d) = (r, s)" by fastforce
  with assms RunPoll k_good_poll [OF s] show ?thesis by (auto simp: run_turn_def split: sum.splits)
next
  case RunCheck
  obtain r s where s: "sandbox_running (xd_end env) (cd_sandbox d) = (r, s)" by fastforce
  with assms RunCheck k_good_running [OF s] show ?thesis
    by (auto simp: run_turn_def kd.R_refl split: sum.splits if_splits)
next
  case RunNotify
  with assms show ?thesis by (auto simp: run_turn_def k_good_notify)
next
  case RunChannel
  with assms show ?thesis by (auto simp: run_turn_def kd.R_refl remember_good split: option.splits)
next
  case RunIdle
  with assms show ?thesis
    by (auto simp: run_turn_def elim!: run_op_good [rotated] intro: obeysD [OF ensure_idle_obeys])
next
  case RunHardware
  with assms show ?thesis
    by (auto simp: run_turn_def kd.R_refl split: option.splits if_splits elim!: run_op_good [rotated]
        intro: obeysD [OF interface_lost_obeys])
next
  case RunCleanup
  with assms show ?thesis
    by (auto simp: run_turn_def elim!: run_op_good [rotated] intro: obeysD [OF cleanup_obeys])
next
  case (RunCrash e)
  with assms show ?thesis by (auto simp: run_turn_def intro: obeys_snd [OF stop_client_obeys])
next
  case RunOver
  with assms show ?thesis by (simp add: run_turn_def kd.R_refl)
qed

section \<open>Runs of the daemon\<close>

text \<open>
  One step of the daemon beside its supervisory loop: a handler of a broadcast or a callback of the
  control plane, a job started or ended by a caller, the control plane changing its own state
  (heartbeats, hunting, the radio switch; over-approximated) or losing its thread, a process that
  exits, a turn of the loop, a signal.
\<close>

inductive k_step :: "client_daemon \<times> run_pc \<Rightarrow> client_daemon \<times> run_pc \<Rightarrow> bool" where
  k_announce: "handle_task_announce env msg d = (x, d') \<Longrightarrow> k_step (d, pc) (d', pc)"
| k_terminal: "handle_job_terminal env msg ab d = (x, d') \<Longrightarrow> k_step (d, pc) (d', pc)"
| k_trigger: "trigger_job env j d = (x, d') \<Longrightarrow> k_step (d, pc) (d', pc)"
| k_terminate: "terminate_job env st d = (x, d') \<Longrightarrow> k_step (d, pc) (d', pc)"
| k_radio: "on_radio_applied env r d = (x, d') \<Longrightarrow> k_step (d, pc) (d', pc)"
| k_final: "on_radio_finalized r d = (x, d') \<Longrightarrow> k_step (d, pc) (d', pc)"
| k_control: "cd_control d = Some c \<Longrightarrow> k_step (d, pc) (d\<lparr>cd_control := Some c'\<rparr>, pc)"
| k_dead: "k_step (d, pc) (d\<lparr>cd_alive := False\<rparr>, pc)"
| k_child: "sb_proc (cd_sandbox d) = Some Alive \<Longrightarrow>
    k_step (d, pc) (d\<lparr>cd_sandbox := (cd_sandbox d)\<lparr>sb_proc := Some (Exited rc)\<rparr>\<rparr>, pc)"
| k_link: "cd_link d = Some Alive \<Longrightarrow> k_step (d, pc) (d\<lparr>cd_link := Some (Exited rc)\<rparr>, pc)"
| k_run: "run_turn env pc d = (pc', d') \<Longrightarrow> k_step (d, pc) (d', pc')"
| k_signal: "stop_client env d = (x, d') \<Longrightarrow> k_step (d, pc) (d', RunOver)"

inductive k_reach :: "pyval option \<Rightarrow> client_config \<Rightarrow> client_daemon \<times> run_pc \<Rightarrow> bool" for cached cfg where
  k_init: "k_reach cached cfg (client_daemon_init cached cfg, RunTop)"
| k_next: "k_reach cached cfg s \<Longrightarrow> k_step s s' \<Longrightarrow> k_reach cached cfg s'"

lemma k_step_good: "k_step s s' \<Longrightarrow> k_good (fst s) (fst s')"
proof (induction rule: k_step.induct)
  case (k_announce env msg d x d' pc)
  show ?case using obeysD [OF task_announce_obeys k_announce TrueI] by simp
next
  case (k_terminal env msg ab d x d' pc)
  show ?case using obeysD [OF job_terminal_obeys k_terminal TrueI] by simp
next
  case (k_trigger env j d x d' pc)
  show ?case using obeysD [OF trigger_job_obeys k_trigger TrueI] by simp
next
  case (k_terminate env st d x d' pc)
  show ?case using obeysD [OF terminate_job_obeys k_terminate TrueI] by simp
next
  case (k_radio env r d x d' pc)
  show ?case using obeysD [OF radio_applied_obeys k_radio TrueI] by simp
next
  case (k_final r d x d' pc)
  then show ?case by (auto simp: on_radio_finalized_def remember_good)
next
  case (k_child d pc rc)
  then show ?case
    by (auto simp: k_good_def k_inv_def no_child_def sb_ok_def sb_core_def sb_kept_def)
next
  case (k_link d pc rc)
  then show ?case by (auto simp: k_good_def k_inv_def no_child_def)
next
  case (k_run env pc d pc' d')
  then show ?case using run_turn_good by simp
next
  case (k_signal env d x d' pc)
  show ?case using obeysD [OF stop_client_obeys k_signal TrueI] by simp
qed (auto intro: k_good_frame)

lemma k_reach_inv: "k_reach cached cfg s \<Longrightarrow> k_inv (fst s) \<and> cd_config (fst s) = cfg"
proof (induction rule: k_reach.induct)
  case k_init
  show ?case
    by (simp add: client_daemon_init_def k_inv_def sandbox_init_def sb_ok_def sb_core_def no_child_def)
next
  case (k_next s s')
  with k_step_good [of s s'] show ?case by (simp add: k_good_def)
qed

end
