(* ===== verification/Client_Jobs.thy ===== *)
theory Client_Jobs
  imports Client_Daemon_Safety
begin

text \<open>
  What the client daemon guarantees about its jobs: one process at a time uses the radio, a started
  job is the announced one, evidence is never lost; and the ways a job's start or end can go wrong.
\<close>

section \<open>One use of the radio\<close>

text \<open>C9: One use of the radio at a time. In every reachable state the idle link's process and the process
  of a job never run together; a job's process exists exactly while the sandbox is RUNNING, and then
  it belongs to a job for this node, its TUN and its link.\<close>

theorem radio_used_once:
  assumes "k_reach cached cfg (d, pc)"
  shows "\<not> (cd_link d \<noteq> None \<and> sb_proc (cd_sandbox d) \<noteq> None) \<and>
    (sb_proc (cd_sandbox d) \<noteq> None \<longleftrightarrow> sb_state (cd_sandbox d) = D_RUNNING) \<and>
    (sb_proc (cd_sandbox d) \<noteq> None \<longrightarrow> (\<exists>j. sb_job (cd_sandbox d) = Some j \<and> own_job cfg j))"
  using k_reach_inv [OF assms] unfolding k_inv_def sb_ok_def no_child_def by fastforce

text \<open>C13: No evidence is lost. Along any run, evidence once archived stays, no job is archived twice, and
  the directory of a job disappears only after its evidence has been archived.\<close>

theorem evidence_kept:
  assumes "k_reach cached cfg s" and "k_step\<^sup>*\<^sup>* s s'"
  shows "set (sb_archive (cd_sandbox (fst s))) \<subseteq> set (sb_archive (cd_sandbox (fst s'))) \<and>
    distinct (map ev_job (sb_archive (cd_sandbox (fst s')))) \<and>
    (\<forall>x \<in> set (sb_disk (cd_sandbox (fst s))). x \<in> set (sb_disk (cd_sandbox (fst s'))) \<or>
      (\<exists>ev \<in> set (sb_archive (cd_sandbox (fst s'))). x = ev_dir (kc_work_dir cfg) ev))"
proof -
  from assms(2,1) have "k_reach cached cfg s' \<and>
      sb_kept (kc_work_dir cfg) (cd_sandbox (fst s)) (cd_sandbox (fst s'))"
  proof (induction rule: rtranclp_induct)
    case base
    then show ?case by simp
  next
    case (step t u)
    then have t: "k_reach cached cfg t" "sb_kept (kc_work_dir cfg) (cd_sandbox (fst s)) (cd_sandbox (fst t))" by simp_all
    from k_step_good [OF step.hyps(2)] k_reach_inv [OF t(1)]
    have "sb_kept (kc_work_dir cfg) (cd_sandbox (fst t)) (cd_sandbox (fst u))" by (simp add: k_good_def)
    with t step.hyps(2) show ?case by (blast intro: sb_kept_trans k_next)
  qed
  with k_reach_inv [of cached cfg s'] show ?thesis
    by (simp add: sb_kept_def k_inv_def sb_ok_def sb_core_def)
qed

section \<open>Starting a job\<close>

lemma then_dE:
  assumes "then_d f g d = (x, d')"
  obtains e where "f d = (Some e, d')" "x = Some e" | d1 where "f d = (None, d1)" "g d1 = (x, d')"
  using assms by (auto simp: then_d_def split: prod.splits option.splits)

lemma in_sandboxE:
  assumes "in_sandbox f d = (x, d')"
  obtains s where "f (cd_sandbox d) = (x, s)" "d' = d\<lparr>cd_sandbox := s\<rparr>"
  using assms by (auto simp: in_sandbox_def split: prod.splits)

text \<open>A heartbeat that carries no alignment changes nothing but the bookkeeping.\<close>

lemma notify_state:
  assumes "notify_state_change env (io\<lparr>io_extra := None\<rparr>) st c = (c', ms)"
  shows "cc_state c' = st \<and> cc_channel c' = cc_channel c \<and> cc_session c' = cc_session c"
  using assms
  by (auto simp: notify_state_change_def send_heartbeat_def next_timestamp_def check_alignment_packet_def Let_def
      split: if_splits prod.splits)

lemma notify_control:
  assumes "cd_control (notify env st d) = Some c'"
  shows "cc_state c' = st \<and> (\<exists>c. cd_control d = Some c \<and> cc_channel c' = cc_channel c \<and> cc_session c' = cc_session c)"
proof (cases "cd_control d")
  case (Some c)
  obtain c1 ms where n: "notify_state_change (xd_ctl env) ((xd_io env st)\<lparr>io_extra := None\<rparr>) st c = (c1, ms)" by fastforce
  with assms Some have "c' = c1" by (simp add: notify_def)
  with notify_state [OF n] Some show ?thesis by simp
qed (use assms in \<open>simp add: notify_def\<close>)

definition task_ready_sent :: "cd_env \<Rightarrow> string \<Rightarrow> client_daemon \<Rightarrow> bool" where
  "task_ready_sent env job d \<longleftrightarrow> (case cd_control d of None \<Rightarrow> True
     | Some c \<Rightarrow> is_ok (fst (notify_task_ready (xd_ctl env) job (xd_ready env) c)))"

lemma announce_ready_result:
  assumes "announce_ready env job d = (x, d')"
  shows "cd_sandbox d' = cd_sandbox d \<and> cd_link d' = cd_link d \<and> cd_job d' = cd_job d \<and> cd_iface d' = cd_iface d \<and>
    cd_config d' = cd_config d \<and> (x = None \<longleftrightarrow> task_ready_sent env job d) \<and>
    (x = None \<longrightarrow> (\<forall>c'. cd_control d' = Some c' \<longrightarrow> cc_state c' = RUNNING))"
proof (cases "cd_control d")
  case (Some c)
  obtain r c1 ms where n: "notify_task_ready (xd_ctl env) job (xd_ready env) c = (r, c1, ms)" by (metis prod_cases3)
  show ?thesis
  proof (cases r)
    case (Inl e)
    with assms Some n show ?thesis by (auto simp: announce_ready_def task_ready_sent_def Let_def)
  next
    case (Inr u)
    with assms Some n have "x = None" "d' = notify env RUNNING (d\<lparr>cd_control := Some c1, cd_log := cd_log d @ map CMsg ms\<rparr>)"
      by (simp_all add: announce_ready_def Let_def)
    with Some n Inr show ?thesis by (auto simp: task_ready_sent_def dest: notify_control)
  qed
qed (use assms in \<open>simp add: announce_ready_def task_ready_sent_def\<close>)

lemma run_in_sandbox_result:
  assumes "run_in_sandbox env j d = (x, d')" "k_inv d" "sb_proc (cd_sandbox d) \<noteq> Some Alive"
  shows "cd_link d' = cd_link d \<and> cd_iface d' = cd_iface d \<and> cd_config d' = cd_config d \<and>
    (if sb_proc (cd_sandbox d') = Some Alive
     then sb_job (cd_sandbox d') = Some j \<and> (x = None \<longleftrightarrow> task_ready_sent env (kj_job_id j) d) \<and>
       (x = None \<longrightarrow> cd_job d' = Some (kj_job_id j) \<and> (\<forall>c'. cd_control d' = Some c' \<longrightarrow> cc_state c' = RUNNING))
     else x \<noteq> None \<and> (no_child d' \<or> cd_sandbox d' = cd_sandbox d))"
  using assms(1) unfolding run_in_sandbox_def
proof (cases rule: then_dE)
  case (1 e)
  from 1(1) show ?thesis
  proof (rule in_sandboxE)
    fix s assume s: "sandbox_start (xd_launch env) (kc_work_dir (cd_config d))
        (case cd_iface d of None \<Rightarrow> [] | Some ifc \<Rightarrow> ifc) j (cd_sandbox d) = (Some e, s)" "d' = d\<lparr>cd_sandbox := s\<rparr>"
    have "sb_ok (kc_work_dir (cd_config d)) (cd_sandbox d)" using assms(2) by (simp add: k_inv_def)
    from start_ok [OF s(1) this] have "sb_proc s = None \<or> s = cd_sandbox d" by simp
    with assms(3) s(2) 1(2) show ?thesis by (auto simp: no_child_def)
  qed
next
  case (2 d1)
  from 2(1) obtain s where s: "sandbox_start (xd_launch env) (kc_work_dir (cd_config d))
      (case cd_iface d of None \<Rightarrow> [] | Some ifc \<Rightarrow> ifc) j (cd_sandbox d) = (None, s)" "d1 = d\<lparr>cd_sandbox := s\<rparr>"
    by (rule in_sandboxE)
  have "sb_ok (kc_work_dir (cd_config d)) (cd_sandbox d)" using assms(2) by (simp add: k_inv_def)
  from start_ok [OF s(1) this] have st: "sb_proc s = Some Alive" "sb_job s = Some j" by simp_all
  define d2 where "d2 = d1\<lparr>cd_job := Some (kj_job_id j)\<rparr>"
  from 2(2) have a: "announce_ready env (kj_job_id j) d2 = (x, d')" by (simp add: then_d_def d2_def)
  have "task_ready_sent env (kj_job_id j) d2 = task_ready_sent env (kj_job_id j) d"
    by (simp add: d2_def s(2) task_ready_sent_def)
  with announce_ready_result [OF a] st s(2) show ?thesis by (auto simp: d2_def)
qed

text \<open>C10: A job that \<open>trigger_job\<close> starts. If it returns, no radio switch was pending, the daemon was not
  stopped, it had an interface, and no other job was running; afterwards the job's process runs in the
  sandbox with the announced identity and the radio parameters in effect, the idle link is down, the
  job's id is the one a terminal message must name, the server has acknowledged TASK_READY, and the
  control plane says RUNNING.\<close>

theorem job_started:
  assumes "trigger_job env j d = (None, d')" and "k_inv d"
  shows "\<not> radio_switch_pending d \<and> client_state d \<noteq> D_STOPPED \<and> cd_iface d \<noteq> None \<and>
    sb_proc (cd_sandbox d) \<noteq> Some Alive \<and> own_job (cd_config d) j \<and>
    sb_proc (cd_sandbox d') = Some Alive \<and> cd_link d' = None \<and> cd_job d' = Some (kj_job_id j) \<and>
    (\<exists>j'. sb_job (cd_sandbox d') = Some j' \<and> kj_job_id j' = kj_job_id j \<and>
      kj_txpower j' = rc_txpower (cd_radio d) \<and> kj_uplink_mcs j' = rc_uplink_mcs (cd_radio d) \<and>
      kj_channel j' = (case cd_control d of Some c \<Rightarrow> cc_channel c | None \<Rightarrow> rc_channel (cd_radio d)) \<and>
      kj_width j' = channel_width_of (kj_channel j')) \<and>
    task_ready_sent env (kj_job_id j) d \<and> (\<forall>c'. cd_control d' = Some c' \<longrightarrow> cc_state c' = RUNNING)"
proof -
  from assms(1) have ref: "job_refusal j d = None" by (auto simp: trigger_job_def split: option.splits)
  with assms(1) obtain j' where j': "check_client_job (with_radio d j) = Inr j'"
    by (auto simp: trigger_job_def split: sum.splits)
  obtain y d1 where r: "run_in_sandbox env j' (stop_idle_link d) = (y, d1)" by fastforce
  with assms(1) ref j' have y: "y = None" "d1 = d'"
    by (auto simp: trigger_job_def split: option.splits prod.splits)
  have inv: "k_inv (stop_idle_link d)" using k_good_stop_link [of d] assms(2) by (simp add: k_good_def)
  have alive: "sb_proc (cd_sandbox d) \<noteq> Some Alive"
  proof
    assume "sb_proc (cd_sandbox d) = Some Alive"
    then have "sandbox_start (xd_launch env) w ifc j' (cd_sandbox d) \<noteq> (None, t)" for w ifc t
      by (simp add: sandbox_start_def)
    with r y show False
      by (auto simp: run_in_sandbox_def then_d_def in_sandbox_def split: prod.splits option.splits)
  qed
  have tr: "task_ready_sent env k (stop_idle_link d) = task_ready_sent env k d" for k
    by (simp add: task_ready_sent_def)
  from run_in_sandbox_result [OF r inv] alive y
  have res: "sb_proc (cd_sandbox d') = Some Alive" "sb_job (cd_sandbox d') = Some j'" "cd_link d' = None"
    "cd_job d' = Some (kj_job_id j')" "task_ready_sent env (kj_job_id j') d"
    "\<forall>c'. cd_control d' = Some c' \<longrightarrow> cc_state c' = RUNNING"
    by (auto simp: tr split: if_splits)
  have fields: "kj_job_id j' = kj_job_id j \<and> kj_txpower j' = rc_txpower (cd_radio d) \<and>
      kj_uplink_mcs j' = rc_uplink_mcs (cd_radio d) \<and> kj_width j' = channel_width_of (kj_channel j') \<and>
      kj_channel j' = (case cd_control d of Some c \<Rightarrow> cc_channel c | None \<Rightarrow> rc_channel (cd_radio d))"
    using check_job_own [OF j'] by (simp add: with_radio_def Let_def)
  from ref have "\<not> radio_switch_pending d" "client_state d \<noteq> D_STOPPED" "cd_iface d \<noteq> None"
    by (simp_all add: job_refusal_def Let_def split: if_splits)
  with refusal_own [OF ref] alive res fields show ?thesis by simp
qed

section \<open>A start that fails\<close>

lemma ensure_idle_child:
  assumes "ensure_idle_transport env d = (x, d')" "sb_proc (cd_sandbox d) = Some Alive"
  shows "d' = d \<and> x = None"
  using assms
  by (auto simp: ensure_idle_transport_def if_running_def sandbox_running_def skip_op_def split: if_splits)

lemma idle_ops_no_child:
  assumes "start_idle_link env d = (x, d') \<or> restore_tun_if_idle env d = (x, d')" "no_child d"
  shows "cd_sandbox d' = cd_sandbox d \<and> cd_job d' = cd_job d \<and> cd_control d' = cd_control d"
  using assms
  by (auto simp: if_running_def sandbox_running_def no_child_def skip_op_def start_idle_link_def
      launch_idle_link_def restore_tun_if_idle_def client_log_def Let_def split: if_splits option.splits)

lemma running_not_alive:
  "sandbox_running env s = (r, s') \<Longrightarrow> sb_proc s \<noteq> Some Alive \<Longrightarrow> sb_proc s' = None \<and> r \<noteq> Inr True"
  by (auto simp: sandbox_running_def sandbox_finalize_def Let_def split: option.splits child.splits prod.splits)

lemma ensure_idle_kept:
  assumes "ensure_idle_transport env d = (x, d')" "sb_proc (cd_sandbox d) \<noteq> Some Alive"
  shows "cd_job d' = cd_job d \<and> cd_control d' = cd_control d \<and> sb_proc (cd_sandbox d') \<noteq> Some Alive \<and>
    (no_child d \<longrightarrow> cd_sandbox d' = cd_sandbox d)"
proof (cases "cd_iface d = None \<or> sb_state (cd_sandbox d) = D_STOPPED")
  case False
  obtain r s where r: "sandbox_running (xd_end env) (cd_sandbox d) = (r, s)" by fastforce
  note na = running_not_alive [OF r assms(2)]
  have same: "no_child d \<longrightarrow> s = cd_sandbox d" using r by (auto simp: no_child_def sandbox_running_def)
  show ?thesis
  proof (cases r)
    case (Inl e)
    with assms(1) False r na same show ?thesis by (auto simp: ensure_idle_transport_def if_running_def)
  next
    case (Inr b)
    let ?d = "d\<lparr>cd_sandbox := s\<rparr>"
    have "start_idle_link env ?d = (x, d') \<or> restore_tun_if_idle env ?d = (x, d')"
      using assms(1) False r Inr na by (auto simp: ensure_idle_transport_def if_running_def split: if_splits)
    moreover have "no_child ?d" using na by (simp add: no_child_def)
    ultimately have "cd_sandbox d' = s \<and> cd_job d' = cd_job d \<and> cd_control d' = cd_control d"
      using idle_ops_no_child by fastforce
    with na same show ?thesis by simp
  qed
qed (use assms in \<open>simp add: ensure_idle_transport_def\<close>)

text \<open>C11: What a failed \<open>trigger_job\<close> leaves behind, if no other job was running. Either it changed
  nothing, or no process is left and the job's id is cleared; or TASK_READY was not acknowledged, and
  then the job's process keeps running while its id is forgotten, so that no JOB_ABORT or
  JOB_COMPLETED can end it any more.\<close>

theorem failed_trigger_outcome:
  assumes "trigger_job env j d = (Some e, d')" and "k_inv d" and "sb_proc (cd_sandbox d) \<noteq> Some Alive"
  shows "d' = d \<or> cd_job d' = None \<and>
    (sb_proc (cd_sandbox d') \<noteq> Some Alive \<or>
     (\<not> task_ready_sent env (kj_job_id j) d \<and> cd_link d' = None \<and>
      (\<exists>j'. sb_job (cd_sandbox d') = Some j' \<and> kj_job_id j' = kj_job_id j) \<and>
      (\<forall>env' msg ab. handle_job_terminal env' msg ab d' = (None, d'))))"
proof (cases "\<exists>j'. job_refusal j d = None \<and> check_client_job (with_radio d j) = Inr j'")
  case False
  with assms(1) show ?thesis by (auto simp: trigger_job_def split: option.splits sum.splits)
next
  case True
  then obtain j' where j': "job_refusal j d = None" "check_client_job (with_radio d j) = Inr j'" by blast
  obtain y d1 where r: "run_in_sandbox env j' (stop_idle_link d) = (y, d1)" by fastforce
  obtain z d2 where e: "ensure_idle_transport env (d1\<lparr>cd_job := None\<rparr>) = (z, d2)" by fastforce
  have y: "y \<noteq> None" "d' = d2" using assms(1) j' r e by (auto simp: trigger_job_def split: option.splits)
  have inv: "k_inv (stop_idle_link d)" using k_good_stop_link [of d] assms(2) by (simp add: k_good_def)
  have tr: "task_ready_sent env k (stop_idle_link d) = task_ready_sent env k d" for k
    by (simp add: task_ready_sent_def)
  have id: "kj_job_id j' = kj_job_id j" using check_job_own [OF j'(2)] by (simp add: with_radio_def Let_def)
  note res = run_in_sandbox_result [OF r inv]
  show ?thesis
  proof (cases "sb_proc (cd_sandbox d1) = Some Alive")
    case True
    with e have d2: "d2 = d1\<lparr>cd_job := None\<rparr>" using ensure_idle_child by fastforce
    moreover have "handle_job_terminal env' msg ab d2 = (None, d2)" for env' msg ab
      by (simp add: handle_job_terminal_def d2)
    ultimately show ?thesis using res True assms(3) y id tr by simp
  next
    case False
    with ensure_idle_kept [OF e] have "cd_job d2 = None \<and> sb_proc (cd_sandbox d2) \<noteq> Some Alive" by simp
    with y show ?thesis by simp
  qed
qed

section \<open>The end of a job\<close>

lemma notices_fields [simp]:
  "cd_sandbox (end_notices env st d) = cd_sandbox d" "cd_job (end_notices env st d) = cd_job d"
  by (cases st; simp add: end_notices_def)+

lemma notices_control: "cd_control (end_notices env st d) = Some c \<Longrightarrow> cc_state c = IDLE"
  unfolding end_notices_def by (drule notify_control) simp

abbreviation names_job :: "pydict \<Rightarrow> client_daemon \<Rightarrow> bool" where
  "names_job msg d \<equiv> cd_job d \<noteq> None \<and> dget msg ''job_id'' = PStr (the (cd_job d))"

text \<open>The two ways the handler goes on after ending the sandbox's job.\<close>

lemma terminal_steps:
  assumes "handle_job_terminal env msg ab d = (x, d')" "names_job msg d"
  obtains y s where "sandbox_abort (xd_end env) (xd_reaped env) (if ab then ''aborted'' else ''succeeded'') (cd_sandbox d) = (Some y, s)"
      "x = Some y" "d' = d\<lparr>cd_sandbox := s\<rparr>"
  | s z d2 where "sandbox_abort (xd_end env) (xd_reaped env) (if ab then ''aborted'' else ''succeeded'') (cd_sandbox d) = (None, s)"
      "ensure_idle_transport env (d\<lparr>cd_sandbox := s\<rparr>) = (z, d2)" "x = z"
      "d' = (if z \<noteq> None then d2 else end_notices env (if ab then Some ABORTING else None) (d2\<lparr>cd_job := None\<rparr>))"
proof -
  obtain y s where s: "sandbox_abort (xd_end env) (xd_reaped env) (if ab then ''aborted'' else ''succeeded'') (cd_sandbox d) = (y, s)"
    by fastforce
  obtain z d2 where e: "ensure_idle_transport env (d\<lparr>cd_sandbox := s\<rparr>) = (z, d2)" by fastforce
  show thesis
  proof (cases y)
    case (Some e')
    with assms s show thesis by (intro that(1)) (auto simp: handle_job_terminal_def then_d_def in_sandbox_def)
  next
    case None
    with assms s e show thesis
      by (intro that(2) [of s z d2]) (auto simp: handle_job_terminal_def then_d_def in_sandbox_def split: option.splits)
  qed
qed

text \<open>After a sandbox that ended in the state IDLE the handler leaves it so.\<close>

lemma terminal_idle:
  assumes "sb_proc s = None" "ensure_idle_transport env (d\<lparr>cd_sandbox := s\<rparr>) = (z, d2)"
    "d' = (if z \<noteq> None then d2 else end_notices env st (d2\<lparr>cd_job := None\<rparr>))"
  shows "cd_sandbox d' = s \<and> (z = None \<longrightarrow> cd_job d' = None \<and> (\<forall>c. cd_control d' = Some c \<longrightarrow> cc_state c = IDLE))"
proof -
  from ensure_idle_kept [OF assms(2)] assms(1) have "cd_sandbox d2 = s" by (simp add: no_child_def)
  with assms(3) show ?thesis by (auto dest: notices_control)
qed

text \<open>Without a job, ending it cannot fail, whatever the state was.\<close>

lemma terminal_without_job:
  assumes "names_job msg d" "no_child d" "sb_job (cd_sandbox d) = None"
  shows "sb_state (cd_sandbox (snd (handle_job_terminal env msg ab d))) = D_IDLE"
proof -
  obtain x d' where h: "handle_job_terminal env msg ab d = (x, d')" by fastforce
  have free: "y = None \<and> sb_state s = D_IDLE \<and> sb_proc s = None"
    if "sandbox_abort e r oc (cd_sandbox d) = (y, s)" for e r oc y s
    using that assms(2,3)
    by (auto simp: no_child_def sandbox_abort_def sandbox_finalize_def save_evidence_def Let_def)
  from h assms(1) show ?thesis
  proof (cases rule: terminal_steps)
    case (1 y s)
    with free show ?thesis by blast
  next
    case (2 s z d2)
    with free [OF 2(1)] terminal_idle [OF _ 2(2,4)] h show ?thesis by simp
  qed
qed

text \<open>C12: What a terminal message does. A message that names another job, or arrives when no job is known,
  changes nothing. One that names the current job ends its process; if nothing fails on the way, the
  sandbox is free again, the job's id is cleared and the control plane says IDLE. If the job's TUN is
  still there the sandbox is STOPPED - and the same message once more sets it free.\<close>

theorem terminal_outcome:
  assumes "handle_job_terminal env msg ab d = (x, d')" and "k_inv d"
  shows "if \<not> names_job msg d then x = None \<and> d' = d
    else no_child d' \<and>
      (x = None \<longrightarrow> sb_state (cd_sandbox d') = D_IDLE \<and> cd_job d' = None \<and>
         (\<forall>c. cd_control d' = Some c \<longrightarrow> cc_state c = IDLE)) \<and>
      (sb_state (cd_sandbox d') = D_STOPPED \<longrightarrow>
         (\<forall>env' ab'. sb_state (cd_sandbox (snd (handle_job_terminal env' msg ab' d'))) = D_IDLE))"
proof (cases "names_job msg d")
  case False
  with assms(1) show ?thesis by (auto simp: handle_job_terminal_def)
next
  case True
  have inv: "sb_ok (kc_work_dir (cd_config d)) (cd_sandbox d)" using assms(2) by (simp add: k_inv_def)
  from assms(1) True show ?thesis
  proof (cases rule: terminal_steps)
    case (1 y s)
    from abort_ok [OF 1(1) inv] have ok: "sb_ok (kc_work_dir (cd_config d)) s" "sb_proc s = None" by simp_all
    then have "sb_job s = None" by (simp add: sb_ok_def)
    with ok True 1 terminal_without_job [where d = d' and msg = msg] show ?thesis by (simp add: no_child_def)
  next
    case (2 s z d2)
    from abort_ok [OF 2(1) inv] have ok: "sb_proc s = None" "sb_state s = D_IDLE" by (auto simp: sb_ok_def)
    with terminal_idle [OF ok(1) 2(2,4)] True 2(3) show ?thesis by (simp add: no_child_def)
  qed
qed

section \<open>Examples\<close>

text \<open>A node that has taken over its interface, started its link and its control plane, and found the
  server; an announcement for it, and what it meets when nothing fails.\<close>

definition node_one :: client_config where
  "node_one = \<lparr>kc_node_id = 1, kc_tun_ip = ''10.80.0.11'', kc_tun_cidr = ''10.80.0.11/24'',
     kc_tun_name = ''fl-c1'', kc_channel = 157, kc_txpower = 20, kc_uplink_mcs = 4, kc_work_dir = ''/w'',
     kc_interface = None, kc_server_port = 9001, kc_broadcast_port = 9000, kc_link_id = 7,
     kc_enable_control = True, kc_enable_link = True\<rparr>"

definition fine_end :: finish_env where
  "fine_end = \<lparr>xf_archive = None, xf_tun = None, xf_rmtree = False\<rparr>"

definition silent_io :: hb_io where
  "silent_io = \<lparr>io_sent = True, io_reply = None, io_extra = None\<rparr>"

definition ack_io :: hb_io where
  "ack_io = \<lparr>io_sent = True, io_reply = Some (PDict [(''ack'', PBool True)]), io_extra = None\<rparr>"

definition fine_env :: cd_env where
  "fine_env = \<lparr>xd_ctl = \<lparr>ce_now = 1, ce_hw = (\<lambda>_. None)\<rparr>, xd_io = (\<lambda>_. silent_io), xd_ready = [silent_io, ack_io],
     xd_launch = \<lparr>xs_old = fine_end, xs_mkdir = None, xs_prepare = None, xs_popen = None,
       xs_polls = [(None, None), (None, Some [''READY=1''])], xs_reaped = 0, xs_failed = fine_end\<rparr>,
     xd_end = fine_end, xd_reaped = Some 0,
     xd_link = \<lparr>xl_exe = Some ''/bin/up'', xl_open = None, xl_popen = None, xl_polls = [(None, Inr True)]\<rparr>,
     xd_tun_active = False, xd_setup = None, xd_ifaces = [''wlan1''], xd_wireless = None, xd_control = None\<rparr>"

definition linked_node :: client_daemon where
  "linked_node = snd (run_turn fine_env RunControl (snd (run_turn fine_env RunLink
     (snd (run_turn fine_env RunTop (client_daemon_init None node_one))))))"

definition found_server :: "client_daemon \<Rightarrow> client_daemon" where
  "found_server d = d\<lparr>cd_control := map_option (cc_state_update (\<lambda>_. IDLE)) (cd_control d)\<rparr>"

definition idle_node :: client_daemon where
  "idle_node = found_server linked_node"

definition sample_announce :: pydict where
  "sample_announce = [(''type'', PStr ''TASK_ANNOUNCE''), (''run_id'', PStr ''r1''), (''job_id'', PStr ''j1''),
     (''target_nodes'', PList [PInt 1, PInt 2]), (''io_timeout_seconds'', PInt 120), (''live_observation'', PBool False),
     (''algorithm'', PStr ''m:f''), (''algorithm_config'', PDict []), (''rounds'', PInt 2),
     (''server_http_host'', PStr ''10.80.0.1''), (''server_http_port'', PInt 8080), (''uftp_port'', PInt 1044),
     (''link_id'', PInt 7)]"

definition sample_job :: client_job where
  "sample_job = (case announced_job node_one sample_announce of AnnJob j \<Rightarrow> j)"

definition busy_node :: client_daemon where
  "busy_node = snd (trigger_job fine_env sample_job idle_node)"

lemma idle_node_reach: "\<exists>pc. k_reach None node_one (idle_node, pc)"
proof -
  have turn: "k_reach None node_one (d, pc) \<Longrightarrow> k_reach None node_one (snd (run_turn fine_env pc d), fst (run_turn fine_env pc d))" for d pc
    by (rule k_next, assumption, rule k_run) simp
  let ?d0 = "client_daemon_init None node_one"
  have p: "fst (run_turn fine_env RunTop ?d0) = RunLink"
    "fst (run_turn fine_env RunLink (snd (run_turn fine_env RunTop ?d0))) = RunControl" by code_simp+
  from turn [OF turn [OF turn [OF k_init], unfolded p(1)], unfolded p(2)]
  have r: "k_reach None node_one (linked_node, fst (run_turn fine_env RunControl (snd (run_turn fine_env RunLink (snd (run_turn fine_env RunTop ?d0))))))"
    unfolding linked_node_def .
  have "cd_control linked_node \<noteq> None" by code_simp
  then obtain c where "cd_control linked_node = Some c" by blast
  with k_control [OF this] have "k_step (linked_node, pc) (idle_node, pc)" for pc
    by (simp add: idle_node_def found_server_def)
  with r show ?thesis by (blast intro: k_next)
qed

lemma idle_node_inv: "k_inv idle_node"
  using idle_node_reach k_reach_inv by fastforce

lemma busy_node_started: "trigger_job fine_env sample_job idle_node = (None, busy_node)"
proof -
  have "fst (trigger_job fine_env sample_job idle_node) = None" by code_simp
  then show ?thesis by (simp add: busy_node_def prod_eq_iff)
qed

lemma busy_node_reach: "\<exists>pc. k_reach None node_one (busy_node, pc)"
  using idle_node_reach k_trigger [OF busy_node_started] by (blast intro: k_next)

theorem radio_used_once_witness: "sb_state (cd_sandbox busy_node) = D_RUNNING \<and> cd_link busy_node = None"
proof -
  obtain pc where r: "k_reach None node_one (busy_node, pc)" using busy_node_reach by blast
  have "sb_proc (cd_sandbox busy_node) \<noteq> None" by code_simp
  with radio_used_once [OF r] show ?thesis by simp
qed

definition end_msg :: pydict where
  "end_msg = [(''type'', PStr ''JOB_COMPLETED''), (''job_id'', PStr ''j1'')]"

definition finished_node :: client_daemon where
  "finished_node = snd (handle_job_terminal fine_env end_msg False busy_node)"

theorem evidence_kept_witness:
  "''/w/job_j1'' \<in> set (sb_disk (cd_sandbox finished_node)) \<or>
   (\<exists>ev \<in> set (sb_archive (cd_sandbox finished_node)). ''/w/job_j1'' = ev_dir ''/w'' ev)"
proof -
  obtain pc where r: "k_reach None node_one (busy_node, pc)" using busy_node_reach by blast
  have "handle_job_terminal fine_env end_msg False busy_node =
      (fst (handle_job_terminal fine_env end_msg False busy_node), finished_node)" by (simp add: finished_node_def)
  from k_terminal [OF this] have "k_step\<^sup>*\<^sup>* (busy_node, pc) (finished_node, pc)" by (rule r_into_rtranclp)
  note kept = evidence_kept [OF r this]
  have "''/w/job_j1'' \<in> set (sb_disk (cd_sandbox busy_node))" by code_simp
  moreover have "kc_work_dir node_one = ''/w''" by code_simp
  ultimately show ?thesis using kept by auto
qed

theorem job_started_witness: "sb_proc (cd_sandbox busy_node) = Some Alive \<and> cd_job busy_node = Some (kj_job_id sample_job)"
  using job_started [OF busy_node_started idle_node_inv] by simp

text \<open>No acknowledgement of TASK_READY arrives.\<close>

definition orphan_node :: client_daemon where
  "orphan_node = snd (trigger_job (fine_env\<lparr>xd_ready := [silent_io]\<rparr>) sample_job idle_node)"

theorem failed_trigger_outcome_witness:
  "sb_proc (cd_sandbox orphan_node) = Some Alive \<and>
   (\<forall>env msg ab. handle_job_terminal env msg ab orphan_node = (None, orphan_node))"
proof -
  obtain x where x: "trigger_job (fine_env\<lparr>xd_ready := [silent_io]\<rparr>) sample_job idle_node = (x, orphan_node)"
    unfolding orphan_node_def by (metis prod.collapse)
  have "fst (trigger_job (fine_env\<lparr>xd_ready := [silent_io]\<rparr>) sample_job idle_node) \<noteq> None" by code_simp
  with x obtain e where e: "trigger_job (fine_env\<lparr>xd_ready := [silent_io]\<rparr>) sample_job idle_node = (Some e, orphan_node)"
    by auto
  have p: "sb_proc (cd_sandbox idle_node) = None" "sb_proc (cd_sandbox orphan_node) = Some Alive" by code_simp+
  then have "orphan_node \<noteq> idle_node" by auto
  with failed_trigger_outcome [OF e idle_node_inv] p show ?thesis by auto
qed

text \<open>The TUN of the job cannot be removed at first.\<close>

definition stuck_node :: client_daemon where
  "stuck_node = snd (handle_job_terminal (fine_env\<lparr>xd_end := fine_end\<lparr>xf_tun := Some cleanup_failed\<rparr>\<rparr>) end_msg True busy_node)"

theorem terminal_outcome_witness:
  "sb_state (cd_sandbox stuck_node) = D_STOPPED \<and>
   sb_state (cd_sandbox (snd (handle_job_terminal fine_env end_msg True stuck_node))) = D_IDLE"
proof -
  obtain x where x: "handle_job_terminal (fine_env\<lparr>xd_end := fine_end\<lparr>xf_tun := Some cleanup_failed\<rparr>\<rparr>) end_msg True busy_node =
      (x, stuck_node)" unfolding stuck_node_def by (metis prod.collapse)
  have "k_inv busy_node" using busy_node_reach k_reach_inv by fastforce
  note out = terminal_outcome [OF x this]
  have s: "sb_state (cd_sandbox stuck_node) = D_STOPPED" by code_simp
  have "cd_job busy_node = Some ''j1''" "dget end_msg ''job_id'' = PStr ''j1''" by code_simp+
  with out s show ?thesis by simp
qed

text \<open>The supervisory loop decides that a node whose announcement failed must say IDLE again, and says so
  only after the next announcement has started a job: the node runs a job and reports IDLE.\<close>

definition pending_node :: client_daemon where
  "pending_node = snd (run_turn fine_env RunCheck
     (snd (handle_task_announce fine_env (AList.update ''rounds'' (PStr ''x'') sample_announce) idle_node)))"

definition mistaken_node :: client_daemon where
  "mistaken_node = snd (run_turn fine_env RunNotify (snd (handle_task_announce fine_env sample_announce pending_node)))"

lemma late_notice:
  "fst (run_turn fine_env RunCheck
     (snd (handle_task_announce fine_env (AList.update ''rounds'' (PStr ''x'') sample_announce) idle_node))) = RunNotify \<and>
   sb_proc (cd_sandbox mistaken_node) = Some Alive \<and> map_option cc_state (cd_control mistaken_node) = Some IDLE"
  by code_simp

end
