(* ===== verification/Role_Service.thy ===== *)
theory Role_Service
  imports Client_Jobs
begin

text \<open>
  \<^verbatim>\<open>wfb_ng/fl/service.py\<close>: the role configuration a service reads, with its checks, the link options it
  takes from it, how it is loaded, and the life of \<open>RoleService\<close>, which starts link, route and role in order and closes
  all of them however far it got. The properties tie it to the client daemon: the configuration the
  sandbox writes for a job is one the service loads. At the end, what starting and closing leave.
\<close>

section \<open>The configuration\<close>

definition invalid_config :: "string \<Rightarrow> exn" where
  "invalid_config m = fl_error ''invalid_configuration'' m"

definition COMMON_FIELDS :: "string list" where
  "COMMON_FIELDS = [''schema_version'', ''role'', ''work_dir'', ''node_id'', ''uftp_port'',
     ''max_update_size_bytes'', ''link_args'', ''live_observation'', ''observation_path'',
     ''io_timeout_seconds'', ''channel'', ''channel_width'']"

definition OPTIONAL_FIELDS :: "string list" where
  "OPTIONAL_FIELDS = [''radio_txpower_dbm'']"

definition SERVER_FIELDS :: "string list" where
  "SERVER_FIELDS = [''participant_node_ids'', ''participant_uftp_uids'', ''server_uftp_uid'',
     ''uftp_rate_kbps'', ''http_host'', ''http_port'', ''uftp_bind_host'', ''uftp_multicast_host'',
     ''uftp_private_multicast_host'']"

definition CLIENT_FIELDS :: "string list" where
  "CLIENT_FIELDS = [''uftp_uid'', ''server_http_host'', ''server_http_port'', ''uftp_bind_host'',
     ''uftp_multicast_host'', ''uftp_private_multicast_host'']"

text \<open>\<^verbatim>\<open>type(v) is int and v > 0\<close>, a non-empty string, an absolute path.\<close>

definition pos_int :: "pyval \<Rightarrow> bool" where
  "pos_int v = (case v of PInt i \<Rightarrow> 0 < i | _ \<Rightarrow> False)"

definition some_str :: "pyval \<Rightarrow> bool" where
  "some_str v = (case v of PStr s \<Rightarrow> s \<noteq> [] | _ \<Rightarrow> False)"

definition abs_path :: "pyval \<Rightarrow> bool" where
  "abs_path v = (case v of PStr s \<Rightarrow> starts_with ''/'' s | _ \<Rightarrow> False)"

definition is_ipv4_multicast :: "pyval \<Rightarrow> bool" where
  "is_ipv4_multicast v = (case v of
     PStr s \<Rightarrow> (case ipv4_text s of Some n \<Rightarrow> n div 2 ^ 28 = 14 | None \<Rightarrow> False) | _ \<Rightarrow> False)"

text \<open>\<open>_single_option_value\<close>\<close>

fun option_values :: "string \<Rightarrow> string list \<Rightarrow> string option list" where
  "option_values opt [] = []"
| "option_values opt (a # as) =
     (if a = opt then (case as of [] \<Rightarrow> None | v # _ \<Rightarrow> Some v) # option_values opt as
      else option_values opt as)"

definition single_option_value :: "string list \<Rightarrow> string \<Rightarrow> string res" where
  "single_option_value args opt = (case option_values opt args of
     [Some v] \<Rightarrow> if starts_with ''--'' v then Inl (invalid_config opt) else Inr v
   | _ \<Rightarrow> Inl (invalid_config opt))"

definition str_list :: "pyval \<Rightarrow> string list option" where
  "str_list v = (case as_list v of None \<Rightarrow> None
     | Some vs \<Rightarrow> let ss = List.map_filter as_str vs in if length ss = length vs then Some ss else None)"

definition link_args_ok :: "pyval \<Rightarrow> bool" where
  "link_args_ok v = (case str_list v of
     None \<Rightarrow> False
   | Some as \<Rightarrow> as \<noteq> [] \<and> [] \<notin> set as \<and> ''--role'' \<notin> set as \<and> ''--node-id'' \<notin> set as \<and>
       is_ok (single_option_value as ''--tun-name''))"

definition role_fields :: "pydict \<Rightarrow> string list" where
  "role_fields d = COMMON_FIELDS @ (if dget d ''role'' = PStr ''server'' then SERVER_FIELDS else CLIENT_FIELDS)"

text \<open>The checks in the order of the code, each with what it is about.\<close>

definition config_checks :: "pydict \<Rightarrow> (bool \<times> string) list" where
  "config_checks d =
     [(dget d ''role'' \<in> {PStr ''server'', PStr ''client''} \<and> list_all (has_key d) (role_fields d) \<and>
         list_all (\<lambda>(k, _). k \<in> set (role_fields d @ OPTIONAL_FIELDS)) d, ''fields''),
      (pos_int (dget d ''channel''), ''channel''),
      (some_str (dget d ''channel_width''), ''channel_width''),
      (py_eq (dget d ''schema_version'') (PInt 1), ''schema_version''),
      (as_bool (dget d ''live_observation'') \<noteq> None, ''live_observation''),
      (dget d ''observation_path'' = PNone \<or> abs_path (dget d ''observation_path''), ''observation_path''),
      (abs_path (dget d ''work_dir''), ''work_dir''),
      (list_all (\<lambda>k. pos_int (dget d k)) [''node_id'', ''uftp_port'', ''max_update_size_bytes'',
         ''io_timeout_seconds''], ''integers''),
      (has_key d ''radio_txpower_dbm'' \<longrightarrow> pos_int (dget d ''radio_txpower_dbm''), ''radio_txpower_dbm''),
      (dget d ''role'' = PStr ''server'' \<longrightarrow> pos_int (dget d ''uftp_rate_kbps''), ''uftp_rate_kbps''),
      (list_all (\<lambda>k. some_str (dget d k)) [''uftp_bind_host'', ''uftp_multicast_host'',
         ''uftp_private_multicast_host''], ''uftp addresses''),
      (is_ipv4_multicast (dget d ''uftp_multicast_host'') \<and>
         is_ipv4_multicast (dget d ''uftp_private_multicast_host'') \<and>
         dget d ''uftp_multicast_host'' \<noteq> dget d ''uftp_private_multicast_host'', ''multicast addresses''),
      (link_args_ok (dget d ''link_args''), ''link_args'')]"

definition read_role_config :: "pyval res \<Rightarrow> pydict res" where
  "read_role_config contents = (case contents of
     Inl e \<Rightarrow> Inl (invalid_config ''unreadable'')
   | Inr v \<Rightarrow> (case as_dict v of
       None \<Rightarrow> Inl (invalid_config ''not an object'')
     | Some d \<Rightarrow> (case filter (\<lambda>(ok, _). \<not> ok) (config_checks d) of
         [] \<Rightarrow> Inr d | (_, m) # _ \<Rightarrow> Inl (invalid_config m))))"

text \<open>\<open>_parse_known_client_node_ids\<close>\<close>

definition known_client_ids :: "string \<Rightarrow> int list res" where
  "known_client_ids s =
     (let items = split_all CHR '','' s; ids = List.map_filter (int_of_text 10) items in
      if list_all (\<lambda>i. i \<noteq> [] \<and> list_all (\<lambda>c. c \<in> set ''0123456789'') i) items \<and> length ids = length items \<and>
         list_all (\<lambda>n. 0 < n \<and> n \<le> 255) ids \<and> distinct ids
      then Inr ids else Inl (invalid_config ''known-clients''))"

text \<open>
  \<open>load_role_service\<close>. What it asks of the machine: which executables \<^verbatim>\<open>which\<close> finds, and whether a network
  interface of a name exists; \<open>lx_role\<close> is the error the constructor of the role raises, if it does. The
  result is the command of the link process and the hosts of the multicast route.
\<close>

record load_env =
  lx_which :: "string \<Rightarrow> string option"
  lx_exists :: "string \<Rightarrow> bool"
  lx_role :: "pydict \<Rightarrow> exn option"

record loaded_service =
  ls_role :: string
  ls_command :: "string list"
  ls_ip :: string
  ls_hosts :: "pyval list"
  ls_tun :: string

text \<open>The members a value has as a \<^verbatim>\<open>set(...)\<close>; a number, None or an unhashable member is an error.\<close>

definition hashable :: "pyval \<Rightarrow> bool" where
  "hashable v = (as_list v = None \<and> as_dict v = None)"

definition members_of :: "pyval \<Rightarrow> pyval list res" where
  "members_of v = (case v of
     PList vs \<Rightarrow> if list_all hashable vs then Inr vs else Inl (TypeError ''unhashable'')
   | PStr s \<Rightarrow> Inr (map (\<lambda>c. PStr [c]) s)
   | PDict d \<Rightarrow> Inr (map (PStr \<circ> fst) d)
   | _ \<Rightarrow> Inl (TypeError ''not iterable''))"

definition known_participants :: "pydict \<Rightarrow> string list \<Rightarrow> unit res" where
  "known_participants d args =
     (if dget d ''role'' \<noteq> PStr ''server'' then Inr ()
      else bind_res (single_option_value args ''--known-clients'') (\<lambda>s.
           bind_res (known_client_ids s) (\<lambda>ids.
           bind_res (members_of (dget d ''participant_node_ids'')) (\<lambda>vs.
             if list_all (\<lambda>v. list_ex (\<lambda>n. py_eq v (PInt n)) ids) vs then Inr ()
             else Inl (invalid_config ''participants'')))))"

definition find_tool :: "load_env \<Rightarrow> string \<Rightarrow> string res" where
  "find_tool env name = (case lx_which env name of
     None \<Rightarrow> Inl (fl_error ''transport_unavailable'' name)
   | Some p \<Rightarrow> if p = [] then Inl (fl_error ''transport_unavailable'' name) else Inr p)"

definition role_constructor_error :: "exn \<Rightarrow> exn" where
  "role_constructor_error e = (case e of
     TypeError _ \<Rightarrow> invalid_config ''role'' | ValueError _ \<Rightarrow> invalid_config ''role'' | _ \<Rightarrow> e)"

definition load_role_service :: "load_env \<Rightarrow> pyval res \<Rightarrow> string option \<Rightarrow> loaded_service res" where
  "load_role_service env contents expected =
     bind_res (read_role_config contents) (\<lambda>d.
     let role = the (as_str (dget d ''role'')); args = the (str_list (dget d ''link_args'')) in
     if expected \<noteq> None \<and> expected \<noteq> Some role then Inl (invalid_config ''role'')
     else
       bind_res (find_tool env ''wfb_v6_uplink'') (\<lambda>exe.
       bind_res (find_tool env (if role = ''server'' then ''uftp'' else ''uftpd'')) (\<lambda>_.
       bind_res (single_option_value args ''--tun-name'') (\<lambda>tun.
       bind_res (known_participants d args) (\<lambda>_.
       if lx_exists env tun then Inl (fl_error ''link_interface_exists'' tun)
       else bind_res (find_tool env ''ip'') (\<lambda>ip.
         case lx_role env d of
           Some e \<Rightarrow> Inl (role_constructor_error e)
         | None \<Rightarrow> Inr \<lparr>ls_role = role,
             ls_command = [exe, ''--role'', role, ''--node-id'', text_of_int (the (as_int (dget d ''node_id'')))] @ args,
             ls_ip = ip, ls_hosts = [dget d ''uftp_multicast_host'', dget d ''uftp_private_multicast_host''],
             ls_tun = tun\<rparr>))))))"

section \<open>The life of a service\<close>

text \<open>The parts in the order they are closed; each may raise.\<close>

datatype part = Transport | Route | Link | Runtime

record role_service =
  rs_ready :: bool
  rs_started :: bool
  rs_closed :: bool
  rs_log :: "part list"

record service_env =
  ze_link :: "exn option"
  ze_route :: "exn option"
  ze_role :: "exn option"
  ze_close :: "part \<Rightarrow> exn option"

definition service_init :: role_service where
  "service_init = \<lparr>rs_ready = False, rs_started = False, rs_closed = False, rs_log = []\<rparr>"

text \<open>Nested \<^verbatim>\<open>finally\<close>: every part is closed, and the error raised last is the one that leaves.\<close>

definition close_order :: "bool \<Rightarrow> part list" where
  "close_order routed = (if routed then [Transport, Route, Link, Runtime] else [Transport, Link, Runtime])"

definition last_error :: "exn option list \<Rightarrow> exn option" where
  "last_error xs = foldl (\<lambda>r x. case x of None \<Rightarrow> r | Some e \<Rightarrow> Some e) None xs"

definition service_close :: "bool \<Rightarrow> service_env \<Rightarrow> role_service \<Rightarrow> exn option \<times> role_service" where
  "service_close routed env s =
     (if rs_closed s then (None, s)
      else (last_error (map (ze_close env) (close_order routed)),
            s\<lparr>rs_ready := False, rs_closed := True, rs_log := rs_log s @ close_order routed\<rparr>))"

definition start_error :: "bool \<Rightarrow> service_env \<Rightarrow> exn option" where
  "start_error routed env = (case ze_link env of
     Some e \<Rightarrow> Some e
   | None \<Rightarrow> (case (if routed then ze_route env else None) of Some e \<Rightarrow> Some e | None \<Rightarrow> ze_role env))"

definition service_start :: "bool \<Rightarrow> service_env \<Rightarrow> role_service \<Rightarrow> exn option \<times> role_service" where
  "service_start routed env s =
     (if rs_started s \<or> rs_closed s
      then (Some (fl_error ''role_service_already_started'' ''started''), s)
      else
        let s = s\<lparr>rs_started := True\<rparr> in
        case start_error routed env of
          None \<Rightarrow> (None, s\<lparr>rs_ready := True\<rparr>)
        | Some e \<Rightarrow> (case service_close routed env s of
            (Some e', s) \<Rightarrow> (Some e', s) | (None, s) \<Rightarrow> (Some e, s)))"

text \<open>One turn of \<open>wait\<close>: the exit code of the link and the transport's failure.\<close>

definition service_wait :: "int option \<Rightarrow> exn option \<Rightarrow> role_service \<Rightarrow> exn option \<times> role_service" where
  "service_wait rc failure s =
     (if \<not> rs_ready s then (None, s)
      else case rc of
        Some _ \<Rightarrow> (Some (fl_error ''link_process_failed'' ''link exited''), s\<lparr>rs_ready := False\<rparr>)
      | None \<Rightarrow> (case failure of
          Some e \<Rightarrow> (Some e, s\<lparr>rs_ready := False\<rparr>) | None \<Rightarrow> (None, s)))"

section \<open>What the sandbox writes is accepted\<close>

text \<open>A value of an option: not empty and no option itself.\<close>

definition plain_arg :: "string \<Rightarrow> bool" where
  "plain_arg s \<longleftrightarrow> s \<noteq> [] \<and> \<not> starts_with ''--'' s"

lemma plain_not_option: "plain_arg s \<Longrightarrow> s \<noteq> CHR ''-'' # CHR ''-'' # t"
  by (auto simp: plain_arg_def starts_with_def)

lemma plain_text_of_int [simp]: "plain_arg (text_of_int i)"
proof -
  have d: "\<exists>c t. decimal n = c # t \<and> c \<noteq> CHR ''-''" for n
    using decimal_chars [of n] by (cases "decimal n") auto
  obtain c t c' t' where "decimal (nat i) = c # t" "c \<noteq> CHR ''-''" "decimal (nat (- i)) = c' # t'" "c' \<noteq> CHR ''-''"
    using d [of "nat i"] d [of "nat (- i)"] by blast
  then show ?thesis by (simp add: plain_arg_def starts_with_def text_of_int_def)
qed

lemma plain_bandwidth [simp]: "plain_arg (bandwidth_of w)"
  by (simp add: bandwidth_of_def plain_arg_def starts_with_def)

definition tun_addr_of :: "string \<Rightarrow> string" where
  "tun_addr_of ip = (if CHR ''/'' \<in> set ip then ip else ip @ ''/24'')"

lemma plain_tun_addr: "plain_arg ip \<Longrightarrow> plain_arg (tun_addr_of ip)"
  by (cases ip; cases "tl ip") (auto simp: tun_addr_of_def plain_arg_def starts_with_def)

lemma strings_back: "str_list (PList (map PStr as)) = Some as"
proof -
  have "List.map_filter as_str (map PStr as) = as" by (induction as) (simp_all add: map_filter_def)
  then show ?thesis by (simp add: str_list_def Let_def)
qed

lemma sandbox_args:
  assumes "plain_arg (kj_tun_name j)" "plain_arg (kj_tun_ip j)" "plain_arg ifc"
  shows "link_args_ok (PList (map PStr (sandbox_link_args j ifc)))"
    "single_option_value (sandbox_link_args j ifc) ''--tun-name'' = Inr (kj_tun_name j)"
proof -
  let ?as = "sandbox_link_args j ifc"
  have args: "?as = [''--tun-name'', kj_tun_name j, ''--tun-addr'', tun_addr_of (kj_tun_ip j),
      ''--link-id'', text_of_int (kj_link_id j), ''--uplink-stream'', ''1'', ''--downlink-stream'', ''2'',
      ''--fec-k'', ''8'', ''--fec-n'', ''14'', ''--radio-bandwidth'', bandwidth_of (kj_width j),
      ''--radio-mcs-index'', text_of_int (kj_uplink_mcs j), ''--radio-short-gi'', ''--air-interface'', ifc]"
    by (simp add: sandbox_link_args_def tun_addr_of_def)
  note plain = assms(1,3) plain_tun_addr [OF assms(2)] plain_text_of_int [of "kj_link_id j"]
    plain_text_of_int [of "kj_uplink_mcs j"] plain_bandwidth [of "kj_width j"]
  have opts: "x \<noteq> ''--role'' \<and> x \<noteq> ''--node-id'' \<and> x \<noteq> ''--tun-name'' \<and> x \<noteq> [] \<and>
      ''--role'' \<noteq> x \<and> ''--node-id'' \<noteq> x \<and> [] \<noteq> x" if "plain_arg x" for x
    using plain_not_option [OF that] that by (auto simp: plain_arg_def)
  note ne = plain [THEN opts]
  show tun: "single_option_value ?as ''--tun-name'' = Inr (kj_tun_name j)"
    using ne assms(1) by (simp add: single_option_value_def args plain_arg_def)
  with ne show "link_args_ok (PList (map PStr ?as))"
    unfolding link_args_ok_def strings_back by (simp add: args)
qed

lemma default_multicast:
  "is_ipv4_multicast (PStr ''239.80.41.1'')" "is_ipv4_multicast (PStr ''239.80.41.2'')"
proof -
  have "map octet (split_all CHR ''.'' ''239.80.41.1'') = [Some 239, Some 80, Some 41, Some 1]"
    "map octet (split_all CHR ''.'' ''239.80.41.2'') = [Some 239, Some 80, Some 41, Some 2]" by code_simp+
  then show "is_ipv4_multicast (PStr ''239.80.41.1'')" "is_ipv4_multicast (PStr ''239.80.41.2'')"
    by (simp_all add: is_ipv4_multicast_def ipv4_text_def)
qed

lemma has_key_keys: "has_key d = (\<lambda>k. k \<in> set (map fst d))"
  by (auto simp: has_key_def fun_eq_iff map_of_eq_None_iff)

lemma keys_only: "list_all (\<lambda>(k, _). P k) d = list_all P (map fst d)"
  by (auto simp: list_all_iff)

lemma role_config_accepted:
  assumes "0 < kj_channel j" "kj_width j \<noteq> []" "0 < kj_node_id j" "0 < kj_uftp_port j" "0 < kj_max_update j"
    "0 < kj_io_timeout j" "0 < kj_txpower j" "kj_bind_host j = Some h" "h \<noteq> []" "starts_with ''/'' dir"
    "plain_arg (kj_tun_name j)" "plain_arg (kj_tun_ip j)" "plain_arg ifc"
  shows "read_role_config (Inr (PDict (role_config j dir ifc))) = Inr (role_config j dir ifc)"
proof -
  let ?d = "role_config j dir ifc"
  have obs: "starts_with ''/'' (dir @ x)" for x
    using assms(10) by (cases dir) (simp_all add: starts_with_def)
  note multi = default_multicast
  have get: "dget ?d ''channel'' = PInt (kj_channel j)" "dget ?d ''channel_width'' = PStr (kj_width j)"
    "dget ?d ''schema_version'' = PInt 1" "dget ?d ''live_observation'' = PBool (kj_live j)"
    "dget ?d ''observation_path'' = (if kj_live j then PStr (dir @ ''/observation.jsonl'') else PNone)"
    "dget ?d ''work_dir'' = PStr dir" "dget ?d ''node_id'' = PInt (kj_node_id j)"
    "dget ?d ''uftp_port'' = PInt (kj_uftp_port j)" "dget ?d ''max_update_size_bytes'' = PInt (kj_max_update j)"
    "dget ?d ''io_timeout_seconds'' = PInt (kj_io_timeout j)" "dget ?d ''radio_txpower_dbm'' = PInt (kj_txpower j)"
    "dget ?d ''role'' = PStr ''client''" "dget ?d ''uftp_bind_host'' = PStr h"
    "dget ?d ''uftp_multicast_host'' = PStr ''239.80.41.1''"
    "dget ?d ''uftp_private_multicast_host'' = PStr ''239.80.41.2''"
    "dget ?d ''link_args'' = PList (map PStr (sandbox_link_args j ifc))"
    by (simp_all add: role_config_def assms(8))
  have keys: "map fst ?d = [''schema_version'', ''role'', ''work_dir'', ''node_id'', ''uftp_uid'', ''uftp_port'',
      ''server_http_host'', ''server_http_port'', ''uftp_bind_host'', ''uftp_multicast_host'',
      ''uftp_private_multicast_host'', ''channel'', ''channel_width'', ''radio_txpower_dbm'',
      ''max_update_size_bytes'', ''live_observation'', ''observation_path'', ''io_timeout_seconds'', ''link_args'']"
    by (simp add: role_config_def)
  have rf: "role_fields ?d = COMMON_FIELDS @ CLIENT_FIELDS" by (simp add: role_fields_def get)
  have sub: "list_all (has_key ?d) (COMMON_FIELDS @ CLIENT_FIELDS)"
    unfolding has_key_keys [of ?d, unfolded keys] list_all_iff by code_simp
  have all: "list_all (\<lambda>(k, _). k \<in> set (COMMON_FIELDS @ CLIENT_FIELDS @ OPTIONAL_FIELDS)) ?d"
    unfolding keys_only keys by code_simp
  have "list_all fst (config_checks ?d)"
    unfolding config_checks_def list.pred_inject fst_conv rf append_assoc get
    using assms(1-10) sub all obs multi sandbox_args(1) [OF assms(11-13)]
    by (simp add: pos_int_def some_str_def abs_path_def)
  then have "filter (\<lambda>(ok, _). \<not> ok) (config_checks ?d) = []"
    by (auto simp: filter_empty_conv list_all_iff)
  then show ?thesis by (simp add: read_role_config_def)
qed

lemma started_role:
  assumes "sandbox_start env work ifc j s = (None, s')"
  shows "sb_role s' = Some (role_config j (job_dir work j) ifc) \<and> sb_job s' = Some j"
  using assms
  by (auto simp: sandbox_start_def start_fresh_def launch_child_def write_role_def make_job_dir_def Let_def
      split: if_splits option.splits child.splits prod.splits)

lemma checked_job:
  assumes "check_client_job (with_radio d j) = Inr j'"
  shows "0 < kj_io_timeout j' \<and> 0 < kj_channel j' \<and> 0 < kj_txpower j' \<and> kj_width j' \<noteq> [] \<and>
    kj_uftp_port j' = kj_uftp_port j \<and> kj_max_update j' = kj_max_update j \<and>
    kj_bind_host j' = Some (case kj_bind_host j of
      None \<Rightarrow> takeWhile (\<lambda>c. c \<noteq> CHR ''/'') (kj_tun_ip j) | Some h \<Rightarrow> h)"
proof -
  let ?j = "with_radio d j"
  let ?d = "[(''channel'', PInt (kj_channel ?j)), (''radio_txpower_dbm'', PInt (kj_txpower ?j)),
    (''uplink_mcs'', PInt (kj_uplink_mcs ?j))]"
  from assms obtain c where io: "0 < kj_io_timeout ?j" and c: "validate_radio_config (PDict ?d) = Inr c"
    and j': "j' = ?j\<lparr>kj_bind_host := (case kj_bind_host ?j of
      None \<Rightarrow> Some (takeWhile (\<lambda>c. c \<noteq> CHR ''/'') (kj_tun_ip ?j)) | Some h \<Rightarrow> Some h)\<rparr>"
    unfolding check_client_job_def by (auto split: if_splits)
  from c have "rc_channel c = kj_channel ?j \<and> rc_txpower c = kj_txpower ?j \<and>
      rc_channel c \<in> set ALLOWED_5GHZ_CHANNELS \<and> TXPOWER_MIN_DBM \<le> rc_txpower c"
    unfolding validate_radio_config_Inr by (auto simp: dget_default_def)
  then have "0 < kj_channel ?j" "0 < kj_txpower ?j"
    by (auto simp: ALLOWED_5GHZ_CHANNELS_def TXPOWER_MIN_DBM_def)
  moreover have "kj_uftp_port ?j = kj_uftp_port j" "kj_max_update ?j = kj_max_update j"
    "kj_bind_host ?j = kj_bind_host j" "kj_tun_ip ?j = kj_tun_ip j" "kj_width ?j \<noteq> []"
    by (simp_all add: with_radio_def Let_def channel_width_of_def)
  ultimately show ?thesis using io j' by (simp split: option.split)
qed

lemma sandbox_wrote:
  assumes "run_in_sandbox env j d = (None, d')" "cd_iface d = Some ifc"
  shows "sb_role (cd_sandbox d') = Some (role_config j (job_dir (kc_work_dir (cd_config d)) j) ifc) \<and>
    sb_job (cd_sandbox d') = Some j"
  using assms(1) unfolding run_in_sandbox_def
proof (cases rule: then_dE)
  case (1 e)
  then show ?thesis by simp
next
  case (2 d1)
  from 2(1) obtain s where s: "sandbox_start (xd_launch env) (kc_work_dir (cd_config d))
      (case cd_iface d of None \<Rightarrow> [] | Some ifc \<Rightarrow> ifc) j (cd_sandbox d) = (None, s)" "d1 = d\<lparr>cd_sandbox := s\<rparr>"
    by (rule in_sandboxE)
  from 2(2) have "announce_ready env (kj_job_id j) (d1\<lparr>cd_job := Some (kj_job_id j)\<rparr>) = (None, d')"
    by (simp add: then_d_def)
  from announce_ready_result [OF this] s(2) have "cd_sandbox d' = s" by simp
  with started_role [OF s(1)] assms(2) show ?thesis by simp
qed

lemma role_config_loads:
  assumes ok: "read_role_config (Inr (PDict (role_config j dir ifc))) = Inr (role_config j dir ifc)"
    and tools: "lx_which lenv ''wfb_v6_uplink'' = Some exe" "lx_which lenv ''uftpd'' = Some uftpd"
      "lx_which lenv ''ip'' = Some ip" "exe \<noteq> []" "uftpd \<noteq> []" "ip \<noteq> []"
    and tun: "single_option_value (sandbox_link_args j ifc) ''--tun-name'' = Inr (kj_tun_name j)"
      "\<not> lx_exists lenv (kj_tun_name j)"
  shows "load_role_service lenv (Inr (PDict (role_config j dir ifc))) (Some ''client'') =
    (case lx_role lenv (role_config j dir ifc) of
       Some e \<Rightarrow> Inl (role_constructor_error e)
     | None \<Rightarrow> Inr \<lparr>ls_role = ''client'',
         ls_command = [exe, ''--role'', ''client'', ''--node-id'', text_of_int (kj_node_id j)] @ sandbox_link_args j ifc,
         ls_ip = ip, ls_hosts = [PStr ''239.80.41.1'', PStr ''239.80.41.2''], ls_tun = kj_tun_name j\<rparr>)"
proof -
  have get: "dget (role_config j dir ifc) ''role'' = PStr ''client''"
    "dget (role_config j dir ifc) ''node_id'' = PInt (kj_node_id j)"
    "dget (role_config j dir ifc) ''uftp_multicast_host'' = PStr ''239.80.41.1''"
    "dget (role_config j dir ifc) ''uftp_private_multicast_host'' = PStr ''239.80.41.2''"
    "dget (role_config j dir ifc) ''link_args'' = PList (map PStr (sandbox_link_args j ifc))"
    by (simp_all add: role_config_def)
  show ?thesis
    unfolding load_role_service_def ok bind_res_simps get Let_def strings_back
    by (simp add: find_tool_def tools tun known_participants_def get cong: option.case_cong)
qed


definition bare_machine :: load_env where
  "bare_machine = \<lparr>lx_which = (\<lambda>name. Some (''/usr/bin/'' @ name)), lx_exists = (\<lambda>_. False), lx_role = (\<lambda>_. None)\<rparr>"


text \<open>
  The checks leave out one field of a server, \<^verbatim>\<open>participant_node_ids\<close>. With a number there the
  configuration is accepted, and loading raises a \<^verbatim>\<open>TypeError\<close>, outside the \<^verbatim>\<open>try\<close> that would turn it into
  \<^verbatim>\<open>invalid_configuration\<close>.
\<close>

definition number_of_participants :: pydict where
  "number_of_participants =
     [(''schema_version'', PInt 1), (''role'', PStr ''server''), (''work_dir'', PStr ''/var/fl''),
      (''node_id'', PInt 255), (''uftp_port'', PInt 1044), (''max_update_size_bytes'', PInt 4096),
      (''live_observation'', PBool False), (''observation_path'', PNone), (''io_timeout_seconds'', PInt 5),
      (''channel'', PInt 149), (''channel_width'', PStr ''HT40+''), (''participant_node_ids'', PInt 2),
      (''participant_uftp_uids'', PList [PInt 1, PInt 2]), (''server_uftp_uid'', PInt 255),
      (''uftp_rate_kbps'', PInt 2000), (''http_host'', PStr ''10.0.0.1''), (''http_port'', PInt 8080),
      (''uftp_bind_host'', PStr ''10.0.0.1''), (''uftp_multicast_host'', PStr ''239.80.41.1''),
      (''uftp_private_multicast_host'', PStr ''239.80.41.2''),
      (''link_args'', PList [PStr ''--tun-name'', PStr ''fl0'', PStr ''--known-clients'', PStr ''1,2''])]"

lemma number_is_accepted: "read_role_config (Inr (PDict number_of_participants)) = Inr number_of_participants"
proof -
  let ?d = number_of_participants
  have multi: "is_ipv4_multicast (dget ?d ''uftp_multicast_host'')" "is_ipv4_multicast (dget ?d ''uftp_private_multicast_host'')"
    using default_multicast by (simp_all add: number_of_participants_def)
  have "\<forall>i < 13. i \<noteq> 11 \<longrightarrow> fst (config_checks ?d ! i)"
    unfolding config_checks_def list.map by (simp add: All_less_Suc numeral_eq_Suc) code_simp
  then have "list_all fst (config_checks ?d)"
    using multi by (simp add: list_all_length config_checks_def All_less_Suc numeral_eq_Suc)
      (simp add: number_of_participants_def)
  then have "filter (\<lambda>(ok, _). \<not> ok) (config_checks ?d) = []"
    by (auto simp: filter_empty_conv list_all_iff)
  then show ?thesis by (simp add: read_role_config_def)
qed

lemma number_of_participants_escapes:
  "load_role_service bare_machine (Inr (PDict number_of_participants)) (Some ''server'') =
    Inl (TypeError ''not iterable'')"
proof -
  have "single_option_value (the (str_list (dget number_of_participants ''link_args''))) ''--tun-name'' = Inr ''fl0''"
    "known_participants number_of_participants (the (str_list (dget number_of_participants ''link_args''))) =
      Inl (TypeError ''not iterable'')"
    "as_str (dget number_of_participants ''role'') = Some ''server''" by code_simp+
  then show ?thesis
    unfolding load_role_service_def number_is_accepted bind_res_simps Let_def
    by (simp add: find_tool_def bare_machine_def)
qed

section \<open>All parts are closed\<close>

text \<open>Started or not, a service that is closed has closed all its parts once, in the order transport,
  route, link, runtime; a start that fails has done so already, and raises.\<close>

theorem service_closed_once:
  assumes "service_start routed env service_init = (x, s)" and "service_close routed env' s = (y, s')"
  shows "rs_log s' = close_order routed \<and> rs_closed s' \<and> \<not> rs_ready s' \<and> (rs_ready s \<longleftrightarrow> x = None) \<and>
    (x = None \<longleftrightarrow> start_error routed env = None) \<and> (x \<noteq> None \<longrightarrow> s' = s \<and> y = None) \<and>
    service_close routed env'' s' = (None, s') \<and> fst (service_start routed env'' s') \<noteq> None"
proof (cases "start_error routed env")
  case None
  with assms show ?thesis
    by (auto simp: service_start_def service_init_def service_close_def Let_def)
next
  case (Some e)
  with assms show ?thesis
    by (cases "last_error (map (ze_close env) (close_order routed))")
      (auto dest: sym simp: service_start_def service_init_def service_close_def Let_def)
qed

end
