(* ===== verification/Spec2Isabelle.thy ===== *)
theory Spec2Isabelle
  imports Switch_Safety Client_Safety Server_Runtime Coordinator Radio_Survey Client_Rounds Uplink
    Server_Transport Daemon_Recovery Role_Service
begin

text \<open>
  This library models the federated-learning control plane of the repository, the Python package
  \<^verbatim>\<open>wfb_ng/fl\<close>, and proves what its parts promise. A server and a few vehicles share a WiFi broadcast
  link. The server trains a model with them in rounds; an out-of-band channel carries heartbeats and
  the two-phase switch of the radio parameters that all of them have to agree on.

  \<^bold>\<open>Parts and theories\<close>

  \<^item> \<^verbatim>\<open>FL_Prelude\<close>: what the models share. Python values that arrive from JSON (\<open>pyval\<close>, with Python's
    equality between numbers), dictionaries as association lists in insertion order, exceptions as the
    datatype \<open>exn\<close> (\<^verbatim>\<open>errors.py\<close>) and results as \<open>exn + 'a\<close>; the locale \<open>wire_codec\<close> of encoders and
    decoders.
  \<^item> \<^verbatim>\<open>Radio_Params\<close> and \<^verbatim>\<open>Radio_Survey\<close>: \<^verbatim>\<open>radio.py\<close>. The legal configurations, patches and rate table,
    the commands \<^verbatim>\<open>rates\<close> and \<^verbatim>\<open>validate\<close>; the classifier of captured frames and the spectrum survey.
  \<^item> \<^verbatim>\<open>Control_Messages\<close>, \<^verbatim>\<open>Lease_Watchdog\<close>, \<^verbatim>\<open>Node_Horizon\<close>: the first part of \<^verbatim>\<open>control.py\<close>. The
    datagrams with their decoders, the hunting ladder, the lease watchdog, and the registry of nodes
    with its two-army gate.
  \<^item> \<^verbatim>\<open>Control_Server\<close>, \<^verbatim>\<open>Radio_Reconf\<close>, \<^verbatim>\<open>Reconf_Runs\<close>: \<^verbatim>\<open>ControlPlaneServer\<close>. The state, the handling of a
    datagram, and \<^verbatim>\<open>reconfigure_radio\<close> as a machine with a program counter: the code releases its lock at
    its waiting points, and datagrams are handled there, so one turn runs from one waiting point to
    the next. \<^verbatim>\<open>Reconf_Runs\<close> has its runs, by rule induction.
  \<^item> \<^verbatim>\<open>Control_Client\<close>, \<^verbatim>\<open>Client_Switch\<close>, \<^verbatim>\<open>Client_Runs\<close>, \<^verbatim>\<open>Client_Time\<close>, \<^verbatim>\<open>Client_Safety\<close>:
    \<^verbatim>\<open>ControlPlaneClient\<close>. Radio operations, hunting, heartbeats and alignment; the handlers of the radio
    switch, the delayed switch thread, rollback and expiry; runs of a client as lists of events, their
    invariant, their time stamps, and the properties of one client.
  \<^item> \<^verbatim>\<open>Radio_Switch\<close>, \<^verbatim>\<open>Switch_Safety\<close>: one server and any number of clients over a network that loses,
    repeats and reorders datagrams, as the step relation \<open>sw_step\<close>; the atomicity and agreement of a
    switch.
  \<^item> \<^verbatim>\<open>Artifacts\<close>, \<^verbatim>\<open>Round_State\<close>, \<^verbatim>\<open>Server_Runtime\<close>: \<^verbatim>\<open>artifacts.py\<close> and the server's half of \<^verbatim>\<open>runtime.py\<close>.
    Copying and checking files, JSON manifests; the recovery of the round states a crash left behind;
    the server's runtime of one round, its persistence and its failures.
  \<^item> \<^verbatim>\<open>Job_Config\<close>, \<^verbatim>\<open>Coordinator\<close>: \<^verbatim>\<open>coordinator.py\<close>. Parsing a job request; the rounds of a job in its
    three modes, with an abort from another thread.

  \<^item> \<^verbatim>\<open>Client_Runtime\<close>, \<^verbatim>\<open>Client_Rounds\<close>: the client's half of \<^verbatim>\<open>runtime.py\<close>. Waiting for a model with its
    checks, archive and quarantine, submitting the update, the persisted state; runs over restarts.
  \<^item> \<^verbatim>\<open>Wire_Text\<close>, \<^verbatim>\<open>Upload_Server\<close>, \<^verbatim>\<open>Upload_Safety\<close>, \<^verbatim>\<open>Client_Transport\<close>, \<^verbatim>\<open>Uplink\<close>,
    \<^verbatim>\<open>Server_Transport\<close>: \<^verbatim>\<open>transport.py\<close>. The texts on the wire; the update listener as interleaved
    handler threads and what it guarantees; the client's transport and its HTTP exchange; both ends
    together, and with the server's runtime; the downlink operations as the step relation \<open>dl_step\<close>.
  \<^item> \<^verbatim>\<open>Daemon_Config\<close>, \<^verbatim>\<open>Server_Daemon\<close>, \<^verbatim>\<open>Server_Requests\<close>: \<^verbatim>\<open>server_daemon.py\<close>. The configuration and the event
    bus; the daemon's state, its start, the link process and the end of a job; the requests of an
    operator. \<^verbatim>\<open>Daemon_Safety\<close> interleaves all of them as the step relation \<open>d_step\<close> over the daemon and its
    threads, \<^verbatim>\<open>Daemon_Engine\<close> shows that every run refines an abstract engine which does one thing at a
    time, \<^verbatim>\<open>Daemon_Jobs\<close> has what starting a job means, \<^verbatim>\<open>Daemon_Recovery\<close> how a job's end turns out.
  \<^item> \<^verbatim>\<open>Client_Identity\<close>, \<^verbatim>\<open>Job_Sandbox\<close>, \<^verbatim>\<open>Client_Daemon\<close>: \<^verbatim>\<open>client_daemon.py\<close>. The node's identity,
    configurations and commands; the sandbox that runs one job as a child process; the daemon with its
    handlers and its supervisory loop. \<^verbatim>\<open>Client_Daemon_Safety\<close> interleaves them with the ends of processes
    as the step relation \<open>k_step\<close>, \<^verbatim>\<open>Client_Jobs\<close> has the properties of a client's jobs.
  \<^item> \<^verbatim>\<open>Role_Service\<close>: \<^verbatim>\<open>service.py\<close>, the process the sandbox starts for a job. The checks of its configuration,
    how it loads, and the life of \<open>RoleService\<close>; a configuration the sandbox writes is one it loads.

  \<^bold>\<open>How state and operations correspond to the code\<close>

  A class is a record whose fields carry the attributes under a two-letter prefix (\<open>cc_\<close> for the control
  client, \<open>sv_\<close> for its server, \<open>sr_\<close> for the server runtime, \<open>co_\<close> for the coordinator, \<open>sd_\<close> for the server daemon,
  \<open>cd_\<close> and \<open>sb_\<close> for the client daemon and its sandbox); a method is a
  function that returns the new record, and what it sends or returns beside it. A raised exception is
  \<open>Inl e\<close> or \<open>Some e\<close>, and the state it leaves behind is the state at the raise. Clocks, sockets, the
  radio driver, the file system's answers, the transport and the aggregation function are arguments:
  records such as \<open>client_env\<close>, \<open>turn_env\<close>, \<open>publish_plan\<close> or \<open>round_world\<close> say what each call returns,
  failures included. Times are rational or real numbers, as floating-point rounding plays no part in
  the properties. A digest is an arbitrary function on byte strings, so nothing rests on its strength.

  \<^bold>\<open>Lemma groups\<close>

  Each theory proves its invariant first (\<open>rc_wf\<close>, \<open>hb_wf\<close>, \<open>wd_inv\<close>, \<open>gate_inv\<close>, \<open>txn_inv\<close>, \<open>cc_inv\<close>, \<open>sw_inv\<close>,
  \<open>rt_inv\<close>, \<open>stop_inv\<close>, \<open>client_inv\<close>, \<open>upload_inv\<close>, \<open>dl_inv\<close>, \<open>ds_inv\<close>, \<open>k_inv\<close>) and that every operation keeps it, then the behaviour of its operations on every
  branch, then its properties. Interfaces are locales with interpretations on the code's definitions:
  \<open>wire_codec\<close> for every message and configuration, \<open>ack_barrier\<close> for the five sets of acknowledgements
  the server collects, \<open>lease\<close> for the watchdog, \<open>op_contract\<close> for
  what every operation of the client daemon keeps.

  \<^bold>\<open>Bounds and fuel\<close>

  No function needs fuel that could run out unnoticed. Loops bounded by a deadline take the list of
  the turns made before it, one entry per turn, and the last entry is the one after the deadline;
  \<open>call_terminates\<close> and \<open>waiting_ends\<close> state that such a list has an answer. A handler of the listener is run for five turns, which
  \<open>turns_end\<close> shows to be enough; an uninterrupted end of a job takes twelve turns at most, each moving
  to a later point (\<open>fin_sync_over\<close>). Value equality, the copying and the receiving loop recurse on a measure. Radio captures are words of eight bits; Python's integers are \<open>int\<close>.

  \<^bold>\<open>Not modelled\<close>

  Sockets, threads and locks as such: a thread is the sequence of its locked steps, and interleavings
  are sequences of them. Log and error texts beyond a short tag. \<^verbatim>\<open>fsync\<close> and the process lock of the work
  directory. The observation log of the transport's server. Of the package: the server daemon's HTTP handler
  and status report, the role service's link process, routes and algorithm thread, the model library, the consoles and the reference algorithm. Outside the package: the upstream wfb-ng services
  and the generated MAVLink bindings.
\<close>

end
